(* ===== verification/Prelude.thy ===== *)
theory Prelude
  imports Main "HOL-Library.Sublist" "HOL-Library.Word"
begin

section \<open>Shared types, hint collections and generic lemmas\<close>

text \<open>
  The prelude of the development.  It names the types that stand for the C types of the
  program (\<open>char *\<close> with or without NULL, \<open>int\<close> and \<open>ssize_t\<close> results), the named
  collections the component theories fill, and the lemmas on lists, options and integers
  that several components use.

  A C string is the list of its bytes before the terminating NUL.  A pointer that may be
  NULL is an option.  Byte lists that stand for memory (a buffer, with its NULs) are also
  of type \<open>string\<close>; \<open>cstr\<close> reads the C string that starts at the first byte of a buffer.
\<close>

named_theorems cstring_simps \<open>evaluation of the C string operations on NULL and on strings\<close>
named_theorems list_rep \<open>effect of the linked list operations on the represented sequence\<close>
named_theorems url_bounds \<open>bounds of the indices the URI parser computes\<close>
named_theorems http_simps \<open>evaluation rules of the HTTP objects\<close>

type_synonym cstring = string
type_synonym charptr = "string option"
type_synonym buffer = "char list"

abbreviation NUL :: char where
  "NUL \<equiv> CHR 0x00"

definition nul_free :: "string \<Rightarrow> bool" where
  "nul_free s \<longleftrightarrow> NUL \<notin> set s"

definition cstr :: "buffer \<Rightarrow> cstring" where
  "cstr b = takeWhile (\<lambda>c. c \<noteq> NUL) b"

lemma nul_free_Nil [simp]: "nul_free []"
  by (simp add: nul_free_def)

lemma nul_free_Cons [simp]: "nul_free (c # s) \<longleftrightarrow> c \<noteq> NUL \<and> nul_free s"
  by (auto simp: nul_free_def)

lemma nul_free_append [simp]: "nul_free (s @ t) \<longleftrightarrow> nul_free s \<and> nul_free t"
  by (auto simp: nul_free_def)

lemma nul_free_take [simp, intro]: "nul_free s \<Longrightarrow> nul_free (take n s)"
  by (auto simp: nul_free_def dest: in_set_takeD)

lemma nul_free_drop [simp, intro]: "nul_free s \<Longrightarrow> nul_free (drop n s)"
  by (auto simp: nul_free_def dest: in_set_dropD)

lemma nul_free_cstr [simp]: "nul_free (cstr b)"
  by (auto simp: nul_free_def cstr_def dest: set_takeWhileD)

lemma cstr_nul_free: "nul_free s \<Longrightarrow> cstr s = s"
  by (auto simp: cstr_def nul_free_def)

lemma cstr_append_NUL [simp]: "nul_free s \<Longrightarrow> cstr (s @ NUL # t) = s"
  by (auto simp: cstr_def nul_free_def takeWhile_tail)

lemma cstr_Nil [simp]: "cstr [] = []"
  by (simp add: cstr_def)

lemma cstr_Cons: "cstr (c # b) = (if c = NUL then [] else c # cstr b)"
  by (simp add: cstr_def)

lemma length_cstr_le: "length (cstr b) \<le> length b"
  by (simp add: cstr_def length_takeWhile_le)

subsection \<open>Lists\<close>

lemma takeWhile_nth_take: "n \<le> length xs \<Longrightarrow> \<forall>i<n. P (xs ! i) \<Longrightarrow> n < length xs \<longrightarrow> \<not> P (xs ! n)
    \<Longrightarrow> takeWhile P xs = take n xs"
  by (metis le_neq_implies_less takeWhile_eq_take_P_nth)

lemma list_update_append_NUL:
  "i < length s \<Longrightarrow> (s @ t)[i := c] = s[i := c] @ t"
  by (simp add: list_update_append1)

lemma set_take_subset_set: "set (take n xs) \<subseteq> set xs"
  by (rule set_take_subset)

lemma dropWhile_eq_drop_length:
  "dropWhile P xs = drop (length (takeWhile P xs)) xs"
  by (induction xs) auto

lemma prefix_drop_length: "prefix n (drop i h) \<Longrightarrow> n \<noteq> [] \<Longrightarrow> i + length n \<le> length h"
  by (cases "i \<le> length h") (auto dest: prefix_length_le)

text \<open>The loop that stops at the first object with a property, with the position it stops at.\<close>

fun index_where :: "('a \<Rightarrow> bool) \<Rightarrow> 'a list \<Rightarrow> nat option" where
  "index_where P [] = None"
| "index_where P (x # xs) = (if P x then Some 0 else map_option Suc (index_where P xs))"

lemma index_where_None: "index_where P xs = None \<longleftrightarrow> (\<forall>x \<in> set xs. \<not> P x)"
  by (induction xs) auto

lemma index_where_Some:
  "index_where P xs = Some i \<Longrightarrow> i < length xs \<and> P (xs ! i) \<and> (\<forall>j < i. \<not> P (xs ! j))"
proof (induction xs arbitrary: i)
  case (Cons x xs)
  then show ?case by (auto split: if_splits simp: less_Suc_eq_0_disj)
qed simp

lemma index_where_append:
  "index_where P (xs @ ys) =
     (case index_where P xs of Some i \<Rightarrow> Some i | None \<Rightarrow> map_option (\<lambda>i. length xs + i) (index_where P ys))"
  by (induction xs; cases "index_where P ys") (auto split: option.splits)

lemma index_where_cong: "(\<And>x. x \<in> set xs \<Longrightarrow> P x = Q x) \<Longrightarrow> index_where P xs = index_where Q xs"
  by (induction xs) auto

subsection \<open>Options\<close>

definition opt_or :: "'a option \<Rightarrow> 'a option \<Rightarrow> 'a option" where
  "opt_or a b = (case a of None \<Rightarrow> b | Some _ \<Rightarrow> a)"

lemma opt_or_simps [simp]: "opt_or None b = b" "opt_or (Some x) b = Some x"
  by (simp_all add: opt_or_def)

end
