(* ===== verification/CLib.thy ===== *)
theory CLib
  imports Prelude
begin

section \<open>The part of the C library the program calls\<close>

text \<open>
  \<open>strcmp\<close>, \<open>strstr\<close>, \<open>isspace\<close>, \<open>strtol\<close>, \<open>snprintf("%d")\<close> and their kin, on the byte
  lists of the prelude, as the C standard describes them in the "C" locale on an LP64
  target.  These definitions stand for the language's library and have no entry in the map.
\<close>

subsection \<open>Characters\<close>

abbreviation byte_of :: "char \<Rightarrow> nat" where
  "byte_of c \<equiv> of_char c"

definition c_isspace :: "char \<Rightarrow> bool" where
  "c_isspace c \<longleftrightarrow> byte_of c = 32 \<or> 9 \<le> byte_of c \<and> byte_of c \<le> 13"

definition c_isdigit :: "char \<Rightarrow> bool" where
  "c_isdigit c \<longleftrightarrow> 48 \<le> byte_of c \<and> byte_of c \<le> 57"

definition c_isxdigit :: "char \<Rightarrow> bool" where
  "c_isxdigit c \<longleftrightarrow> c_isdigit c \<or> 65 \<le> byte_of c \<and> byte_of c \<le> 70
     \<or> 97 \<le> byte_of c \<and> byte_of c \<le> 102"

definition c_tolower :: "char \<Rightarrow> char" where
  "c_tolower c = (if 65 \<le> byte_of c \<and> byte_of c \<le> 90 then char_of (byte_of c + 32) else c)"

text \<open>The value of a digit, in any base up to sixteen, and the digit of a value.\<close>

definition char_digit :: "char \<Rightarrow> nat" where
  "char_digit c = (if byte_of c \<le> 57 then byte_of c - 48
     else if byte_of c \<le> 70 then byte_of c - 55 else byte_of c - 87)"

definition digit_char :: "nat \<Rightarrow> char" where
  "digit_char d = (if d < 10 then char_of (48 + d) else char_of (87 + d))"

lemma of_char_small: "n < 256 \<Longrightarrow> of_char (char_of n) = (n :: nat)"
  by simp

lemma byte_of_less: "byte_of c < 256"
proof -
  have "of_char c = (of_char c mod 256 :: nat)"
    by (metis of_char_mod_256)
  then show ?thesis
    by (metis mod_less_divisor zero_less_numeral)
qed

lemma char_digit_digit_char: "d < 16 \<Longrightarrow> char_digit (digit_char d) = d"
  by (auto simp: char_digit_def digit_char_def)

lemma c_isdigit_digit_char: "d < 10 \<Longrightarrow> c_isdigit (digit_char d)"
  by (simp add: c_isdigit_def digit_char_def)

lemma c_isxdigit_digit_char: "d < 16 \<Longrightarrow> c_isxdigit (digit_char d)"
  by (auto simp: c_isxdigit_def c_isdigit_def digit_char_def)

lemma c_isdigit_not_space: "c_isdigit c \<Longrightarrow> \<not> c_isspace c"
  by (auto simp: c_isdigit_def c_isspace_def)

lemma c_isdigit_not_NUL: "c_isdigit c \<Longrightarrow> c \<noteq> NUL"
  by (auto simp: c_isdigit_def)

lemma c_isdigit_not_sign: "c_isdigit c \<Longrightarrow> c \<noteq> CHR ''-'' \<and> c \<noteq> CHR ''+''"
  by (auto simp: c_isdigit_def)

lemma c_isspace_not_NUL: "c_isspace c \<Longrightarrow> c \<noteq> NUL"
  by (auto simp: c_isspace_def)

subsection \<open>Comparison and search\<close>

text \<open>
  The standard fixes the sign of the results only; the model returns the difference of the
  first two bytes that differ, read as \<open>unsigned char\<close>.
\<close>

fun c_strcmp :: "cstring \<Rightarrow> cstring \<Rightarrow> int" where
  "c_strcmp [] [] = 0"
| "c_strcmp [] (d # _) = - int (byte_of d)"
| "c_strcmp (c # _) [] = int (byte_of c)"
| "c_strcmp (c # cs) (d # ds) =
     (if c = d then c_strcmp cs ds else int (byte_of c) - int (byte_of d))"

definition c_strncmp :: "cstring \<Rightarrow> cstring \<Rightarrow> nat \<Rightarrow> int" where
  "c_strncmp a b n = c_strcmp (take n a) (take n b)"

definition c_strcasecmp :: "cstring \<Rightarrow> cstring \<Rightarrow> int" where
  "c_strcasecmp a b = c_strcmp (map c_tolower a) (map c_tolower b)"

fun c_strstr :: "cstring \<Rightarrow> cstring \<Rightarrow> nat option" where
  "c_strstr [] n = (if n = [] then Some 0 else None)"
| "c_strstr (c # h) n =
     (if prefix n (c # h) then Some 0 else map_option Suc (c_strstr h n))"

lemma byte_of_inject: "byte_of c = byte_of d \<longleftrightarrow> c = d"
  by (rule of_char_eq_iff)

lemma byte_of_NUL: "byte_of c = 0 \<longleftrightarrow> c = NUL"
proof -
  have "byte_of NUL = 0" by simp
  then show ?thesis by (metis byte_of_inject)
qed

lemma c_strcmp_eq_0:
  "nul_free a \<Longrightarrow> nul_free b \<Longrightarrow> c_strcmp a b = 0 \<longleftrightarrow> a = b"
  by (induction a b rule: c_strcmp.induct) (auto simp: byte_of_NUL byte_of_inject)

lemma c_strcmp_refl [simp]: "c_strcmp a a = 0"
  by (induction a) auto

lemma c_strcmp_antisym: "c_strcmp a b = - c_strcmp b a"
  by (induction a b rule: c_strcmp.induct) auto

lemma c_tolower_NUL: "c_tolower c = NUL \<longleftrightarrow> c = NUL"
proof -
  have "byte_of (c_tolower c) = 0 \<longleftrightarrow> byte_of c = 0"
    by (auto simp: c_tolower_def)
  then show ?thesis by (simp only: byte_of_NUL)
qed

lemma nul_free_map_tolower: "nul_free (map c_tolower a) \<longleftrightarrow> nul_free a"
  by (induction a) (auto simp: c_tolower_NUL)

lemma c_strcasecmp_eq_0:
  "nul_free a \<Longrightarrow> nul_free b \<Longrightarrow> c_strcasecmp a b = 0 \<longleftrightarrow> map c_tolower a = map c_tolower b"
  by (simp add: c_strcasecmp_def c_strcmp_eq_0 nul_free_map_tolower)

lemma c_strcasecmp_refl [simp]: "c_strcasecmp a a = 0"
  by (simp add: c_strcasecmp_def)

text \<open>\<open>strstr\<close> returns the least index at which the needle stands.\<close>

lemma c_strstr_prefix: "c_strstr h n = Some i \<Longrightarrow> prefix n (drop i h)"
  by (induction h n arbitrary: i rule: c_strstr.induct) (auto split: if_splits)

lemma c_strstr_le: "c_strstr h n = Some i \<Longrightarrow> i \<le> length h"
  by (induction h n arbitrary: i rule: c_strstr.induct) (auto split: if_splits)

lemma c_strstr_least: "c_strstr h n = Some i \<Longrightarrow> j < i \<Longrightarrow> \<not> prefix n (drop j h)"
proof (induction h n arbitrary: i j rule: c_strstr.induct)
  case (1 n)
  then show ?case by (simp split: if_splits)
next
  case (2 c h n)
  then show ?case by (cases j) (auto split: if_splits)
qed

lemma c_strstr_None: "c_strstr h n = None \<longleftrightarrow> (\<forall>i\<le>length h. \<not> prefix n (drop i h))"
proof (induction h n rule: c_strstr.induct)
  case (1 n)
  then show ?case by auto
next
  case (2 c h n)
  show ?case
  proof (cases "prefix n (c # h)")
    case True
    then show ?thesis by (auto intro!: exI [of _ 0])
  next
    case False
    have "\<not> prefix n (drop i (c # h)) \<longleftrightarrow> i = 0 \<or> \<not> prefix n (drop (i - 1) h)" for i
      using False by (cases i) auto
    then have "(\<forall>i\<le>length (c # h). \<not> prefix n (drop i (c # h))) \<longleftrightarrow>
      (\<forall>i\<le>length h. \<not> prefix n (drop i h))"
      by (metis Suc_le_mono Suc_pred' diff_Suc_1 length_Cons neq0_conv Zero_not_Suc)
    with False 2 show ?thesis by simp
  qed
qed

lemma c_strstr_bound: "c_strstr h n = Some i \<Longrightarrow> i + length n \<le> length h"
  using c_strstr_prefix [of h n i] c_strstr_le [of h n i] prefix_drop_length [of n i h]
  by (cases "n = []") auto

lemma c_strstr_at: "c_strstr h n = Some i \<Longrightarrow> take (length n) (drop i h) = n"
  using c_strstr_prefix [of h n i] by (auto simp: prefix_def)

lemma c_strstr_split: "c_strstr h n = Some i \<Longrightarrow> h = take i h @ n @ drop (i + length n) h"
  using c_strstr_at [of h n i] c_strstr_le [of h n i]
  by (metis add.commute append_take_drop_id drop_drop)

lemma c_strstr_single:
  "c_strstr h [c] = (if c \<in> set h then Some (length (takeWhile (\<lambda>x. x \<noteq> c) h)) else None)"
  by (induction h) auto

end
