(* ===== verification/CNumber.thy ===== *)
theory CNumber
  imports CLib
begin

section \<open>Numbers in C strings: strtol, atoi, printf\<close>

text \<open>
  \<open>strtol\<close>, \<open>atoi\<close>, \<open>atol\<close> and the conversions \<open>%d\<close>, \<open>%ld\<close>, \<open>%x\<close> of \<open>snprintf\<close>.  \<open>int\<close> has
  32 bits and \<open>long\<close>, \<open>ssize_t\<close> and \<open>size_t\<close> have 64.  \<open>strtol\<close> saturates at the limits of
  \<open>long\<close>, as the standard says; \<open>atoi\<close> is \<open>(int) strtol(s, NULL, 10)\<close> and the conversion to
  \<open>int\<close> keeps the low 32 bits.
\<close>

subsection \<open>Digits in a base\<close>

fun nat_digits :: "nat \<Rightarrow> nat \<Rightarrow> nat list" where
  "nat_digits b n = (if b < 2 \<or> n < b then [n] else nat_digits b (n div b) @ [n mod b])"

declare nat_digits.simps [simp del]

definition digits_val :: "nat \<Rightarrow> nat list \<Rightarrow> nat" where
  "digits_val b ds = foldl (\<lambda>a d. b * a + d) 0 ds"

lemma digits_val_snoc: "digits_val b (ds @ [d]) = b * digits_val b ds + d"
  by (simp add: digits_val_def)

lemma digits_val_nat_digits: "digits_val b (nat_digits b n) = n"
proof (induction b n rule: nat_digits.induct)
  case (1 b n)
  show ?case
  proof (cases "b < 2 \<or> n < b")
    case True
    then show ?thesis by (subst nat_digits.simps) (simp add: digits_val_def)
  next
    case False
    with 1 have "digits_val b (nat_digits b (n div b)) = n div b" by simp
    with False show ?thesis
      by (subst nat_digits.simps) (simp add: digits_val_snoc)
  qed
qed

lemma nat_digits_less: "2 \<le> b \<Longrightarrow> d \<in> set (nat_digits b n) \<Longrightarrow> d < b"
proof (induction b n rule: nat_digits.induct)
  case (1 b n)
  show ?case
  proof (cases "n < b")
    case True
    with 1 show ?thesis by (subst (asm) nat_digits.simps) simp
  next
    case False
    with 1 show ?thesis
      by (subst (asm) nat_digits.simps) (auto split: if_splits)
  qed
qed

lemma nat_digits_nonempty [simp]: "nat_digits b n \<noteq> []"
  by (subst nat_digits.simps) simp

lemma length_nat_digits: "2 \<le> b \<Longrightarrow> n < b ^ k \<Longrightarrow> 0 < k \<Longrightarrow> length (nat_digits b n) \<le> k"
proof (induction k arbitrary: n)
  case 0
  then show ?case by simp
next
  case (Suc k)
  show ?case
  proof (cases "n < b")
    case True
    then show ?thesis by (subst nat_digits.simps) simp
  next
    case False
    have "k \<noteq> 0"
    proof
      assume "k = 0"
      with Suc.prems(2) False show False by simp
    qed
    moreover have "n div b < b ^ k"
      using Suc.prems by (simp add: less_mult_imp_div_less mult.commute)
    ultimately have "length (nat_digits b (n div b)) \<le> k"
      using Suc.IH [of "n div b"] Suc.prems(1) by simp
    with False Suc.prems(1) show ?thesis
      by (subst nat_digits.simps) simp
  qed
qed

subsection \<open>Printing\<close>

definition show_nat :: "nat \<Rightarrow> nat \<Rightarrow> string" where
  "show_nat b n = map digit_char (nat_digits b n)"

definition show_int :: "int \<Rightarrow> string" where
  "show_int i = (if i < 0 then CHR ''-'' # show_nat 10 (nat (- i)) else show_nat 10 (nat i))"

text \<open>\<open>snprintf (buf, n, ...)\<close> keeps at most \<open>n - 1\<close> bytes and adds the NUL.\<close>

definition c_snprintf :: "nat \<Rightarrow> string \<Rightarrow> cstring" where
  "c_snprintf n s = take (n - 1) s"

subsection \<open>Parsing\<close>

definition LONG_MAX :: int where "LONG_MAX = 2 ^ 63 - 1"
definition LONG_MIN :: int where "LONG_MIN = - (2 ^ 63)"
definition INT_MAX :: int where "INT_MAX = 2 ^ 31 - 1"
definition INT_MIN :: int where "INT_MIN = - (2 ^ 31)"

definition to_int32 :: "int \<Rightarrow> int" where
  "to_int32 i = (i + 2 ^ 31) mod 2 ^ 32 - 2 ^ 31"

definition to_int64 :: "int \<Rightarrow> int" where
  "to_int64 i = (i + 2 ^ 63) mod 2 ^ 64 - 2 ^ 63"

lemma to_int64_id: "- (2 ^ 63) \<le> i \<Longrightarrow> i < 2 ^ 63 \<Longrightarrow> to_int64 i = i"
  by (simp add: to_int64_def)

definition dec_value :: "string \<Rightarrow> nat" where
  "dec_value s = digits_val 10 (map char_digit s)"

definition strtol_sign :: "cstring \<Rightarrow> bool \<times> cstring" where
  "strtol_sign s = (case s of [] \<Rightarrow> (False, [])
     | c # r \<Rightarrow> if c = CHR ''-'' then (True, r) else if c = CHR ''+'' then (False, r) else (False, c # r))"

definition c_strtol10 :: "cstring \<Rightarrow> int" where
  "c_strtol10 s =
     (let (neg, r) = strtol_sign (dropWhile c_isspace s);
          v = int (dec_value (takeWhile c_isdigit r));
          w = (if neg then - v else v)
      in if w < LONG_MIN then LONG_MIN else if LONG_MAX < w then LONG_MAX else w)"

definition c_atol :: "cstring \<Rightarrow> int" where
  "c_atol s = c_strtol10 s"

definition c_atoi :: "cstring \<Rightarrow> int" where
  "c_atoi s = to_int32 (c_strtol10 s)"

text \<open>Printing then parsing returns the number; garbage after the digits is ignored.\<close>

lemma show_nat_nonempty [simp]: "show_nat b n \<noteq> []"
  by (simp add: show_nat_def)

lemma show_nat_isdigit: "c \<in> set (show_nat 10 n) \<Longrightarrow> c_isdigit c"
  by (auto simp: show_nat_def intro!: c_isdigit_digit_char dest: nat_digits_less [rotated])

lemma nul_free_show_nat: "nul_free (show_nat 10 n)"
  using show_nat_isdigit c_isdigit_not_NUL by (fastforce simp: nul_free_def)

lemma show_int_chars: "c \<in> set (show_int i) \<Longrightarrow> c = CHR ''-'' \<or> c_isdigit c"
  by (auto simp: show_int_def show_nat_isdigit split: if_splits)

lemma nul_free_show_int [simp]: "nul_free (show_int i)"
  by (simp add: show_int_def nul_free_show_nat)

lemma dec_value_show_nat: "dec_value (show_nat 10 n) = n"
proof -
  have "map (char_digit \<circ> digit_char) (nat_digits 10 n) = nat_digits 10 n"
    by (rule map_idI) (auto intro!: char_digit_digit_char dest!: nat_digits_less [rotated])
  then show ?thesis
    by (simp add: dec_value_def show_nat_def digits_val_nat_digits)
qed

lemma takeWhile_show_nat:
  "(case r of [] \<Rightarrow> True | c # _ \<Rightarrow> \<not> c_isdigit c) \<Longrightarrow>
   takeWhile c_isdigit (show_nat 10 n @ r) = show_nat 10 n"
  by (cases r) (auto simp: takeWhile_append2 show_nat_isdigit)

lemma dropWhile_space_show:
  "dropWhile c_isspace (show_nat 10 n @ r) = show_nat 10 n @ r"
proof -
  obtain c cs where c: "show_nat 10 n = c # cs" by (meson list.exhaust show_nat_nonempty)
  then have "c_isdigit c" using show_nat_isdigit [of c n] by simp
  with c show ?thesis by (simp add: c_isdigit_not_space)
qed

lemma strtol_sign_show: "strtol_sign (show_nat 10 n @ r) = (False, show_nat 10 n @ r)"
proof -
  obtain c cs where c: "show_nat 10 n = c # cs" by (meson list.exhaust show_nat_nonempty)
  then have "c_isdigit c" using show_nat_isdigit [of c n] by simp
  with c show ?thesis by (simp add: strtol_sign_def c_isdigit_not_sign)
qed

definition long_range :: "int \<Rightarrow> bool" where
  "long_range i \<longleftrightarrow> LONG_MIN \<le> i \<and> i \<le> LONG_MAX"

definition int_range :: "int \<Rightarrow> bool" where
  "int_range i \<longleftrightarrow> INT_MIN \<le> i \<and> i \<le> INT_MAX"

lemma c_strtol10_show_int:
  assumes "long_range i" and "case r of [] \<Rightarrow> True | c # _ \<Rightarrow> \<not> c_isdigit c"
  shows "c_strtol10 (show_int i @ r) = i"
proof (cases "i < 0")
  case True
  have "dropWhile c_isspace (CHR ''-'' # show_nat 10 (nat (- i)) @ r) = CHR ''-'' # show_nat 10 (nat (- i)) @ r"
    by (simp add: c_isspace_def)
  with True assms show ?thesis
    by (simp add: show_int_def c_strtol10_def strtol_sign_def takeWhile_show_nat
        dec_value_show_nat long_range_def)
next
  case False
  with assms show ?thesis
    by (simp add: show_int_def c_strtol10_def dropWhile_space_show strtol_sign_show
        takeWhile_show_nat dec_value_show_nat long_range_def)
qed

lemma to_int32_id: "int_range i \<Longrightarrow> to_int32 i = i"
  by (simp add: int_range_def to_int32_def INT_MIN_def INT_MAX_def)

lemma to_int32_range: "int_range (to_int32 i)"
  using pos_mod_bound [of "2 ^ 32" "i + 2 ^ 31"] pos_mod_sign [of "2 ^ 32" "i + 2 ^ 31"]
  by (simp add: int_range_def to_int32_def INT_MIN_def INT_MAX_def)

lemma int_range_long: "int_range i \<Longrightarrow> long_range i"
  by (simp add: int_range_def long_range_def INT_MIN_def INT_MAX_def LONG_MIN_def LONG_MAX_def)

lemma c_strtol10_range: "long_range (c_strtol10 s)"
  by (simp add: c_strtol10_def long_range_def Let_def LONG_MIN_def LONG_MAX_def split: prod.splits)

lemma c_atoi_show_int:
  "int_range i \<Longrightarrow> case r of [] \<Rightarrow> True | c # _ \<Rightarrow> \<not> c_isdigit c \<Longrightarrow> c_atoi (show_int i @ r) = i"
  by (simp add: c_atoi_def c_strtol10_show_int int_range_long to_int32_id)

text \<open>The decimal text of a 32-bit number has at most 11 bytes, that of a 64-bit one at most 20.\<close>

lemma length_show_int:
  assumes "\<bar>i\<bar> < 10 ^ k" and "0 < k"
  shows "length (show_int i) \<le> k + 1"
proof -
  have "nat \<bar>i\<bar> < 10 ^ k"
    using assms(1) by (metis abs_ge_zero nat_less_iff of_nat_numeral of_nat_power)
  then have "length (nat_digits 10 (nat \<bar>i\<bar>)) \<le> k"
    using assms(2) by (intro length_nat_digits) auto
  then show ?thesis
    by (auto simp: show_int_def show_nat_def abs_if split: if_splits)
qed

lemma length_show_int32: "int_range i \<Longrightarrow> length (show_int i) \<le> 11"
  using length_show_int [of i 10] by (simp add: int_range_def INT_MIN_def INT_MAX_def abs_if)

lemma length_show_int64: "long_range i \<Longrightarrow> length (show_int i) \<le> 20"
  using length_show_int [of i 19] by (simp add: long_range_def LONG_MIN_def LONG_MAX_def abs_if)

subsection \<open>Unsigned 64-bit numbers\<close>

text \<open>
  \<open>strtoull\<close> on a text that starts with a digit of the base: the value, the text at \<open>end\<close>
  and whether \<open>errno\<close> is set.  In base 16 a prefix \<open>0x\<close> is skipped when a digit follows it.
\<close>

definition ULLONG_MAX :: nat where "ULLONG_MAX = 2 ^ 64 - 1"

definition strtoull_digits :: "nat \<Rightarrow> (char \<Rightarrow> bool) \<Rightarrow> cstring \<Rightarrow> nat \<times> cstring \<times> bool" where
  "strtoull_digits b isd s =
     (let v = digits_val b (map char_digit (takeWhile isd s))
      in (min v ULLONG_MAX, dropWhile isd s, ULLONG_MAX < v))"

definition c_strtoull10 :: "cstring \<Rightarrow> nat \<times> cstring \<times> bool" where
  "c_strtoull10 s = strtoull_digits 10 c_isdigit s"

definition c_strtoull16 :: "cstring \<Rightarrow> nat \<times> cstring \<times> bool" where
  "c_strtoull16 s =
     strtoull_digits 16 c_isxdigit
       (if take 2 s \<in> {''0x'', ''0X''} \<and> c_isxdigit (hd (drop 2 s @ [NUL])) then drop 2 s else s)"

lemma show_nat_isxdigit: "c \<in> set (show_nat 16 n) \<Longrightarrow> c_isxdigit c"
  by (auto simp: show_nat_def intro!: c_isxdigit_digit_char dest: nat_digits_less [rotated])

lemma digits_val_show_nat: "2 \<le> b \<Longrightarrow> b \<le> 16 \<Longrightarrow> digits_val b (map char_digit (show_nat b n)) = n"
proof -
  assume b: "2 \<le> b" "b \<le> 16"
  have "map (char_digit \<circ> digit_char) (nat_digits b n) = nat_digits b n"
  proof (rule map_idI)
    fix d assume "d \<in> set (nat_digits b n)"
    with b have "d < 16" using nat_digits_less [of b d n] by simp
    then show "(char_digit \<circ> digit_char) d = d" by (simp add: char_digit_digit_char)
  qed
  then show ?thesis by (simp add: show_nat_def digits_val_nat_digits)
qed

lemma span_append:
  assumes "\<forall>x \<in> set a. P x" and "\<not> P c"
  shows "takeWhile P (a @ c # r) = a" and "dropWhile P (a @ c # r) = c # r"
  using assms by (induction a) auto

lemma span_all:
  assumes "\<forall>x \<in> set a. P x"
  shows "takeWhile P a = a" and "dropWhile P a = []"
  using assms by (induction a) auto

lemma strtoull10_show: "n \<le> ULLONG_MAX \<Longrightarrow> c_strtoull10 (show_nat 10 n) = (n, [], False)"
  using show_nat_isdigit [of _ n]
  by (simp add: c_strtoull10_def strtoull_digits_def span_all digits_val_show_nat Let_def)

lemma isxdigit_not_x: "\<not> c_isxdigit (CHR ''x'')" "\<not> c_isxdigit (CHR ''X'')"
  by (simp_all add: c_isxdigit_def c_isdigit_def)

lemma strtoull16_show:
  assumes "n \<le> ULLONG_MAX" and "\<not> c_isxdigit c" and "c \<noteq> CHR ''x''" and "c \<noteq> CHR ''X''"
  shows "c_strtoull16 (show_nat 16 n @ c # r) = (n, c # r, False)"
proof -
  have all: "\<forall>x \<in> set (show_nat 16 n). c_isxdigit x" using show_nat_isxdigit by blast
  then have "take 2 (show_nat 16 n @ c # r) \<notin> {''0x'', ''0X''}"
    using assms(2-4) isxdigit_not_x
    by (cases "show_nat 16 n" rule: remdups_adj.cases) (auto simp: numeral_2_eq_2)
  with all assms show ?thesis
    by (simp add: c_strtoull16_def strtoull_digits_def span_append digits_val_show_nat Let_def)
qed

lemma length_show_nat: "2 \<le> b \<Longrightarrow> n < b ^ k \<Longrightarrow> 0 < k \<Longrightarrow> length (show_nat b n) \<le> k"
  by (simp add: show_nat_def length_nat_digits)

lemma nul_free_show_nat16: "nul_free (show_nat 16 n)"
  using show_nat_isxdigit [of NUL n] by (auto simp: nul_free_def c_isxdigit_def c_isdigit_def)

end
