(* ===== verification/StringFunction.thy ===== *)
theory StringFunction
  imports CNumber
begin

section \<open>String functions (src/mupnp/util/string_function.c)\<close>

text \<open>
  The NULL-tolerant wrappers around the C string library and the search and trim loops.  A
  \<open>char *\<close> argument that may be NULL is a \<open>charptr\<close>; a function that writes through its
  argument takes the buffer and returns it, with \<open>None\<close> where the C code would write past
  its end.  Every index loop of the source is a recursion with the same index.  The lemmas
  give each loop its closed form (\<open>takeWhile\<close>, \<open>dropWhile\<close>, first and last occurrence).
\<close>

subsection \<open>Wrappers\<close>

definition mupnp_strdup :: "charptr \<Rightarrow> charptr" where
  "mupnp_strdup str = (case str of None \<Rightarrow> None | Some s \<Rightarrow> Some s)"

definition mupnp_strlen :: "charptr \<Rightarrow> nat" where
  "mupnp_strlen str = (case str of None \<Rightarrow> 0 | Some s \<Rightarrow> length s)"

definition mupnp_strcmp :: "charptr \<Rightarrow> charptr \<Rightarrow> int" where
  "mupnp_strcmp str1 str2 =
     (case str1 of None \<Rightarrow> - 1
      | Some a \<Rightarrow> (case str2 of None \<Rightarrow> 1 | Some b \<Rightarrow> c_strcmp a b))"

text \<open>A negative \<open>nchars\<close> becomes a \<open>size_t\<close> larger than any string.\<close>

definition mupnp_strncmp :: "charptr \<Rightarrow> charptr \<Rightarrow> int \<Rightarrow> int" where
  "mupnp_strncmp str1 str2 nchars =
     (case str1 of None \<Rightarrow> - 1
      | Some a \<Rightarrow> (case str2 of None \<Rightarrow> 1
         | Some b \<Rightarrow> if nchars < 0 then c_strcmp a b else c_strncmp a b (nat nchars)))"

definition mupnp_strcasecmp :: "charptr \<Rightarrow> charptr \<Rightarrow> int" where
  "mupnp_strcasecmp str1 str2 =
     (case (str1, str2) of (Some a, Some b) \<Rightarrow> c_strcasecmp a b | _ \<Rightarrow> - 1)"

definition mupnp_streq :: "charptr \<Rightarrow> charptr \<Rightarrow> bool" where
  "mupnp_streq str1 str2 =
     (if str1 = None \<or> str2 = None then False
      else if mupnp_strcmp str1 str2 = 0 then True else False)"

definition mupnp_strcaseeq :: "charptr \<Rightarrow> charptr \<Rightarrow> bool" where
  "mupnp_strcaseeq str1 str2 =
     (if str1 = None \<or> str2 = None then False
      else if mupnp_strcasecmp str1 str2 = 0 then True else False)"

definition mupnp_strstr :: "charptr \<Rightarrow> charptr \<Rightarrow> int" where
  "mupnp_strstr haystack needle =
     (case (haystack, needle) of
        (Some h, Some n) \<Rightarrow> (case c_strstr h n of None \<Rightarrow> - 1 | Some i \<Rightarrow> int i)
      | _ \<Rightarrow> - 1)"

subsection \<open>Search loops\<close>

text \<open>The inner loop over the first \<open>nchars\<close> bytes of \<open>chars\<close>.\<close>

fun char_in :: "char \<Rightarrow> string \<Rightarrow> nat \<Rightarrow> bool" where
  "char_in c chars 0 = False"
| "char_in c [] (Suc n) = False"
| "char_in c (d # chars) (Suc n) = (if c = d then True else char_in c chars n)"

lemma char_in_take: "char_in c chars n \<longleftrightarrow> c \<in> set (take n chars)"
  by (induction c chars n rule: char_in.induct) auto

function strchr_loop :: "cstring \<Rightarrow> string \<Rightarrow> nat \<Rightarrow> nat \<Rightarrow> int" where
  "strchr_loop str chars nchars i =
     (if i < length str
      then if char_in (str ! i) chars nchars then int i else strchr_loop str chars nchars (i + 1)
      else - 1)"
  by pat_completeness auto
termination
  by (relation "measure (\<lambda>(str, chars, nchars, i). length str - i)") auto

declare strchr_loop.simps [simp del]

definition mupnp_strchr :: "charptr \<Rightarrow> charptr \<Rightarrow> nat \<Rightarrow> int" where
  "mupnp_strchr str chars nchars =
     (case (str, chars) of
        (Some s, Some cs) \<Rightarrow> strchr_loop s cs nchars 0
      | _ \<Rightarrow> - 1)"

fun strrchr_loop :: "cstring \<Rightarrow> string \<Rightarrow> nat \<Rightarrow> nat \<Rightarrow> int" where
  "strrchr_loop str chars nchars 0 = - 1"
| "strrchr_loop str chars nchars (Suc i) =
     (if char_in (str ! i) chars nchars then int i else strrchr_loop str chars nchars i)"

definition mupnp_strrchr :: "charptr \<Rightarrow> charptr \<Rightarrow> nat \<Rightarrow> int" where
  "mupnp_strrchr str chars nchars =
     (case (str, chars) of
        (Some s, Some cs) \<Rightarrow> strrchr_loop s cs nchars (length s)
      | _ \<Rightarrow> - 1)"

subsection \<open>Trimming\<close>

text \<open>\<open>memmove (str, str + i, n)\<close> within one buffer.\<close>

definition memmove_down :: "buffer \<Rightarrow> nat \<Rightarrow> nat \<Rightarrow> buffer" where
  "memmove_down b i n = take n (drop i b) @ drop n b"

fun trimwhite_len :: "cstring \<Rightarrow> nat \<Rightarrow> nat \<Rightarrow> nat" where
  "trimwhite_len str 0 strLen = strLen"
| "trimwhite_len str (Suc i) strLen =
     trimwhite_len str i (if c_isspace (str ! i) then strLen - 1 else strLen)"

function trimwhite_skip :: "cstring \<Rightarrow> nat \<Rightarrow> nat \<Rightarrow> nat" where
  "trimwhite_skip str strLen i =
     (if i < strLen \<and> c_isspace (str ! i) then trimwhite_skip str strLen (i + 1) else i)"
  by pat_completeness auto
termination
  by (relation "measure (\<lambda>(str, strLen, i). strLen - i)") auto

declare trimwhite_skip.simps [simp del]

text \<open>The argument is a C string; its buffer is the string and the NUL behind it.\<close>

definition mupnp_strtrimwhite :: "charptr \<Rightarrow> charptr" where
  "mupnp_strtrimwhite str =
     (case str of None \<Rightarrow> None
      | Some s \<Rightarrow>
          if length s = 0 then Some s
          else
            let strLen = trimwhite_len s (length s) (length s);
                i = trimwhite_skip s strLen 0;
                buf = s @ [NUL];
                buf = (if i > 0 then memmove_down buf i (strLen - i) else buf)
            in Some (cstr (buf[strLen := NUL])))"

function strltrim_loop :: "cstring \<Rightarrow> string \<Rightarrow> nat \<Rightarrow> nat \<Rightarrow> cstring" where
  "strltrim_loop str delim ndelim i =
     (if i < length str
      then if \<not> char_in (str ! i) delim ndelim then drop i str
           else strltrim_loop str delim ndelim (i + 1)
      else drop (length str) str)"
  by pat_completeness auto
termination
  by (relation "measure (\<lambda>(str, delim, ndelim, i). length str - i)") auto

declare strltrim_loop.simps [simp del]

definition mupnp_strltrim :: "cstring \<Rightarrow> string \<Rightarrow> nat \<Rightarrow> cstring" where
  "mupnp_strltrim str delim ndelim = strltrim_loop str delim ndelim 0"

fun strrtrim_loop :: "buffer \<Rightarrow> string \<Rightarrow> nat \<Rightarrow> nat \<Rightarrow> buffer" where
  "strrtrim_loop buf delim ndelim 0 = buf"
| "strrtrim_loop buf delim ndelim (Suc i) =
     (if char_in (buf ! i) delim ndelim then strrtrim_loop (buf[i := NUL]) delim ndelim i
      else buf)"

definition mupnp_strrtrim :: "cstring \<Rightarrow> string \<Rightarrow> nat \<Rightarrow> cstring" where
  "mupnp_strrtrim str delim ndelim = cstr (strrtrim_loop (str @ [NUL]) delim ndelim (length str))"

definition mupnp_strtrim :: "charptr \<Rightarrow> charptr \<Rightarrow> nat \<Rightarrow> charptr" where
  "mupnp_strtrim str delim ndelim =
     (case (str, delim) of
        (Some s, Some d) \<Rightarrow> Some (mupnp_strltrim (mupnp_strrtrim s d ndelim) d ndelim)
      | _ \<Rightarrow> None)"

subsection \<open>Copying into a buffer\<close>

text \<open>
  \<open>off\<close> is the offset of the destination pointer in its buffer.  The result is the buffer
  after the call, or \<open>None\<close> when the copy runs past its end.
\<close>

definition mupnp_strcpy :: "buffer \<Rightarrow> nat \<Rightarrow> cstring \<Rightarrow> buffer option" where
  "mupnp_strcpy dest off src =
     (if off + length src + 1 \<le> length dest
      then Some (take off dest @ src @ NUL # drop (off + length src + 1) dest) else None)"

definition mupnp_strcat :: "buffer \<Rightarrow> cstring \<Rightarrow> buffer option" where
  "mupnp_strcat dest src = mupnp_strcpy dest (length (cstr dest)) src"

definition mupnp_strncpy :: "buffer \<Rightarrow> nat \<Rightarrow> cstring \<Rightarrow> nat \<Rightarrow> buffer option" where
  "mupnp_strncpy str1 off str2 cnt =
     (if off + cnt \<le> length str1
      then Some (take off str1 @ take cnt (str2 @ replicate cnt NUL) @ drop (off + cnt) str1)
      else None)"

definition mupnp_strncat :: "buffer \<Rightarrow> cstring \<Rightarrow> nat \<Rightarrow> buffer option" where
  "mupnp_strncat str1 str2 cnt =
     (let str1Len = mupnp_strlen (Some (cstr str1)) in mupnp_strncpy str1 str1Len str2 cnt)"

subsection \<open>Numbers to strings and back\<close>

definition mupnp_int2str :: "int \<Rightarrow> nat \<Rightarrow> cstring" where
  "mupnp_int2str value bufSize = c_snprintf bufSize (show_int value)"

definition mupnp_long2str :: "int \<Rightarrow> nat \<Rightarrow> cstring" where
  "mupnp_long2str value bufSize = c_snprintf bufSize (show_int value)"

text \<open>\<open>%zd\<close> prints its 64-bit argument as signed, also when it is a \<open>size_t\<close>.\<close>

definition mupnp_sizet2str :: "64 word \<Rightarrow> nat \<Rightarrow> cstring" where
  "mupnp_sizet2str value bufSize = c_snprintf bufSize (show_int (sint value))"

definition mupnp_ssizet2str :: "int \<Rightarrow> nat \<Rightarrow> cstring" where
  "mupnp_ssizet2str value bufSize = c_snprintf bufSize (show_int value)"

definition MUPNP_STRING_INTEGER_BUFLEN :: nat where "MUPNP_STRING_INTEGER_BUFLEN = 16"
definition MUPNP_STRING_LONG_BUFLEN :: nat where "MUPNP_STRING_LONG_BUFLEN = 32"

definition mupnp_str2int :: "charptr \<Rightarrow> int" where
  "mupnp_str2int v = (case v of None \<Rightarrow> 0 | Some s \<Rightarrow> c_atoi s)"

definition mupnp_str2long :: "charptr \<Rightarrow> int" where
  "mupnp_str2long v = (case v of None \<Rightarrow> 0 | Some s \<Rightarrow> c_atol s)"

section \<open>Lemmas\<close>

lemma strlen_simps [simp, cstring_simps]:
  "mupnp_strlen None = 0" "mupnp_strlen (Some s) = length s"
  by (simp_all add: mupnp_strlen_def)

lemma strdup_id [simp, cstring_simps]: "mupnp_strdup s = s"
  by (simp add: mupnp_strdup_def split: option.splits)

lemma strcmp_simps [simp, cstring_simps]:
  "mupnp_strcmp None b = - 1" "mupnp_strcmp (Some s) None = 1"
  "mupnp_strcmp (Some s) (Some t) = c_strcmp s t"
  by (simp_all add: mupnp_strcmp_def)

lemma strcasecmp_simps [simp, cstring_simps]:
  "mupnp_strcasecmp None b = - 1" "mupnp_strcasecmp a None = - 1"
  "mupnp_strcasecmp (Some s) (Some t) = c_strcasecmp s t"
  by (simp_all add: mupnp_strcasecmp_def split: option.splits)

lemma streq_simps [simp, cstring_simps]:
  "\<not> mupnp_streq None b" "\<not> mupnp_streq a None"
  "mupnp_streq (Some s) (Some t) \<longleftrightarrow> c_strcmp s t = 0"
  by (simp_all add: mupnp_streq_def)

lemma strcaseeq_simps [simp, cstring_simps]:
  "\<not> mupnp_strcaseeq None b" "\<not> mupnp_strcaseeq a None"
  "mupnp_strcaseeq (Some s) (Some t) \<longleftrightarrow> c_strcasecmp s t = 0"
  by (simp_all add: mupnp_strcaseeq_def)

lemma strstr_simps [simp, cstring_simps]:
  "mupnp_strstr None n = - 1" "mupnp_strstr h None = - 1"
  "mupnp_strstr (Some s) (Some t) = (case c_strstr s t of None \<Rightarrow> - 1 | Some i \<Rightarrow> int i)"
  by (simp_all add: mupnp_strstr_def split: option.splits)

text \<open>Bounds that every caller relies on before it adds the index to a pointer.\<close>

lemma strstr_ge: "- 1 \<le> mupnp_strstr h n"
  by (auto simp: mupnp_strstr_def split: option.splits)

lemma strstr_bound: "0 \<le> mupnp_strstr (Some h) (Some n) \<Longrightarrow>
    nat (mupnp_strstr (Some h) (Some n)) + length n \<le> length h"
  by (auto split: option.splits dest: c_strstr_bound)

lemma strchr_loop_correct:
  "i \<le> length str \<Longrightarrow>
   strchr_loop str chars n i =
     (if \<exists>j. i \<le> j \<and> j < length str \<and> str ! j \<in> set (take n chars)
      then int (LEAST j. i \<le> j \<and> j < length str \<and> str ! j \<in> set (take n chars)) else - 1)"
proof (induction str chars n i rule: strchr_loop.induct)
  case (1 str chars n i)
  let ?P = "\<lambda>i j. i \<le> j \<and> j < length str \<and> str ! j \<in> set (take n chars)"
  show ?case
  proof (cases "i < length str")
    case False
    with 1 show ?thesis by (subst strchr_loop.simps) auto
  next
    case True
    show ?thesis
    proof (cases "str ! i \<in> set (take n chars)")
      case found: True
      with True have "(LEAST j. ?P i j) = i" by (intro Least_equality) auto
      with True found show ?thesis
        by (subst strchr_loop.simps) (auto simp: char_in_take)
    next
      case False
      then have eq: "?P i j \<longleftrightarrow> ?P (i + 1) j" for j
        by (cases "j = i") (use False in auto)
      from True False have "strchr_loop str chars n i = strchr_loop str chars n (i + 1)"
        by (subst strchr_loop.simps) (simp add: char_in_take)
      also have "\<dots> = (if \<exists>j. ?P (i + 1) j then int (LEAST j. ?P (i + 1) j) else - 1)"
        using 1 True False by (simp add: char_in_take)
      finally show ?thesis by (simp only: eq)
    qed
  qed
qed

lemma strrchr_loop_correct:
  "i \<le> length str \<Longrightarrow>
   (strrchr_loop str chars n i = - 1 \<longleftrightarrow> (\<forall>j<i. str ! j \<notin> set (take n chars))) \<and>
   (\<forall>k. strrchr_loop str chars n i = int k \<longleftrightarrow>
      k < i \<and> str ! k \<in> set (take n chars) \<and> (\<forall>j. k < j \<and> j < i \<longrightarrow> str ! j \<notin> set (take n chars)))"
proof (induction i)
  case 0
  then show ?case by simp
next
  case (Suc i)
  show ?case
  proof (cases "str ! i \<in> set (take n chars)")
    case True
    then show ?thesis
      by (auto simp: char_in_take less_Suc_eq)
  next
    case False
    with Suc show ?thesis
      by (auto simp: char_in_take less_Suc_eq)
  qed
qed

lemma strrchr_bound: "mupnp_strrchr (Some s) (Some cs) n < int (length s)"
proof (cases "mupnp_strrchr (Some s) (Some cs) n = - 1")
  case False
  have "strrchr_loop s cs n i < int i \<or> strrchr_loop s cs n i = - 1" for i
    by (induction i) auto
  with False show ?thesis by (auto simp: mupnp_strrchr_def)
qed simp

lemma strrchr_ge: "- 1 \<le> mupnp_strrchr s cs n"
proof -
  have "- 1 \<le> strrchr_loop t ds n i" for t ds i
    by (induction i) auto
  then show ?thesis by (auto simp: mupnp_strrchr_def split: option.splits)
qed

lemma strrchr_None [simp]: "mupnp_strrchr None cs n = - 1"
  by (simp add: mupnp_strrchr_def)

lemma strltrim_loop_correct:
  "strltrim_loop str delim n i = dropWhile (\<lambda>c. c \<in> set (take n delim)) (drop i str)"
proof (induction str delim n i rule: strltrim_loop.induct)
  case (1 str delim n i)
  show ?case
  proof (cases "i < length str")
    case True
    then have "drop i str = str ! i # drop (i + 1) str"
      by (simp add: Cons_nth_drop_Suc)
    with 1 True show ?thesis
      by (subst strltrim_loop.simps) (auto simp: char_in_take)
  next
    case False
    then show ?thesis by (subst strltrim_loop.simps) simp
  qed
qed

lemma strltrim_correct:
  "mupnp_strltrim str delim n = dropWhile (\<lambda>c. c \<in> set (take n delim)) str"
  by (simp add: mupnp_strltrim_def strltrim_loop_correct)

lemma strrtrim_loop_correct:
  "nul_free s \<Longrightarrow> (\<exists>z. strrtrim_loop (s @ NUL # r) delim n (length s) =
     rev (dropWhile (\<lambda>c. c \<in> set (take n delim)) (rev s)) @ NUL # z)"
proof (induction s arbitrary: r rule: rev_induct)
  case Nil
  then show ?case by auto
next
  case (snoc c s)
  show ?case
  proof (cases "c \<in> set (take n delim)")
    case True
    then have "strrtrim_loop ((s @ [c]) @ NUL # r) delim n (length (s @ [c]))
      = strrtrim_loop (s @ NUL # (NUL # r)) delim n (length s)"
      by (simp add: char_in_take nth_append list_update_append)
    with snoc True show ?thesis by auto
  next
    case False
    then show ?thesis by (auto simp: char_in_take nth_append)
  qed
qed

lemma strrtrim_correct:
  assumes "nul_free s"
  shows "mupnp_strrtrim s delim n = rev (dropWhile (\<lambda>c. c \<in> set (take n delim)) (rev s))"
proof -
  let ?t = "rev (dropWhile (\<lambda>c. c \<in> set (take n delim)) (rev s))"
  have "nul_free ?t"
    using assms by (auto simp: nul_free_def dest: set_dropWhileD)
  with strrtrim_loop_correct [OF assms, of "[]" delim n] show ?thesis
    by (auto simp: mupnp_strrtrim_def)
qed

lemma nul_free_strrtrim [simp]: "nul_free (mupnp_strrtrim s delim n)"
  by (simp add: mupnp_strrtrim_def)

lemma trimwhite_len_count:
  "i \<le> length str \<Longrightarrow> trimwhite_len str i l = l - length (filter c_isspace (take i str))"
  by (induction i arbitrary: l) (auto simp: take_Suc_conv_app_nth)

lemma trimwhite_skip_le: "i \<le> l \<Longrightarrow> i \<le> trimwhite_skip str l i \<and> trimwhite_skip str l i \<le> l"
proof (induction str l i rule: trimwhite_skip.induct)
  case (1 str l i)
  then show ?case
    by (cases "i < l \<and> c_isspace (str ! i)") (auto simp: trimwhite_skip.simps [of str l i])
qed

lemma str2int_int2str:
  "int_range v \<Longrightarrow> 12 \<le> n \<Longrightarrow> mupnp_str2int (Some (mupnp_int2str v n)) = v"
  using length_show_int32 [of v] c_atoi_show_int [of v "[]"]
  by (simp add: mupnp_str2int_def mupnp_int2str_def c_snprintf_def)

lemma str2long_long2str:
  "long_range v \<Longrightarrow> 21 \<le> n \<Longrightarrow> mupnp_str2long (Some (mupnp_long2str v n)) = v"
  using length_show_int64 [of v] c_strtol10_show_int [of v "[]"]
  by (simp add: mupnp_str2long_def mupnp_long2str_def c_snprintf_def c_atol_def)

lemma int2str_buflen:
  "int_range v \<Longrightarrow> mupnp_int2str v MUPNP_STRING_INTEGER_BUFLEN = show_int v"
  using length_show_int32 [of v] by (simp add: mupnp_int2str_def c_snprintf_def MUPNP_STRING_INTEGER_BUFLEN_def)

lemma long2str_buflen:
  "long_range v \<Longrightarrow> mupnp_long2str v MUPNP_STRING_LONG_BUFLEN = show_int v"
  using length_show_int64 [of v] by (simp add: mupnp_long2str_def c_snprintf_def MUPNP_STRING_LONG_BUFLEN_def)

section \<open>Properties\<close>

text \<open>
  \<open>mupnp_strtrimwhite\<close> counts every white character of the string, not only those at its
  end: white space inside the string cuts off the characters behind it, and leading white
  space cuts the copy short.
\<close>

lemma strtrimwhite_inner_space:
  "mupnp_strtrimwhite (Some ''a b'') = Some ''a ''"
  "mupnp_strtrimwhite (Some ''a b '') = Some ''a ''"
  "mupnp_strtrimwhite (Some '' ab'') = Some ''aa''"
  by (simp_all add: mupnp_strtrimwhite_def c_isspace_def trimwhite_skip.simps memmove_down_def cstr_def Let_def)

text \<open>C23: \<open>mupnp_strtrim\<close> removes the longest run of delimiters from both ends of a string and
  nothing else: the parts it drops consist of delimiters, and what is left neither starts nor
  ends with one.\<close>

theorem strtrim_both_ends:
  assumes "nul_free s"
  shows "\<exists>a t b. mupnp_strtrim (Some s) (Some d) n = Some t \<and> s = a @ t @ b \<and>
      set (a @ b) \<subseteq> set (take n d) \<and>
      (t \<noteq> [] \<longrightarrow> hd t \<notin> set (take n d) \<and> last t \<notin> set (take n d))"
proof -
  let ?P = "\<lambda>c. c \<in> set (take n d)"
  let ?r = "rev (dropWhile ?P (rev s))" and ?b = "rev (takeWhile ?P (rev s))"
  let ?t = "dropWhile ?P ?r" and ?a = "takeWhile ?P ?r"
  have s: "s = ?r @ ?b" by (metis rev_append rev_rev_ident takeWhile_dropWhile_id)
  have r: "?r = ?a @ ?t" by simp
  have "last ?t \<notin> set (take n d)" if "?t \<noteq> []"
  proof -
    have "last ?t = last ?r" using r that by (metis last_appendR)
    moreover have "?r \<noteq> []" using that dropWhile.simps(1) by metis
    ultimately show ?thesis by (metis hd_dropWhile hd_rev rev_is_Nil_conv rev_rev_ident)
  qed
  moreover have "hd ?t \<notin> set (take n d)" if "?t \<noteq> []" using that by (metis hd_dropWhile)
  moreover have "set ?a \<subseteq> set (take n d)" by (metis set_takeWhileD subsetI)
  moreover have "set ?b \<subseteq> set (take n d)" by (metis set_rev set_takeWhileD subsetI)
  moreover have "mupnp_strtrim (Some s) (Some d) n = Some ?t"
    by (simp add: mupnp_strtrim_def strltrim_correct strrtrim_correct [OF assms])
  moreover have "s = ?a @ ?t @ ?b" by (subst s, subst r) simp
  ultimately show ?thesis by (metis Un_least set_append)
qed

theorem strtrim_both_ends_witness:
  "\<exists>a t b. mupnp_strtrim (Some '' x y '') (Some '' '') 1 = Some t \<and> '' x y '' = a @ t @ b \<and>
      set (a @ b) \<subseteq> {CHR '' ''}"
  using strtrim_both_ends [of "'' x y ''" "'' ''" 1] by auto

text \<open>C24: printing a 32-bit or a 64-bit number into the buffers the library uses (16 and 32
  bytes) is never truncated, and reading the text back gives the number.\<close>

theorem number_roundtrip:
  assumes "int_range v" and "long_range w"
  shows "mupnp_str2int (Some (mupnp_int2str v MUPNP_STRING_INTEGER_BUFLEN)) = v \<and>
      mupnp_str2long (Some (mupnp_long2str w MUPNP_STRING_LONG_BUFLEN)) = w \<and>
      length (mupnp_int2str v MUPNP_STRING_INTEGER_BUFLEN) < MUPNP_STRING_INTEGER_BUFLEN \<and>
      length (mupnp_long2str w MUPNP_STRING_LONG_BUFLEN) < MUPNP_STRING_LONG_BUFLEN"
  using assms length_show_int32 [of v] length_show_int64 [of w]
  by (simp add: str2int_int2str str2long_long2str int2str_buflen long2str_buflen)
    (simp add: MUPNP_STRING_INTEGER_BUFLEN_def MUPNP_STRING_LONG_BUFLEN_def str2int_int2str
      str2long_long2str flip: int2str_buflen long2str_buflen)

theorem number_roundtrip_witness:
  "mupnp_str2int (Some (mupnp_int2str (- 2147483648) MUPNP_STRING_INTEGER_BUFLEN)) = - 2147483648 \<and>
      mupnp_str2long (Some (mupnp_long2str 9223372036854775807 MUPNP_STRING_LONG_BUFLEN)) = 9223372036854775807 \<and>
      length (mupnp_int2str (- 2147483648) MUPNP_STRING_INTEGER_BUFLEN) < MUPNP_STRING_INTEGER_BUFLEN \<and>
      length (mupnp_long2str 9223372036854775807 MUPNP_STRING_LONG_BUFLEN) < MUPNP_STRING_LONG_BUFLEN"
  by (rule number_roundtrip) (simp_all add: int_range_def long_range_def INT_MAX_def INT_MIN_def LONG_MAX_def LONG_MIN_def)

end
