(* ===== verification/Interfaces.thy ===== *)
theory Interfaces
  imports CNumber "HOL-Library.Monad_Syntax"
begin

section \<open>Interfaces between the components\<close>

text \<open>
  The contracts the components offer each other, as locales over the operations a client
  calls.  \<open>sequence\<close> is the iteration contract of the linked list (every loop
  \<open>for (x = gets (l); x != NULL; x = next (x))\<close> of the program), \<open>string_buffer\<close> the contract
  of the growable strings, \<open>keyed_table\<close> the contract of the dictionary and of the header and
  attribute lists.  Each client lemma is proved once here; the providers interpret the
  locales on the model's own definitions.
\<close>

subsection \<open>Iteration over a list of objects\<close>

text \<open>
  \<open>step x\<close> is the successor of \<open>x\<close>: \<open>None\<close> is an invalid memory access, \<open>Some None\<close> the NULL
  at the end.  The two loops the program runs over its lists: search and count.  The counter is an
  \<open>int\<close>; past its range the behaviour is undefined, which is \<open>None\<close> here.
\<close>

partial_function (option) iter_find ::
    "('a \<Rightarrow> 'a option option) \<Rightarrow> ('a \<Rightarrow> bool) \<Rightarrow> 'a option \<Rightarrow> 'a option option" where
  "iter_find step P x =
     (case x of None \<Rightarrow> Some None
      | Some a \<Rightarrow> if P a then Some (Some a) else Option.bind (step a) (iter_find step P))"

partial_function (option) iter_count ::
    "('a \<Rightarrow> 'a option option) \<Rightarrow> 'a option \<Rightarrow> int \<Rightarrow> int option" where
  "iter_count step x n =
     (case x of None \<Rightarrow> Some n
      | Some a \<Rightarrow> if INT_MAX \<le> n then None else Option.bind (step a) (\<lambda>y. iter_count step y (n + 1)))"

definition first_of :: "'a list \<Rightarrow> 'a option" where
  "first_of xs = (case xs of [] \<Rightarrow> None | x # _ \<Rightarrow> Some x)"

lemma first_of_simps [simp]: "first_of [] = None" "first_of (x # xs) = Some x"
  by (simp_all add: first_of_def)

locale sequence =
  fixes rep :: "'h \<Rightarrow> 'a list \<Rightarrow> bool"
    and step :: "'h \<Rightarrow> 'a \<Rightarrow> 'a option option"
  assumes step_rep: "rep h (xs @ x # ys) \<Longrightarrow> step h x = Some (first_of ys)"
begin

lemma find_suffix: "rep h (xs @ ys) \<Longrightarrow> iter_find (step h) P (first_of ys) = Some (find P ys)"
proof (induction ys arbitrary: xs)
  case Nil
  then show ?case by (simp add: iter_find.simps)
next
  case (Cons y ys)
  then have "step h y = Some (first_of ys)" by (rule_tac step_rep)
  moreover have "iter_find (step h) P (first_of ys) = Some (find P ys)"
    using Cons.IH [of "xs @ [y]"] Cons.prems by simp
  ultimately show ?case by (subst iter_find.simps) simp
qed

lemma find_all: "rep h xs \<Longrightarrow> iter_find (step h) P (first_of xs) = Some (find P xs)"
  using find_suffix [of h "[]" xs] by simp

lemma count_suffix:
  "rep h (xs @ ys) \<Longrightarrow> n + int (length ys) \<le> INT_MAX \<Longrightarrow>
   iter_count (step h) (first_of ys) n = Some (n + int (length ys))"
proof (induction ys arbitrary: xs n)
  case Nil
  then show ?case by (simp add: iter_count.simps)
next
  case (Cons y ys)
  then have "step h y = Some (first_of ys)" by (rule_tac step_rep)
  moreover have "iter_count (step h) (first_of ys) (n + 1) = Some (n + 1 + int (length ys))"
    using Cons.IH [of "xs @ [y]" "n + 1"] Cons.prems by simp
  ultimately show ?case using Cons.prems by (subst iter_count.simps) simp
qed

lemma count_all:
  "rep h xs \<Longrightarrow> int (length xs) \<le> INT_MAX \<Longrightarrow> iter_count (step h) (first_of xs) 0 = Some (int (length xs))"
  using count_suffix [of h "[]" xs 0] by simp

end

subsection \<open>Growable strings\<close>

definition str_set :: "charptr \<Rightarrow> charptr \<Rightarrow> charptr" where
  "str_set s v = (case v of None \<Rightarrow> s | Some x \<Rightarrow> Some x)"

definition str_bytes :: "charptr \<Rightarrow> string" where
  "str_bytes s = (case s of None \<Rightarrow> [] | Some x \<Rightarrow> x)"

definition str_add :: "charptr \<Rightarrow> charptr \<Rightarrow> charptr" where
  "str_add s v = (if str_bytes v = [] then s else Some (str_bytes s @ str_bytes v))"

lemma str_set_simps [simp]: "str_set s None = s" "str_set s (Some x) = Some x"
  by (simp_all add: str_set_def)

lemma str_bytes_simps [simp]: "str_bytes None = []" "str_bytes (Some x) = x"
  by (simp_all add: str_bytes_def)

lemma str_add_bytes [simp]: "str_bytes (str_add s v) = str_bytes s @ str_bytes v"
  by (simp add: str_add_def)

locale string_buffer =
  fixes wf :: "'s \<Rightarrow> bool"
    and contents :: "'s \<Rightarrow> charptr"
    and clear :: "'s \<Rightarrow> 's"
    and set_value :: "'s \<Rightarrow> charptr \<Rightarrow> 's"
    and add_value :: "'s \<Rightarrow> charptr \<Rightarrow> 's"
  assumes wf_clear: "wf s \<Longrightarrow> wf (clear s)"
    and wf_set: "wf s \<Longrightarrow> wf (set_value s v)"
    and wf_add: "wf s \<Longrightarrow> wf (add_value s v)"
    and contents_clear: "wf s \<Longrightarrow> contents (clear s) = None"
    and contents_set: "wf s \<Longrightarrow> contents (set_value s v) = str_set (contents s) v"
    and contents_add: "wf s \<Longrightarrow> contents (add_value s v) = str_add (contents s) v"
begin

lemma wf_adds: "wf s \<Longrightarrow> wf (foldl add_value s vs)"
  by (induction vs arbitrary: s) (auto intro: wf_add)

lemma bytes_adds:
  "wf s \<Longrightarrow> str_bytes (contents (foldl add_value s vs)) = str_bytes (contents s) @ concat (map str_bytes vs)"
  by (induction vs arbitrary: s) (auto simp: wf_add contents_add)

lemma contents_adds: "wf s \<Longrightarrow> contents (foldl add_value s vs) = foldl str_add (contents s) vs"
  by (induction vs arbitrary: s) (auto simp: wf_add contents_add)

lemma rebuild:
  "wf s \<Longrightarrow> str_bytes (contents (foldl add_value (set_value (clear s) (Some x)) vs))
     = x @ concat (map str_bytes vs)"
  by (simp add: bytes_adds wf_set wf_clear contents_set contents_clear)

end

subsection \<open>Tables with keys\<close>

locale keyed_table =
  fixes inv :: "'t \<Rightarrow> bool"
    and valid :: "'k \<Rightarrow> bool"
    and key_eq :: "'k \<Rightarrow> 'k \<Rightarrow> bool"
    and lookup :: "'t \<Rightarrow> 'k \<Rightarrow> 'v option"
    and store :: "'t \<Rightarrow> 'k \<Rightarrow> 'v \<Rightarrow> 't"
  assumes key_refl: "valid k \<Longrightarrow> key_eq k k"
    and key_sym: "valid k \<Longrightarrow> valid l \<Longrightarrow> key_eq k l \<Longrightarrow> key_eq l k"
    and key_trans: "valid k \<Longrightarrow> valid l \<Longrightarrow> valid m \<Longrightarrow> key_eq k l \<Longrightarrow> key_eq l m \<Longrightarrow> key_eq k m"
    and inv_store: "inv t \<Longrightarrow> valid k \<Longrightarrow> inv (store t k v)"
    and lookup_same: "inv t \<Longrightarrow> valid k \<Longrightarrow> valid l \<Longrightarrow> key_eq k l \<Longrightarrow> lookup (store t k v) l = Some v"
    and lookup_other: "inv t \<Longrightarrow> valid k \<Longrightarrow> valid l \<Longrightarrow> \<not> key_eq k l \<Longrightarrow> lookup (store t k v) l = lookup t l"
begin

lemma inv_stores:
  "inv t \<Longrightarrow> list_all (\<lambda>(k, v). valid k) kvs \<Longrightarrow> inv (foldl (\<lambda>t (k, v). store t k v) t kvs)"
  by (induction kvs arbitrary: t) (auto intro: inv_store)

text \<open>After a list of assignments, a key has the value of its last assignment.\<close>

lemma lookup_stores:
  "inv t \<Longrightarrow> list_all (\<lambda>(k, v). valid k) kvs \<Longrightarrow> valid l \<Longrightarrow>
   lookup (foldl (\<lambda>t (k, v). store t k v) t kvs) l =
     (case find (\<lambda>(k, v). key_eq k l) (rev kvs) of None \<Rightarrow> lookup t l | Some (k, v) \<Rightarrow> Some v)"
proof (induction kvs rule: rev_induct)
  case Nil
  then show ?case by simp
next
  case (snoc p kvs)
  obtain k v where p: "p = (k, v)" by (cases p)
  let ?t = "foldl (\<lambda>t (k, v). store t k v) t kvs"
  from snoc.prems p have "inv ?t" "valid k" by (auto intro: inv_stores)
  with snoc p show ?case
    by (cases "key_eq k l") (auto simp: lookup_same lookup_other)
qed

lemma lookup_store:
  "inv t \<Longrightarrow> valid k \<Longrightarrow> valid l \<Longrightarrow>
   lookup (store t k v) l = (if key_eq k l then Some v else lookup t l)"
  by (simp add: lookup_same lookup_other)

lemma store_commute:
  assumes "inv t" and "valid k" and "valid l" and "valid m" and "\<not> key_eq k l"
  shows "lookup (store (store t k v) l w) m = lookup (store (store t l w) k v) m"
proof -
  have "\<not> (key_eq k m \<and> key_eq l m)"
    using assms key_sym [of l m] key_trans [of k m l] by blast
  then show ?thesis
    using assms by (simp add: lookup_store inv_store)
qed

end

end
