(* ===== verification/MString.thy ===== *)
theory MString
  imports StringFunction Interfaces
begin

section \<open>Growable strings (src/mupnp/util/string.c)\<close>

text \<open>
  \<open>mUpnpString\<close> as the code has it: a heap buffer with its allocated size and the number of
  bytes in use.  A \<open>mUpnpString *\<close> that may be NULL is an option.  The allocator is a
  parameter: whether a request for \<open>n\<close> bytes succeeds, and the byte that fresh memory holds.
  A pair (pointer, length) given to \<open>setnvalue\<close> or \<open>naddvalue\<close> is the region of bytes it
  denotes.

  The invariant \<open>str_wf\<close> says that the buffer has the recorded size and that the byte behind
  the last one in use is a NUL.  \<open>str_abs\<close> reads the contents, and every operation refines
  an operation on \<open>string option\<close> (\<open>str_set\<close>, \<open>str_add\<close>, \<open>None\<close>).  The other theories use
  these abstract operations for the strings inside their objects.
\<close>

record allocator =
  can_alloc :: "nat \<Rightarrow> bool"
  junk :: char

definition total_allocator :: "allocator \<Rightarrow> bool" where
  "total_allocator A \<longleftrightarrow> (\<forall>n. can_alloc A n)"

record mUpnpString =
  sval :: "buffer option"
  memSize :: nat
  valueSize :: nat

definition MUPNP_STRING_REALLOC_EXTRA :: nat where "MUPNP_STRING_REALLOC_EXTRA = 16"

definition sizeof_mUpnpString :: nat where "sizeof_mUpnpString = 24"

definition mupnp_string_new :: "allocator \<Rightarrow> mUpnpString option" where
  "mupnp_string_new A =
     (if can_alloc A sizeof_mUpnpString
      then Some \<lparr>sval = None, memSize = 0, valueSize = 0\<rparr> else None)"

definition string_clear :: "mUpnpString \<Rightarrow> mUpnpString" where
  "string_clear s =
     (if sval s \<noteq> None then s\<lparr>sval := None, memSize := 0, valueSize := 0\<rparr> else s)"

definition mupnp_string_clear :: "mUpnpString option \<Rightarrow> mUpnpString option" where
  "mupnp_string_clear str = (case str of None \<Rightarrow> None | Some s \<Rightarrow> Some (string_clear s))"

text \<open>\<open>setnvalue\<close> on a string that is not NULL; the failing allocation leaves it empty.\<close>

definition string_setn :: "allocator \<Rightarrow> mUpnpString \<Rightarrow> buffer option \<Rightarrow> mUpnpString" where
  "string_setn A s bytes =
     (let s = string_clear s in
      case bytes of None \<Rightarrow> s
      | Some b \<Rightarrow>
          let s = s\<lparr>valueSize := length b, memSize := length b + 1\<rparr> in
          if \<not> can_alloc A (memSize s) then s\<lparr>sval := None, valueSize := 0, memSize := 0\<rparr>
          else s\<lparr>sval := Some (b @ [NUL])\<rparr>)"

definition mupnp_string_setnvalue ::
    "allocator \<Rightarrow> mUpnpString option \<Rightarrow> buffer option \<Rightarrow> mUpnpString option" where
  "mupnp_string_setnvalue A str bytes =
     (case str of None \<Rightarrow> None | Some s \<Rightarrow> Some (string_setn A s bytes))"

definition mupnp_string_setvalue ::
    "allocator \<Rightarrow> mUpnpString option \<Rightarrow> charptr \<Rightarrow> mUpnpString option" where
  "mupnp_string_setvalue A str v =
     (case str of None \<Rightarrow> None
      | Some s \<Rightarrow> (case v of None \<Rightarrow> Some s | Some x \<Rightarrow> mupnp_string_setnvalue A (Some s) (Some x)))"

definition mupnp_string_setintvalue ::
    "allocator \<Rightarrow> mUpnpString option \<Rightarrow> int \<Rightarrow> mUpnpString option" where
  "mupnp_string_setintvalue A str v =
     mupnp_string_setvalue A str (Some (mupnp_int2str v MUPNP_STRING_INTEGER_BUFLEN))"

definition mupnp_string_setlongvalue ::
    "allocator \<Rightarrow> mUpnpString option \<Rightarrow> int \<Rightarrow> mUpnpString option" where
  "mupnp_string_setlongvalue A str v =
     mupnp_string_setvalue A str (Some (mupnp_long2str v MUPNP_STRING_LONG_BUFLEN))"

text \<open>The string takes over the buffer \<open>v\<close>, of which \<open>len\<close> bytes are in use.\<close>

definition mupnp_string_setpointervalue ::
    "mUpnpString option \<Rightarrow> buffer option \<Rightarrow> nat \<Rightarrow> mUpnpString option" where
  "mupnp_string_setpointervalue str v len =
     (case str of None \<Rightarrow> None
      | Some s \<Rightarrow> Some ((string_clear s)\<lparr>sval := v, valueSize := len, memSize := len + 1\<rparr>))"

definition mupnp_string_getvalue :: "mUpnpString option \<Rightarrow> buffer option" where
  "mupnp_string_getvalue str = (case str of None \<Rightarrow> None | Some s \<Rightarrow> sval s)"

definition mupnp_string_getmemorysize :: "mUpnpString option \<Rightarrow> nat" where
  "mupnp_string_getmemorysize str = (case str of None \<Rightarrow> 0 | Some s \<Rightarrow> memSize s)"

definition mupnp_string_length :: "mUpnpString option \<Rightarrow> nat" where
  "mupnp_string_length str =
     (case str of None \<Rightarrow> 0 | Some s \<Rightarrow> if sval s = None then 0 else valueSize s)"

definition c_realloc :: "allocator \<Rightarrow> buffer option \<Rightarrow> nat \<Rightarrow> buffer option" where
  "c_realloc A b n =
     (if can_alloc A n
      then let old = (case b of None \<Rightarrow> [] | Some x \<Rightarrow> x)
           in Some (take n old @ replicate (n - length old) (junk A))
      else None)"

text \<open>The copy into the buffer and the terminating NUL, at the end of \<open>naddvalue\<close>.\<close>

definition string_append :: "mUpnpString \<Rightarrow> buffer \<Rightarrow> buffer \<Rightarrow> mUpnpString" where
  "string_append s buf bytes =
     (let buf = take (valueSize s) buf @ bytes @ drop (valueSize s + length bytes) buf;
          n = valueSize s + length bytes
      in s\<lparr>sval := Some (buf[n := NUL]), valueSize := n\<rparr>)"

text \<open>The result is the string and whether the returned pointer is not NULL.\<close>

definition string_nadd :: "allocator \<Rightarrow> mUpnpString \<Rightarrow> buffer option \<Rightarrow> mUpnpString \<times> bool" where
  "string_nadd A s v =
     (case v of None \<Rightarrow> (s, sval s \<noteq> None)
      | Some bytes \<Rightarrow>
          if length bytes = 0 then (s, sval s \<noteq> None)
          else
            let newMemSize = valueSize s + length bytes + 1 in
            if newMemSize > memSize s \<or> sval s = None then
              let newMemSize = newMemSize + MUPNP_STRING_REALLOC_EXTRA in
              (case c_realloc A (sval s) newMemSize of
                 None \<Rightarrow> (s, False)
               | Some buf \<Rightarrow>
                   (string_append (s\<lparr>memSize := newMemSize, sval := Some buf\<rparr>) buf bytes, True))
            else (case sval s of None \<Rightarrow> (s, False)
                  | Some buf \<Rightarrow> (string_append s buf bytes, True)))"

definition mupnp_string_naddvalue ::
    "allocator \<Rightarrow> mUpnpString option \<Rightarrow> buffer option \<Rightarrow> mUpnpString option" where
  "mupnp_string_naddvalue A str v =
     (case str of None \<Rightarrow> None | Some s \<Rightarrow> Some (fst (string_nadd A s v)))"

definition mupnp_string_addvalue ::
    "allocator \<Rightarrow> mUpnpString option \<Rightarrow> charptr \<Rightarrow> mUpnpString option" where
  "mupnp_string_addvalue A str v = mupnp_string_naddvalue A str v"

fun mupnp_string_addrepvalue ::
    "allocator \<Rightarrow> mUpnpString option \<Rightarrow> charptr \<Rightarrow> nat \<Rightarrow> mUpnpString option" where
  "mupnp_string_addrepvalue A str v 0 = str"
| "mupnp_string_addrepvalue A str v (Suc n) =
     mupnp_string_addrepvalue A (mupnp_string_addvalue A str v) v n"

fun mupnp_string_naddrepvalue ::
    "allocator \<Rightarrow> mUpnpString option \<Rightarrow> buffer option \<Rightarrow> nat \<Rightarrow> mUpnpString option" where
  "mupnp_string_naddrepvalue A str v 0 = str"
| "mupnp_string_naddrepvalue A str v (Suc n) =
     mupnp_string_naddrepvalue A (mupnp_string_naddvalue A str v) v n"

subsection \<open>Replacement\<close>

text \<open>
  The inner \<open>for\<close> over the patterns does not stop at a match: it goes on with the patterns
  that follow, at the position behind the match.  The outer \<open>while\<close> may not end (an empty
  pattern matches without moving), so it is a partial function.  The position is an \<open>int\<close>:
  adding a length wraps it around, a read at a negative position is a crash (\<open>None\<close>), the
  test of the loop sees a negative position as a huge \<open>size_t\<close>, and the overflow of its
  increment is undefined.
\<close>

fun replace_inner ::
    "allocator \<Rightarrow> (cstring \<times> cstring) list \<Rightarrow> buffer \<Rightarrow> int \<Rightarrow> mUpnpString option \<Rightarrow> bool
      \<Rightarrow> (int \<times> mUpnpString option \<times> bool) option" where
  "replace_inner A [] org copyPos rep isReplaced = Some (copyPos, rep, isReplaced)"
| "replace_inner A ((f, t) # ps) org copyPos rep isReplaced =
     (if f \<noteq> [] \<and> copyPos < 0 then None
      else if c_strncmp f (cstr (drop (nat copyPos) org)) (length f) = 0
      then replace_inner A ps org (to_int32 (copyPos + int (length f))) (mupnp_string_addvalue A rep (Some t)) True
      else replace_inner A ps org copyPos rep isReplaced)"

partial_function (option) replace_loop ::
    "allocator \<Rightarrow> (cstring \<times> cstring) list \<Rightarrow> buffer \<Rightarrow> nat \<Rightarrow> int \<Rightarrow> mUpnpString option
      \<Rightarrow> mUpnpString option option" where
  "replace_loop A ps org orgLen copyPos rep =
     (if 0 \<le> copyPos \<and> copyPos < int orgLen then
        (case replace_inner A ps org copyPos rep False of
           None \<Rightarrow> None
         | Some (copyPos', rep', isReplaced) \<Rightarrow>
             if isReplaced then replace_loop A ps org orgLen copyPos' rep'
             else if INT_MAX \<le> copyPos' then None
             else replace_loop A ps org orgLen (copyPos' + 1)
                    (mupnp_string_naddvalue A rep' (Some [org ! nat copyPos'])))
      else Some rep)"

definition mupnp_string_replace ::
    "allocator \<Rightarrow> mUpnpString option \<Rightarrow> (cstring \<times> cstring) list \<Rightarrow> mUpnpString option option" where
  "mupnp_string_replace A str ps =
     (case str of None \<Rightarrow> Some None
      | Some s \<Rightarrow>
          let repValue = mupnp_string_new A in
          if \<not> can_alloc A (8 * length ps) then Some (Some s)
          else
            let orgValue = (case sval s of None \<Rightarrow> [] | Some b \<Rightarrow> b) in
            (case replace_loop A ps orgValue (mupnp_string_length (Some s)) 0 repValue of
               None \<Rightarrow> None
             | Some rep \<Rightarrow>
                 Some (mupnp_string_setvalue A (Some s) (map_option cstr (mupnp_string_getvalue rep)))))"

section \<open>Invariant and abstraction\<close>

definition str_wf :: "mUpnpString \<Rightarrow> bool" where
  "str_wf s \<longleftrightarrow>
     (case sval s of None \<Rightarrow> valueSize s = 0 \<and> memSize s = 0
      | Some b \<Rightarrow> length b = memSize s \<and> valueSize s < memSize s \<and> b ! valueSize s = NUL)"

definition str_abs :: "mUpnpString \<Rightarrow> string option" where
  "str_abs s = map_option (take (valueSize s)) (sval s)"

definition str_empty :: mUpnpString where
  "str_empty = \<lparr>sval = None, memSize = 0, valueSize = 0\<rparr>"

lemma str_wf_empty [simp]: "str_wf str_empty" and str_abs_empty [simp]: "str_abs str_empty = None"
  by (simp_all add: str_empty_def str_wf_def str_abs_def)

lemma str_wf_clear: "str_wf s \<Longrightarrow> str_wf (string_clear s)"
  by (simp add: str_wf_def string_clear_def split: option.splits)

lemma str_abs_clear: "str_abs (string_clear s) = None"
  by (auto simp: str_abs_def string_clear_def)

lemma str_wf_setn: "str_wf s \<Longrightarrow> str_wf (string_setn A s v)"
  by (auto simp: string_setn_def Let_def str_wf_def string_clear_def split: option.splits)

lemma str_abs_setn:
  "total_allocator A \<Longrightarrow> str_abs (string_setn A s v) = v"
  by (auto simp: string_setn_def Let_def str_abs_def string_clear_def total_allocator_def
      split: option.splits)

lemma string_append_rep:
  assumes "valueSize s + length bytes < length buf" and "memSize s = length buf"
  shows "str_wf (string_append s buf bytes)"
    and "str_abs (string_append s buf bytes) = Some (take (valueSize s) buf @ bytes)"
proof -
  have "length (take (valueSize s) buf) = valueSize s" using assms(1) by simp
  then show "str_wf (string_append s buf bytes)"
    and "str_abs (string_append s buf bytes) = Some (take (valueSize s) buf @ bytes)"
    using assms by (auto simp: string_append_def Let_def str_wf_def str_abs_def)
qed

lemma c_realloc_Some:
  assumes wf: "str_wf s" and can: "can_alloc A n" and n: "valueSize s \<le> n"
  obtains buf where "c_realloc A (sval s) n = Some buf" and "length buf = n"
    and "take (valueSize s) buf = str_bytes (str_abs s)"
proof (cases "sval s")
  case None
  with wf can show thesis
    by (intro that [of "replicate n (junk A)"]) (auto simp: c_realloc_def str_wf_def str_abs_def)
next
  case (Some b)
  with wf have "valueSize s < length b" by (simp add: str_wf_def)
  with Some can n show thesis
    by (intro that [of "take n b @ replicate (n - length b) (junk A)"])
      (auto simp: c_realloc_def str_abs_def min_def)
qed

text \<open>
  \<open>naddvalue\<close> either fails to allocate and leaves the string as it is, or appends to a buffer
  with room that holds the old contents.
\<close>

lemma string_nadd_cases:
  assumes wf: "str_wf s" and ne: "bytes \<noteq> []"
  obtains (fail) "string_nadd A s (Some bytes) = (s, False)" and "\<not> total_allocator A"
  | (append) s0 buf where "string_nadd A s (Some bytes) = (string_append s0 buf bytes, True)"
      and "valueSize s0 = valueSize s" and "memSize s0 = length buf"
      and "valueSize s + length bytes < length buf"
      and "take (valueSize s) buf = str_bytes (str_abs s)"
proof (cases "valueSize s + length bytes + 1 > memSize s \<or> sval s = None")
  case grow: True
  let ?n = "valueSize s + length bytes + 1 + MUPNP_STRING_REALLOC_EXTRA"
  show thesis
  proof (cases "can_alloc A ?n")
    case False
    with grow ne have "string_nadd A s (Some bytes) = (s, False)"
      by (auto simp: string_nadd_def Let_def c_realloc_def)
    with False show thesis by (intro fail) (auto simp: total_allocator_def)
  next
    case True
    with wf obtain buf where buf: "c_realloc A (sval s) ?n = Some buf" "length buf = ?n"
        "take (valueSize s) buf = str_bytes (str_abs s)"
      by (rule c_realloc_Some) auto
    let ?s0 = "s\<lparr>memSize := ?n, sval := Some buf\<rparr>"
    have "string_nadd A s (Some bytes) = (string_append ?s0 buf bytes, True)"
      using grow ne buf(1) by (auto simp: string_nadd_def Let_def)
    then show thesis
      by (rule append) (simp_all add: buf(2,3) del: One_nat_def)
  qed
next
  case False
  then obtain buf where "sval s = Some buf" by auto
  with False ne wf show thesis
    by (intro append [of s buf]) (auto simp: string_nadd_def Let_def str_wf_def str_abs_def)
qed

lemma str_wf_nadd: "str_wf s \<Longrightarrow> str_wf (fst (string_nadd A s v))"
proof (cases "str_bytes v = []")
  case True
  assume "str_wf s"
  with True show ?thesis by (auto simp: string_nadd_def split: option.splits)
next
  case False
  assume wf: "str_wf s"
  from False obtain bytes where v: "v = Some bytes" "bytes \<noteq> []" by (cases v) auto
  from wf v(2) show ?thesis
    by (rule string_nadd_cases [where A = A]) (auto simp: v wf intro: string_append_rep)
qed

lemma str_abs_nadd:
  assumes "str_wf s" and "total_allocator A"
  shows "str_abs (fst (string_nadd A s v)) = str_add (str_abs s) v"
proof (cases "str_bytes v = []")
  case True
  then show ?thesis by (auto simp: string_nadd_def str_add_def split: option.splits)
next
  case False
  then obtain bytes where v: "v = Some bytes" "bytes \<noteq> []" by (cases v) auto
  from assms(1) v(2) show ?thesis
  proof (cases rule: string_nadd_cases [where A = A])
    case fail
    with assms(2) show ?thesis by simp
  next
    case (append s0 buf)
    then show ?thesis
      using v string_append_rep(2) [of s0 bytes buf] by (simp add: str_add_def)
  qed
qed

lemma str_abs_nadd_partial:
  assumes "str_wf s"
  shows "str_abs (fst (string_nadd A s v)) \<in> {str_abs s, str_add (str_abs s) v}"
proof (cases "str_bytes v = []")
  case True
  then show ?thesis by (auto simp: string_nadd_def str_add_def split: option.splits)
next
  case False
  then obtain bytes where v: "v = Some bytes" "bytes \<noteq> []" by (cases v) auto
  from assms v(2) show ?thesis
  proof (cases rule: string_nadd_cases [where A = A])
    case fail
    with v show ?thesis by simp
  next
    case (append s0 buf)
    then show ?thesis
      using v string_append_rep(2) [of s0 bytes buf] by (simp add: str_add_def)
  qed
qed

lemma str_length_abs: "str_wf s \<Longrightarrow> mupnp_string_length (Some s) = length (str_bytes (str_abs s))"
  by (auto simp: mupnp_string_length_def str_wf_def str_abs_def split: option.splits)

text \<open>The C string a client reads through \<open>getvalue\<close>.\<close>

lemma getvalue_cstr:
  assumes "str_wf s" and "str_abs s = Some x" and "nul_free x"
  shows "map_option cstr (mupnp_string_getvalue (Some s)) = Some x"
proof -
  from assms obtain b where b: "sval s = Some b" "take (valueSize s) b = x"
      "valueSize s < length b" "b ! valueSize s = NUL"
    by (auto simp: str_wf_def str_abs_def split: option.splits)
  then have "b = x @ NUL # drop (Suc (valueSize s)) b"
    by (metis append_take_drop_id Cons_nth_drop_Suc)
  with assms(3) have "cstr b = x" by (metis cstr_append_NUL)
  with b show ?thesis by (simp add: mupnp_string_getvalue_def)
qed

text \<open>
  The operations on a string that is not NULL, under an allocator that always succeeds, keep
  the contract of a string buffer.
\<close>

definition eager :: allocator where
  "eager = \<lparr>can_alloc = (\<lambda>_. True), junk = NUL\<rparr>"

lemma total_eager [simp]: "total_allocator eager"
  by (simp add: total_allocator_def eager_def)

definition string_set :: "allocator \<Rightarrow> mUpnpString \<Rightarrow> charptr \<Rightarrow> mUpnpString" where
  "string_set A s v = the (mupnp_string_setvalue A (Some s) v)"

definition string_add :: "allocator \<Rightarrow> mUpnpString \<Rightarrow> charptr \<Rightarrow> mUpnpString" where
  "string_add A s v = the (mupnp_string_addvalue A (Some s) v)"

lemma setvalue_string_set: "mupnp_string_setvalue A (Some s) v = Some (string_set A s v)"
  by (simp add: string_set_def mupnp_string_setvalue_def mupnp_string_setnvalue_def split: option.splits)

lemma addvalue_string_add: "mupnp_string_addvalue A (Some s) v = Some (string_add A s v)"
  by (simp add: string_add_def mupnp_string_addvalue_def mupnp_string_naddvalue_def)

lemma string_add_nadd: "string_add A s v = fst (string_nadd A s v)"
  by (simp add: string_add_def mupnp_string_addvalue_def mupnp_string_naddvalue_def)

lemma str_wf_set: "str_wf s \<Longrightarrow> str_wf (string_set A s v)"
  by (auto simp: string_set_def mupnp_string_setvalue_def mupnp_string_setnvalue_def str_wf_setn
      split: option.splits)

lemma str_abs_set: "total_allocator A \<Longrightarrow> str_abs (string_set A s v) = str_set (str_abs s) v"
  by (auto simp: string_set_def mupnp_string_setvalue_def mupnp_string_setnvalue_def str_abs_setn
      split: option.splits)

interpretation mstr: string_buffer str_wf str_abs string_clear "string_set eager" "string_add eager"
  by unfold_locales
    (auto simp: str_wf_clear str_abs_clear str_wf_set str_abs_set string_add_nadd str_wf_nadd str_abs_nadd)

end
