(* ===== verification/StringReplace.thy ===== *)
theory StringReplace
  imports MString
begin

section \<open>mupnp_string_replace against its specification\<close>

text \<open>
  \<open>replace_ref\<close> is the left-to-right replacement a caller expects: at each position the first
  pattern that matches is replaced and the scan goes on behind it.  When no pattern is empty
  and none is a prefix of another, the loop of \<open>mupnp_string_replace\<close> ends and computes it;
  an empty result is not stored (\<open>setvalue\<close> of NULL keeps the old value).
\<close>

function replace_ref :: "(cstring \<times> cstring) list \<Rightarrow> cstring \<Rightarrow> cstring" where
  "replace_ref ps s =
     (case s of [] \<Rightarrow> []
      | c # r \<Rightarrow>
          (case find (\<lambda>(f, t). f \<noteq> [] \<and> prefix f s) ps of
             None \<Rightarrow> c # replace_ref ps r
           | Some (f, t) \<Rightarrow> t @ replace_ref ps (drop (length f) s)))"
  by pat_completeness auto
termination
  by (relation "measure (length \<circ> snd)") (auto simp: find_Some_iff)

declare replace_ref.simps [simp del]

lemma replace_ref_Nil [simp]: "replace_ref ps [] = []"
  by (simp add: replace_ref.simps)

definition patterns_ok :: "(cstring \<times> cstring) list \<Rightarrow> bool" where
  "patterns_ok ps \<longleftrightarrow>
     list_all (\<lambda>(f, t). f \<noteq> [] \<and> nul_free f \<and> nul_free t) ps \<and>
     sorted_wrt (\<lambda>p q. \<not> prefix (fst p) (fst q) \<and> \<not> prefix (fst q) (fst p)) ps"

lemma patterns_ok_unique:
  assumes "patterns_ok ps" and "(f, t) \<in> set ps" and "(g, u) \<in> set ps"
    and "prefix f s" and "prefix g s"
  shows "(f, t) = (g, u)"
proof -
  from assms(4,5) have "prefix f g \<or> prefix g f" by (auto dest: prefix_same_cases)
  with assms(1-3) show ?thesis
    by (induction ps) (force simp: patterns_ok_def)+
qed

lemma patterns_ok_mem:
  "patterns_ok ps \<Longrightarrow> (f, t) \<in> set ps \<Longrightarrow> f \<noteq> [] \<and> nul_free f \<and> nul_free t"
  by (auto simp: patterns_ok_def list_all_iff)

lemma replace_ref_hit:
  assumes ok: "patterns_ok ps" and mem: "(f, t) \<in> set ps" and pre: "prefix f s"
  shows "replace_ref ps s = t @ replace_ref ps (drop (length f) s)"
proof -
  have ne: "f \<noteq> []" using patterns_ok_mem [OF ok mem] by simp
  then obtain c r where s: "s = c # r" using pre by (cases s) auto
  have "find (\<lambda>(f, t). f \<noteq> [] \<and> prefix f s) ps = Some (f, t)"
  proof (cases "find (\<lambda>(f, t). f \<noteq> [] \<and> prefix f s) ps")
    case None
    with mem pre ne show ?thesis by (auto simp: find_None_iff)
  next
    case (Some p)
    then obtain g u where p: "p = (g, u)" "(g, u) \<in> set ps" "prefix g s"
      by (cases p) (auto simp: find_Some_iff intro: that dest: nth_mem)
    with Some patterns_ok_unique [OF ok mem p(2) pre p(3)] show ?thesis by simp
  qed
  with s show ?thesis by (subst replace_ref.simps) simp
qed

lemma replace_ref_miss:
  assumes "\<forall>(f, t) \<in> set ps. \<not> prefix f (c # r)"
  shows "replace_ref ps (c # r) = c # replace_ref ps r"
proof -
  have "find (\<lambda>(f, t). f \<noteq> [] \<and> prefix f (c # r)) ps = None"
    using assms by (auto simp: find_None_iff)
  then show ?thesis by (subst replace_ref.simps) simp
qed

lemma nul_free_replace_ref:
  assumes ok: "patterns_ok ps"
  shows "nul_free s \<Longrightarrow> nul_free (replace_ref ps s)"
proof (induction s rule: length_induct)
  case (1 s)
  show ?case
  proof (cases s)
    case (Cons c r)
    show ?thesis
    proof (cases "\<exists>(f, t) \<in> set ps. prefix f s")
      case True
      then obtain f t where ft: "(f, t) \<in> set ps" "prefix f s" by auto
      have "length (drop (length f) s) < length s"
        using patterns_ok_mem [OF ok ft(1)] Cons by simp
      with 1 have "nul_free (replace_ref ps (drop (length f) s))" by simp
      with patterns_ok_mem [OF ok ft(1)] show ?thesis
        by (simp add: replace_ref_hit [OF ok ft])
    next
      case False
      with Cons have "replace_ref ps s = c # replace_ref ps r"
        by (auto intro!: replace_ref_miss)
      with 1 Cons show ?thesis by simp
    qed
  qed simp
qed

subsection \<open>The loop\<close>

lemma strncmp_prefix:
  assumes "nul_free f" and "nul_free y"
  shows "c_strncmp f y (length f) = 0 \<longleftrightarrow> prefix f y"
proof -
  have "c_strncmp f y (length f) = 0 \<longleftrightarrow> f = take (length f) y"
    using assms by (simp add: c_strncmp_def c_strcmp_eq_0)
  also have "\<dots> \<longleftrightarrow> prefix f y"
    by (metis append_take_drop_id append_eq_conv_conj prefix_def)
  finally show ?thesis .
qed

lemma cstr_drop_buffer: "nul_free x \<Longrightarrow> pos \<le> length x \<Longrightarrow> cstr (drop pos (x @ NUL # z)) = drop pos x"
  by simp

lemma to_int32_pos: "int (length x) \<le> INT_MAX \<Longrightarrow> pos \<le> length x \<Longrightarrow> to_int32 (int pos) = int pos"
  by (rule to_int32_id) (simp add: int_range_def INT_MIN_def)

lemma replace_inner_correct:
  assumes A: "total_allocator A" and ok: "patterns_ok PS" and x: "nul_free x" "int (length x) \<le> INT_MAX"
    and "set ps \<subseteq> set PS" and "pos \<le> length x" and "str_wf r" and "str_abs r \<noteq> Some []"
  shows "\<exists>pos' r' fl'. replace_inner A ps (x @ NUL # z) (int pos) (Some r) fl = Some (int pos', Some r', fl') \<and>
    str_wf r' \<and> str_abs r' \<noteq> Some [] \<and> pos \<le> pos' \<and> pos' \<le> length x \<and>
    str_bytes (str_abs r') @ replace_ref PS (drop pos' x)
      = str_bytes (str_abs r) @ replace_ref PS (drop pos x) \<and>
    (fl' \<longleftrightarrow> fl \<or> pos < pos') \<and>
    (pos' = pos \<longrightarrow> r' = r \<and> (\<forall>(f, t) \<in> set ps. \<not> prefix f (drop pos x)))"
  using assms(5-8)
proof (induction ps arbitrary: pos r fl)
  case Nil
  then show ?case by auto
next
  case (Cons p ps)
  obtain f t where p: "p = (f, t)" by (cases p)
  with Cons.prems have mem: "(f, t) \<in> set PS" by simp
  have f: "f \<noteq> []" "nul_free f" using patterns_ok_mem [OF ok mem] by auto
  have test: "c_strncmp f (cstr (drop pos (x @ NUL # z))) (length f) = 0 \<longleftrightarrow> prefix f (drop pos x)"
    using x(1) f(2) Cons.prems(2) by (simp only: cstr_drop_buffer strncmp_prefix nul_free_drop)
  show ?case
  proof (cases "prefix f (drop pos x)")
    case True
    let ?r = "fst (string_nadd A r (Some t))"
    have len: "pos + length f \<le> length x"
      using True f(1) by (rule prefix_drop_length)
    have step: "replace_inner A (p # ps) (x @ NUL # z) (int pos) (Some r) fl =
        replace_inner A ps (x @ NUL # z) (int (pos + length f)) (Some ?r) True"
      using True test p to_int32_pos [OF x(2) len]
      by (simp add: mupnp_string_addvalue_def mupnp_string_naddvalue_def)
    have wf: "str_wf ?r" and abs: "str_abs ?r = str_add (str_abs r) (Some t)"
      using Cons.prems(3) A by (simp_all add: str_wf_nadd str_abs_nadd)
    moreover have "str_abs ?r \<noteq> Some []"
      using Cons.prems(4) abs by (auto simp: str_add_def)
    ultimately obtain pos' r' fl' where r':
        "replace_inner A ps (x @ NUL # z) (int (pos + length f)) (Some ?r) True = Some (int pos', Some r', fl')"
        "str_wf r'" "str_abs r' \<noteq> Some []" "pos + length f \<le> pos'" "pos' \<le> length x"
        "str_bytes (str_abs r') @ replace_ref PS (drop pos' x)
          = str_bytes (str_abs ?r) @ replace_ref PS (drop (pos + length f) x)" "fl'"
      using Cons.IH [of "pos + length f" ?r True] Cons.prems(1) len by auto
    have "replace_ref PS (drop pos x) = t @ replace_ref PS (drop (pos + length f) x)"
      using replace_ref_hit [OF ok mem True] by (simp add: add.commute)
    moreover have "pos < pos'" using r'(4) f(1) by (cases f) auto
    ultimately show ?thesis unfolding step r'(1) using r'(2-7) abs by auto
  next
    case False
    with p test have "replace_inner A (p # ps) (x @ NUL # z) (int pos) (Some r) fl =
        replace_inner A ps (x @ NUL # z) (int pos) (Some r) fl" by simp
    with Cons.IH [of pos r fl] Cons.prems False p show ?thesis by auto
  qed
qed

lemma replace_loop_correct:
  assumes A: "total_allocator A" and ok: "patterns_ok PS" and x: "nul_free x" "int (length x) \<le> INT_MAX"
  shows "pos \<le> length x \<Longrightarrow> str_wf r \<Longrightarrow> str_abs r \<noteq> Some [] \<Longrightarrow>
    \<exists>r'. replace_loop A PS (x @ NUL # z) (length x) (int pos) (Some r) = Some (Some r') \<and> str_wf r' \<and>
      str_abs r' \<noteq> Some [] \<and>
      str_bytes (str_abs r') = str_bytes (str_abs r) @ replace_ref PS (drop pos x)"
proof (induction "length x - pos" arbitrary: pos r rule: less_induct)
  case less
  show ?case
  proof (cases "pos < length x")
    case False
    with less.prems show ?thesis by (subst replace_loop.simps) simp
  next
    case True
    obtain pos' r' fl' where inner: "replace_inner A PS (x @ NUL # z) (int pos) (Some r) False = Some (int pos', Some r', fl')"
      and r': "str_wf r'" "str_abs r' \<noteq> Some []" "pos \<le> pos'" "pos' \<le> length x"
        "str_bytes (str_abs r') @ replace_ref PS (drop pos' x)
          = str_bytes (str_abs r) @ replace_ref PS (drop pos x)"
        "fl' \<longleftrightarrow> pos < pos'"
        "pos' = pos \<Longrightarrow> r' = r \<and> (\<forall>(f, t) \<in> set PS. \<not> prefix f (drop pos x))"
      using replace_inner_correct [OF A ok x subset_refl less.prems, of z False] by auto
    show ?thesis
    proof (cases fl')
      case hit: True
      with r' True have "length x - pos' < length x - pos" by simp
      with less.hyps [of pos' r'] r' obtain r2 where
        "replace_loop A PS (x @ NUL # z) (length x) (int pos') (Some r') = Some (Some r2)" "str_wf r2"
        "str_abs r2 \<noteq> Some []"
        "str_bytes (str_abs r2) = str_bytes (str_abs r') @ replace_ref PS (drop pos' x)"
        by blast
      with True inner hit r' show ?thesis
        by (subst replace_loop.simps) simp
    next
      case miss: False
      with r' have same: "pos' = pos" "r' = r" by auto
      let ?r = "fst (string_nadd A r (Some [x ! pos]))"
      have wf: "str_wf ?r" and abs: "str_abs ?r = str_add (str_abs r) (Some [x ! pos])"
        using less.prems A by (simp_all add: str_wf_nadd str_abs_nadd)
      have "str_abs ?r \<noteq> Some []" by (simp add: abs str_add_def)
      with less.hyps [of "pos + 1" ?r] True wf obtain r2 where
        r2: "replace_loop A PS (x @ NUL # z) (length x) (int (pos + 1)) (Some ?r) = Some (Some r2)" "str_wf r2"
        "str_abs r2 \<noteq> Some []"
        "str_bytes (str_abs r2) = str_bytes (str_abs ?r) @ replace_ref PS (drop (pos + 1) x)"
        using diff_less_mono2 [of pos "pos + 1" "length x"] by force
      have "replace_ref PS (drop pos x) = x ! pos # replace_ref PS (drop (pos + 1) x)"
        using r'(7) [OF same(1)] True by (simp add: Cons_nth_drop_Suc [symmetric] replace_ref_miss)
      moreover have "int pos < INT_MAX" using True x(2) by simp
      ultimately show ?thesis using r2 abs True inner miss same
        by (subst replace_loop.simps) (simp add: mupnp_string_naddvalue_def nth_append add.commute)
    qed
  qed
qed

text \<open>The whole function, on a string that holds \<open>x\<close>.\<close>

lemma str_rep_buffer:
  assumes "str_wf s" and "str_abs s = Some x"
  obtains z where "sval s = Some (x @ NUL # z)" and "mupnp_string_length (Some s) = length x"
proof -
  from assms obtain b where b: "sval s = Some b" "take (valueSize s) b = x"
      "valueSize s < length b" "b ! valueSize s = NUL"
    by (auto simp: str_wf_def str_abs_def split: option.splits)
  then have "b = x @ NUL # drop (Suc (valueSize s)) b"
    by (metis append_take_drop_id Cons_nth_drop_Suc)
  with b show thesis by (intro that) (auto simp: mupnp_string_length_def)
qed

lemma string_replace_cases:
  assumes A: "total_allocator A" and ok: "patterns_ok ps"
    and wf: "str_wf s" and abs: "str_abs s = Some x" and x: "nul_free x" "int (length x) \<le> INT_MAX"
  obtains s' where "mupnp_string_replace A (Some s) ps = Some (Some s')" and "str_wf s'"
    and "str_abs s' = Some (if replace_ref ps x = [] then x else replace_ref ps x)"
proof -
  obtain z where z: "sval s = Some (x @ NUL # z)" "mupnp_string_length (Some s) = length x"
    using wf abs by (rule str_rep_buffer)
  have new: "mupnp_string_new A = Some str_empty"
    using A by (simp add: mupnp_string_new_def total_allocator_def str_empty_def)
  obtain r where r: "replace_loop A ps (x @ NUL # z) (length x) 0 (Some str_empty) = Some (Some r)"
      "str_wf r" "str_abs r \<noteq> Some []" "str_bytes (str_abs r) = replace_ref ps x"
    using replace_loop_correct [OF A ok x, of 0 str_empty z] by auto
  have eq: "mupnp_string_replace A (Some s) ps
      = Some (mupnp_string_setvalue A (Some s) (map_option cstr (mupnp_string_getvalue (Some r))))"
    using r(1) z new A by (simp add: mupnp_string_replace_def Let_def total_allocator_def)
  show thesis
  proof (cases "str_abs r")
    case None
    then have "sval r = None" by (simp add: str_abs_def)
    with eq r None wf abs show thesis
      by (intro that [of s]) (auto simp: mupnp_string_setvalue_def mupnp_string_getvalue_def)
  next
    case (Some y)
    with r have y: "y = replace_ref ps x" "y \<noteq> []" by auto
    with ok x have "nul_free y" by (simp add: nul_free_replace_ref)
    with r(2) Some have "map_option cstr (mupnp_string_getvalue (Some r)) = Some y"
      by (rule getvalue_cstr)
    with eq have "mupnp_string_replace A (Some s) ps = Some (Some (string_setn A s (Some y)))"
      by (simp add: mupnp_string_setvalue_def mupnp_string_setnvalue_def)
    with y A wf show thesis
      by (intro that [of "string_setn A s (Some y)"]) (auto simp: str_wf_setn str_abs_setn)
  qed
qed

end
