(* ===== verification/XmlFunction.thy ===== *)
theory XmlFunction
  imports StringReplace
begin

section \<open>XML escaping (src/mupnp/xml/xml_function.c)\<close>

text \<open>
  \<open>mupnp_xml_escapechars\<close> and \<open>mupnp_xml_unescapechars\<close> run \<open>mupnp_string_replace\<close> with the
  two tables of the source.  \<open>xml_esc\<close> is the abstract specification, one character at a time;
  the two functions are shown to compute \<open>xml_esc_string\<close> and its inverse.
\<close>

definition xml_escape_table :: "(cstring \<times> cstring) list" where
  "xml_escape_table =
     zip [''&'', ''>'', ''<'', [CHR 0x22], [CHR 0x27]]
         [''&amp;'', ''&gt;'', ''&lt;'', ''&quot;'', ''&apos;'']"

definition mupnp_xml_escapechars :: "allocator \<Rightarrow> mUpnpString option \<Rightarrow> mUpnpString option option" where
  "mupnp_xml_escapechars A str = mupnp_string_replace A str xml_escape_table"

definition xml_unescape_table :: "(cstring \<times> cstring) list" where
  "xml_unescape_table =
     zip [''&amp;'', ''&gt;'', ''&lt;'', ''&quot;'', ''&apos;'']
         [''&'', ''>'', ''<'', [CHR 0x22], [CHR 0x27]]"

definition mupnp_xml_unescapechars :: "allocator \<Rightarrow> mUpnpString option \<Rightarrow> mUpnpString option option" where
  "mupnp_xml_unescapechars A str = mupnp_string_replace A str xml_unescape_table"

subsection \<open>Specification\<close>

definition xml_esc :: "char \<Rightarrow> cstring" where
  "xml_esc c =
     (if c = CHR ''&'' then ''&amp;'' else if c = CHR ''>'' then ''&gt;''
      else if c = CHR ''<'' then ''&lt;'' else if c = CHR 0x22 then ''&quot;''
      else if c = CHR 0x27 then ''&apos;'' else [c])"

definition xml_esc_string :: "cstring \<Rightarrow> cstring" where
  "xml_esc_string s = concat (map xml_esc s)"

lemma xml_esc_ne [simp]: "xml_esc c \<noteq> []"
  by (simp add: xml_esc_def)

lemma xml_esc_string_simps [simp]:
  "xml_esc_string [] = []" "xml_esc_string (c # s) = xml_esc c @ xml_esc_string s"
  by (simp_all add: xml_esc_string_def)

lemma xml_esc_string_eq_Nil [simp]: "xml_esc_string s = [] \<longleftrightarrow> s = []"
  by (cases s) auto

lemma nul_free_xml_esc_string: "nul_free s \<Longrightarrow> nul_free (xml_esc_string s)"
  by (induction s) (auto simp: xml_esc_def)

lemma xml_escape_ok: "patterns_ok xml_escape_table"
  and xml_unescape_ok: "patterns_ok xml_unescape_table"
  by (simp_all add: patterns_ok_def xml_escape_table_def xml_unescape_table_def)

lemma xml_escape_ref: "replace_ref xml_escape_table s = xml_esc_string s"
proof (induction s)
  case (Cons c s)
  show ?case
  proof (cases "xml_esc c = [c]")
    case True
    then have "\<forall>(f, t) \<in> set xml_escape_table. \<not> prefix f (c # s)"
      by (auto simp: xml_escape_table_def xml_esc_def split: if_splits)
    with Cons.IH True show ?thesis by (simp add: replace_ref_miss)
  next
    case False
    then have "([c], xml_esc c) \<in> set xml_escape_table"
      by (auto simp: xml_escape_table_def xml_esc_def split: if_splits)
    from replace_ref_hit [OF xml_escape_ok this, of "c # s"] Cons.IH show ?thesis by simp
  qed
qed simp

lemma xml_unescape_ref: "replace_ref xml_unescape_table (xml_esc_string s) = s"
proof (induction s)
  case (Cons c s)
  show ?case
  proof (cases "xml_esc c = [c]")
    case True
    then have "\<forall>(f, t) \<in> set xml_unescape_table. \<not> prefix f (c # xml_esc_string s)"
      by (auto simp: xml_unescape_table_def xml_esc_def split: if_splits)
    with Cons.IH True show ?thesis by (simp add: replace_ref_miss)
  next
    case False
    then have "(xml_esc c, [c]) \<in> set xml_unescape_table"
      by (auto simp: xml_unescape_table_def xml_esc_def split: if_splits)
    from replace_ref_hit [OF xml_unescape_ok this, of "xml_esc_string (c # s)"] Cons.IH
    show ?thesis by simp
  qed
qed simp

text \<open>The escaped text has none of the characters with a meaning in XML, except in entities.\<close>

lemma xml_esc_string_safe:
  "set (xml_esc_string s) \<inter> {CHR ''<'', CHR ''>'', CHR 0x22, CHR 0x27} = {}"
  by (induction s) (auto simp: xml_esc_def split: if_splits)

lemma length_xml_esc_string: "length x \<le> length (xml_esc_string x)"
proof (induction x)
  case (Cons c x)
  moreover have "0 < length (xml_esc c)" by simp
  ultimately show ?case by (simp del: length_greater_0_conv)
qed simp

lemma escapechars_cases:
  assumes "total_allocator A" and "str_wf s" and "str_abs s = Some x" and "nul_free x" and "int (length x) \<le> INT_MAX"
  obtains s' where "mupnp_xml_escapechars A (Some s) = Some (Some s')" and "str_wf s'"
    and "str_abs s' = Some (xml_esc_string x)"
  using string_replace_cases [OF assms(1) xml_escape_ok assms(2-5), of thesis]
  by (auto simp: xml_escape_ref mupnp_xml_escapechars_def split: if_splits)

lemma unescapechars_cases:
  assumes "total_allocator A" and "str_wf s" and "str_abs s = Some (xml_esc_string x)" and "nul_free x"
    and "int (length (xml_esc_string x)) \<le> INT_MAX"
  obtains s' where "mupnp_xml_unescapechars A (Some s) = Some (Some s')" and "str_wf s'"
    and "str_abs s' = Some x"
  using string_replace_cases [OF assms(1) xml_unescape_ok assms(2,3) nul_free_xml_esc_string [OF assms(4)]
      assms(5), of thesis]
  by (auto simp: xml_unescape_ref mupnp_xml_unescapechars_def split: if_splits)

section \<open>Properties\<close>

text \<open>C22: escaping a string that holds \<open>x\<close> ends, leaves a well-formed string that holds the
  character-wise escaping of \<open>x\<close>, in which no markup character is left; unescaping the result
  gives \<open>x\<close> back.  The positions in a string are of type \<open>int\<close>, so the escaped text is taken to
  have at most \<open>2 ^ 31 - 1\<close> bytes.\<close>

theorem xml_escape_roundtrip:
  assumes "total_allocator A" and "str_wf s" and "str_abs s = Some x" and "nul_free x"
    and "int (length (concat (map xml_esc x))) \<le> INT_MAX"
  shows "\<exists>s1 s2. mupnp_xml_escapechars A (Some s) = Some (Some s1) \<and> str_wf s1 \<and>
      str_abs s1 = Some (concat (map xml_esc x)) \<and>
      set (concat (map xml_esc x)) \<inter> {CHR ''<'', CHR ''>'', CHR 0x22, CHR 0x27} = {} \<and>
      mupnp_xml_unescapechars A (Some s1) = Some (Some s2) \<and> str_wf s2 \<and> str_abs s2 = Some x"
proof -
  have len: "int (length (xml_esc_string x)) \<le> INT_MAX" using assms(5) by (simp add: xml_esc_string_def)
  then have "int (length x) \<le> INT_MAX" using length_xml_esc_string [of x] by simp
  with assms(1-4) obtain s1 where s1: "mupnp_xml_escapechars A (Some s) = Some (Some s1)" "str_wf s1"
      "str_abs s1 = Some (xml_esc_string x)"
    by (rule escapechars_cases)
  from assms(1) s1(2,3) assms(4) len obtain s2 where
    "mupnp_xml_unescapechars A (Some s1) = Some (Some s2)" "str_wf s2" "str_abs s2 = Some x"
    by (rule unescapechars_cases)
  with s1 xml_esc_string_safe [of x] show ?thesis by (auto simp: xml_esc_string_def)
qed

definition ex_string :: mUpnpString where
  "ex_string = \<lparr>sval = Some (''a<b&c'' @ [NUL]), memSize = 6, valueSize = 5\<rparr>"

lemma ex_string_props: "str_wf ex_string" "str_abs ex_string = Some ''a<b&c''" "nul_free ''a<b&c''"
  by (simp_all add: ex_string_def str_wf_def str_abs_def)

theorem xml_escape_roundtrip_witness:
  "\<exists>s1 s2. mupnp_xml_escapechars eager (Some ex_string) = Some (Some s1) \<and> str_wf s1 \<and>
      str_abs s1 = Some (concat (map xml_esc ''a<b&c'')) \<and>
      set (concat (map xml_esc ''a<b&c'')) \<inter> {CHR ''<'', CHR ''>'', CHR 0x22, CHR 0x27} = {} \<and>
      mupnp_xml_unescapechars eager (Some s1) = Some (Some s2) \<and> str_wf s2 \<and> str_abs s2 = Some ''a<b&c''"
  by (rule xml_escape_roundtrip [OF total_eager ex_string_props]) (simp add: xml_esc_def INT_MAX_def)

end
