(* ===== verification/Xml.thy ===== *)
theory Xml
  imports StringFunction Interfaces XmlFunction
begin

section \<open>XML trees (src/mupnp/xml/xml_node.c, xml_node_list.c, xml_attribute.c, xml_attribute_list.c)\<close>

text \<open>
  A node is its name, value, attributes and child nodes; the pointer of a child to its parent
  is its position in the tree, and user data is left out.  Searches return the position of the
  child or attribute they find.  Text is collected in a growable string (\<open>Interfaces\<close>) whose
  allocations succeed.
\<close>

record mUpnpXmlAttribute =
  aname :: charptr
  avalue :: charptr

datatype mUpnpXmlNode =
  XmlNode (xname: charptr) (xvalue: charptr) (xattrs: "mUpnpXmlAttribute list") (xnodes: "mUpnpXmlNode list")

subsection \<open>Attributes\<close>

definition mupnp_xml_attribute_new :: mUpnpXmlAttribute where
  "mupnp_xml_attribute_new = \<lparr>aname = None, avalue = None\<rparr>"

definition mupnp_xml_attribute_setname :: "mUpnpXmlAttribute \<Rightarrow> charptr \<Rightarrow> mUpnpXmlAttribute" where
  "mupnp_xml_attribute_setname attr name = attr\<lparr>aname := str_set (aname attr) name\<rparr>"

definition mupnp_xml_attribute_getname :: "mUpnpXmlAttribute \<Rightarrow> charptr" where
  "mupnp_xml_attribute_getname attr = aname attr"

definition mupnp_xml_attribute_isname :: "mUpnpXmlAttribute \<Rightarrow> charptr \<Rightarrow> bool" where
  "mupnp_xml_attribute_isname attr name \<longleftrightarrow> mupnp_strcmp (mupnp_xml_attribute_getname attr) name = 0"

definition mupnp_xml_attribute_setvalue :: "mUpnpXmlAttribute \<Rightarrow> charptr \<Rightarrow> mUpnpXmlAttribute" where
  "mupnp_xml_attribute_setvalue attr v = attr\<lparr>avalue := str_set (avalue attr) v\<rparr>"

definition mupnp_xml_attribute_getvalue :: "mUpnpXmlAttribute \<Rightarrow> charptr" where
  "mupnp_xml_attribute_getvalue attr = avalue attr"

fun attributelist_find :: "mUpnpXmlAttribute list \<Rightarrow> charptr \<Rightarrow> nat option" where
  "attributelist_find [] name = None"
| "attributelist_find (attr # attrs) name =
     (if mupnp_xml_attribute_getname attr \<noteq> None \<and> mupnp_strcasecmp (mupnp_xml_attribute_getname attr) name = 0
      then Some 0 else map_option Suc (attributelist_find attrs name))"

definition mupnp_xml_attributelist_get :: "mUpnpXmlAttribute list \<Rightarrow> charptr \<Rightarrow> nat option" where
  "mupnp_xml_attributelist_get attrList name = (if name = None then None else attributelist_find attrList name)"

definition mupnp_xml_attributelist_set ::
    "mUpnpXmlAttribute list \<Rightarrow> charptr \<Rightarrow> charptr \<Rightarrow> bool \<times> mUpnpXmlAttribute list" where
  "mupnp_xml_attributelist_set attrList name v =
     (if name = None then (False, attrList)
      else case mupnp_xml_attributelist_get attrList name of
        None \<Rightarrow> (True, attrList @ [mupnp_xml_attribute_setvalue (mupnp_xml_attribute_setname mupnp_xml_attribute_new name) v])
      | Some i \<Rightarrow> (True, attrList[i := mupnp_xml_attribute_setvalue (attrList ! i) v]))"

definition mupnp_xml_attributelist_getvalue :: "mUpnpXmlAttribute list \<Rightarrow> charptr \<Rightarrow> charptr" where
  "mupnp_xml_attributelist_getvalue attrList name =
     (case mupnp_xml_attributelist_get attrList name of
        None \<Rightarrow> None | Some i \<Rightarrow> mupnp_xml_attribute_getvalue (attrList ! i))"

subsection \<open>Nodes\<close>

definition mupnp_xml_node_new :: mUpnpXmlNode where
  "mupnp_xml_node_new = XmlNode None None [] []"

fun mupnp_xml_node_setname :: "mUpnpXmlNode \<Rightarrow> charptr \<Rightarrow> mUpnpXmlNode" where
  "mupnp_xml_node_setname (XmlNode n v as cs) name = XmlNode (str_set n name) v as cs"

fun mupnp_xml_node_setvalue :: "mUpnpXmlNode \<Rightarrow> charptr \<Rightarrow> mUpnpXmlNode" where
  "mupnp_xml_node_setvalue (XmlNode n v as cs) val = XmlNode n (str_set v val) as cs"

fun mupnp_xml_node_naddvalue :: "mUpnpXmlNode \<Rightarrow> charptr \<Rightarrow> mUpnpXmlNode" where
  "mupnp_xml_node_naddvalue (XmlNode n v as cs) val = XmlNode n (str_add v val) as cs"

definition mupnp_xml_node_isname :: "mUpnpXmlNode \<Rightarrow> charptr \<Rightarrow> bool" where
  "mupnp_xml_node_isname node name \<longleftrightarrow> mupnp_strcmp (xname node) name = 0"

fun mupnp_xml_node_setattribute :: "mUpnpXmlNode \<Rightarrow> charptr \<Rightarrow> charptr \<Rightarrow> bool \<times> mUpnpXmlNode" where
  "mupnp_xml_node_setattribute (XmlNode n v as cs) name val =
     (case mupnp_xml_attributelist_set as name val of (ok, as') \<Rightarrow> (ok, XmlNode n v as' cs))"

definition mupnp_xml_node_getattributevalue :: "mUpnpXmlNode \<Rightarrow> charptr \<Rightarrow> charptr" where
  "mupnp_xml_node_getattributevalue node name = mupnp_xml_attributelist_getvalue (xattrs node) name"

definition mupnp_xml_node_setnamespace :: "mUpnpXmlNode \<Rightarrow> cstring \<Rightarrow> charptr \<Rightarrow> mUpnpXmlNode" where
  "mupnp_xml_node_setnamespace node ns val = snd (mupnp_xml_node_setattribute node (Some (''xmlns:'' @ ns)) val)"

fun mupnp_xml_node_removeattribute :: "mUpnpXmlNode \<Rightarrow> charptr \<Rightarrow> bool \<times> mUpnpXmlNode" where
  "mupnp_xml_node_removeattribute (XmlNode n v as cs) name =
     (if name = None then (False, XmlNode n v as cs)
      else case mupnp_xml_attributelist_get as name of
        None \<Rightarrow> (False, XmlNode n v as cs)
      | Some i \<Rightarrow> (True, XmlNode n v (take i as @ drop (i + 1) as) cs))"

fun nodelist_find :: "mUpnpXmlNode list \<Rightarrow> charptr \<Rightarrow> nat option" where
  "nodelist_find [] name = None"
| "nodelist_find (node # nodes) name =
     (if xname node \<noteq> None \<and> mupnp_strcasecmp (xname node) name = 0
      then Some 0 else map_option Suc (nodelist_find nodes name))"

definition mupnp_xml_nodelist_getbyname :: "mUpnpXmlNode list \<Rightarrow> charptr \<Rightarrow> nat option" where
  "mupnp_xml_nodelist_getbyname nodeList name = (if name = None then None else nodelist_find nodeList name)"

definition mupnp_xml_nodelist_getbyxpath :: "mUpnpXmlNode list \<Rightarrow> charptr \<Rightarrow> nat option" where
  "mupnp_xml_nodelist_getbyxpath nodeList name = (if name = None then None else nodelist_find nodeList name)"

text \<open>Nodes may be NULL in the functions that follow.\<close>

definition mupnp_xml_node_getchildnodes :: "mUpnpXmlNode option \<Rightarrow> mUpnpXmlNode list" where
  "mupnp_xml_node_getchildnodes node = (case node of None \<Rightarrow> [] | Some x \<Rightarrow> xnodes x)"

definition mupnp_xml_node_haschildnodes :: "mUpnpXmlNode option \<Rightarrow> bool" where
  "mupnp_xml_node_haschildnodes node \<longleftrightarrow> mupnp_xml_node_getchildnodes node \<noteq> []"

definition mupnp_xml_node_getchildnodebyname :: "mUpnpXmlNode option \<Rightarrow> charptr \<Rightarrow> nat option" where
  "mupnp_xml_node_getchildnodebyname node name =
     (case node of None \<Rightarrow> None | Some x \<Rightarrow> if name = None then None else mupnp_xml_nodelist_getbyname (xnodes x) name)"

text \<open>The child itself, for callers that only read it.\<close>

definition xml_child :: "mUpnpXmlNode option \<Rightarrow> charptr \<Rightarrow> mUpnpXmlNode option" where
  "xml_child node name =
     map_option (\<lambda>i. mupnp_xml_node_getchildnodes node ! i) (mupnp_xml_node_getchildnodebyname node name)"

definition mupnp_xml_node_getchildnodevalue :: "mUpnpXmlNode option \<Rightarrow> charptr \<Rightarrow> charptr" where
  "mupnp_xml_node_getchildnodevalue node name =
     (case xml_child node name of Some c \<Rightarrow> xvalue c | None \<Rightarrow> None)"

fun mupnp_xml_node_addchildnode :: "mUpnpXmlNode \<Rightarrow> mUpnpXmlNode \<Rightarrow> mUpnpXmlNode" where
  "mupnp_xml_node_addchildnode (XmlNode n v as cs) cnode = XmlNode n v as (cs @ [cnode])"

fun xml_replace_child :: "mUpnpXmlNode \<Rightarrow> nat \<Rightarrow> mUpnpXmlNode \<Rightarrow> mUpnpXmlNode" where
  "xml_replace_child (XmlNode n v as cs) i c = XmlNode n v as (cs[i := c])"

definition mupnp_xml_node_setchildnode :: "mUpnpXmlNode \<Rightarrow> charptr \<Rightarrow> charptr \<Rightarrow> mUpnpXmlNode" where
  "mupnp_xml_node_setchildnode node name val =
     (case mupnp_xml_node_getchildnodebyname (Some node) name of
        Some i \<Rightarrow> xml_replace_child node i (mupnp_xml_node_setvalue (xnodes node ! i) val)
      | None \<Rightarrow> mupnp_xml_node_addchildnode node
          (mupnp_xml_node_setvalue (mupnp_xml_node_setname mupnp_xml_node_new name) val))"

fun mupnp_xml_node_removechildnode :: "mUpnpXmlNode \<Rightarrow> charptr \<Rightarrow> bool \<times> mUpnpXmlNode" where
  "mupnp_xml_node_removechildnode (XmlNode n v as cs) name =
     (case mupnp_xml_node_getchildnodebyname (Some (XmlNode n v as cs)) name of
        None \<Rightarrow> (False, XmlNode n v as cs)
      | Some i \<Rightarrow> (True, XmlNode n v as (take i cs @ drop (i + 1) cs)))"

text \<open>The two searches of \<open>getchildnodewithnamespace\<close>; the name is what follows the first colon.\<close>

definition xml_local_name :: "charptr \<Rightarrow> charptr" where
  "xml_local_name nodeName =
     (let nameIdx = mupnp_strstr nodeName (Some '':'')
      in if nameIdx < 0 then nodeName else map_option (drop (nat nameIdx + 1)) nodeName)"

fun nodelist_find_local :: "mUpnpXmlNode list \<Rightarrow> charptr \<Rightarrow> nat option" where
  "nodelist_find_local [] name = None"
| "nodelist_find_local (child # nodes) name =
     (if xname child \<noteq> None \<and> mupnp_strcasecmp (xml_local_name (xname child)) name = 0
      then Some 0 else map_option Suc (nodelist_find_local nodes name))"

definition mupnp_xml_node_getchildnodewithnamespace ::
    "mUpnpXmlNode option \<Rightarrow> charptr \<Rightarrow> charptr \<Rightarrow> bool \<Rightarrow> nat option" where
  "mupnp_xml_node_getchildnodewithnamespace node name ns ignoreNs =
     (case (node, name) of
        (Some x, Some n) \<Rightarrow>
          if ignoreNs then nodelist_find_local (xnodes x) name
          else (case ns of
                  None \<Rightarrow> mupnp_xml_node_getchildnodebyname node name
                | Some s \<Rightarrow> mupnp_xml_node_getchildnodebyname node (Some (s @ '':'' @ n)))
      | _ \<Rightarrow> None)"

text \<open>Copying adds to what the destination has.\<close>

definition xml_copy_attribute :: "mUpnpXmlNode \<Rightarrow> mUpnpXmlAttribute \<Rightarrow> mUpnpXmlNode" where
  "xml_copy_attribute dst attr = snd (mupnp_xml_node_setattribute dst (aname attr) (avalue attr))"

fun mupnp_xml_node_copy :: "mUpnpXmlNode \<Rightarrow> mUpnpXmlNode \<Rightarrow> mUpnpXmlNode" where
  "mupnp_xml_node_copy dstNode (XmlNode n v as cs) =
     foldl mupnp_xml_node_addchildnode
       (foldl xml_copy_attribute (mupnp_xml_node_setvalue (mupnp_xml_node_setname dstNode n) v) as)
       (map (mupnp_xml_node_copy mupnp_xml_node_new) cs)"

subsection \<open>Printing\<close>

definition str_escape :: "charptr \<Rightarrow> charptr" where
  "str_escape s = map_option xml_esc_string s"

text \<open>One string, \<open>valueStr\<close>, is used for the values of all attributes of a node.\<close>

fun attribute_tostring :: "mUpnpXmlAttribute list \<Rightarrow> charptr \<Rightarrow> charptr \<Rightarrow> charptr" where
  "attribute_tostring [] valueStr str = str"
| "attribute_tostring (attr # attrs) valueStr str =
     (let valueStr = str_escape (str_set valueStr (mupnp_xml_attribute_getvalue attr));
          str = foldl str_add str [Some '' '', mupnp_xml_attribute_getname attr, Some (''='' @ [CHR 0x22]), valueStr, Some [CHR 0x22]]
      in attribute_tostring attrs valueStr str)"

definition mupnp_xml_node_attribute_tostring :: "mUpnpXmlNode \<Rightarrow> charptr \<Rightarrow> charptr" where
  "mupnp_xml_node_attribute_tostring node str = attribute_tostring (xattrs node) None str"

definition xml_indent :: "charptr \<Rightarrow> nat \<Rightarrow> charptr" where
  "xml_indent str indentLevel = foldl str_add str (replicate indentLevel (Some '' ''))"

fun mupnp_xml_node_tostring_indent :: "nat \<Rightarrow> bool \<Rightarrow> mUpnpXmlNode \<Rightarrow> charptr \<Rightarrow> charptr" where
  "mupnp_xml_node_tostring_indent indentLevel withChildNode (XmlNode n v as cs) str =
     (if cs = [] \<or> \<not> withChildNode then
        let str = foldl str_add (xml_indent str indentLevel) [Some ''<'', n];
            str = mupnp_xml_node_attribute_tostring (XmlNode n v as cs) str
        in foldl str_add str [Some ''>'', str_escape (str_set None v), Some ''</'', n, Some ''>'', Some [CHR 0x0A]]
      else
        let str = foldl str_add (xml_indent str indentLevel) [Some ''<'', n];
            str = mupnp_xml_node_attribute_tostring (XmlNode n v as cs) str;
            str = foldl str_add str [Some ''>'', Some [CHR 0x0A]];
            str = foldl (\<lambda>str print. print str) str (map (mupnp_xml_node_tostring_indent (indentLevel + 1) True) cs);
            str = xml_indent str indentLevel
        in foldl str_add str [Some ''</'', n, Some ''>'', Some [CHR 0x0A]])"

definition mupnp_xml_node_tostring :: "mUpnpXmlNode \<Rightarrow> bool \<Rightarrow> charptr \<Rightarrow> charptr" where
  "mupnp_xml_node_tostring node withChildNode str = mupnp_xml_node_tostring_indent 0 withChildNode node str"

end
