(* ===== verification/UpnpTypes.thy ===== *)
theory UpnpTypes
  imports StringFunction Interfaces
begin

section \<open>Type strings, search targets and identifiers of UPnP\<close>

text \<open>
  The parsers of device types (src/mupnp/device.c) and service types (src/mupnp/service.c), the
  predicates on search and notification targets (include/mupnp/control/control.h), the UDN of a
  USN (src/mupnp/control/control_function.c), the status texts (src/mupnp/upnp_status.c) and the
  configuration id (src/mupnp/upnp_function.c).
\<close>

subsection \<open>Type strings\<close>

text \<open>The loop that looks for the lastc character in front of a colon, and the loop that skips
  \<open>count\<close> colons and one more.  The second stops at the colon with the given number.  The counters are of type
  \<open>int\<close>, so the model is for strings of less than \<open>2 ^ 31\<close> characters.\<close>

function type_tail_loop :: "cstring \<Rightarrow> nat \<Rightarrow> int" where
  "type_tail_loop s tail =
     (if tail < length s then
        if s ! tail = CHR '':'' then int tail - 1 else type_tail_loop s (tail + 1)
      else int tail)"
  by pat_completeness auto
termination by (relation "measure (\<lambda>(s, i). length s - i)") auto

function type_head_loop :: "cstring \<Rightarrow> nat \<Rightarrow> nat \<Rightarrow> nat \<Rightarrow> nat" where
  "type_head_loop s head count lastc =
     (if head < length s then
        if s ! head = CHR '':'' then
          if count = lastc then head + 1 else type_head_loop s (head + 1) (count + 1) lastc
        else type_head_loop s (head + 1) count lastc
      else head)"
  by pat_completeness auto
termination by (relation "measure (\<lambda>(s, i, c, l). length s - i)") auto

function type_colon_loop :: "cstring \<Rightarrow> nat \<Rightarrow> nat \<Rightarrow> nat \<Rightarrow> int" where
  "type_colon_loop s tail count lastc =
     (if tail < length s then
        if s ! tail = CHR '':'' then
          if count = lastc then int tail - 1 else type_colon_loop s (tail + 1) (count + 1) lastc
        else type_colon_loop s (tail + 1) count lastc
      else int tail)"
  by pat_completeness auto
termination by (relation "measure (\<lambda>(s, i, c, l). length s - i)") auto

declare type_tail_loop.simps [simp del] type_head_loop.simps [simp del] type_colon_loop.simps [simp del]

text \<open>The copy of \<open>n\<close> characters into a new buffer of \<open>n + 1\<close>.\<close>

definition type_part :: "cstring \<Rightarrow> nat \<Rightarrow> nat \<Rightarrow> charptr" where
  "type_part s head n =
     map_option (\<lambda>part. cstr (part[n := NUL])) (mupnp_strncpy (replicate (n + 1) (CHR ''?'')) 0 (drop head s) n)"

definition mupnp_servicetype_getidentifier :: "charptr \<Rightarrow> charptr" where
  "mupnp_servicetype_getidentifier serviceType =
     (case serviceType of None \<Rightarrow> None
      | Some s \<Rightarrow>
          let tail = type_tail_loop s 0
          in if tail > 0 \<and> tail < int (length s) then type_part s 0 (nat tail + 1) else None)"

text \<open>The functions for one part; \<open>lastc\<close> is the number of the colon in front of it.\<close>

definition type_middle :: "charptr \<Rightarrow> nat \<Rightarrow> charptr" where
  "type_middle typeString lastc =
     (case typeString of None \<Rightarrow> None
      | Some s \<Rightarrow>
          let head = type_head_loop s 0 0 lastc; tail = type_tail_loop s head
          in if head > 0 \<and> head < length s \<and> tail > 0 \<and> tail < int (length s)
             then type_part s head (nat (tail - int head + 1)) else None)"

definition mupnp_servicetype_geturn :: "charptr \<Rightarrow> charptr" where
  "mupnp_servicetype_geturn serviceType = type_middle serviceType 0"

definition mupnp_servicetype_getservice :: "charptr \<Rightarrow> charptr" where
  "mupnp_servicetype_getservice serviceType = type_middle serviceType 1"

definition mupnp_servicetype_gettype :: "charptr \<Rightarrow> charptr" where
  "mupnp_servicetype_gettype serviceType = type_middle serviceType 2"

definition mupnp_servicetype_getschematype :: "charptr \<Rightarrow> charptr" where
  "mupnp_servicetype_getschematype serviceType =
     (case serviceType of None \<Rightarrow> None
      | Some s \<Rightarrow>
          let tail = type_colon_loop s 0 0 3
          in if tail > 0 \<and> tail < int (length s) then type_part s 0 (nat tail + 1) else None)"

definition mupnp_servicetype_getversion :: "charptr \<Rightarrow> charptr" where
  "mupnp_servicetype_getversion serviceType =
     (case serviceType of None \<Rightarrow> None
      | Some s \<Rightarrow>
          let head = type_head_loop s 0 0 3; tail = type_tail_loop s head
          in if head > 0 \<and> head < length s \<and> tail > 0 \<and> tail \<le> int (length s)
             then type_part s head (nat (tail - int head + 1)) else None)"

text \<open>
  The parsers of device types count with \<open>size_t\<close>: one less than 0 is the largest value, which
  is not below the length.
\<close>

definition size_index :: "int \<Rightarrow> nat" where
  "size_index tail = unat (word_of_int tail :: 64 word)"

definition mupnp_devicetype_getidentifier :: "charptr \<Rightarrow> charptr" where
  "mupnp_devicetype_getidentifier deviceType =
     (case deviceType of None \<Rightarrow> None
      | Some s \<Rightarrow>
          let tail = size_index (type_tail_loop s 0)
          in if tail > 0 \<and> tail < length s then type_part s 0 (tail + 1) else None)"

definition devicetype_middle :: "charptr \<Rightarrow> nat \<Rightarrow> charptr" where
  "devicetype_middle typeString lastc =
     (case typeString of None \<Rightarrow> None
      | Some s \<Rightarrow>
          let head = type_head_loop s 0 0 lastc; tail = size_index (type_tail_loop s head)
          in if head > 0 \<and> head < length s \<and> tail > 0 \<and> tail < length s
             then type_part s head (tail + 1 - head) else None)"

definition mupnp_devicetype_geturn :: "charptr \<Rightarrow> charptr" where
  "mupnp_devicetype_geturn deviceType = devicetype_middle deviceType 0"

definition mupnp_devicetype_getdevice :: "charptr \<Rightarrow> charptr" where
  "mupnp_devicetype_getdevice deviceType = devicetype_middle deviceType 1"

definition mupnp_devicetype_gettype :: "charptr \<Rightarrow> charptr" where
  "mupnp_devicetype_gettype deviceType = devicetype_middle deviceType 2"

definition mupnp_devicetype_getschematype :: "charptr \<Rightarrow> charptr" where
  "mupnp_devicetype_getschematype deviceType =
     (case deviceType of None \<Rightarrow> None
      | Some s \<Rightarrow>
          let tail = size_index (type_colon_loop s 0 0 3)
          in if tail > 0 \<and> tail < length s then type_part s 0 (tail + 1) else None)"

definition mupnp_devicetype_getversion :: "charptr \<Rightarrow> charptr" where
  "mupnp_devicetype_getversion deviceType =
     (case deviceType of None \<Rightarrow> None
      | Some s \<Rightarrow>
          let head = type_head_loop s 0 0 3; tail = size_index (type_tail_loop s head)
          in if head > 0 \<and> head < length s \<and> tail > 0 \<and> tail \<le> length s
             then type_part s head (tail + 1 - head) else None)"

subsection \<open>Targets\<close>

definition MUPNP_ST_ALL_DEVICE :: cstring where "MUPNP_ST_ALL_DEVICE = ''ssdp:all''"
definition MUPNP_ST_ROOT_DEVICE :: cstring where "MUPNP_ST_ROOT_DEVICE = ''upnp:rootdevice''"
definition MUPNP_ST_UUID_DEVICE :: cstring where "MUPNP_ST_UUID_DEVICE = ''uuid''"
definition MUPNP_ST_URN :: cstring where "MUPNP_ST_URN = ''urn''"
definition MUPNP_MAN_DISCOVER :: cstring where "MUPNP_MAN_DISCOVER = [CHR 0x22] @ ''ssdp:discover'' @ [CHR 0x22]"
definition MUPNP_NTS_ALIVE :: cstring where "MUPNP_NTS_ALIVE = ''ssdp:alive''"
definition MUPNP_NTS_BYEBYE :: cstring where "MUPNP_NTS_BYEBYE = ''ssdp:byebye''"
definition MUPNP_NT_EVENT :: cstring where "MUPNP_NT_EVENT = ''upnp:event''"
definition MUPNP_NTS_PROPCHANGE :: cstring where "MUPNP_NTS_PROPCHANGE = ''upnp:propchange''"

definition mupnp_st_isalldevice :: "charptr \<Rightarrow> bool" where
  "mupnp_st_isalldevice str \<longleftrightarrow> 0 \<le> mupnp_strstr str (Some MUPNP_ST_ALL_DEVICE)"

definition mupnp_st_isrootdevice :: "charptr \<Rightarrow> bool" where
  "mupnp_st_isrootdevice str \<longleftrightarrow> 0 \<le> mupnp_strstr str (Some MUPNP_ST_ROOT_DEVICE)"

definition mupnp_nt_isrootdevice :: "charptr \<Rightarrow> bool" where
  "mupnp_nt_isrootdevice str \<longleftrightarrow> 0 \<le> mupnp_strstr str (Some MUPNP_ST_ROOT_DEVICE)"

definition mupnp_usn_isrootdevice :: "charptr \<Rightarrow> bool" where
  "mupnp_usn_isrootdevice str \<longleftrightarrow> 0 \<le> mupnp_strstr str (Some MUPNP_ST_ROOT_DEVICE)"

definition mupnp_st_isuuiddevice :: "charptr \<Rightarrow> bool" where
  "mupnp_st_isuuiddevice str \<longleftrightarrow> 0 \<le> mupnp_strstr str (Some MUPNP_ST_UUID_DEVICE)"

definition mupnp_st_isurn :: "charptr \<Rightarrow> bool" where
  "mupnp_st_isurn str \<longleftrightarrow> 0 \<le> mupnp_strstr str (Some MUPNP_ST_URN)"

definition mupnp_man_isdiscover :: "charptr \<Rightarrow> bool" where
  "mupnp_man_isdiscover str \<longleftrightarrow> 0 = mupnp_strstr str (Some MUPNP_MAN_DISCOVER)"

definition mupnp_nts_isalive :: "charptr \<Rightarrow> bool" where
  "mupnp_nts_isalive str \<longleftrightarrow> 0 \<le> mupnp_strstr str (Some MUPNP_NTS_ALIVE)"

definition mupnp_nts_isbyebye :: "charptr \<Rightarrow> bool" where
  "mupnp_nts_isbyebye str \<longleftrightarrow> 0 \<le> mupnp_strstr str (Some MUPNP_NTS_BYEBYE)"

text \<open>The text in the buffer of \<open>udnBufLen\<close> bytes; \<open>None\<close> is an access outside it.\<close>

definition udn_trim :: "buffer \<Rightarrow> cstring" where
  "udn_trim udnBuf = mupnp_strrtrim (cstr udnBuf) '' '' 1"

definition mupnp_usn_getudn :: "charptr \<Rightarrow> nat \<Rightarrow> cstring option" where
  "mupnp_usn_getudn usn udnBufLen =
     (let buf = replicate udnBufLen (CHR ''?'') in
      case usn of
        None \<Rightarrow> if udnBufLen = 0 then None else Some []
      | Some u \<Rightarrow>
          let idx = mupnp_strstr usn (Some ''::'') in
          if idx < 0 then
            map_option (\<lambda>b. udn_trim (b[udnBufLen - 1 := NUL])) (mupnp_strncpy buf 0 u udnBufLen)
          else if nat idx < udnBufLen then
            map_option (\<lambda>b. udn_trim (b[nat idx := NUL])) (mupnp_strncpy buf 0 u (nat idx))
          else
            map_option (\<lambda>b. udn_trim (b[udnBufLen - 1 := NUL])) (mupnp_strncpy buf 0 u udnBufLen))"

subsection \<open>Status texts and the configuration id\<close>

record mUpnpStatus =
  stCode :: int
  stDescription :: charptr

definition mupnp_status_new :: mUpnpStatus where
  "mupnp_status_new = \<lparr>stCode = 0, stDescription = None\<rparr>"

definition MUPNP_STATUS_INVALID_ACTION :: int where "MUPNP_STATUS_INVALID_ACTION = 401"
definition MUPNP_STATUS_INVALID_ARGS :: int where "MUPNP_STATUS_INVALID_ARGS = 402"
definition MUPNP_STATUS_OUT_OF_SYNC :: int where "MUPNP_STATUS_OUT_OF_SYNC = 403"
definition MUPNP_STATUS_INVALID_VAR :: int where "MUPNP_STATUS_INVALID_VAR = 404"
definition MUPNP_STATUS_ACTION_FAILED :: int where "MUPNP_STATUS_ACTION_FAILED = 501"

definition mupnp_status_code2string :: "int \<Rightarrow> cstring" where
  "mupnp_status_code2string code =
     (if code = MUPNP_STATUS_INVALID_ACTION then ''Invalid Action''
      else if code = MUPNP_STATUS_INVALID_ARGS then ''Invalid Args''
      else if code = MUPNP_STATUS_OUT_OF_SYNC then ''Out of Sync''
      else if code = MUPNP_STATUS_INVALID_VAR then ''Invalid Var''
      else if code = MUPNP_STATUS_ACTION_FAILED then ''Action Failed''
      else [])"

definition MUPNP_CONFIGID_UPNP_ORG_MAX :: int where "MUPNP_CONFIGID_UPNP_ORG_MAX = 16777215"

text \<open>\<open>char\<close> is signed; the remainder of the C language truncates towards 0, and the sums are
  within the range of \<open>int\<close>.\<close>

definition schar :: "char \<Rightarrow> int" where
  "schar c = (if byte_of c < 128 then int (byte_of c) else int (byte_of c) - 256)"

fun generateconfigid_loop :: "int \<Rightarrow> cstring \<Rightarrow> int" where
  "generateconfigid_loop configId [] = configId"
| "generateconfigid_loop configId (c # s) =
     (let configId = configId + schar c in
      if configId < MUPNP_CONFIGID_UPNP_ORG_MAX then generateconfigid_loop configId s
      else generateconfigid_loop (configId mod MUPNP_CONFIGID_UPNP_ORG_MAX) s)"

definition mupnp_generateconfigid :: "cstring \<Rightarrow> int" where
  "mupnp_generateconfigid string = generateconfigid_loop 0 string"

section \<open>The parts of a type string\<close>

lemma type_tail_colon:
  "CHR '':'' \<notin> set p \<Longrightarrow> type_tail_loop (h @ p @ CHR '':'' # r) (length h) = int (length h + length p) - 1"
proof (induction p arbitrary: h)
  case Nil
  show ?case by (subst type_tail_loop.simps) (simp add: nth_append)
next
  case (Cons c p)
  from Cons.IH [of "h @ [c]"] Cons.prems show ?case
    by (subst type_tail_loop.simps) (auto simp: nth_append)
qed

lemma type_tail_end: "CHR '':'' \<notin> set p \<Longrightarrow> type_tail_loop (h @ p) (length h) = int (length h + length p)"
proof (induction p arbitrary: h)
  case Nil
  show ?case by (subst type_tail_loop.simps) simp
next
  case (Cons c p)
  from Cons.IH [of "h @ [c]"] Cons.prems show ?case
    by (subst type_tail_loop.simps) (auto simp: nth_append)
qed

lemma type_head_part:
  "CHR '':'' \<notin> set p \<Longrightarrow>
   type_head_loop (h @ p @ CHR '':'' # r) (length h) count lastc =
     (if count = lastc then length h + length p + 1
      else type_head_loop (h @ p @ CHR '':'' # r) (length h + length p + 1) (count + 1) lastc)"
proof (induction p arbitrary: h)
  case Nil
  show ?case by (subst type_head_loop.simps) (simp add: nth_append)
next
  case (Cons c p)
  from Cons.IH [of "h @ [c]"] Cons.prems show ?case
    by (subst type_head_loop.simps) (auto simp: nth_append)
qed

lemma type_colon_part:
  "CHR '':'' \<notin> set p \<Longrightarrow>
   type_colon_loop (h @ p @ CHR '':'' # r) (length h) count lastc =
     (if count = lastc then int (length h + length p) - 1
      else type_colon_loop (h @ p @ CHR '':'' # r) (length h + length p + 1) (count + 1) lastc)"
proof (induction p arbitrary: h)
  case Nil
  show ?case by (subst type_colon_loop.simps) (simp add: nth_append)
next
  case (Cons c p)
  from Cons.IH [of "h @ [c]"] Cons.prems show ?case
    by (subst type_colon_loop.simps) (auto simp: nth_append)
qed

lemma type_part_take: "nul_free s \<Longrightarrow> type_part s h n = Some (take n (drop h s))"
proof -
  assume s: "nul_free s"
  let ?t = "take n (drop h s @ replicate n NUL)"
  have len: "length ?t = n" by simp
  have t: "?t = take n (drop h s) @ replicate (n - length (drop h s)) NUL" by simp
  have "drop n (replicate (n + 1) (CHR ''?'')) = [CHR ''?'']" by (simp add: drop_replicate del: replicate_Suc) simp
  then have "type_part s h n = Some (cstr ((?t @ [CHR ''?''])[n := NUL]))"
    by (simp add: type_part_def mupnp_strncpy_def del: replicate_Suc take_append)
  also have "(?t @ [CHR ''?''])[n := NUL] = ?t @ [NUL]" using len by (simp add: list_update_append del: take_append)
  also have "cstr (?t @ [NUL]) = take n (drop h s)"
    using s unfolding t by (cases "n - length (drop h s)") (simp_all add: nul_free_take nul_free_drop del: length_drop)
  finally show ?thesis .
qed

definition colon_free :: "cstring \<Rightarrow> bool" where
  "colon_free p \<longleftrightarrow> nul_free p \<and> CHR '':'' \<notin> set p"

lemma size_index_small: "0 \<le> i \<Longrightarrow> i < 2 ^ 64 \<Longrightarrow> size_index i = nat i"
  by (simp add: size_index_def unat_eq_nat_uint uint_word_of_int)

lemma type_string_loops:
  assumes "colon_free p0" "colon_free p1" "colon_free p2" "colon_free p3" "colon_free p4"
    and s: "s = p0 @ '':'' @ p1 @ '':'' @ p2 @ '':'' @ p3 @ '':'' @ p4"
  defines "n0 \<equiv> length p0" and "n1 \<equiv> length p0 + length p1 + 1" and "n2 \<equiv> length p0 + length p1 + 1 + length p2 + 1"
    and "n3 \<equiv> length p0 + length p1 + 1 + length p2 + 1 + length p3 + 1"
  shows "type_tail_loop s 0 = int n0 - 1"
    and "type_head_loop s 0 0 0 = n0 + 1"
    and "type_tail_loop s (n0 + 1) = int n1 - 1"
    and "type_head_loop s 0 0 1 = n1 + 1"
    and "type_tail_loop s (n1 + 1) = int n2 - 1"
    and "type_head_loop s 0 0 2 = n2 + 1"
    and "type_tail_loop s (n2 + 1) = int n3 - 1"
    and "type_colon_loop s 0 0 3 = int n3 - 1"
    and "type_head_loop s 0 0 3 = n3 + 1"
    and "type_tail_loop s (n3 + 1) = int (length s)"
  unfolding n0_def n1_def n2_def n3_def
proof -
  let ?r3 = p4 let ?r2 = "p3 @ CHR '':'' # ?r3" let ?r1 = "p2 @ CHR '':'' # ?r2" let ?r0 = "p1 @ CHR '':'' # ?r1"
  let ?h1 = "p0 @ '':''" let ?h2 = "?h1 @ p1 @ '':''" let ?h3 = "?h2 @ p2 @ '':''" let ?h4 = "?h3 @ p3 @ '':''"
  have c: "CHR '':'' \<notin> set p0" "CHR '':'' \<notin> set p1" "CHR '':'' \<notin> set p2" "CHR '':'' \<notin> set p3" "CHR '':'' \<notin> set p4"
    using assms by (simp_all add: colon_free_def)
  have s0: "s = [] @ p0 @ CHR '':'' # ?r0"
    and s1: "s = ?h1 @ p1 @ CHR '':'' # ?r1"
    and s2: "s = ?h2 @ p2 @ CHR '':'' # ?r2"
    and s3: "s = ?h3 @ p3 @ CHR '':'' # ?r3" and s4: "s = ?h4 @ p4" using s by simp_all
  let ?n0 = "length p0" let ?n1 = "?n0 + length p1 + 1" let ?n2 = "?n1 + length p2 + 1" let ?n3 = "?n2 + length p3 + 1"
  have n: "length ?h1 = ?n0 + 1" "length ?h2 = ?n1 + 1" "length ?h3 = ?n2 + 1" "length ?h4 = ?n3 + 1" by simp_all
  have h0: "type_head_loop s 0 0 l = (if 0 = l then ?n0 + 1 else type_head_loop s (?n0 + 1) (0 + 1) l)" for l
    using type_head_part [OF c(1), of "[]" ?r0 0 l, folded s0] by simp
  have h1: "type_head_loop s (?n0 + 1) 1 l = (if 1 = l then ?n1 + 1 else type_head_loop s (?n1 + 1) 2 l)" for l
    using type_head_part [OF c(2), of ?h1 ?r1 1 l, folded s1] by (simp only: n) (simp add: ac_simps numeral_2_eq_2)
  have h2: "type_head_loop s (?n1 + 1) 2 l = (if 2 = l then ?n2 + 1 else type_head_loop s (?n2 + 1) 3 l)" for l
    using type_head_part [OF c(3), of ?h2 ?r2 2 l, folded s2] by (simp only: n) (simp add: ac_simps numeral_eq_Suc)
  have h3: "type_head_loop s (?n2 + 1) 3 l = (if 3 = l then ?n3 + 1 else type_head_loop s (?n3 + 1) 4 l)" for l
    using type_head_part [OF c(4), of ?h3 ?r3 3 l, folded s3] by (simp only: n) (simp add: ac_simps numeral_eq_Suc)
  have l0: "type_colon_loop s 0 0 3 = type_colon_loop s (?n0 + 1) 1 3"
    using type_colon_part [OF c(1), of "[]" ?r0 0 3, folded s0] by simp
  have l1: "type_colon_loop s (?n0 + 1) 1 3 = type_colon_loop s (?n1 + 1) 2 3"
    using type_colon_part [OF c(2), of ?h1 ?r1 1 3, folded s1] by (simp only: n) (simp add: ac_simps numeral_2_eq_2)
  have l2: "type_colon_loop s (?n1 + 1) 2 3 = type_colon_loop s (?n2 + 1) 3 3"
    using type_colon_part [OF c(3), of ?h2 ?r2 2 3, folded s2] by (simp only: n) (simp add: ac_simps numeral_eq_Suc)
  have l3: "type_colon_loop s (?n2 + 1) 3 3 = int ?n3 - 1"
    using type_colon_part [OF c(4), of ?h3 ?r3 3 3, folded s3] by (simp only: n) (simp add: ac_simps numeral_eq_Suc)
  have len: "length s = ?n3 + 1 + length p4" unfolding s by simp
  show "type_tail_loop s 0 = int ?n0 - 1" using type_tail_colon [OF c(1), of "[]" ?r0, folded s0] by simp
  show "type_head_loop s 0 0 0 = ?n0 + 1" using h0 by simp
  show "type_tail_loop s (?n0 + 1) = int ?n1 - 1"
    using type_tail_colon [OF c(2), of ?h1 ?r1, folded s1] by (simp only: n)
  show "type_head_loop s 0 0 1 = ?n1 + 1" using h0 [of 1] h1 [of 1] by simp
  show "type_tail_loop s (?n1 + 1) = int ?n2 - 1"
    using type_tail_colon [OF c(3), of ?h2 ?r2, folded s2] by (simp only: n)
  show "type_head_loop s 0 0 2 = ?n2 + 1" using h0 [of 2] h1 [of 2] h2 [of 2] by simp
  show "type_tail_loop s (?n2 + 1) = int ?n3 - 1"
    using type_tail_colon [OF c(4), of ?h3 ?r3, folded s3] by (simp only: n)
  show "type_colon_loop s 0 0 3 = int ?n3 - 1" using l0 l1 l2 l3 by simp
  show "type_head_loop s 0 0 3 = ?n3 + 1" using h0 [of 3] h1 [of 3] h2 [of 3] h3 [of 3] by simp
  show "type_tail_loop s (?n3 + 1) = int (length s)"
    using type_tail_end [OF c(5), of ?h4, folded s4] len by (simp only: n)
qed

lemma size_index_below: "0 \<le> i \<Longrightarrow> i \<le> int (length s) \<Longrightarrow> length s < 2 ^ 31 \<Longrightarrow> size_index i = nat i"
  by (rule size_index_small) simp_all

lemma drop_prefix: "s = h @ t \<Longrightarrow> length h = k \<Longrightarrow> drop k s = t"
  by simp

lemma type_part_middle:
  "nul_free s \<Longrightarrow> s = h @ p @ t \<Longrightarrow> length h = i \<Longrightarrow> length p = n \<Longrightarrow> type_part s i n = Some p"
  by (simp add: type_part_take)

section \<open>Properties\<close>

text \<open>C26: a type string of five parts separated by colons (the form the UPnP architecture prescribes,
  \<open>urn:schemas-upnp-org:device:type:version\<close>) is taken apart exactly: each of the six getters for
  services and each of the six for devices returns its part, the schema type without the version.
  The identifier needs two characters and the version one: shorter ones are not returned.\<close>

theorem typestring_getters:
  assumes parts: "colon_free p0" "colon_free p1" "colon_free p2" "colon_free p3" "colon_free p4"
    and ident: "2 \<le> length p0" and version: "p4 \<noteq> []"
    and s: "s = p0 @ '':'' @ p1 @ '':'' @ p2 @ '':'' @ p3 @ '':'' @ p4" and small: "length s < 2 ^ 31"
  shows "map (\<lambda>get. get (Some s))
           [mupnp_servicetype_getidentifier, mupnp_servicetype_geturn, mupnp_servicetype_getservice,
            mupnp_servicetype_gettype, mupnp_servicetype_getversion, mupnp_servicetype_getschematype] =
         map Some [p0, p1, p2, p3, p4, p0 @ '':'' @ p1 @ '':'' @ p2 @ '':'' @ p3] \<and>
         map (\<lambda>get. get (Some s))
           [mupnp_devicetype_getidentifier, mupnp_devicetype_geturn, mupnp_devicetype_getdevice,
            mupnp_devicetype_gettype, mupnp_devicetype_getversion, mupnp_devicetype_getschematype] =
         map Some [p0, p1, p2, p3, p4, p0 @ '':'' @ p1 @ '':'' @ p2 @ '':'' @ p3]"
proof -
  note loops = type_string_loops [OF parts s]
  have s_ok: "nul_free s" using parts unfolding s colon_free_def by (simp add: nul_free_def)
  let ?n0 = "length p0" let ?n1 = "?n0 + length p1 + 1" let ?n2 = "?n1 + length p2 + 1" let ?n3 = "?n2 + length p3 + 1"
  have len: "length s = ?n3 + 1 + length p4" unfolding s by simp
  have p4: "0 < length p4" using version by simp
  note index = size_index_below [of _ s, OF _ _ small]
  have w: "size_index (int ?n0 - 1) = ?n0 - 1" "size_index (int ?n1 - 1) = ?n1 - 1" "size_index (int ?n2 - 1) = ?n2 - 1"
    "size_index (int ?n3 - 1) = ?n3 - 1" "size_index (int (length s)) = length s"
    using ident len by (simp_all only: index)
  have q0: "type_part s 0 ?n0 = Some p0"
    by (rule type_part_middle [OF s_ok, of "[]" _ "'':'' @ p1 @ '':'' @ p2 @ '':'' @ p3 @ '':'' @ p4"]) (simp_all add: s)
  have q1: "type_part s (?n0 + 1) (length p1) = Some p1"
    by (rule type_part_middle [OF s_ok, of "p0 @ '':''" _ "'':'' @ p2 @ '':'' @ p3 @ '':'' @ p4"]) (simp_all add: s)
  have q2: "type_part s (?n1 + 1) (length p2) = Some p2"
    by (rule type_part_middle [OF s_ok, of "p0 @ '':'' @ p1 @ '':''" _ "'':'' @ p3 @ '':'' @ p4"]) (simp_all add: s)
  have q3: "type_part s (?n2 + 1) (length p3) = Some p3"
    by (rule type_part_middle [OF s_ok, of "p0 @ '':'' @ p1 @ '':'' @ p2 @ '':''" _ "'':'' @ p4"]) (simp_all add: s)
  have "s = (p0 @ '':'' @ p1 @ '':'' @ p2 @ '':'' @ p3 @ '':'') @ p4" unfolding s by simp
  then have d4: "drop (?n3 + 1) s = p4" by (rule drop_prefix) simp
  have q4: "type_part s (?n3 + 1) (length p4 + 1) = Some p4"
    using type_part_take [OF s_ok, of "?n3 + 1" "length p4 + 1"] d4 by simp
  have q5: "type_part s 0 ?n3 = Some (p0 @ '':'' @ p1 @ '':'' @ p2 @ '':'' @ p3)"
    by (rule type_part_middle [OF s_ok, of "[]" _ "'':'' @ p4"]) (simp_all add: s)
  have n: "nat (int ?n0 - 1) + 1 = ?n0" "nat (int ?n1 - 1 - int (?n0 + 1) + 1) = length p1"
    "nat (int ?n2 - 1 - int (?n1 + 1) + 1) = length p2" "nat (int ?n3 - 1 - int (?n2 + 1) + 1) = length p3"
    "nat (int (length s) - int (?n3 + 1) + 1) = length p4 + 1" "nat (int ?n3 - 1) + 1 = ?n3"
    "?n0 - 1 + 1 = ?n0" "?n1 - 1 + 1 - (?n0 + 1) = length p1" "?n2 - 1 + 1 - (?n1 + 1) = length p2"
    "?n3 - (?n2 + 1) = length p3" "length s + 1 - (?n3 + 1) = length p4 + 1" "?n3 - 1 + 1 = ?n3"
    using ident len by simp_all
  have g: "0 < int ?n0 - 1" "0 < int ?n1 - 1" "0 < int ?n2 - 1" "0 < int ?n3 - 1" "0 < int (length s)"
    "int ?n0 - 1 < int (length s)" "int ?n1 - 1 < int (length s)" "int ?n2 - 1 < int (length s)" "int ?n3 - 1 < int (length s)"
    "0 < ?n0 - 1" "0 < ?n1 - 1" "0 < ?n2 - 1" "0 < ?n3 - 1" "0 < length s"
    "?n0 - 1 < length s" "?n1 - 1 < length s" "?n2 - 1 < length s" "?n3 - 1 < length s"
    "0 < ?n0 + 1" "0 < ?n1 + 1" "0 < ?n2 + 1" "0 < ?n3 + 1"
    "?n0 + 1 < length s" "?n1 + 1 < length s" "?n2 + 1 < length s" "?n3 + 1 < length s"
    using ident len p4 by linarith+
  note steps = option.case Let_def loops w n g q0 q1 q2 q3 q4 q5 if_True simp_thms order.refl
  have s_q0: "mupnp_servicetype_getidentifier (Some s) = Some p0"
    by (simp only: mupnp_servicetype_getidentifier_def type_middle_def steps)
  have s_q1: "mupnp_servicetype_geturn (Some s) = Some p1"
    by (simp only: mupnp_servicetype_geturn_def type_middle_def steps)
  have s_q2: "mupnp_servicetype_getservice (Some s) = Some p2"
    by (simp only: mupnp_servicetype_getservice_def type_middle_def steps)
  have s_q3: "mupnp_servicetype_gettype (Some s) = Some p3"
    by (simp only: mupnp_servicetype_gettype_def type_middle_def steps)
  have s_q4: "mupnp_servicetype_getversion (Some s) = Some p4"
    by (simp only: mupnp_servicetype_getversion_def type_middle_def steps)
  have s_q5: "mupnp_servicetype_getschematype (Some s) = Some (p0 @ '':'' @ p1 @ '':'' @ p2 @ '':'' @ p3)"
    by (simp only: mupnp_servicetype_getschematype_def type_middle_def steps)
  have d_q0: "mupnp_devicetype_getidentifier (Some s) = Some p0"
    by (simp only: mupnp_devicetype_getidentifier_def devicetype_middle_def steps)
  have d_q1: "mupnp_devicetype_geturn (Some s) = Some p1"
    by (simp only: mupnp_devicetype_geturn_def devicetype_middle_def steps)
  have d_q2: "mupnp_devicetype_getdevice (Some s) = Some p2"
    by (simp only: mupnp_devicetype_getdevice_def devicetype_middle_def steps)
  have d_q3: "mupnp_devicetype_gettype (Some s) = Some p3"
    by (simp only: mupnp_devicetype_gettype_def devicetype_middle_def steps)
  have d_q4: "mupnp_devicetype_getversion (Some s) = Some p4"
    by (simp only: mupnp_devicetype_getversion_def devicetype_middle_def steps)
  have d_q5: "mupnp_devicetype_getschematype (Some s) = Some (p0 @ '':'' @ p1 @ '':'' @ p2 @ '':'' @ p3)"
    by (simp only: mupnp_devicetype_getschematype_def devicetype_middle_def steps)
  show ?thesis
    by (simp only: list.map s_q0 s_q1 s_q2 s_q3 s_q4 s_q5 d_q0 d_q1 d_q2 d_q3 d_q4 d_q5 simp_thms)
qed

theorem typestring_getters_witness:
  "map (\<lambda>get. get (Some ''urn:schemas-upnp-org:device:Light:1''))
     [mupnp_servicetype_getidentifier, mupnp_servicetype_geturn, mupnp_servicetype_getservice,
      mupnp_servicetype_gettype, mupnp_servicetype_getversion, mupnp_servicetype_getschematype] =
   map Some [''urn'', ''schemas-upnp-org'', ''device'', ''Light'', ''1'', ''urn:schemas-upnp-org:device:Light'']"
  using typestring_getters [of "''urn''" "''schemas-upnp-org''" "''device''" "''Light''" "''1''"
      "''urn:schemas-upnp-org:device:Light:1''"]
  by (simp add: colon_free_def nul_free_def)

end
