(* ===== verification/Action.thy ===== *)
theory Action
  imports Xml UpnpTypes
begin

section \<open>Arguments, actions and state variables
  (src/mupnp/argument.c, argument_list.c, action.c, action_list.c, statevariable.c, servicestate_table.c)\<close>

text \<open>
  The objects a service is made of.  Each refers to the node of the description it was made
  from; the model holds that node.  A listener, a pointer to a function of the application, is
  a number: the functions themselves are a parameter of the operations that call them.  The
  pointer of an object to its service is its position in that service.
\<close>

record mUpnpArgument =
  argumentNode :: "mUpnpXmlNode option"
  argValue :: charptr

definition mupnp_argument_new :: mUpnpArgument where
  "mupnp_argument_new = \<lparr>argumentNode = None, argValue = None\<rparr>"

definition mupnp_argument_isargumentnode :: "mUpnpXmlNode \<Rightarrow> bool" where
  "mupnp_argument_isargumentnode node = mupnp_xml_node_isname node (Some ''argument'')"

definition mupnp_argument_setargumentnode :: "mUpnpArgument \<Rightarrow> mUpnpXmlNode \<Rightarrow> mUpnpArgument" where
  "mupnp_argument_setargumentnode arg node = arg\<lparr>argumentNode := Some node\<rparr>"

definition mupnp_argument_getname :: "mUpnpArgument \<Rightarrow> charptr" where
  "mupnp_argument_getname arg = mupnp_xml_node_getchildnodevalue (argumentNode arg) (Some ''name'')"

definition mupnp_argument_isname :: "mUpnpArgument \<Rightarrow> charptr \<Rightarrow> bool" where
  "mupnp_argument_isname arg name = mupnp_streq (mupnp_argument_getname arg) name"

definition mupnp_argument_getdirection :: "mUpnpArgument \<Rightarrow> charptr" where
  "mupnp_argument_getdirection arg = mupnp_xml_node_getchildnodevalue (argumentNode arg) (Some ''direction'')"

definition mupnp_argument_isindirection :: "mUpnpArgument \<Rightarrow> bool" where
  "mupnp_argument_isindirection arg = mupnp_streq (mupnp_argument_getdirection arg) (Some ''in'')"

definition mupnp_argument_isoutdirection :: "mUpnpArgument \<Rightarrow> bool" where
  "mupnp_argument_isoutdirection arg = mupnp_streq (mupnp_argument_getdirection arg) (Some ''out'')"

definition mupnp_argument_getrelatedstatevariable :: "mUpnpArgument \<Rightarrow> charptr" where
  "mupnp_argument_getrelatedstatevariable arg =
     mupnp_xml_node_getchildnodevalue (argumentNode arg) (Some ''relatedStateVariable'')"

definition mupnp_argument_setvalue :: "mUpnpArgument \<Rightarrow> charptr \<Rightarrow> mUpnpArgument" where
  "mupnp_argument_setvalue arg v = arg\<lparr>argValue := str_set (argValue arg) v\<rparr>"

definition mupnp_argument_getvalue :: "mUpnpArgument \<Rightarrow> charptr" where
  "mupnp_argument_getvalue arg = argValue arg"

text \<open>The two lookups of an argument differ: the list ignores case, the action does not.\<close>

definition mupnp_argumentlist_get :: "mUpnpArgument list \<Rightarrow> charptr \<Rightarrow> nat option" where
  "mupnp_argumentlist_get argList name =
     (if name = None then None
      else index_where (\<lambda>arg. mupnp_argument_getname arg \<noteq> None \<and>
                              mupnp_strcasecmp (mupnp_argument_getname arg) name = 0) argList)"

fun mupnp_argumentlist_set :: "mUpnpArgument list \<Rightarrow> mUpnpArgument list \<Rightarrow> mUpnpArgument list" where
  "mupnp_argumentlist_set argList [] = argList"
| "mupnp_argumentlist_set argList (srcArg # srcArgs) =
     (case mupnp_argumentlist_get argList (mupnp_argument_getname srcArg) of
        None \<Rightarrow> mupnp_argumentlist_set argList srcArgs
      | Some i \<Rightarrow> mupnp_argumentlist_set
          (argList[i := mupnp_argument_setvalue (argList ! i) (mupnp_argument_getvalue srcArg)]) srcArgs)"

subsection \<open>Actions\<close>

record mUpnpAction =
  actionNode :: "mUpnpXmlNode option"
  argumentList :: "mUpnpArgument list"
  actionStatus :: mUpnpStatus
  actionListener :: "nat option"

definition mupnp_action_new :: mUpnpAction where
  "mupnp_action_new = \<lparr>actionNode = None, argumentList = [], actionStatus = mupnp_status_new, actionListener = None\<rparr>"

definition mupnp_action_isactionnode :: "mUpnpXmlNode \<Rightarrow> bool" where
  "mupnp_action_isactionnode node = mupnp_xml_node_isname node (Some ''action'')"

definition mupnp_action_initargumentlist :: "mUpnpAction \<Rightarrow> mUpnpAction" where
  "mupnp_action_initargumentlist action =
     (let action = action\<lparr>argumentList := []\<rparr> in
      case xml_child (actionNode action) (Some ''argumentList'') of
        None \<Rightarrow> action
      | Some argumentListNode \<Rightarrow>
          foldl (\<lambda>action childNode.
              if \<not> mupnp_argument_isargumentnode childNode then action
              else let arg = mupnp_argument_setargumentnode mupnp_argument_new childNode
                   in action\<lparr>argumentList := argumentList action @ [arg]\<rparr>)
            action (mupnp_xml_node_getchildnodes (Some argumentListNode)))"

definition mupnp_action_initchildnodes :: "mUpnpAction \<Rightarrow> mUpnpAction" where
  "mupnp_action_initchildnodes action = mupnp_action_initargumentlist action"

definition mupnp_action_setactionnode :: "mUpnpAction \<Rightarrow> mUpnpXmlNode option \<Rightarrow> mUpnpAction" where
  "mupnp_action_setactionnode action node = mupnp_action_initchildnodes (action\<lparr>actionNode := node\<rparr>)"

definition mupnp_action_getname :: "mUpnpAction \<Rightarrow> charptr" where
  "mupnp_action_getname action = mupnp_xml_node_getchildnodevalue (actionNode action) (Some ''name'')"

definition mupnp_action_isname :: "mUpnpAction \<Rightarrow> charptr \<Rightarrow> bool" where
  "mupnp_action_isname action name = mupnp_streq (mupnp_action_getname action) name"

definition mupnp_action_getargumentbyname :: "mUpnpAction \<Rightarrow> charptr \<Rightarrow> nat option" where
  "mupnp_action_getargumentbyname action name =
     (if mupnp_strlen name \<le> 0 then None
      else index_where (\<lambda>arg. mupnp_argument_isname arg name) (argumentList action))"

definition mupnp_action_getargumentvaluebyname :: "mUpnpAction \<Rightarrow> charptr \<Rightarrow> charptr" where
  "mupnp_action_getargumentvaluebyname action name =
     (case mupnp_action_getargumentbyname action name of
        None \<Rightarrow> None | Some i \<Rightarrow> mupnp_argument_getvalue (argumentList action ! i))"

definition mupnp_action_setargumentvaluebyname :: "mUpnpAction \<Rightarrow> charptr \<Rightarrow> charptr \<Rightarrow> bool \<times> mUpnpAction" where
  "mupnp_action_setargumentvaluebyname action name v =
     (case mupnp_action_getargumentbyname action name of
        None \<Rightarrow> (False, action)
      | Some i \<Rightarrow> (True, action\<lparr>argumentList :=
                     (argumentList action)[i := mupnp_argument_setvalue (argumentList action ! i) v]\<rparr>))"

subsection \<open>State variables\<close>

text \<open>The list of allowed values is a header, which has a value of its own, and its nodes.\<close>

record mUpnpStateVariable =
  stateVarNode :: "mUpnpXmlNode option"
  svValue :: charptr
  svStatus :: mUpnpStatus
  svListener :: "nat option"
  allowedValueList :: "(charptr \<times> charptr list) option"

definition mupnp_statevariable_new :: mUpnpStateVariable where
  "mupnp_statevariable_new =
     \<lparr>stateVarNode = None, svValue = None, svStatus = mupnp_status_new, svListener = None, allowedValueList = None\<rparr>"

definition mupnp_statevariable_isstatevariablenode :: "mUpnpXmlNode \<Rightarrow> bool" where
  "mupnp_statevariable_isstatevariablenode node = mupnp_xml_node_isname node (Some ''stateVariable'')"

definition mupnp_statevariable_setstatevariablenode :: "mUpnpStateVariable \<Rightarrow> mUpnpXmlNode option \<Rightarrow> mUpnpStateVariable" where
  "mupnp_statevariable_setstatevariablenode statVar node = statVar\<lparr>stateVarNode := node\<rparr>"

definition mupnp_statevariable_getname :: "mUpnpStateVariable \<Rightarrow> charptr" where
  "mupnp_statevariable_getname statVar = mupnp_xml_node_getchildnodevalue (stateVarNode statVar) (Some ''name'')"

definition mupnp_statevariable_isname :: "mUpnpStateVariable \<Rightarrow> charptr \<Rightarrow> bool" where
  "mupnp_statevariable_isname statVar name = mupnp_streq (mupnp_statevariable_getname statVar) name"

definition mupnp_statevariable_getsendevents :: "mUpnpStateVariable \<Rightarrow> charptr" where
  "mupnp_statevariable_getsendevents statVar =
     (case stateVarNode statVar of None \<Rightarrow> None
      | Some node \<Rightarrow> mupnp_xml_node_getattributevalue node (Some ''sendEvents''))"

definition mupnp_statevariable_issendevents :: "mUpnpStateVariable \<Rightarrow> bool" where
  "mupnp_statevariable_issendevents statVar = mupnp_streq (mupnp_statevariable_getsendevents statVar) (Some ''yes'')"

definition mupnp_statevariable_getvalue :: "mUpnpStateVariable \<Rightarrow> charptr" where
  "mupnp_statevariable_getvalue statVar = svValue statVar"

definition mupnp_statevariable_setvaluewithoutnotify :: "mUpnpStateVariable \<Rightarrow> charptr \<Rightarrow> mUpnpStateVariable" where
  "mupnp_statevariable_setvaluewithoutnotify statVar data = statVar\<lparr>svValue := str_set (svValue statVar) data\<rparr>"

definition allowed_value_step :: "(charptr \<times> charptr list) option \<Rightarrow> mUpnpXmlNode \<Rightarrow> (charptr \<times> charptr list) option" where
  "allowed_value_step allowed cnode =
     (case allowed of
        None \<Rightarrow> Some (xvalue cnode, [])
      | Some (v, vs) \<Rightarrow> Some (v, xvalue cnode # vs))"

definition mupnp_statevariable_getallowedvaluelist :: "mUpnpStateVariable \<Rightarrow> mUpnpStateVariable" where
  "mupnp_statevariable_getallowedvaluelist statVar =
     (if allowedValueList statVar = None then
        (case xml_child (stateVarNode statVar) (Some ''allowedValueList'') of
           None \<Rightarrow> statVar
         | Some allowedValuesNode \<Rightarrow>
             statVar\<lparr>allowedValueList :=
               foldl allowed_value_step None (mupnp_xml_node_getchildnodes (Some allowedValuesNode))\<rparr>)
      else statVar)"

definition mupnp_statevariable_is_allowed_value :: "mUpnpStateVariable \<Rightarrow> charptr \<Rightarrow> int \<times> mUpnpStateVariable" where
  "mupnp_statevariable_is_allowed_value statVar v =
     (let statVar = (if allowedValueList statVar = None
                     then mupnp_statevariable_getallowedvaluelist statVar else statVar)
      in case allowedValueList statVar of
           None \<Rightarrow> (0, statVar)
         | Some (h, vs) \<Rightarrow> (if index_where (\<lambda>w. mupnp_strcasecmp v w = 0) vs \<noteq> None then 1 else 0, statVar))"

subsection \<open>The values read from the description\<close>

definition allowed_nodes :: "mUpnpStateVariable \<Rightarrow> mUpnpXmlNode list" where
  "allowed_nodes sv =
     (case xml_child (stateVarNode sv) (Some ''allowedValueList'') of
        None \<Rightarrow> [] | Some n \<Rightarrow> mupnp_xml_node_getchildnodes (Some n))"

lemma allowed_steps: "foldl allowed_value_step (Some (v, vs)) ns = Some (v, rev (map xvalue ns) @ vs)"
  by (induction ns arbitrary: vs) (simp_all add: allowed_value_step_def)

lemma allowed_list:
  "foldl allowed_value_step None ns = (case ns of [] \<Rightarrow> None | n # ns \<Rightarrow> Some (xvalue n, rev (map xvalue ns)))"
  by (cases ns) (simp_all add: allowed_value_step_def allowed_steps)

lemma getallowedvaluelist_eq:
  "allowedValueList sv = None \<Longrightarrow>
   mupnp_statevariable_getallowedvaluelist sv =
     sv\<lparr>allowedValueList := (case allowed_nodes sv of [] \<Rightarrow> None | n # ns \<Rightarrow> Some (xvalue n, rev (map xvalue ns)))\<rparr>"
  by (cases sv)
    (simp add: mupnp_statevariable_getallowedvaluelist_def allowed_nodes_def allowed_list split: option.splits)

lemma allowed_from:
  "fst (mupnp_statevariable_is_allowed_value (sv\<lparr>allowedValueList := Some (h, rev ws)\<rparr>) v) =
   (if \<exists>w \<in> set ws. mupnp_strcasecmp v w = 0 then 1 else 0)"
  using index_where_None [of "\<lambda>w. mupnp_strcasecmp v w = 0" "rev ws"]
  by (auto simp: mupnp_statevariable_is_allowed_value_def)

section \<open>Properties\<close>

text \<open>C29: the result is 1 when the value equals, ignoring case, one of the values the description
  allows from the second one on, else 0; the first value of the list is never looked at.  (The
  comment in statevariable.h gives 0 as the result for a value that is allowed.)  The list is read from the description once, and a later test of any value
  answers from it in the same way and changes nothing.\<close>

theorem is_allowed_value_spec:
  assumes "allowedValueList sv = None"
  shows "fst (mupnp_statevariable_is_allowed_value sv v) =
      (if \<exists>w \<in> set (tl (map xvalue (allowed_nodes sv))). mupnp_strcasecmp v w = 0 then 1 else 0) \<and>
    fst (mupnp_statevariable_is_allowed_value (snd (mupnp_statevariable_is_allowed_value sv u)) v) = fst (mupnp_statevariable_is_allowed_value sv v) \<and>
    snd (mupnp_statevariable_is_allowed_value (snd (mupnp_statevariable_is_allowed_value sv u)) v) = (snd (mupnp_statevariable_is_allowed_value sv u))"
proof (cases "allowed_nodes sv")
  case Nil
  then have "mupnp_statevariable_is_allowed_value sv w = (0, sv)" for w
    using assms(1) by (simp add: mupnp_statevariable_is_allowed_value_def getallowedvaluelist_eq)
  with Nil show ?thesis by simp
next
  case (Cons n ns)
  define sv2 where "sv2 = sv\<lparr>allowedValueList := Some (xvalue n, rev (map xvalue ns))\<rparr>"
  have read: "mupnp_statevariable_getallowedvaluelist sv = sv2"
    using assms(1) Cons by (simp add: getallowedvaluelist_eq sv2_def)
  have same: "mupnp_statevariable_is_allowed_value sv w = mupnp_statevariable_is_allowed_value sv2 w" for w
    using assms(1) read by (simp add: mupnp_statevariable_is_allowed_value_def sv2_def)
  have keep: "snd (mupnp_statevariable_is_allowed_value sv2 w) = sv2" for w
    by (simp add: mupnp_statevariable_is_allowed_value_def sv2_def)
  then have "snd (mupnp_statevariable_is_allowed_value sv u) = sv2" by (simp add: same)
  moreover have "fst (mupnp_statevariable_is_allowed_value sv2 v) =
      (if \<exists>w \<in> set (map xvalue ns). mupnp_strcasecmp v w = 0 then 1 else 0)"
    unfolding sv2_def by (rule allowed_from)
  ultimately show ?thesis using keep [of v] by (simp only: same Cons list.map(2) list.sel(3) simp_thms)
qed

definition witness_variable :: mUpnpStateVariable where
  "witness_variable =
     (let val = (\<lambda>v. mupnp_xml_node_setvalue (mupnp_xml_node_setname mupnp_xml_node_new (Some ''allowedValue'')) (Some v));
          vals = foldl mupnp_xml_node_addchildnode (mupnp_xml_node_setname mupnp_xml_node_new (Some ''allowedValueList''))
                   [val ''On'', val ''Off'', val ''Auto''];
          var = mupnp_xml_node_addchildnode (mupnp_xml_node_setname mupnp_xml_node_new (Some ''stateVariable'')) vals
      in mupnp_statevariable_setstatevariablenode mupnp_statevariable_new (Some var))"

theorem is_allowed_value_spec_witness:
  "fst (mupnp_statevariable_is_allowed_value witness_variable (Some ''AUTO'')) = 1 \<and>
   fst (mupnp_statevariable_is_allowed_value witness_variable (Some ''On'')) = 0"
proof -
  have fresh: "allowedValueList witness_variable = None" by code_simp
  have vals: "tl (map xvalue (allowed_nodes witness_variable)) = [Some ''Off'', Some ''Auto'']" by code_simp
  have case0: "mupnp_strcasecmp (Some ''AUTO'') (Some ''Auto'') = 0" by code_simp
  have case1: "mupnp_strcasecmp (Some ''On'') (Some ''Auto'') \<noteq> 0" by code_simp
  have case2: "mupnp_strcasecmp (Some ''On'') (Some ''Off'') \<noteq> 0" by code_simp
  show ?thesis
    using is_allowed_value_spec [OF fresh, where u = None and v = "Some ''AUTO''"] is_allowed_value_spec [OF fresh, where u = None and v = "Some ''On''"]
      case0 case1 case2 by (simp add: vals)
qed

end
