(* ===== verification/NetFunction.thy ===== *)
theory NetFunction
  imports StringFunction Interfaces
begin

section \<open>Addresses and host URLs (src/mupnp/net/net_function.c, url.c)\<close>

text \<open>
  The address predicates the whole library branches on, and the printers of host URLs.  The
  three file-level flags of net_function.c are the record \<open>net_flags\<close>.
\<close>

record net_flags =
  mupnpNetUseOnlyIpV4Addr :: bool
  mupnpNetUseOnlyIpV6Addr :: bool
  mupnpNetIpV6Enabled :: bool

definition mupnp_net_setipv6enabled :: "net_flags \<Rightarrow> bool \<Rightarrow> net_flags" where
  "mupnp_net_setipv6enabled g enabled = g\<lparr>mupnpNetIpV6Enabled := enabled\<rparr>"

definition mupnp_net_isipv6enabled :: "net_flags \<Rightarrow> bool" where
  "mupnp_net_isipv6enabled g = mupnpNetIpV6Enabled g"

definition mupnp_net_isipv6address :: "charptr \<Rightarrow> bool" where
  "mupnp_net_isipv6address addr =
     (if addr = None then False
      else if 0 < mupnp_strchr addr (Some '':'') 1 then True else False)"

definition mupnp_net_isuseaddress :: "net_flags \<Rightarrow> charptr \<Rightarrow> bool" where
  "mupnp_net_isuseaddress g addr =
     (if mupnpNetUseOnlyIpV6Addr g \<and> \<not> mupnp_net_isipv6address addr then False
      else if mupnpNetUseOnlyIpV4Addr g \<and> mupnp_net_isipv6address addr then False
      else True)"

text \<open>\<open>strchr (addr, c)\<close> of the C library, as an index.\<close>

definition c_strchr :: "cstring \<Rightarrow> char \<Rightarrow> nat option" where
  "c_strchr s c = c_strstr s [c]"

text \<open>The buffer of nine bytes takes at most eight characters of the scope and a NUL.\<close>

definition mupnp_net_getipv6scopeid :: "charptr \<Rightarrow> int" where
  "mupnp_net_getipv6scopeid addr =
     (if \<not> mupnp_net_isipv6address addr then 0
      else
        let perIdx = mupnp_strchr addr (Some ''%'') 1 in
        if perIdx < 0 then 0
        else
          let scope = drop (nat perIdx + 1) (str_bytes addr);
              scopeIDBuf = (take 8 (scope @ replicate 8 NUL) @ [NUL])
          in c_atoi (cstr scopeIDBuf))"

definition mupnp_net_getmodifierhosturl ::
    "cstring \<Rightarrow> int \<Rightarrow> cstring \<Rightarrow> cstring \<Rightarrow> cstring \<Rightarrow> nat \<Rightarrow> cstring" where
  "mupnp_net_getmodifierhosturl host port uri begin' end' bufSize =
     (let isIPv6Host = mupnp_net_isipv6address (Some host);
          zone = (if isIPv6Host then c_strchr host (CHR ''%'') else None);
          hostLen = (case zone of None \<Rightarrow> length host | Some i \<Rightarrow> i)
      in c_snprintf bufSize
           (begin' @ ''http://'' @ (if isIPv6Host then ''['' else '''') @ take hostLen host @
            (case zone of None \<Rightarrow> '''' | Some i \<Rightarrow> ''%25'') @
            (case zone of None \<Rightarrow> '''' | Some i \<Rightarrow> drop (i + 1) host) @
            (if isIPv6Host then '']'' else '''') @ '':'' @ show_int port @ uri @ end'))"

definition mupnp_net_gethosturl :: "cstring \<Rightarrow> int \<Rightarrow> cstring \<Rightarrow> nat \<Rightarrow> cstring" where
  "mupnp_net_gethosturl host port uri bufSize =
     mupnp_net_getmodifierhosturl host port uri '''' '''' bufSize"

lemma strchr_one:
  "mupnp_strchr (Some s) (Some [c]) (Suc 0) = (if c \<in> set s then int (length (takeWhile (\<lambda>x. x \<noteq> c) s)) else - 1)"
proof -
  have "strchr_loop s [c] (Suc 0) i =
      (if c \<in> set (drop i s) then int (i + length (takeWhile (\<lambda>x. x \<noteq> c) (drop i s))) else - 1)"
    if "i \<le> length s" for i
    using that
  proof (induction "length s - i" arbitrary: i)
    case 0
    then show ?case by (subst strchr_loop.simps) simp
  next
    case (Suc n)
    then have i: "i < length s" by simp
    then have "drop i s = s ! i # drop (Suc i) s" by (simp add: Cons_nth_drop_Suc)
    with Suc(1) [of "Suc i"] Suc(2) i show ?case
      by (subst strchr_loop.simps) (auto simp: char_in_take)
  qed
  from this [of 0] show ?thesis by (simp add: mupnp_strchr_def)
qed

text \<open>An address is taken for IPv6 when it has a colon that is not its first character.\<close>

lemma isipv6_iff: "mupnp_net_isipv6address (Some s) \<longleftrightarrow> CHR '':'' \<in> set s \<and> hd s \<noteq> CHR '':''"
  by (cases s) (auto simp: mupnp_net_isipv6address_def strchr_one)

lemma isipv6_None [simp]: "\<not> mupnp_net_isipv6address None"
  by (simp add: mupnp_net_isipv6address_def)

text \<open>So an address that is abbreviated at its start, such as the loopback address, is not.\<close>

lemma isipv6_loopback: "\<not> mupnp_net_isipv6address (Some ''::1'')"
  by (simp add: isipv6_iff)

end
