(* ===== verification/Dictionary.thy ===== *)
theory Dictionary
  imports StringFunction Interfaces
begin

section \<open>Dictionaries (src/mupnp/util/dictionary.c, dictionary_elem.c)\<close>

text \<open>
  A dictionary is a list of elements with a key and a value; the search loop over the linked
  list is a recursion over the represented sequence (\<open>LinkList.search_dll\<close>).  A
  \<open>mUpnpDictionary *\<close> that may be NULL is an option; an element pointer that is returned is
  the position of the element.  The key and value strings are contents in the sense of
  \<open>str_abs\<close>: \<open>None\<close> when the string was never set.
\<close>

record mUpnpDictionaryElement =
  dkey :: charptr
  dvalue :: charptr

type_synonym mUpnpDictionary = "mUpnpDictionaryElement list"

definition mupnp_dictionary_element_new :: mUpnpDictionaryElement where
  "mupnp_dictionary_element_new = \<lparr>dkey = None, dvalue = None\<rparr>"

definition mupnp_dictionary_element_setkey :: "mUpnpDictionaryElement \<Rightarrow> charptr \<Rightarrow> mUpnpDictionaryElement" where
  "mupnp_dictionary_element_setkey e name = e\<lparr>dkey := str_set (dkey e) name\<rparr>"

definition mupnp_dictionary_element_setvalue :: "mUpnpDictionaryElement \<Rightarrow> charptr \<Rightarrow> mUpnpDictionaryElement" where
  "mupnp_dictionary_element_setvalue e val = e\<lparr>dvalue := str_set (dvalue e) val\<rparr>"

definition mupnp_dictionary_new :: "mUpnpDictionary option" where
  "mupnp_dictionary_new = Some []"

fun dictionary_find :: "mUpnpDictionary \<Rightarrow> charptr \<Rightarrow> nat \<Rightarrow> nat option" where
  "dictionary_find [] key i = None"
| "dictionary_find (e # es) key i =
     (if mupnp_strlen (dkey e) \<le> 0 then dictionary_find es key (i + 1)
      else if mupnp_streq (dkey e) key then Some i
      else dictionary_find es key (i + 1))"

definition mupnp_dictionary_getelement :: "mUpnpDictionary option \<Rightarrow> charptr \<Rightarrow> nat option" where
  "mupnp_dictionary_getelement dir key =
     (case dir of None \<Rightarrow> None
      | Some es \<Rightarrow> if mupnp_strlen key \<le> 0 then None else dictionary_find es key 0)"

text \<open>With a NULL dictionary the new element is in no list, and is lost.\<close>

definition mupnp_dictionary_setvalue ::
    "mUpnpDictionary option \<Rightarrow> charptr \<Rightarrow> charptr \<Rightarrow> mUpnpDictionary option" where
  "mupnp_dictionary_setvalue dir key val =
     (let elem = mupnp_dictionary_getelement dir key;
          dir' = (if elem = None then map_option (\<lambda>es. es @ [mupnp_dictionary_element_new]) dir else dir);
          assign = (\<lambda>e. mupnp_dictionary_element_setvalue (mupnp_dictionary_element_setkey e key) val)
      in map_option
           (\<lambda>es. case elem of None \<Rightarrow> es[length es - 1 := assign (last es)]
                 | Some i \<Rightarrow> es[i := assign (es ! i)])
           dir')"

definition mupnp_dictionary_getvalue :: "mUpnpDictionary option \<Rightarrow> charptr \<Rightarrow> charptr" where
  "mupnp_dictionary_getvalue dir key =
     (case dir of None \<Rightarrow> None
      | Some es \<Rightarrow> (case mupnp_dictionary_getelement dir key of None \<Rightarrow> None | Some i \<Rightarrow> dvalue (es ! i)))"

section \<open>The dictionary as a keyed table\<close>

definition dict_inv :: "mUpnpDictionary \<Rightarrow> bool" where
  "dict_inv es \<longleftrightarrow> (\<forall>e \<in> set es. nul_free (str_bytes (dkey e)))"

definition dict_key :: "cstring \<Rightarrow> bool" where
  "dict_key k \<longleftrightarrow> k \<noteq> [] \<and> nul_free k"

definition dict_lookup :: "mUpnpDictionary \<Rightarrow> cstring \<Rightarrow> cstring option" where
  "dict_lookup es k = mupnp_dictionary_getvalue (Some es) (Some k)"

definition dict_store :: "mUpnpDictionary \<Rightarrow> cstring \<Rightarrow> cstring \<Rightarrow> mUpnpDictionary" where
  "dict_store es k v = the (mupnp_dictionary_setvalue (Some es) (Some k) (Some v))"

lemma dictionary_find_shift: "dictionary_find es key (Suc i) = map_option Suc (dictionary_find es key i)"
  by (induction es arbitrary: i) auto

lemma dictionary_find_Some:
  "dictionary_find es (Some k) 0 = Some i \<Longrightarrow> dict_inv es \<Longrightarrow> dict_key k \<Longrightarrow>
     i < length es \<and> dkey (es ! i) = Some k"
proof (induction es arbitrary: i)
  case (Cons e es)
  then show ?case
    by (cases "dkey e"; cases i)
      (auto simp: dictionary_find_shift dict_inv_def dict_key_def c_strcmp_eq_0 split: if_splits)
qed simp

text \<open>The element that has key \<open>k\<close>, by the position the loop returns.\<close>

definition pos_of :: "mUpnpDictionary \<Rightarrow> cstring \<Rightarrow> nat option" where
  "pos_of es k = dictionary_find es (Some k) 0"

lemma pos_of_Nil [simp]: "pos_of [] k = None"
  by (simp add: pos_of_def)

lemma pos_of_Cons [simp]:
  "nul_free (str_bytes (dkey e)) \<Longrightarrow> dict_key k \<Longrightarrow>
   pos_of (e # es) k = (if dkey e = Some k then Some 0 else map_option Suc (pos_of es k))"
  by (cases "dkey e") (auto simp: pos_of_def dictionary_find_shift dict_key_def c_strcmp_eq_0)

lemma pos_of_append:
  "dict_inv es \<Longrightarrow> dict_inv [e] \<Longrightarrow> dict_key k \<Longrightarrow>
   pos_of (es @ [e]) k =
     (case pos_of es k of Some i \<Rightarrow> Some i | None \<Rightarrow> if dkey e = Some k then Some (length es) else None)"
  by (induction es) (auto simp: dict_inv_def split: option.splits)

lemma pos_of_update:
  "dict_inv es \<Longrightarrow> i < length es \<Longrightarrow> dkey e = dkey (es ! i) \<Longrightarrow> dict_key k \<Longrightarrow> pos_of (es[i := e]) k = pos_of es k"
proof (induction es arbitrary: i)
  case (Cons a es)
  then show ?case by (cases i) (auto simp: dict_inv_def)
qed simp

lemma dict_lookup_pos:
  "dict_key k \<Longrightarrow> dict_lookup es k = (case pos_of es k of None \<Rightarrow> None | Some i \<Rightarrow> dvalue (es ! i))"
  by (auto simp: dict_lookup_def mupnp_dictionary_getvalue_def mupnp_dictionary_getelement_def pos_of_def dict_key_def)

lemma dict_store_pos:
  assumes "dict_inv es" and "dict_key k"
  shows "dict_store es k v =
     (case pos_of es k of None \<Rightarrow> es @ [\<lparr>dkey = Some k, dvalue = Some v\<rparr>]
      | Some i \<Rightarrow> es[i := (es ! i)\<lparr>dvalue := Some v\<rparr>])"
proof (cases "pos_of es k")
  case None
  with assms show ?thesis
    by (simp add: dict_store_def mupnp_dictionary_setvalue_def mupnp_dictionary_getelement_def pos_of_def dict_key_def
        mupnp_dictionary_element_new_def mupnp_dictionary_element_setkey_def mupnp_dictionary_element_setvalue_def)
next
  case (Some i)
  with assms have "dkey (es ! i) = Some k" by (auto simp: pos_of_def dest: dictionary_find_Some)
  then have "(es ! i)\<lparr>dkey := Some k\<rparr> = es ! i" by (cases "es ! i") simp
  with Some assms show ?thesis
    by (simp add: dict_store_def mupnp_dictionary_setvalue_def mupnp_dictionary_getelement_def pos_of_def dict_key_def
        mupnp_dictionary_element_setkey_def mupnp_dictionary_element_setvalue_def)
qed

lemma pos_of_Some: "pos_of es k = Some i \<Longrightarrow> dict_inv es \<Longrightarrow> dict_key k \<Longrightarrow> i < length es \<and> dkey (es ! i) = Some k"
  unfolding pos_of_def by (rule dictionary_find_Some)

lemma dict_inv_store: "dict_inv es \<Longrightarrow> dict_key k \<Longrightarrow> dict_inv (dict_store es k v)"
proof -
  assume es: "dict_inv es" and k: "dict_key k"
  show ?thesis
  proof (cases "pos_of es k")
    case None
    with es k show ?thesis by (auto simp: dict_store_pos dict_inv_def dict_key_def)
  next
    case (Some i)
    with es k have "i < length es" by (simp add: pos_of_Some)
    with Some es k show ?thesis
      by (auto simp: dict_store_pos dict_inv_def dest!: set_update_subset_insert [THEN subsetD])
  qed
qed

lemma dict_lookup_store:
  assumes es: "dict_inv es" and k: "dict_key k" and l: "dict_key l"
  shows "dict_lookup (dict_store es k v) l = (if k = l then Some v else dict_lookup es l)"
proof (cases "pos_of es k")
  case None
  with es k l show ?thesis
    by (auto simp: dict_store_pos dict_lookup_pos pos_of_append dict_inv_def dict_key_def nth_append
        split: option.splits dest: pos_of_Some [unfolded dict_inv_def dict_key_def])
next
  case (Some i)
  with es k have i: "i < length es" "dkey (es ! i) = Some k" by (simp_all add: pos_of_Some)
  have "pos_of (es[i := (es ! i)\<lparr>dvalue := Some v\<rparr>]) l = pos_of es l"
    using es i l by (intro pos_of_update) auto
  with Some es k l i show ?thesis
    by (auto simp: dict_store_pos dict_lookup_pos nth_list_update split: option.splits dest: pos_of_Some)
qed

interpretation dictionary: keyed_table dict_inv dict_key "(=)" dict_lookup dict_store
  by unfold_locales (auto simp: dict_inv_store dict_lookup_store)

text \<open>The values after a sequence of assignments.\<close>

lemma stored_values:
  assumes "list_all (\<lambda>(k, v). dict_key k) kvs" and "dict_key l"
  shows "dict_lookup (foldl (\<lambda>d (k, v). dict_store d k v) [] kvs) l =
     map_option snd (find (\<lambda>(k, v). k = l) (rev kvs))"
proof -
  have "dict_lookup (foldl (\<lambda>d (k, v). dict_store d k v) [] kvs) l =
      (case find (\<lambda>(k, v). k = l) (rev kvs) of None \<Rightarrow> dict_lookup [] l | Some (k, v) \<Rightarrow> Some v)"
    using assms by (intro dictionary.lookup_stores) (simp_all add: dict_inv_def)
  also have "dict_lookup [] l = None" using assms(2) by (simp add: dict_lookup_pos)
  finally show ?thesis by (auto split: option.splits)
qed

section \<open>Properties\<close>

text \<open>C17: after any sequence of assignments to an empty dictionary, looking a key up gives the
  value of its last assignment, and NULL for a key that was never assigned.\<close>

theorem dictionary_assignments:
  assumes "\<forall>(k, v) \<in> set kvs. dict_key k" and "dict_key l"
  shows "dict_lookup (foldl (\<lambda>d (k, v). dict_store d k v) [] kvs) l =
     map_option snd (find (\<lambda>(k, v). k = l) (rev kvs))"
  using assms by (intro stored_values) (auto simp: list_all_iff)

theorem dictionary_assignments_witness:
  "dict_lookup (foldl (\<lambda>d (k, v). dict_store d k v) [] [(''a'', ''1''), (''b'', ''2''), (''a'', ''3'')]) ''a''
     = Some ''3''"
  using dictionary_assignments [of "[(''a'', ''1''), (''b'', ''2''), (''a'', ''3'')]" "''a''"]
  by (simp add: dict_key_def)

end
