(* ===== verification/Uri.thy ===== *)
theory Uri
  imports NetFunction Dictionary "HOL-Library.Monad_Syntax"
begin

section \<open>URIs (src/mupnp/net/uri.c)\<close>

text \<open>
  The URI object and its parser.  The parser works with offsets into the given text; every
  pointer \<open>value + i\<close> and every pair (pointer, length) it forms is checked in the model:
  \<open>offset\<close> and \<open>region\<close> are \<open>None\<close> when they leave the text, also when a \<open>size_t\<close> length would
  have wrapped below zero.  The parser is written in the stages the source has.  The first
  property is that no input makes it leave its text.
\<close>

record mUpnpNetURI =
  uri :: charptr
  protocol :: charptr
  user :: charptr
  password :: charptr
  host :: charptr
  port :: int
  path :: charptr
  query :: charptr
  fragment :: charptr
  request :: charptr
  queryDictionary :: "mUpnpDictionary option"

definition MUPNP_NET_URI_KNKOWN_PORT :: int where "MUPNP_NET_URI_KNKOWN_PORT = - 1"

definition mupnp_net_uri_new :: mUpnpNetURI where
  "mupnp_net_uri_new =
     \<lparr>uri = None, protocol = None, user = None, password = None, host = None, port = 0,
      path = Some ''/'', query = None, fragment = None, request = None, queryDictionary = None\<rparr>"

definition mupnp_net_uri_clear :: "mUpnpNetURI \<Rightarrow> mUpnpNetURI" where
  "mupnp_net_uri_clear u =
     u\<lparr>uri := None, protocol := None, user := None, password := None, host := None, port := 0,
       path := None, query := None, fragment := None, request := None\<rparr>"

definition mupnp_net_uri_isabsolute :: "mUpnpNetURI \<Rightarrow> bool" where
  "mupnp_net_uri_isabsolute u = (if 0 < length (str_bytes (protocol u)) then True else False)"

definition mupnp_net_uri_hasquery :: "mUpnpNetURI \<Rightarrow> bool" where
  "mupnp_net_uri_hasquery u = (if 0 < length (str_bytes (query u)) then True else False)"

subsection \<open>Pointers into the text\<close>

definition offset :: "charptr \<Rightarrow> int \<Rightarrow> charptr option" where
  "offset v i =
     (case v of None \<Rightarrow> if i = 0 then Some None else None
      | Some s \<Rightarrow> if 0 \<le> i \<and> nat i \<le> length s then Some (Some (drop (nat i) s)) else None)"

definition region :: "charptr \<Rightarrow> int \<Rightarrow> int \<Rightarrow> cstring option" where
  "region v i len =
     (case v of None \<Rightarrow> None
      | Some s \<Rightarrow>
          if 0 \<le> i \<and> 0 \<le> len \<and> nat i + nat len \<le> length s then Some (take (nat len) (drop (nat i) s))
          else None)"

subsection \<open>The parser\<close>

definition uri_set_protocol :: "mUpnpNetURI \<Rightarrow> charptr \<Rightarrow> (mUpnpNetURI \<times> int) option" where
  "uri_set_protocol u val =
     (let protoIdx = mupnp_strstr val (Some ''://'') in
      if 0 < protoIdx then do {
        p \<leftarrow> region val 0 protoIdx;
        Some (u\<lparr>protocol := Some p\<rparr>, protoIdx + int (mupnp_strlen (Some ''://''))) }
      else Some (u, 0))"

definition uri_set_user :: "mUpnpNetURI \<Rightarrow> charptr \<Rightarrow> int \<Rightarrow> (mUpnpNetURI \<times> int) option" where
  "uri_set_user u val currIdx = do {
     rest \<leftarrow> offset val currIdx;
     let atIdx = mupnp_strstr rest (Some ''@'');
     if 0 < atIdx then do {
       let colonIdx = mupnp_strstr rest (Some '':'');
       u \<leftarrow> (if 0 < colonIdx \<and> colonIdx < atIdx then do {
               a \<leftarrow> region val currIdx colonIdx;
               b \<leftarrow> region val (currIdx + colonIdx + 1) (atIdx - (colonIdx + 1));
               Some (u\<lparr>user := Some a, password := Some b\<rparr>) }
             else do {
               a \<leftarrow> region val currIdx atIdx;
               Some (u\<lparr>user := Some a\<rparr>) });
       Some (u, currIdx + (atIdx + 1)) }
     else Some (u, currIdx) }"

definition uri_set_host :: "mUpnpNetURI \<Rightarrow> charptr \<Rightarrow> int \<Rightarrow> (mUpnpNetURI \<times> int) option" where
  "uri_set_host u val currIdx = do {
     rest \<leftarrow> offset val currIdx;
     let shashIdx = mupnp_strstr rest (Some ''/'');
     if 0 < shashIdx then do {
       h \<leftarrow> region val currIdx shashIdx;
       Some (u\<lparr>host := Some h\<rparr>, currIdx + shashIdx) }
     else if mupnp_net_uri_isabsolute u then do {
       h \<leftarrow> region val currIdx (int (mupnp_strlen val) - currIdx);
       Some (u\<lparr>host := Some h\<rparr>, currIdx + (int (mupnp_strlen val) - currIdx)) }
     else Some (u, currIdx) }"

definition uri_set_port :: "mUpnpNetURI \<Rightarrow> mUpnpNetURI option" where
  "uri_set_port u =
     (let h = host u;
          colonIdx = mupnp_strrchr h (Some '':'') 1;
          eblacketIdx = mupnp_strrchr h (Some '']'') 1
      in if 0 < colonIdx \<and> eblacketIdx < colonIdx then do {
           let hostStr = h;
           let hostLen = int (length (str_bytes hostStr));
           a \<leftarrow> region hostStr 0 colonIdx;
           let u = u\<lparr>host := Some a\<rparr>;
           u \<leftarrow> (if a ! 0 = CHR ''['' \<and> a ! nat (colonIdx - 1) = CHR '']'' then do {
                   b \<leftarrow> region hostStr 1 (colonIdx - 2);
                   Some (u\<lparr>host := Some b\<rparr>) }
                 else Some u);
           p \<leftarrow> region hostStr (colonIdx + 1) (hostLen - colonIdx - 1);
           Some (u\<lparr>port := c_atoi p\<rparr>) }
         else
           let u = u\<lparr>port := MUPNP_NET_URI_KNKOWN_PORT\<rparr>;
               u = (if mupnp_strcmp (protocol u) (Some ''http'') = 0 then u\<lparr>port := 80\<rparr> else u);
               u = (if mupnp_strcmp (protocol u) (Some ''ftp'') = 0 then u\<lparr>port := 21\<rparr> else u)
           in Some u)"

definition uri_set_zone :: "mUpnpNetURI \<Rightarrow> mUpnpNetURI option" where
  "uri_set_zone u =
     (if mupnp_net_isipv6address (host u) then
        (case c_strstr (str_bytes (host u)) ''%25'' of
           None \<Rightarrow> Some u
         | Some zone \<Rightarrow> do {
             a \<leftarrow> region (host u) 0 (int zone + 1);
             b \<leftarrow> offset (host u) (int zone + 3);
             Some (u\<lparr>host := str_set (host u) (str_add (Some a) b)\<rparr>) })
      else Some u)"

definition uri_set_path :: "mUpnpNetURI \<Rightarrow> charptr \<Rightarrow> int \<Rightarrow> mUpnpNetURI option" where
  "uri_set_path u val currIdx = do {
     let uriLen = int (mupnp_strlen val);
     u \<leftarrow> (if \<not> mupnp_net_uri_isabsolute u then Some (u\<lparr>path := str_add (path u) val\<rparr>)
           else do {
             p \<leftarrow> region val currIdx (uriLen - currIdx);
             Some (u\<lparr>path := Some p\<rparr>) });
     rest \<leftarrow> offset val currIdx;
     let sharpIdx = mupnp_strstr rest (Some ''#'');
     u \<leftarrow> (if 0 \<le> sharpIdx then do {
             p \<leftarrow> region val currIdx sharpIdx;
             f \<leftarrow> region val (currIdx + sharpIdx + 1) (uriLen - (currIdx + sharpIdx + 1));
             Some (u\<lparr>path := Some p, fragment := Some f\<rparr>) }
           else Some u);
     let questionIdx = mupnp_strstr rest (Some ''?'');
     if 0 \<le> questionIdx \<and> (sharpIdx < 0 \<or> questionIdx < sharpIdx) then do {
       p \<leftarrow> region val currIdx questionIdx;
       let queryLen = uriLen - (currIdx + questionIdx + 1);
       let queryLen = (if 0 \<le> sharpIdx then queryLen - (uriLen - (currIdx + sharpIdx)) else queryLen);
       q \<leftarrow> region val (currIdx + questionIdx + 1) queryLen;
       Some (u\<lparr>path := Some p, query := Some q\<rparr>) }
     else Some u }"

definition mupnp_net_uri_setvalue :: "mUpnpNetURI \<Rightarrow> charptr \<Rightarrow> mUpnpNetURI option" where
  "mupnp_net_uri_setvalue u val = do {
     let u = mupnp_net_uri_clear u;
     let u = u\<lparr>uri := str_set (uri u) val\<rparr>;
     (u, currIdx) \<leftarrow> uri_set_protocol u val;
     (u, currIdx) \<leftarrow> uri_set_user u val currIdx;
     (u, currIdx) \<leftarrow> uri_set_host u val currIdx;
     u \<leftarrow> uri_set_port u;
     u \<leftarrow> uri_set_zone u;
     uri_set_path u val currIdx }"

subsection \<open>Printing and requests\<close>

definition mupnp_net_uri_rebuild :: "mUpnpNetURI \<Rightarrow> mUpnpNetURI" where
  "mupnp_net_uri_rebuild u =
     (let s = str_set (uri u) (protocol u);
          s = str_add s (Some ''://'');
          s = str_add s (host u);
          s = str_add s (Some '':'');
          s = str_add s (Some (mupnp_int2str (port u) 32));
          s = (if 0 < mupnp_strlen (path u) then
                 let s = (if hd (str_bytes (path u)) \<noteq> CHR ''/'' then str_add s (Some ''/'') else s);
                     s = str_add s (path u)
                 in if mupnp_strchr (path u) (Some ''?'') 1 = - 1 \<and> 0 < mupnp_strlen (query u)
                    then str_add (str_add s (Some ''?'')) (query u) else s
               else s)
      in u\<lparr>uri := s\<rparr>)"

definition mupnp_net_uri_getvalue :: "mUpnpNetURI \<Rightarrow> mUpnpNetURI \<times> charptr" where
  "mupnp_net_uri_getvalue u = (let u = mupnp_net_uri_rebuild u in (u, uri u))"

definition mupnp_net_uri_getrequest :: "mUpnpNetURI \<Rightarrow> mUpnpNetURI \<times> charptr" where
  "mupnp_net_uri_getrequest u =
     (if \<not> mupnp_net_uri_hasquery u then (u, path u)
      else
        let r = str_set (request u) (path u);
            r = str_add r (Some ''?'');
            r = str_add r (query u)
        in (u\<lparr>request := r\<rparr>, r))"

definition mupnp_net_uri_isequivalent :: "charptr \<Rightarrow> charptr \<Rightarrow> bool option" where
  "mupnp_net_uri_isequivalent url relativeUrl = do {
     u \<leftarrow> mupnp_net_uri_setvalue mupnp_net_uri_new url;
     Some (mupnp_strcmp (path u) relativeUrl = 0) }"

text \<open>The backward loop that cuts off the file name; \<open>i\<close> is one above the index.\<close>

fun basepath_loop :: "cstring \<Rightarrow> nat \<Rightarrow> cstring" where
  "basepath_loop p 0 = p"
| "basepath_loop p (Suc i) = (if p ! i = CHR ''/'' then take (i + 1) p else basepath_loop p i)"

definition mupnp_net_uri_getupnpbasepath :: "mUpnpNetURI \<Rightarrow> charptr" where
  "mupnp_net_uri_getupnpbasepath locationURL =
     (let p = mupnp_strdup (path locationURL); i = mupnp_strlen p in
      if 0 \<ge> i then None else map_option (\<lambda>s. basepath_loop s i) p)"

subsection \<open>Escaping\<close>

definition mupnp_net_uri_isreservedchar :: "char \<Rightarrow> bool" where
  "mupnp_net_uri_isreservedchar c = (if c \<in> set '';/?:@&=+$,'' then True else False)"

definition mupnp_net_uri_isalphanumchar :: "char \<Rightarrow> bool" where
  "mupnp_net_uri_isalphanumchar c =
     (if 97 \<le> byte_of c \<and> byte_of c \<le> 122 then True
      else if 65 \<le> byte_of c \<and> byte_of c \<le> 90 then True
      else if 48 \<le> byte_of c \<and> byte_of c \<le> 57 then True else False)"

definition mupnp_net_uri_isunreservedchar :: "char \<Rightarrow> bool" where
  "mupnp_net_uri_isunreservedchar c =
     (if mupnp_net_uri_isalphanumchar c then True
      else if c \<in> set ''-_.!~*^()'' then True else False)"

definition mupnp_net_uri_isescapechar :: "char \<Rightarrow> bool" where
  "mupnp_net_uri_isescapechar c =
     (if mupnp_net_uri_isreservedchar c then False
      else if mupnp_net_uri_isunreservedchar c then False else True)"

text \<open>\<open>bufSize - 4\<close> is computed in \<open>size_t\<close>; the comparison is unsigned.\<close>

definition mupnp_net_uri_isescapedstring :: "cstring \<Rightarrow> nat \<Rightarrow> bool" where
  "mupnp_net_uri_isescapedstring buf bufSize =
     (let bufSize = (if bufSize < 1 then length buf + 1 else bufSize);
          idx = mupnp_strstr (Some buf) (Some ''%'');
          b = buf @ [NUL]
      in if idx < 0 \<or> nat idx > unat (word_of_nat bufSize - 4 :: 64 word) then False
         else c_isxdigit (b ! (nat idx + 1)) \<and> c_isxdigit (b ! (nat idx + 2)))"

text \<open>\<open>%%%02X\<close>\<close>

definition hex_upper :: "nat \<Rightarrow> char" where
  "hex_upper d = (if d < 10 then char_of (48 + d) else char_of (55 + d))"

definition hex_escape :: "char \<Rightarrow> cstring" where
  "hex_escape c = [CHR ''%'', hex_upper (byte_of c div 16), hex_upper (byte_of c mod 16)]"

fun uri_escape_loop :: "buffer \<Rightarrow> charptr \<Rightarrow> charptr" where
  "uri_escape_loop [] retBuf = retBuf"
| "uri_escape_loop (c # b) retBuf =
     (if \<not> mupnp_net_uri_isalphanumchar c then uri_escape_loop b (str_add retBuf (Some (hex_escape c)))
      else uri_escape_loop b (str_add retBuf (Some [c])))"

text \<open>
  \<open>retBuf\<close> is \<open>None\<close> for a NULL pointer, else the contents of the string.  The buffer is read
  up to \<open>bufSize\<close>, which includes the NUL when the size is not given.
\<close>

definition mupnp_net_uri_escapestring :: "cstring \<Rightarrow> nat \<Rightarrow> charptr option \<Rightarrow> charptr option" where
  "mupnp_net_uri_escapestring buf bufSize retBuf =
     (case retBuf of None \<Rightarrow> None
      | Some r \<Rightarrow>
          let bufSize = (if bufSize < 1 then length buf + 1 else bufSize)
          in Some (uri_escape_loop (take bufSize (buf @ [NUL])) r))"

definition strtol16_2 :: "char \<Rightarrow> char \<Rightarrow> nat" where
  "strtol16_2 c d = digits_val 16 (map char_digit (takeWhile c_isxdigit [c, d]))"

function uri_unescape_loop :: "buffer \<Rightarrow> nat \<Rightarrow> nat \<Rightarrow> charptr \<Rightarrow> charptr" where
  "uri_unescape_loop b bufSize n retBuf =
     (if n < bufSize then
        if b ! n = CHR ''%'' \<and> mupnp_net_uri_isalphanumchar (b ! (n + 1)) \<and>
           mupnp_net_uri_isalphanumchar (b ! (n + 2))
        then uri_unescape_loop b bufSize (n + 3)
               (str_add retBuf (Some [char_of (strtol16_2 (b ! (n + 1)) (b ! (n + 2)))]))
        else uri_unescape_loop b bufSize (n + 1) (str_add retBuf (Some [b ! n]))
      else retBuf)"
  by pat_completeness auto
termination
  by (relation "measure (\<lambda>(b, m, n, r). m - n)") auto

declare uri_unescape_loop.simps [simp del]

text \<open>The result is the contents of \<open>retBuf\<close> and the text at the returned pointer.\<close>

definition mupnp_net_uri_unescapestring ::
    "cstring \<Rightarrow> nat \<Rightarrow> charptr option \<Rightarrow> charptr option \<times> charptr" where
  "mupnp_net_uri_unescapestring buf bufSize retBuf =
     (case retBuf of None \<Rightarrow> (None, None)
      | Some r \<Rightarrow>
          if mupnp_net_uri_isescapedstring buf bufSize then (Some r, Some buf)
          else
            let bufSize = (if bufSize < 1 then length buf + 1 else bufSize);
                r = uri_unescape_loop (buf @ [NUL]) bufSize 0 r
            in (Some r, map_option cstr r))"

subsection \<open>Query parameters\<close>

partial_function (option) querydict_loop ::
    "charptr \<Rightarrow> mUpnpDictionary option \<Rightarrow> int \<Rightarrow> int \<Rightarrow> mUpnpDictionary option option" where
  "querydict_loop q dict queryOffset eqIdx =
     (if 0 < eqIdx then do {
        rest \<leftarrow> offset q queryOffset;
        let ampIdx = mupnp_strstr rest (Some ''&'');
        let sharp = mupnp_strstr rest (Some ''#'');
        let isLastParam = (ampIdx \<le> 0 \<and> sharp \<le> 0);
        let ampIdx = (if ampIdx \<le> 0 then if sharp \<le> 0 then int (mupnp_strlen rest) else sharp else ampIdx);
        if ampIdx \<le> eqIdx then Some dict
        else do {
          n \<leftarrow> region q queryOffset eqIdx;
          v \<leftarrow> region q (queryOffset + eqIdx + 1) (ampIdx - eqIdx - 1);
          let dict = mupnp_dictionary_setvalue dict (Some n) (Some v);
          if isLastParam then Some dict
          else do {
            rest \<leftarrow> offset q (queryOffset + (ampIdx + 1));
            querydict_loop q dict (queryOffset + (ampIdx + 1)) (mupnp_strstr rest (Some ''='')) } } }
      else Some dict)"

definition mupnp_net_uri_getquerydictionary :: "mUpnpNetURI \<Rightarrow> mUpnpNetURI option" where
  "mupnp_net_uri_getquerydictionary u = do {
     let dict = (if queryDictionary u = None then mupnp_dictionary_new else queryDictionary u);
     dict \<leftarrow> querydict_loop (query u) dict 0 (mupnp_strstr (query u) (Some ''=''));
     Some (u\<lparr>queryDictionary := dict\<rparr>) }"

section \<open>The parser stays within its text\<close>

lemma region_ok [url_bounds]:
  "0 \<le> i \<Longrightarrow> 0 \<le> len \<Longrightarrow> i + len \<le> int (length s) \<Longrightarrow>
   region (Some s) i len = Some (take (nat len) (drop (nat i) s))"
  by (simp add: region_def)

lemma offset_ok [url_bounds]:
  "0 \<le> i \<Longrightarrow> i \<le> int (length s) \<Longrightarrow> offset (Some s) i = Some (Some (drop (nat i) s))"
  by (simp add: offset_def)

lemma offset_None [simp]: "offset None 0 = Some None"
  by (simp add: offset_def)

lemma strstr_upto:
  assumes "0 \<le> i" and "i \<le> int (length s)" and "0 \<le> mupnp_strstr (Some (drop (nat i) s)) (Some n)"
  shows "i + mupnp_strstr (Some (drop (nat i) s)) (Some n) + int (length n) \<le> int (length s)"
  using strstr_bound [OF assms(3)] assms by (simp del: strstr_simps)

definition uri_ok :: "charptr \<Rightarrow> mUpnpNetURI \<Rightarrow> int \<Rightarrow> bool" where
  "uri_ok val u i \<longleftrightarrow> 0 \<le> i \<and> i \<le> int (mupnp_strlen val) \<and> (mupnp_net_uri_isabsolute u \<longrightarrow> val \<noteq> None)"

lemma uri_set_protocol_ok:
  assumes "protocol u = None"
  obtains u' i where "uri_set_protocol u val = Some (u', i)" and "uri_ok val u' i"
    and "uri u' = uri u" and "host u' = host u" and "path u' = path u"
proof (cases "0 < mupnp_strstr val (Some ''://'')")
  case False
  with assms that [of u 0] show thesis
    by (simp add: uri_set_protocol_def Let_def uri_ok_def mupnp_net_uri_isabsolute_def)
next
  case True
  then obtain s where s: "val = Some s" by (cases val) auto
  with True strstr_bound [of s "''://''"] show thesis
    by (intro that [of "u\<lparr>protocol := Some (take (nat (mupnp_strstr val (Some ''://''))) s)\<rparr>"
          "mupnp_strstr val (Some ''://'') + 3"])
      (auto simp: uri_set_protocol_def Let_def url_bounds uri_ok_def simp del: strstr_simps)
qed

lemma uri_set_user_ok:
  assumes "uri_ok val u i"
  obtains u' j where "uri_set_user u val i = Some (u', j)" and "uri_ok val u' j"
    and "protocol u' = protocol u" and "host u' = host u" and "path u' = path u" and "i \<le> j"
proof (cases val)
  case None
  then have "i = 0" using assms by (simp add: uri_ok_def)
  with None assms that [of u 0] show thesis by (simp add: uri_set_user_def uri_ok_def)
next
  case (Some s)
  let ?at = "mupnp_strstr (Some (drop (nat i) s)) (Some ''@'')"
  let ?colon = "mupnp_strstr (Some (drop (nat i) s)) (Some '':'')"
  have i: "0 \<le> i" "i \<le> int (length s)" using assms Some by (simp_all add: uri_ok_def)
  show thesis
  proof (cases "0 < ?at")
    case False
    with i Some assms that [of u i] show thesis
      by (simp add: uri_set_user_def url_bounds del: strstr_simps)
  next
    case True
    with strstr_upto [OF i, of "''@''"] have at: "i + ?at + 1 \<le> int (length s)" by simp
    have "\<exists>u'. uri_set_user u val i = Some (u', i + (?at + 1)) \<and> protocol u' = protocol u \<and>
        host u' = host u \<and> path u' = path u"
      using True at i Some
      by (auto simp: uri_set_user_def url_bounds Let_def simp del: strstr_simps)
    with True at i Some assms that show thesis
      by (auto simp: uri_ok_def mupnp_net_uri_isabsolute_def simp del: strstr_simps)
  qed
qed

lemma uri_set_host_ok:
  assumes "uri_ok val u i"
  obtains u' j where "uri_set_host u val i = Some (u', j)" and "uri_ok val u' j"
    and "protocol u' = protocol u" and "path u' = path u"
proof (cases val)
  case None
  then have "i = 0" using assms by (simp add: uri_ok_def)
  with None assms that [of u 0] show thesis by (simp add: uri_set_host_def uri_ok_def)
next
  case (Some s)
  let ?sh = "mupnp_strstr (Some (drop (nat i) s)) (Some ''/'')"
  have i: "0 \<le> i" "i \<le> int (length s)" using assms Some by (simp_all add: uri_ok_def)
  have sh: "0 < ?sh \<Longrightarrow> i + ?sh + 1 \<le> int (length s)"
    using strstr_upto [OF i, of "''/''"] by simp
  have "\<exists>u' j. uri_set_host u val i = Some (u', j) \<and> 0 \<le> j \<and> j \<le> int (length s) \<and>
      protocol u' = protocol u \<and> path u' = path u"
    using i Some sh by (auto simp: uri_set_host_def url_bounds Let_def simp del: strstr_simps)
  with Some that show thesis by (auto simp: uri_ok_def)
qed

lemma uri_set_port_ok:
  obtains u' where "uri_set_port u = Some u'" and "protocol u' = protocol u" and "path u' = path u"
proof -
  let ?colon = "mupnp_strrchr (host u) (Some '':'') 1" and ?eb = "mupnp_strrchr (host u) (Some '']'') 1"
  show thesis
  proof (cases "0 < ?colon \<and> ?eb < ?colon")
    case False
    then show thesis
      by (intro that [of "the (uri_set_port u)"]) (auto simp: uri_set_port_def Let_def)
  next
    case True
    then obtain h where h: "host u = Some h" by (cases "host u") auto
    with True have c: "0 < ?colon" "?colon < int (length h)" using strrchr_bound [of h "'':''" 1] by auto
    let ?a = "take (nat ?colon) h"
    have two: "2 \<le> ?colon" if "?a ! 0 = CHR ''[''" "?a ! nat (?colon - 1) = CHR '']''"
      using that c by (cases "?colon = 1") auto
    have "\<exists>u'. uri_set_port u = Some u' \<and> protocol u' = protocol u \<and> path u' = path u"
      using True c h two by (auto simp: uri_set_port_def Let_def url_bounds)
    then show thesis using that by blast
  qed
qed

lemma uri_set_zone_ok:
  obtains u' where "uri_set_zone u = Some u'" and "protocol u' = protocol u" and "path u' = path u"
proof (cases "mupnp_net_isipv6address (host u)")
  case False
  then show thesis by (intro that [of u]) (simp_all add: uri_set_zone_def)
next
  case True
  then obtain h where h: "host u = Some h" by (cases "host u") auto
  show thesis
  proof (cases "c_strstr h ''%25''")
    case None
    with h True show thesis by (intro that [of u]) (simp_all add: uri_set_zone_def)
  next
    case (Some z)
    then have "z + 3 \<le> length h" using c_strstr_bound by force
    with Some h True have "\<exists>u'. uri_set_zone u = Some u' \<and> protocol u' = protocol u \<and> path u' = path u"
      by (auto simp: uri_set_zone_def url_bounds)
    then show thesis using that by blast
  qed
qed

lemma uri_set_path_ok:
  assumes "uri_ok val u i"
  obtains u' where "uri_set_path u val i = Some u'" and "protocol u' = protocol u"
proof (cases val)
  case None
  then have "i = 0" using assms by (simp add: uri_ok_def)
  with None assms show thesis
    by (intro that [of "u\<lparr>path := str_add (path u) None\<rparr>"]) (auto simp: uri_set_path_def uri_ok_def Let_def)
next
  case (Some s)
  let ?sharp = "mupnp_strstr (Some (drop (nat i) s)) (Some ''#'')"
  let ?quest = "mupnp_strstr (Some (drop (nat i) s)) (Some ''?'')"
  have i: "0 \<le> i" "i \<le> int (length s)" using assms Some by (simp_all add: uri_ok_def)
  have sharp: "0 \<le> ?sharp \<Longrightarrow> i + ?sharp + 1 \<le> int (length s)"
    using strstr_upto [OF i, of "''#''"] by simp
  have quest: "0 \<le> ?quest \<Longrightarrow> i + ?quest + 1 \<le> int (length s)"
    using strstr_upto [OF i, of "''?''"] by simp
  have "\<exists>u'. uri_set_path u val i = Some u' \<and> protocol u' = protocol u"
    using Some i sharp quest
    by (auto simp: uri_set_path_def Let_def url_bounds simp del: strstr_simps)
  then show thesis using that by blast
qed

text \<open>The parser stays inside the text; a URL without \<open>://\<close> is not absolute.\<close>

lemma uri_setvalue_total:
  obtains u' where "mupnp_net_uri_setvalue u val = Some u'"
    and "mupnp_strstr val (Some ''://'') \<le> 0 \<Longrightarrow> protocol u' = None"
proof -
  let ?u0 = "(mupnp_net_uri_clear u)\<lparr>uri := str_set (uri (mupnp_net_uri_clear u)) val\<rparr>"
  have p0: "protocol ?u0 = None" by (simp add: mupnp_net_uri_clear_def)
  then obtain u1 i1 where 1: "uri_set_protocol ?u0 val = Some (u1, i1)" "uri_ok val u1 i1"
    by (rule uri_set_protocol_ok) 
  from 1(2) obtain u2 i2 where 2: "uri_set_user u1 val i1 = Some (u2, i2)" "uri_ok val u2 i2"
      "protocol u2 = protocol u1"
    by (rule uri_set_user_ok)
  from 2(2) obtain u3 i3 where 3: "uri_set_host u2 val i2 = Some (u3, i3)" "uri_ok val u3 i3"
      "protocol u3 = protocol u2"
    by (rule uri_set_host_ok)
  obtain u4 where 4: "uri_set_port u3 = Some u4" "protocol u4 = protocol u3" by (rule uri_set_port_ok)
  obtain u5 where 5: "uri_set_zone u4 = Some u5" "protocol u5 = protocol u4" by (rule uri_set_zone_ok)
  have "uri_ok val u5 i3" using 3(2) 4(2) 5(2) by (simp add: uri_ok_def mupnp_net_uri_isabsolute_def)
  then obtain u6 where 6: "uri_set_path u5 val i3 = Some u6" "protocol u6 = protocol u5" by (rule uri_set_path_ok)
  have "mupnp_net_uri_setvalue u val = Some u6"
    using 1 2 3 4 5 6 by (simp add: mupnp_net_uri_setvalue_def Let_def)
  moreover have "protocol u6 = None" if "mupnp_strstr val (Some ''://'') \<le> 0"
    using that p0 1(1) 2(3) 3(3) 4(2) 5(2) 6(2) by (auto simp: uri_set_protocol_def Let_def simp del: strstr_simps)
  ultimately show thesis by (rule that)
qed

section \<open>Parsing a printed URL\<close>

lemma c_strstr_first: "c \<notin> set a \<Longrightarrow> c_strstr (a @ (c # n) @ r) (c # n) = Some (length a)"
  by (induction a) auto

lemma strstr_char:
  "mupnp_strstr (Some s) (Some [c]) = (if c \<in> set s then int (length (takeWhile (\<lambda>x. x \<noteq> c) s)) else - 1)"
  by (simp add: c_strstr_single)

lemma strstr_char_at: "c \<notin> set a \<Longrightarrow> mupnp_strstr (Some (a @ c # r)) (Some [c]) = int (length a)"
  using c_strstr_first [of c a "[]" r] by simp

lemma strrchr_last:
  assumes "c \<notin> set b"
  shows "mupnp_strrchr (Some (a @ c # b)) (Some [c]) (Suc 0) = int (length a)"
proof -
  have "(a @ c # b) ! j \<noteq> c" if "length a < j" "j < length (a @ c # b)" for j
    using that assms by (auto simp: nth_append nth_Cons split: nat.splits)
  then have "strrchr_loop (a @ c # b) [c] (Suc 0) (length (a @ c # b)) = int (length a)"
    by (intro strrchr_loop_correct [THEN conjunct2, rule_format, THEN iffD2]) auto
  then show ?thesis by (simp add: mupnp_strrchr_def)
qed

lemma strrchr_absent: "c \<notin> set s \<Longrightarrow> mupnp_strrchr (Some s) (Some [c]) (Suc 0) = - 1"
proof -
  assume c: "c \<notin> set s"
  have "strrchr_loop s [c] (Suc 0) (length s) = - 1"
    by (rule strrchr_loop_correct [THEN conjunct1, THEN iffD2]) (use c in \<open>auto simp: nth_mem\<close>)
  then show ?thesis by (simp add: mupnp_strrchr_def)
qed

lemma region_mid [simp]:
  "region (Some (a @ b @ c)) (int (length a)) (int (length b)) = Some b"
  by (simp add: region_def)

lemma region_part: "i = int (length a) \<Longrightarrow> n = int (length b) \<Longrightarrow> s = a @ b @ c \<Longrightarrow> region (Some s) i n = Some b"
  by simp

lemma offset_mid [simp]: "offset (Some (a @ b)) (int (length a)) = Some (Some b)"
  by (simp add: offset_def)

lemma offset_part: "i = int (length a) \<Longrightarrow> s = a @ b \<Longrightarrow> offset (Some s) i = Some (Some b)"
  by simp

lemma set_protocol_text:
  assumes "proto \<noteq> []" and "CHR '':'' \<notin> set proto"
  shows "uri_set_protocol u (Some (proto @ ''://'' @ r)) =
     Some (u\<lparr>protocol := Some proto\<rparr>, int (length proto) + 3)"
proof -
  have "mupnp_strstr (Some (proto @ ''://'' @ r)) (Some ''://'') = int (length proto)"
    using c_strstr_first [OF assms(2), of "''//''" r] by simp
  moreover have "region (Some (proto @ ''://'' @ r)) 0 (int (length proto)) = Some proto"
    by (simp add: region_def)
  ultimately show ?thesis using assms by (simp add: uri_set_protocol_def Let_def del: strstr_simps)
qed

lemma set_user_text:
  assumes "CHR ''@'' \<notin> set r"
  shows "uri_set_user u (Some (a @ r)) (int (length a)) = Some (u, int (length a))"
proof -
  have "mupnp_strstr (Some r) (Some ''@'') = - 1" using assms by (simp add: c_strstr_single)
  then show ?thesis by (simp add: uri_set_user_def del: strstr_simps)
qed

lemma set_host_text:
  assumes "hp \<noteq> []" and "CHR ''/'' \<notin> set hp"
  shows "uri_set_host u (Some (a @ hp @ CHR ''/'' # r)) (int (length a)) =
     Some (u\<lparr>host := Some hp\<rparr>, int (length (a @ hp)))"
proof -
  have "region (Some (a @ hp @ CHR ''/'' # r)) (int (length a)) (int (length hp)) = Some hp"
    by simp
  then show ?thesis
    using assms strstr_char_at [of "CHR ''/''" hp r]
    by (simp add: uri_set_host_def Let_def del: strstr_simps)
qed

lemma show_int_no: "c \<in> {CHR '':'', CHR '']'', CHR ''['', CHR ''/'', CHR ''@'', CHR ''?'', CHR ''#'', CHR ''%''} \<Longrightarrow> c \<notin> set (show_int n)"
  using show_int_chars [of c n] by (auto simp: c_isdigit_def)

text \<open>The host part of a URL: an IPv6 address in brackets, with the zone sign escaped.\<close>

definition zone_esc :: "cstring \<Rightarrow> cstring" where
  "zone_esc h = (case c_strchr h (CHR ''%'') of None \<Rightarrow> h | Some z \<Rightarrow> take z h @ ''%25'' @ drop (z + 1) h)"

definition url_host :: "cstring \<Rightarrow> cstring" where
  "url_host h = (if mupnp_net_isipv6address (Some h) then ''['' @ zone_esc h @ '']'' else h)"

definition host_ok :: "cstring \<Rightarrow> bool" where
  "host_ok h \<longleftrightarrow> h \<noteq> [] \<and> set h \<inter> set ''/@[]'' = {} \<and>
     (CHR '':'' \<in> set h \<longrightarrow> mupnp_net_isipv6address (Some h))"

lemma set_zone_esc: "set (zone_esc h) \<subseteq> set h \<union> set ''%25''"
  by (auto simp: zone_esc_def dest: in_set_takeD in_set_dropD split: option.splits)

lemma hd_zone_esc: "h \<noteq> [] \<Longrightarrow> hd h \<noteq> CHR ''%'' \<Longrightarrow> hd (zone_esc h) = hd h"
  by (cases h) (auto simp: zone_esc_def c_strchr_def split: option.splits)

lemma zone_esc_ne: "h \<noteq> [] \<Longrightarrow> zone_esc h \<noteq> []"
  by (auto simp: zone_esc_def split: option.splits)

lemma isipv6_zone_esc: "mupnp_net_isipv6address (Some h) \<Longrightarrow> mupnp_net_isipv6address (Some (zone_esc h))"
proof -
  assume six: "mupnp_net_isipv6address (Some h)"
  show ?thesis
  proof (cases "c_strchr h (CHR ''%'')")
    case None
    with six show ?thesis by (simp add: zone_esc_def)
  next
    case (Some z)
    then have z: "h = take z h @ ''%'' @ drop (z + 1) h"
      using c_strstr_split [of h "''%''" z] by (simp add: c_strchr_def)
    have "set h = set (take z h @ ''%'' @ drop (z + 1) h)" by (rule arg_cong [OF z])
    then have "CHR '':'' \<in> set (take z h) \<union> set (drop (z + 1) h)"
      using six by (auto simp: isipv6_iff)
    then have "CHR '':'' \<in> set (zone_esc h)" using Some by (auto simp: zone_esc_def)
    moreover have "hd (zone_esc h) \<noteq> CHR '':''"
    proof (cases z)
      case 0
      then show ?thesis using Some by (simp add: zone_esc_def)
    next
      case (Suc k)
      with six show ?thesis using Some by (cases h) (auto simp: zone_esc_def isipv6_iff)
    qed
    ultimately show ?thesis by (simp add: isipv6_iff)
  qed
qed

lemma set_port_text:
  assumes ok: "host_ok h" and n: "int_range n" and u: "host u = Some (url_host h @ '':'' @ show_int n)"
  shows "uri_set_port u =
     Some (u\<lparr>host := Some (if mupnp_net_isipv6address (Some h) then zone_esc h else h), port := n\<rparr>)"
proof -
  let ?x = "url_host h" and ?six = "mupnp_net_isipv6address (Some h)"
  let ?s = "?x @ CHR '':'' # show_int n"
  have x: "?x \<noteq> []" using ok by (auto simp: url_host_def host_ok_def)
  have colon: "mupnp_strrchr (Some ?s) (Some '':'') (Suc 0) = int (length ?x)"
    by (rule strrchr_last) (rule show_int_no, simp)
  have eb: "mupnp_strrchr (Some ?s) (Some '']'') (Suc 0) < int (length ?x)"
  proof (cases ?six)
    case True
    have "mupnp_strrchr (Some (([CHR ''[''] @ zone_esc h) @ CHR '']'' # (CHR '':'' # show_int n))) (Some '']'') (Suc 0)
        = int (length ([CHR ''[''] @ zone_esc h))"
      by (rule strrchr_last) (use show_int_no in simp)
    with True show ?thesis by (simp add: url_host_def)
  next
    case False
    have "CHR '']'' \<notin> set ?s" using False ok show_int_no [of "CHR '']''" n] by (auto simp: url_host_def host_ok_def)
    then have "mupnp_strrchr (Some ?s) (Some '']'') (Suc 0) = - 1" by (rule strrchr_absent)
    then show ?thesis by simp
  qed
  have a: "region (Some ?s) 0 (int (length ?x)) = Some ?x" by (simp add: region_def)
  have p: "region (Some ?s) (int (length ?x) + 1) (int (length ?s) - int (length ?x) - 1) = Some (show_int n)"
    by (rule region_part [of _ "?x @ '':''" _ _ _ "[]"]) simp_all
  have last: "nat (int (length ?x) - 1) = length ?x - 1" by simp
  have brackets: "?x ! 0 = CHR ''['' \<and> ?x ! (length ?x - 1) = CHR '']'' \<longleftrightarrow> ?six"
  proof (cases ?six)
    case True
    then show ?thesis by (simp add: url_host_def nth_append)
  next
    case False
    then have "?x ! 0 \<in> set h" using ok by (auto simp: url_host_def host_ok_def)
    with ok False show ?thesis by (auto simp: host_ok_def)
  qed
  have b: "region (Some ?s) 1 (int (length ?x) - 2) = Some (zone_esc h)" if ?six
    using that by (intro region_part [of _ "''[''" _ _ _ "'']:'' @ show_int n"]) (simp_all add: url_host_def)
  have port: "c_atoi (show_int n) = n" using c_atoi_show_int [OF n, of "[]"] by simp
  show ?thesis
  proof (cases ?six)
    case True
    with u x colon eb a p brackets b port show ?thesis
      by (simp add: uri_set_port_def Let_def last)
  next
    case False
    with u x colon eb a p brackets port have "uri_set_port u = Some (u\<lparr>host := Some ?x, port := n\<rparr>)"
      by (auto simp: uri_set_port_def Let_def last)
    with False show ?thesis by (simp add: url_host_def)
  qed
qed

lemma set_zone_text:
  assumes "host u = Some (if mupnp_net_isipv6address (Some h) then zone_esc h else h)"
  shows "uri_set_zone u = Some (u\<lparr>host := Some h\<rparr>)"
proof (cases "mupnp_net_isipv6address (Some h)")
  case False
  with assms show ?thesis by (cases u) (simp add: uri_set_zone_def)
next
  case six: True
  then have six': "mupnp_net_isipv6address (Some (zone_esc h))" by (rule isipv6_zone_esc)
  show ?thesis
  proof (cases "c_strchr h (CHR ''%'')")
    case None
    then have "CHR ''%'' \<notin> set h" by (simp add: c_strchr_def c_strstr_single split: if_splits)
    then have "c_strstr h ''%25'' = None"
    proof -
      have "\<not> prefix ''%25'' (drop i h)" for i
      proof -
      have "CHR ''%'' \<notin> set (drop i h)" using \<open>CHR ''%'' \<notin> set h\<close> by (auto dest: in_set_dropD)
      then show ?thesis by (auto simp: prefix_def)
    qed
      then show ?thesis by (simp add: c_strstr_None)
    qed
    with None six assms show ?thesis by (cases u) (simp add: uri_set_zone_def zone_esc_def)
  next
    case (Some z)
    then have z: "h = take z h @ ''%'' @ drop (z + 1) h" "z < length h"
      using c_strstr_split [of h "''%''" z] c_strstr_bound [of h "''%''" z] by (simp_all add: c_strchr_def)
    have "CHR ''%'' \<notin> set (take z h)"
      using Some by (auto simp: c_strchr_def c_strstr_single dest: set_takeWhileD split: if_splits
          simp flip: takeWhile_eq_take)
    then have "c_strstr (take z h @ ''%25'' @ drop (z + 1) h) ''%25'' = Some (length (take z h))"
      using c_strstr_first [of "CHR ''%''" "take z h" "''25''"] by simp
    then have ss: "c_strstr (zone_esc h) ''%25'' = Some z" using Some z(2) by (simp add: zone_esc_def)
    have a: "region (Some (zone_esc h)) 0 (int z + 1) = Some (take z h @ ''%'')"
      using Some z(2) by (intro region_part [of _ "[]" _ _ _ "''25'' @ drop (z + 1) h"]) (simp_all add: zone_esc_def)
    have b: "offset (Some (zone_esc h)) (int z + 3) = Some (Some (drop (z + 1) h))"
      using Some z(2) by (intro offset_part [of _ "take z h @ ''%25''"]) (simp_all add: zone_esc_def)
    have "str_add (Some (take z h @ ''%'')) (Some (drop (z + 1) h)) = Some h"
      using z(1) by (auto simp: str_add_def)
    with six six' assms ss a b show ?thesis by (simp add: uri_set_zone_def)
  qed
qed

text \<open>The rest of a URL: the path, and the optional query and fragment.\<close>

definition url_rest :: "cstring \<Rightarrow> charptr \<Rightarrow> charptr \<Rightarrow> cstring" where
  "url_rest p q f =
     p @ (case q of None \<Rightarrow> [] | Some x \<Rightarrow> ''?'' @ x) @ (case f of None \<Rightarrow> [] | Some x \<Rightarrow> ''#'' @ x)"

definition rest_ok :: "cstring \<Rightarrow> charptr \<Rightarrow> charptr \<Rightarrow> bool" where
  "rest_ok p q f \<longleftrightarrow> set p \<inter> set ''?#'' = {} \<and> CHR ''#'' \<notin> set (str_bytes q)"

lemma length_takeWhile_skip: "c \<notin> set p \<Longrightarrow> length p \<le> length (takeWhile (\<lambda>x. x \<noteq> c) (p @ r))"
  by (induction p) auto

lemma set_path_text:
  assumes ok: "rest_ok p q f" and abs: "mupnp_net_uri_isabsolute u" and u: "query u = None" "fragment u = None"
  shows "uri_set_path u (Some (a @ url_rest p q f)) (int (length a)) =
     Some (u\<lparr>path := Some p, query := q, fragment := f\<rparr>)"
proof -
  let ?r = "url_rest p q f" and ?s = "Some (a @ url_rest p q f)"
  define qs where "qs = (case q of None \<Rightarrow> [] | Some x \<Rightarrow> ''?'' @ x)"
  have all: "region ?s (int (length a)) (int (length (a @ ?r)) - int (length a)) = Some ?r"
    by (rule region_part [of _ _ _ _ _ "[]"]) simp_all
  have nf: "CHR ''#'' \<notin> set (p @ qs)" using ok by (auto simp: rest_ok_def qs_def split: option.splits)
  have sharp: "mupnp_strstr (Some ?r) (Some ''#'') = (if f = None then - 1 else int (length (p @ qs)))"
    using nf strstr_char_at [OF nf] by (auto simp: url_rest_def qs_def c_strstr_single split: option.splits)
  have nq: "CHR ''?'' \<notin> set p" using ok by (auto simp: rest_ok_def)
  show ?thesis
  proof (cases q)
    case (Some x)
    have quest: "mupnp_strstr (Some ?r) (Some ''?'') = int (length p)"
      using strstr_char_at [OF nq] Some by (simp add: url_rest_def del: strstr_simps)
    have pr: "region ?s (int (length a)) (int (length p)) = Some p"
      unfolding url_rest_def by (rule region_mid)
    show ?thesis
    proof (cases f)
      case None
      have "region ?s (int (length a) + int (length p) + 1) (int (length x)) = Some x"
        using Some None by (intro region_part [of _ "a @ p @ ''?''" _ _ _ "[]"]) (simp_all add: url_rest_def)
      with all sharp quest pr abs u Some None show ?thesis
        by (simp add: uri_set_path_def Let_def del: strstr_simps) (simp add: url_rest_def)
    next
      case (Some y)
      note f = this
      have pq: "region ?s (int (length a)) (int (length (p @ qs))) = Some (p @ qs)"
        using Some by (intro region_part [of _ _ _ _ _ "''#'' @ y"]) (simp_all add: url_rest_def qs_def)
      have fr: "region ?s (int (length a) + int (length (p @ qs)) + 1) (int (length y)) = Some y"
        using Some by (intro region_part [of _ "a @ p @ qs @ ''#''" _ _ _ "[]"]) (simp_all add: url_rest_def qs_def)
      have qr: "region ?s (int (length a) + int (length p) + 1) (int (length x)) = Some x"
        using f \<open>q = Some x\<close> by (intro region_part [of _ "a @ p @ ''?''" _ _ _ "''#'' @ y"]) (simp_all add: url_rest_def)
      from all sharp quest pr pq fr qr abs u \<open>q = Some x\<close> f show ?thesis
        by (simp add: uri_set_path_def Let_def qs_def del: strstr_simps) (simp add: url_rest_def)
    qed
  next
    case None
    then have qs: "qs = []" by (simp add: qs_def)
    show ?thesis
    proof (cases f)
      case None
      with \<open>q = None\<close> nq have "mupnp_strstr (Some ?r) (Some ''?'') = - 1"
        by (simp add: url_rest_def c_strstr_single)
      with all sharp abs u None \<open>q = None\<close> show ?thesis
        by (simp add: uri_set_path_def Let_def del: strstr_simps) (simp add: url_rest_def)
    next
      case (Some y)
      have pr: "region ?s (int (length a)) (int (length p)) = Some p"
        unfolding url_rest_def by (rule region_mid)
      have fr: "region ?s (int (length a) + int (length p) + 1) (int (length y)) = Some y"
        using Some \<open>q = None\<close> by (intro region_part [of _ "a @ p @ ''#''" _ _ _ "[]"]) (simp_all add: url_rest_def)
      have "\<not> (0 \<le> mupnp_strstr (Some ?r) (Some ''?'') \<and> mupnp_strstr (Some ?r) (Some ''?'') < int (length p))"
      proof -
        have "length p \<le> length (takeWhile (\<lambda>c. c \<noteq> CHR ''?'') ?r)"
          using nq unfolding url_rest_def by (rule length_takeWhile_skip)
        then show ?thesis by (simp add: c_strstr_single)
      qed
      then have quest: "(0 \<le> mupnp_strstr (Some ?r) (Some ''?'') \<and>
          (int (length p) < 0 \<or> mupnp_strstr (Some ?r) (Some ''?'') < int (length p))) = False"
        by simp
      have sharp': "mupnp_strstr (Some ?r) (Some ''#'') = int (length p)"
        using sharp qs Some by simp
      have fr': "region ?s (int (length a) + int (length p) + 1)
          (int (mupnp_strlen ?s) - (int (length a) + int (length p) + 1)) = Some y"
        using fr Some \<open>q = None\<close> by (simp add: url_rest_def)
      have "uri_set_path u ?s (int (length a)) = Some (u\<lparr>path := Some ?r, path := Some p, fragment := Some y\<rparr>)"
        unfolding uri_set_path_def Let_def
        by (simp only: abs simp_thms if_False if_True strlen_simps all offset_mid bind.bind_lunit sharp' quest pr
            of_nat_0_le_iff fr' [unfolded strlen_simps])
      then show ?thesis using u Some \<open>q = None\<close> by (cases u) simp
    qed
  qed
qed

lemma uri_setvalue_text:
  assumes proto: "proto \<noteq> []" "CHR '':'' \<notin> set proto" and h: "host_ok h" and n: "int_range n"
    and p: "hd p = CHR ''/''" "p \<noteq> []" and r: "rest_ok p q f"
    and at: "CHR ''@'' \<notin> set (url_rest p q f)"
  obtains u' where
    "mupnp_net_uri_setvalue u (Some (proto @ ''://'' @ url_host h @ '':'' @ show_int n @ url_rest p q f)) = Some u'"
    and "protocol u' = Some proto" and "user u' = None" and "password u' = None" and "host u' = Some h"
    and "port u' = n" and "path u' = Some p" and "query u' = q" and "fragment u' = f" and "request u' = None"
proof -
  let ?hp = "url_host h @ '':'' @ show_int n" and ?rest = "url_rest p q f"
  let ?val = "proto @ ''://'' @ url_host h @ '':'' @ show_int n @ url_rest p q f"
  let ?u0 = "(mupnp_net_uri_clear u)\<lparr>uri := str_set (uri (mupnp_net_uri_clear u)) (Some ?val)\<rparr>"
  let ?u1 = "?u0\<lparr>protocol := Some proto\<rparr>"
  let ?i = "int (length (proto @ ''://''))"
  have seth: "set (url_host h) \<subseteq> set h \<union> set ''[]%25''"
    using set_zone_esc [of h] by (auto simp: url_host_def)
  have no_at: "CHR ''@'' \<notin> set (?hp @ ?rest)"
    using seth at h show_int_no [of "CHR ''@''" n] by (auto simp: host_ok_def)
  have no_slash: "CHR ''/'' \<notin> set ?hp"
    using seth h show_int_no [of "CHR ''/''" n] by (auto simp: host_ok_def)
  obtain r' where r': "?rest = CHR ''/'' # r'"
    using p by (cases p) (auto simp: url_rest_def)
  have val: "?val = (proto @ ''://'') @ ?hp @ ?rest" by simp
  have 1: "uri_set_protocol ?u0 (Some ?val) = Some (?u1, ?i)"
    using set_protocol_text [OF proto, of ?u0 "?hp @ ?rest"] by simp
  have 2: "uri_set_user ?u1 (Some ?val) ?i = Some (?u1, ?i)"
    using set_user_text [OF no_at, of ?u1 "proto @ ''://''"] by simp
  have 3: "uri_set_host ?u1 (Some ?val) ?i =
      Some (?u1\<lparr>host := Some ?hp\<rparr>, int (length ((proto @ ''://'') @ ?hp)))"
    using set_host_text [OF _ no_slash, of ?u1 "proto @ ''://''" r'] by (simp add: r')
  let ?h' = "if mupnp_net_isipv6address (Some h) then zone_esc h else h"
  have 4: "uri_set_port (?u1\<lparr>host := Some ?hp\<rparr>) = Some (?u1\<lparr>host := Some ?h', port := n\<rparr>)"
    using set_port_text [OF h n, of "?u1\<lparr>host := Some ?hp\<rparr>"] by simp
  have 5: "uri_set_zone (?u1\<lparr>host := Some ?h', port := n\<rparr>) = Some (?u1\<lparr>host := Some h, port := n\<rparr>)"
    using set_zone_text [of "?u1\<lparr>host := Some ?h', port := n\<rparr>" h] by simp
  have 6: "uri_set_path (?u1\<lparr>host := Some h, port := n\<rparr>) (Some ?val) (int (length ((proto @ ''://'') @ ?hp))) =
      Some (?u1\<lparr>host := Some h, port := n, path := Some p, query := q, fragment := f\<rparr>)"
    using set_path_text [OF r, of "?u1\<lparr>host := Some h, port := n\<rparr>" "(proto @ ''://'') @ ?hp"] proto
    by (simp add: mupnp_net_uri_isabsolute_def mupnp_net_uri_clear_def)
  have "mupnp_net_uri_setvalue u (Some ?val) =
      Some (?u1\<lparr>host := Some h, port := n, path := Some p, query := q, fragment := f\<rparr>)"
    unfolding mupnp_net_uri_setvalue_def Let_def
    by (simp only: 1 2 3 4 5 6 bind.bind_lunit prod.case)
  then show thesis by (rule that) (simp_all add: mupnp_net_uri_clear_def)
qed

section \<open>Properties\<close>

text \<open>C11: for every text, and for NULL, the URI parser ends without forming a pointer or a
  length outside the text (no access out of bounds, no \<open>size_t\<close> that wraps below zero).\<close>

theorem uri_parse_safe: "\<exists>u'. mupnp_net_uri_setvalue u val = Some u'"
  by (rule uri_setvalue_total [of u val]) blast

text \<open>C12: parsing a host URL printed by the library gives back its parts: the host (an IPv6
  host without its brackets and with its zone decoded), the port, the path, the query and the
  fragment, whatever the URI object held before.\<close>

theorem host_url_roundtrip:
  assumes "host_ok h" and "int_range n" and "hd p = CHR ''/''" and "p \<noteq> []" and "rest_ok p q f"
    and "CHR ''@'' \<notin> set (url_rest p q f)"
    and "length (''http://'' @ url_host h @ '':'' @ show_int n @ url_rest p q f) < bufSize"
  shows "\<exists>u'. mupnp_net_uri_setvalue u (Some (mupnp_net_gethosturl h n (url_rest p q f) bufSize)) = Some u' \<and>
     protocol u' = Some ''http'' \<and> host u' = Some h \<and> port u' = n \<and> path u' = Some p \<and>
     query u' = q \<and> fragment u' = f \<and> user u' = None \<and> password u' = None"
proof -
  have "mupnp_net_gethosturl h n (url_rest p q f) bufSize = ''http'' @ ''://'' @ url_host h @ '':'' @ show_int n @ url_rest p q f"
    using assms(7)
    by (auto simp: mupnp_net_gethosturl_def mupnp_net_getmodifierhosturl_def c_snprintf_def Let_def
        url_host_def zone_esc_def split: option.splits)
  moreover obtain u' where "mupnp_net_uri_setvalue u (Some (''http'' @ ''://'' @ url_host h @ '':'' @ show_int n @ url_rest p q f)) = Some u'"
    "protocol u' = Some ''http''" "user u' = None" "password u' = None" "host u' = Some h"
    "port u' = n" "path u' = Some p" "query u' = q" "fragment u' = f"
    by (rule uri_setvalue_text [of "''http''" h n p q f u]) (use assms in simp_all)
  ultimately show ?thesis by metis
qed

theorem host_url_roundtrip_witness:
  "\<exists>u'. mupnp_net_uri_setvalue mupnp_net_uri_new
      (Some (mupnp_net_gethosturl ''fe80::1%2'' 8080 (url_rest ''/desc.xml'' (Some ''v=1?2'') (Some ''top'')) 256)) = Some u' \<and>
     protocol u' = Some ''http'' \<and> host u' = Some ''fe80::1%2'' \<and> port u' = 8080 \<and> path u' = Some ''/desc.xml'' \<and>
     query u' = Some ''v=1?2'' \<and> fragment u' = Some ''top'' \<and> user u' = None \<and> password u' = None"
  by (rule host_url_roundtrip)
    (simp_all add: host_ok_def isipv6_iff int_range_def INT_MIN_def INT_MAX_def rest_ok_def url_rest_def
      url_host_def zone_esc_def c_strchr_def show_int_def show_nat_def nat_digits.simps)

subsection \<open>Query parameters and escaping\<close>

fun query_text :: "(cstring \<times> cstring) list \<Rightarrow> cstring" where
  "query_text [] = []"
| "query_text [(k, v)] = k @ ''='' @ v"
| "query_text ((k, v) # kvs) = k @ ''='' @ v @ ''&'' @ query_text kvs"

definition param_ok :: "cstring \<times> cstring \<Rightarrow> bool" where
  "param_ok kv \<longleftrightarrow> dict_key (fst kv) \<and> set (fst kv) \<inter> set ''=&#'' = {} \<and> set (snd kv) \<inter> set ''&#'' = {}"

lemma setvalue_dict_store: "mupnp_dictionary_setvalue (Some d) (Some k) (Some v) = Some (dict_store d k v)"
  by (simp add: dict_store_def mupnp_dictionary_setvalue_def Let_def)

lemma query_text_no_sharp: "list_all param_ok kvs \<Longrightarrow> CHR ''#'' \<notin> set (query_text kvs)"
  by (induction kvs rule: query_text.induct) (auto simp: param_ok_def)

lemma querydict_loop_text:
  "list_all param_ok kvs \<Longrightarrow> kvs \<noteq> [] \<Longrightarrow>
   querydict_loop (Some (a @ query_text kvs)) (Some d) (int (length a)) (mupnp_strstr (Some (query_text kvs)) (Some ''=''))
     = Some (Some (foldl (\<lambda>d (k, v). dict_store d k v) d kvs))"
proof (induction kvs arbitrary: a d rule: query_text.induct)
  case (2 k v)
  let ?s = "Some (a @ k @ ''='' @ v)" and ?r = "Some (k @ ''='' @ v)"
  from 2 have kv: "k \<noteq> []" "CHR ''='' \<notin> set k" "CHR ''&'' \<notin> set (k @ ''='' @ v)" "CHR ''#'' \<notin> set (k @ ''='' @ v)"
    by (auto simp: param_ok_def dict_key_def)
  have eq: "mupnp_strstr ?r (Some ''='') = int (length k)"
    using strstr_char_at [OF kv(2), of v] by simp
  have "mupnp_strstr ?r (Some ''&'') = - 1" "mupnp_strstr ?r (Some ''#'') = - 1"
    using kv(3,4) by (simp_all add: c_strstr_single)
  moreover have "region ?s (int (length a)) (int (length k)) = Some k" by simp
  moreover have "region ?s (int (length a) + int (length k) + 1) (int (length v)) = Some v"
    by (intro region_part [of _ "a @ k @ ''=''" _ _ _ "[]"]) simp_all
  ultimately show ?case
    using kv(1) eq by (subst querydict_loop.simps) (simp add: Let_def setvalue_dict_store del: strstr_simps)
next
  case (3 k v kv kvs)
  let ?q = "query_text (kv # kvs)"
  let ?s = "Some (a @ k @ ''='' @ v @ ''&'' @ ?q)" and ?r = "Some (k @ ''='' @ v @ ''&'' @ ?q)"
  from 3 have kv: "k \<noteq> []" "CHR ''='' \<notin> set k" "CHR ''&'' \<notin> set (k @ ''='' @ v)"
    by (auto simp: param_ok_def dict_key_def)
  have eq: "mupnp_strstr ?r (Some ''='') = int (length k)"
    using strstr_char_at [OF kv(2), of "v @ ''&'' @ ?q"] by simp
  have "mupnp_strstr ?r (Some ''&'') = int (length (k @ ''='' @ v))"
    using strstr_char_at [OF kv(3), of ?q] by simp
  moreover have "region ?s (int (length a)) (int (length k)) = Some k" by simp
  moreover have "region ?s (int (length a) + int (length k) + 1) (int (length v)) = Some v"
    by (intro region_part [of _ "a @ k @ ''=''" _ _ _ "''&'' @ ?q"]) simp_all
  moreover have "offset ?s (int (length a) + (int (length (k @ ''='' @ v)) + 1)) = Some (Some ?q)"
    by (intro offset_part [of _ "a @ k @ ''='' @ v @ ''&''"]) simp_all
  ultimately have "querydict_loop ?s (Some d) (int (length a)) (int (length k)) =
      querydict_loop ?s (Some (dict_store d k v)) (int (length (a @ k @ ''='' @ v @ ''&''))) (mupnp_strstr (Some ?q) (Some ''=''))"
    using kv(1) by (subst querydict_loop.simps) (simp add: Let_def setvalue_dict_store algebra_simps del: strstr_simps)
  also have "\<dots> = Some (Some (foldl (\<lambda>d (k, v). dict_store d k v) (dict_store d k v) (kv # kvs)))"
    using 3(1) [of "a @ k @ ''='' @ v @ ''&''" "dict_store d k v"] 3(2) by (simp del: strstr_simps)
  finally show ?case using eq by (simp del: strstr_simps)
qed simp

text \<open>C13: reading the query \<open>k1=v1&...&kn=vn\<close> of a URI into its dictionary, an empty one at first,
  ends without leaving the query text.  The dictionary then has, for every name, the value of
  the last parameter of this name, and no value for a name that is not in the query; nothing
  else of the URI changes.\<close>

theorem query_dictionary:
  assumes "\<forall>kv \<in> set kvs. param_ok kv" and "kvs \<noteq> []"
    and "query u = Some (query_text kvs)" and "queryDictionary u = None"
  shows "\<exists>d. mupnp_net_uri_getquerydictionary u = Some (u\<lparr>queryDictionary := Some d\<rparr>) \<and>
     (\<forall>k. dict_key k \<longrightarrow>
        mupnp_dictionary_getvalue (Some d) (Some k) = map_option snd (find (\<lambda>(k', v). k' = k) (rev kvs)))"
proof -
  let ?d = "foldl (\<lambda>d (k, v). dict_store d k v) [] kvs"
  have ok: "list_all param_ok kvs" using assms(1) by (simp add: list_all_iff)
  from querydict_loop_text [OF this assms(2), of "[]" "[]"] assms(3,4)
  have "mupnp_net_uri_getquerydictionary u = Some (u\<lparr>queryDictionary := Some ?d\<rparr>)"
    by (simp add: mupnp_net_uri_getquerydictionary_def mupnp_dictionary_new_def del: strstr_simps)
  moreover have "list_all (\<lambda>(k, v). dict_key k) kvs" using ok by (auto simp: list_all_iff param_ok_def)
  then have "dict_lookup ?d k = map_option snd (find (\<lambda>(k', v). k' = k) (rev kvs))" if "dict_key k" for k
    using that by (rule stored_values)
  ultimately show ?thesis by (auto simp: dict_lookup_def)
qed

theorem query_dictionary_witness:
  "\<exists>d. mupnp_net_uri_getquerydictionary (mupnp_net_uri_new\<lparr>query := Some ''a=1&b=&a=x=y''\<rparr>) =
       Some (mupnp_net_uri_new\<lparr>query := Some ''a=1&b=&a=x=y'', queryDictionary := Some d\<rparr>) \<and>
     mupnp_dictionary_getvalue (Some d) (Some ''a'') = Some ''x=y'' \<and>
     mupnp_dictionary_getvalue (Some d) (Some ''b'') = Some [] \<and> mupnp_dictionary_getvalue (Some d) (Some ''c'') = None"
  using query_dictionary [of "[(''a'', ''1''), (''b'', []), (''a'', ''x=y'')]"
      "mupnp_net_uri_new\<lparr>query := Some ''a=1&b=&a=x=y''\<rparr>"]
  by (auto simp: param_ok_def dict_key_def mupnp_net_uri_new_def)

text \<open>
  The test in \<open>mupnp_net_uri_unescapestring\<close> is the wrong way round: a text that has an
  escape sequence is returned as it is, and \<open>retBuf\<close>, which the server reads, stays as it was.
\<close>

lemma unescape_leaves_escaped:
  "mupnp_net_uri_isescapedstring buf n \<Longrightarrow> mupnp_net_uri_unescapestring buf n (Some r) = (Some r, Some buf)"
  by (simp add: mupnp_net_uri_unescapestring_def)

lemma unescape_of_space: "mupnp_net_uri_unescapestring ''/a%20b'' 0 (Some None) = (Some None, Some ''/a%20b'')"
  by (rule unescape_leaves_escaped) (simp add: mupnp_net_uri_isescapedstring_def c_isxdigit_def c_isdigit_def)

end
