(* ===== verification/Subscriber.thy ===== *)
theory Subscriber
  imports Uri UpnpTypes
begin

section \<open>Subscribers (src/mupnp/event/subscriber.c, subscriber_list.c, subscription.c)\<close>

text \<open>
  The subscribers of a service and the header values of subscriptions.  The clock is a
  parameter.  Setting a URL is total (the parser never leaves its text, \<open>uri_setvalue_total\<close>).
\<close>

definition mupnp_net_url_set :: "mUpnpNetURI \<Rightarrow> charptr \<Rightarrow> mUpnpNetURI" where
  "mupnp_net_url_set u v = the (mupnp_net_uri_setvalue u v)"

lemma url_set_value: "mupnp_net_uri_setvalue u v = Some (mupnp_net_url_set u v)"
  by (rule uri_setvalue_total [of u v]) (simp add: mupnp_net_url_set_def)

definition MUPNP_NOTIFY_COUNT_MAX :: int where "MUPNP_NOTIFY_COUNT_MAX = 4294967295"
definition MUPNP_SUBSCRIPTION_INFINITE_VALUE :: int where "MUPNP_SUBSCRIPTION_INFINITE_VALUE = - 1"
definition MUPNP_SUBSCRIPTION_MAX_TIMEOUT :: int where "MUPNP_SUBSCRIPTION_MAX_TIMEOUT = 300"
definition MUPNP_SUBSCRIPTION_TIMEOUT_HEADER :: cstring where "MUPNP_SUBSCRIPTION_TIMEOUT_HEADER = ''Second-''"
definition MUPNP_SUBSCRIPTION_INFINITE_STRING :: cstring where "MUPNP_SUBSCRIPTION_INFINITE_STRING = ''infinite''"
definition MUPNP_SUBSCRIPTION_UUID :: cstring where "MUPNP_SUBSCRIPTION_UUID = ''uuid:''"

record mUpnpSubscriber =
  subSid :: charptr
  subIfAddr :: charptr
  deliveryURL :: mUpnpNetURI
  subTimeout :: int
  notifyCount :: int
  subscriptionTime :: int

definition mupnp_subscriber_renew :: "mUpnpSubscriber \<Rightarrow> int \<Rightarrow> mUpnpSubscriber" where
  "mupnp_subscriber_renew sub now = sub\<lparr>subscriptionTime := now\<rparr>"

definition mupnp_subscriber_settimeout :: "mUpnpSubscriber \<Rightarrow> int \<Rightarrow> mUpnpSubscriber" where
  "mupnp_subscriber_settimeout sub v = sub\<lparr>subTimeout := v\<rparr>"

definition mupnp_subscriber_setsid :: "mUpnpSubscriber \<Rightarrow> charptr \<Rightarrow> mUpnpSubscriber" where
  "mupnp_subscriber_setsid sub v = sub\<lparr>subSid := str_set (subSid sub) v\<rparr>"

definition mupnp_subscriber_setdeliveryurl :: "mUpnpSubscriber \<Rightarrow> charptr \<Rightarrow> mUpnpSubscriber" where
  "mupnp_subscriber_setdeliveryurl sub v = sub\<lparr>deliveryURL := mupnp_net_url_set (deliveryURL sub) v\<rparr>"

definition mupnp_subscriber_new :: "int \<Rightarrow> mUpnpSubscriber" where
  "mupnp_subscriber_new now =
     (let sub = \<lparr>subSid = None, subIfAddr = None, deliveryURL = mupnp_net_uri_new, subTimeout = 0, notifyCount = 0,
                 subscriptionTime = now\<rparr>;
          sub = mupnp_subscriber_settimeout sub 0;
          sub = mupnp_subscriber_renew sub now
      in sub\<lparr>notifyCount := 0\<rparr>)"

definition mupnp_subscriber_incrementnotifycount :: "mUpnpSubscriber \<Rightarrow> mUpnpSubscriber" where
  "mupnp_subscriber_incrementnotifycount sub =
     (let sub = (if MUPNP_NOTIFY_COUNT_MAX \<le> notifyCount sub then sub\<lparr>notifyCount := 0\<rparr> else sub)
      in sub\<lparr>notifyCount := notifyCount sub + 1\<rparr>)"

definition mupnp_subscriber_isexpired :: "mUpnpSubscriber \<Rightarrow> int \<Rightarrow> bool" where
  "mupnp_subscriber_isexpired sub currTime =
     (let timeout = subTimeout sub in
      if timeout = MUPNP_SUBSCRIPTION_INFINITE_VALUE then False
      else subscriptionTime sub + timeout < currTime)"

text \<open>The lookup of the list skips all up to \<open>uuid\<close> and one more; it is not used by the device.
  The outer \<open>None\<close> is a pointer behind the end of the text.\<close>

definition mupnp_subscriberlist_get :: "mUpnpSubscriber list \<Rightarrow> charptr \<Rightarrow> nat option option" where
  "mupnp_subscriberlist_get subscriberList sid =
     (if mupnp_strlen sid \<le> 0 then Some None
      else do {
        let uuidIdx = mupnp_strstr sid (Some MUPNP_ST_UUID_DEVICE);
        sid \<leftarrow> (if 0 \<le> uuidIdx then offset sid (uuidIdx + int (length MUPNP_ST_UUID_DEVICE) + 1) else Some sid);
        Some (index_where (\<lambda>sub. mupnp_streq sid (subSid sub)) subscriberList) })"

subsection \<open>Header values\<close>

definition mupnp_event_subscription_totimeoutheaderstring :: "int \<Rightarrow> charptr \<Rightarrow> charptr" where
  "mupnp_event_subscription_totimeoutheaderstring time buf =
     (if time \<noteq> MUPNP_SUBSCRIPTION_INFINITE_VALUE then
        str_add (str_set buf (Some MUPNP_SUBSCRIPTION_TIMEOUT_HEADER)) (Some (mupnp_long2str time MUPNP_STRING_LONG_BUFLEN))
      else str_set buf (Some MUPNP_SUBSCRIPTION_INFINITE_STRING))"

definition mupnp_event_subscription_gettimeout :: "charptr \<Rightarrow> int" where
  "mupnp_event_subscription_gettimeout headerValue =
     (let minusIdx = mupnp_strstr headerValue (Some ''-'') in
      if minusIdx < 0 then MUPNP_SUBSCRIPTION_INFINITE_VALUE
      else
        let timeout = mupnp_str2long (map_option (drop (nat minusIdx + 1)) headerValue) in
        if timeout = 0 then MUPNP_SUBSCRIPTION_INFINITE_VALUE
        else if timeout < 0 then to_int64 (- timeout) else timeout)"

text \<open>The buffer of \<open>bufSize\<close> bytes holds at most one less.\<close>

definition mupnp_event_subscription_tosidheaderstring :: "cstring \<Rightarrow> nat \<Rightarrow> cstring" where
  "mupnp_event_subscription_tosidheaderstring sid bufSize =
     (if 0 \<le> mupnp_strstr (Some sid) (Some MUPNP_SUBSCRIPTION_UUID) then take (bufSize - 1) sid
      else c_snprintf bufSize (MUPNP_SUBSCRIPTION_UUID @ sid))"

definition mupnp_event_subscription_getsid :: "charptr \<Rightarrow> charptr" where
  "mupnp_event_subscription_getsid headerValue =
     (let colonIdx = mupnp_strstr headerValue (Some '':'')
      in if colonIdx < 0 then headerValue else map_option (drop (nat colonIdx + 1)) headerValue)"

section \<open>Properties\<close>

lemma gettimeout_of_text:
  assumes "long_range t" and "0 < t"
  shows "mupnp_event_subscription_gettimeout (Some (MUPNP_SUBSCRIPTION_TIMEOUT_HEADER @ show_int t)) = t"
proof -
  have "mupnp_strstr (Some (MUPNP_SUBSCRIPTION_TIMEOUT_HEADER @ show_int t)) (Some ''-'') = 6"
    by (simp add: mupnp_strstr_def MUPNP_SUBSCRIPTION_TIMEOUT_HEADER_def c_strstr_single)
  moreover have "c_strtol10 (show_int t) = t"
    using c_strtol10_show_int [OF assms(1), of "[]"] by simp
  ultimately show ?thesis
    using assms(2)
    by (simp add: mupnp_event_subscription_gettimeout_def Let_def mupnp_str2long_def c_atol_def
        MUPNP_SUBSCRIPTION_TIMEOUT_HEADER_def)
qed

text \<open>C28: a timeout written into a TIMEOUT header is read back from it: any positive number of
  seconds as itself, and the infinite timeout as infinite.\<close>

theorem timeout_roundtrip:
  assumes "long_range t" and "0 < t \<or> t = MUPNP_SUBSCRIPTION_INFINITE_VALUE"
  shows "mupnp_event_subscription_gettimeout (mupnp_event_subscription_totimeoutheaderstring t buf) = t"
proof (cases "t = MUPNP_SUBSCRIPTION_INFINITE_VALUE")
  case True
  have "mupnp_strstr (Some MUPNP_SUBSCRIPTION_INFINITE_STRING) (Some ''-'') < 0"
    by (simp add: mupnp_strstr_def MUPNP_SUBSCRIPTION_INFINITE_STRING_def c_strstr_single)
  with True show ?thesis
    by (simp add: mupnp_event_subscription_totimeoutheaderstring_def mupnp_event_subscription_gettimeout_def Let_def)
next
  case False
  then have "0 < t" using assms(2) by simp
  moreover have "mupnp_long2str t MUPNP_STRING_LONG_BUFLEN = show_int t"
    using length_show_int64 [OF assms(1)]
    by (simp add: mupnp_long2str_def MUPNP_STRING_LONG_BUFLEN_def c_snprintf_def)
  ultimately show ?thesis
    using False gettimeout_of_text [OF assms(1)]
    by (simp add: mupnp_event_subscription_totimeoutheaderstring_def str_add_def show_int_def)
qed

theorem timeout_roundtrip_witness:
  "mupnp_event_subscription_gettimeout (mupnp_event_subscription_totimeoutheaderstring 300 None) = 300"
proof -
  have "long_range 300" by code_simp
  then show ?thesis using timeout_roundtrip [of 300 None] by simp
qed

end
