(* ===== verification/XmlParser.thy ===== *)
theory XmlParser
  imports Xml
begin

section \<open>Building XML trees (src/mupnp/xml/xml_parser_expat.c)\<close>

text \<open>
  Expat is a parameter: the function from a document to the events it reports, and whether it
  accepted the document.  A pointer into the tree under construction is the path from the root.
  What is used of expat is stated with \<open>xml_doc\<close>, a reader for a part of well-formed XML: elements,
  attributes in double quotes, text of printable ASCII, tabs and newlines, and the five predefined
  entities.  A bare \<open>>\<close> in text, which XML allows outside \<open>]]>\<close>, and \<open><\<close> in an
  attribute value, which it forbids, are not read: the printer of the library escapes both.
\<close>

datatype xml_event =
    XStart cstring "(cstring \<times> cstring) list"
  | XEnd cstring
  | XChars cstring

type_synonym expat = "string \<Rightarrow> xml_event list \<times> bool"

definition MUPNP_XML_MAX_DEPTH :: nat where "MUPNP_XML_MAX_DEPTH = 128"

record mUpnpExpatData =
  rootNode :: "mUpnpXmlNode option"
  currNode :: "nat list option"
  depth :: nat

fun xml_at :: "mUpnpXmlNode \<Rightarrow> nat list \<Rightarrow> mUpnpXmlNode" where
  "xml_at node [] = node"
| "xml_at node (i # p) = xml_at (xnodes node ! i) p"

fun xml_update :: "(mUpnpXmlNode \<Rightarrow> mUpnpXmlNode) \<Rightarrow> mUpnpXmlNode \<Rightarrow> nat list \<Rightarrow> mUpnpXmlNode" where
  "xml_update f node [] = f node"
| "xml_update f node (i # p) = xml_replace_child node i (xml_update f (xnodes node ! i) p)"

fun mupnp_xml_node_getparentnode :: "nat list \<Rightarrow> nat list option" where
  "mupnp_xml_node_getparentnode [] = None"
| "mupnp_xml_node_getparentnode p = Some (butlast p)"

fun setattributes :: "mUpnpXmlNode \<Rightarrow> (cstring \<times> cstring) list \<Rightarrow> mUpnpXmlNode option" where
  "setattributes node [] = Some node"
| "setattributes node ((n, v) # attr) =
     (case mupnp_xml_node_setattribute node (Some n) (Some v) of
        (ok, node) \<Rightarrow> if ok then setattributes node attr else None)"

text \<open>\<open>None\<close> is \<open>XML_StopParser\<close>.\<close>

definition mupnp_expat_element_start ::
    "mUpnpExpatData \<Rightarrow> cstring \<Rightarrow> (cstring \<times> cstring) list \<Rightarrow> mUpnpExpatData option" where
  "mupnp_expat_element_start d el attr =
     (if depth d \<ge> MUPNP_XML_MAX_DEPTH then None
      else case setattributes (mupnp_xml_node_setname mupnp_xml_node_new (Some el)) attr of
        None \<Rightarrow> None
      | Some node \<Rightarrow>
          let d = d\<lparr>depth := depth d + 1\<rparr> in
          (case rootNode d of
             None \<Rightarrow> Some (d\<lparr>rootNode := Some node, currNode := Some []\<rparr>)
           | Some root \<Rightarrow>
               let p = (case currNode d of Some p \<Rightarrow> p | None \<Rightarrow> [])
               in Some (d\<lparr>rootNode := Some (xml_update (\<lambda>n. mupnp_xml_node_addchildnode n node) root p),
                          currNode := Some (p @ [length (xnodes (xml_at root p))])\<rparr>)))"

definition mupnp_expat_element_end :: "mUpnpExpatData \<Rightarrow> mUpnpExpatData" where
  "mupnp_expat_element_end d =
     d\<lparr>depth := (if depth d \<noteq> 0 then depth d - 1 else depth d),
       currNode := (case currNode d of Some p \<Rightarrow> mupnp_xml_node_getparentnode p | None \<Rightarrow> None)\<rparr>"

definition mupnp_expat_character_data :: "mUpnpExpatData \<Rightarrow> cstring \<Rightarrow> mUpnpExpatData" where
  "mupnp_expat_character_data d s =
     (case currNode d of
        Some p \<Rightarrow> d\<lparr>rootNode := map_option (\<lambda>root. xml_update (\<lambda>n. mupnp_xml_node_naddvalue n (Some s)) root p) (rootNode d)\<rparr>
      | None \<Rightarrow> d)"

fun expat_run :: "mUpnpExpatData \<Rightarrow> xml_event list \<Rightarrow> mUpnpExpatData option" where
  "expat_run d [] = Some d"
| "expat_run d (XStart el attr # es) =
     (case mupnp_expat_element_start d el attr of None \<Rightarrow> None | Some d \<Rightarrow> expat_run d es)"
| "expat_run d (XEnd el # es) = expat_run (mupnp_expat_element_end d) es"
| "expat_run d (XChars s # es) = expat_run (mupnp_expat_character_data d s) es"

text \<open>The result and the list of nodes; \<open>None\<close> is the use of a NULL root.\<close>

definition mupnp_xml_parse ::
    "expat \<Rightarrow> mUpnpXmlNode list \<Rightarrow> buffer option \<Rightarrow> (bool \<times> mUpnpXmlNode list) option" where
  "mupnp_xml_parse expat nodeList buf =
     (case buf of
        None \<Rightarrow> Some (False, nodeList)
      | Some bytes \<Rightarrow>
          if length bytes = 0 \<or> int (length bytes) > INT_MAX then Some (False, nodeList)
          else
            let bytes = (if last bytes = NUL then butlast bytes else bytes);
                (events, parseResult) = expat bytes
            in case expat_run \<lparr>rootNode = None, currNode = None, depth = 0\<rparr> events of
                 None \<Rightarrow> Some (False, nodeList)
               | Some d \<Rightarrow>
                   if \<not> parseResult then Some (False, nodeList)
                   else map_option (\<lambda>root. (True, nodeList @ [root])) (rootNode d))"

section \<open>A reader for a part of XML\<close>

definition xml_namechar :: "char \<Rightarrow> bool" where
  "xml_namechar c \<longleftrightarrow> c_isdigit c \<or> 65 \<le> byte_of c \<and> byte_of c \<le> 90 \<or> 97 \<le> byte_of c \<and> byte_of c \<le> 122 \<or>
     c = CHR ''_'' \<or> c = CHR ''-'' \<or> c = CHR ''.'' \<or> c = CHR '':''"

definition xml_name :: "cstring \<Rightarrow> bool" where
  "xml_name n \<longleftrightarrow> n \<noteq> [] \<and> list_all xml_namechar n \<and> \<not> c_isdigit (hd n) \<and> hd n \<noteq> CHR ''-'' \<and> hd n \<noteq> CHR ''.''"

definition xml_char :: "char \<Rightarrow> bool" where
  "xml_char c \<longleftrightarrow> 32 \<le> byte_of c \<and> byte_of c \<le> 126 \<or> c = CHR 0x09 \<or> c = CHR 0x0A"

definition xml_attrchar :: "char \<Rightarrow> bool" where
  "xml_attrchar c \<longleftrightarrow> 32 \<le> byte_of c \<and> byte_of c \<le> 126"

text \<open>The text that a run of characters and references stands for.\<close>

fun xml_entity :: "string \<Rightarrow> (char \<times> nat) option" where
  "xml_entity s =
     (if prefix ''amp;'' s then Some (CHR ''&'', 4) else if prefix ''gt;'' s then Some (CHR ''>'', 3)
      else if prefix ''lt;'' s then Some (CHR ''<'', 3) else if prefix ''quot;'' s then Some (CHR 0x22, 5)
      else if prefix ''apos;'' s then Some (CHR 0x27, 5) else None)"

function xml_unesc :: "string \<Rightarrow> cstring option" where
  "xml_unesc [] = Some []"
| "xml_unesc (c # s) =
     (if c = CHR ''&'' then
        (case xml_entity s of None \<Rightarrow> None | Some (e, n) \<Rightarrow> map_option (Cons e) (xml_unesc (drop n s)))
      else map_option (Cons c) (xml_unesc s))"
  by pat_completeness auto
termination by (relation "measure length") auto

text \<open>Attributes: a space, a name, an equals sign and a quoted value, each.\<close>

function xml_attributes :: "string \<Rightarrow> (cstring \<times> cstring) list option" where
  "xml_attributes s =
     (if s = [] then Some []
      else if hd s \<noteq> CHR '' '' then None
      else let n = takeWhile xml_namechar (tl s);
               r = drop (length n) (tl s);
               v = takeWhile (\<lambda>c. c \<noteq> CHR 0x22) (drop 2 r);
               r' = drop (length v + 2) r
           in if xml_name n \<and> take 2 r = [CHR ''='', CHR 0x22] \<and> r' \<noteq> [] \<and>
                list_all (\<lambda>c. xml_attrchar c \<and> c \<noteq> CHR ''<'') v then
                (case xml_unesc v of None \<Rightarrow> None
                 | Some x \<Rightarrow> map_option (Cons (n, x)) (xml_attributes (tl r')))
              else None)"
  by pat_completeness auto
termination by (relation "measure length") auto

declare xml_attributes.simps [simp del]

definition xml_tag :: "string \<Rightarrow> xml_event option" where
  "xml_tag t =
     (if t \<noteq> [] \<and> hd t = CHR ''/'' then if xml_name (tl t) then Some (XEnd (tl t)) else None
      else let n = takeWhile xml_namechar t
           in if xml_name n then
                (case xml_attributes (drop (length n) t) of
                   Some attrs \<Rightarrow> if distinct (map fst attrs) then Some (XStart n attrs) else None
                 | None \<Rightarrow> None)
              else None)"

text \<open>The tags and characters of a document, in the order in which they stand in it.\<close>

function xml_lex :: "string \<Rightarrow> xml_event list option" where
  "xml_lex [] = Some []"
| "xml_lex (c # s) =
     (if c = CHR ''<'' then
        let t = takeWhile (\<lambda>c. c \<noteq> CHR ''>'') s; r = drop (length t) s
        in if r = [] then None
           else (case xml_tag t of None \<Rightarrow> None | Some e \<Rightarrow> map_option (Cons e) (xml_lex (tl r)))
      else if c = CHR ''&'' then
        (case xml_entity s of None \<Rightarrow> None | Some (e, n) \<Rightarrow> map_option (Cons (XChars [e])) (xml_lex (drop n s)))
      else if xml_char c \<and> c \<noteq> CHR ''>'' then map_option (Cons (XChars [c])) (xml_lex s) else None)"
  by pat_completeness auto
termination by (relation "measure length") auto

definition xml_space :: "char \<Rightarrow> bool" where
  "xml_space c \<longleftrightarrow> c \<in> {CHR '' '', CHR 0x09, CHR 0x0A, CHR 0x0D}"

declare xml_space_def [simp]

text \<open>Start and end tags match, there is one root, and only white space outside it.\<close>

fun xml_inside :: "cstring list \<Rightarrow> xml_event list \<Rightarrow> xml_event list option" where
  "xml_inside [] es = (if list_all (\<lambda>e. case e of XChars s \<Rightarrow> list_all xml_space s | _ \<Rightarrow> False) es then Some [] else None)"
| "xml_inside (n # ns) [] = None"
| "xml_inside (n # ns) (XStart m attrs # es) = map_option (Cons (XStart m attrs)) (xml_inside (m # n # ns) es)"
| "xml_inside (n # ns) (XEnd m # es) = (if m = n then map_option (Cons (XEnd m)) (xml_inside ns es) else None)"
| "xml_inside (n # ns) (XChars s # es) = map_option (Cons (XChars s)) (xml_inside (n # ns) es)"

text \<open>The document may start with one of two XML declarations, and white space behind it.\<close>

definition xml_declarations :: "string list" where
  "xml_declarations =
     [''<?xml version='' @ [CHR 0x22] @ ''1.0'' @ [CHR 0x22] @ ''?>'',
      ''<?xml version='' @ [CHR 0x22] @ ''1.0'' @ [CHR 0x22] @ '' encoding='' @ [CHR 0x22] @ ''utf-8'' @ [CHR 0x22] @ ''?>'']"

definition xml_body :: "string \<Rightarrow> string" where
  "xml_body doc =
     (case find (\<lambda>d. prefix d doc) xml_declarations of
        Some d \<Rightarrow> dropWhile xml_space (drop (length d) doc) | None \<Rightarrow> doc)"

definition xml_doc :: "string \<Rightarrow> xml_event list option" where
  "xml_doc doc =
     (case xml_lex (xml_body doc) of
        Some (XStart m attrs # es) \<Rightarrow> map_option (Cons (XStart m attrs)) (xml_inside [m] es)
      | _ \<Rightarrow> None)"

text \<open>Expat may report a text in any number of parts.\<close>

fun merge_chars :: "xml_event list \<Rightarrow> xml_event list" where
  "merge_chars [] = []"
| "merge_chars (XChars s # es) =
     (case merge_chars es of
        XChars t # fs \<Rightarrow> XChars (s @ t) # fs
      | fs \<Rightarrow> if s = [] then fs else XChars s # fs)"
| "merge_chars (e # es) = e # merge_chars es"

text \<open>The hypothesis on expat: it accepts such a document of a length it can be given (an \<open>int\<close>)
  and reports the tags in order, with the text between them in any number of parts.  As
  elsewhere, allocations are taken to succeed.\<close>

definition reads_xml :: "expat \<Rightarrow> bool" where
  "reads_xml expat \<longleftrightarrow>
     (\<forall>doc es. int (length doc) \<le> INT_MAX \<longrightarrow> xml_doc doc = Some es \<longrightarrow>
        (\<exists>fs. expat doc = (fs, True) \<and> merge_chars fs = merge_chars es))"

text \<open>Documents that are not well-formed are not asked to be read.\<close>

lemma xml_doc_rejects:
  "xml_doc ''<a>]]></a>'' = None" "xml_doc (''<a b='' @ [CHR 0x22, CHR ''<'', CHR 0x22] @ ''></a>'') = None"
  "xml_doc ''<a></b>'' = None" "xml_doc ''<a></a><a></a>'' = None" "xml_doc ''<a>&b;</a>'' = None"
  "xml_doc (''<a b='' @ [CHR 0x22, CHR 0x22] @ '' b='' @ [CHR 0x22, CHR 0x22] @ ''></a>'') = None"
  "xml_doc (hd xml_declarations @ [CHR 0x0C] @ ''<a></a>'') = None"
  by code_simp+

end
