(* ===== verification/XmlRoundtrip.thy ===== *)
theory XmlRoundtrip
  imports XmlParser
begin

section \<open>What the printed text of a tree is\<close>

text \<open>
  The text that \<open>mupnp_xml_node_tostring\<close> adds to its string, the events a reader sees in it,
  and the tree the handlers build from these events.
\<close>

definition attr_text :: "mUpnpXmlAttribute \<Rightarrow> string" where
  "attr_text a = '' '' @ str_bytes (aname a) @ ''='' @ [CHR 0x22] @ xml_esc_string (str_bytes (avalue a)) @ [CHR 0x22]"

fun xml_text :: "nat \<Rightarrow> mUpnpXmlNode \<Rightarrow> string" where
  "xml_text k (XmlNode n v as cs) =
     replicate k (CHR '' '') @ ''<'' @ str_bytes n @ concat (map attr_text as) @ ''>'' @
     (if cs = [] then xml_esc_string (str_bytes v)
      else [CHR 0x0A] @ concat (map (xml_text (k + 1)) cs) @ replicate k (CHR '' '')) @
     ''</'' @ str_bytes n @ ''>'' @ [CHR 0x0A]"

definition xml_name_ok :: "charptr \<Rightarrow> bool" where
  "xml_name_ok n \<longleftrightarrow> (case n of None \<Rightarrow> False | Some s \<Rightarrow> xml_name s)"

definition attrs_ok :: "mUpnpXmlAttribute list \<Rightarrow> bool" where
  "attrs_ok as \<longleftrightarrow>
     list_all (\<lambda>a. xml_name_ok (aname a) \<and> (case avalue a of None \<Rightarrow> False | Some s \<Rightarrow> list_all xml_attrchar s)) as \<and>
     distinct (map (\<lambda>a. map c_tolower (str_bytes (aname a))) as)"

fun xml_ok :: "mUpnpXmlNode \<Rightarrow> bool" where
  "xml_ok (XmlNode n v as cs) \<longleftrightarrow>
     xml_name_ok n \<and> attrs_ok as \<and> list_all xml_char (str_bytes v) \<and> list_all xml_ok cs"

fun xml_height :: "mUpnpXmlNode \<Rightarrow> nat" where
  "xml_height (XmlNode n v as cs) = 1 + foldr (\<lambda>c m. max (xml_height c) m) cs 0"

text \<open>Printing and parsing keeps everything but the white space of nodes with children.\<close>

fun xml_similar :: "mUpnpXmlNode \<Rightarrow> mUpnpXmlNode \<Rightarrow> bool" where
  "xml_similar (XmlNode n v as cs) (XmlNode m w bs ds) \<longleftrightarrow>
     n = m \<and> as = bs \<and> (if cs = [] then str_bytes v = str_bytes w else list_all c_isspace (str_bytes w)) \<and>
     list_all2 xml_similar cs ds"

lemma bytes_str_adds: "str_bytes (foldl str_add s vs) = str_bytes s @ concat (map str_bytes vs)"
  by (induction vs arbitrary: s) auto

lemma str_set_fresh [simp]: "str_set None v = v"
  by (cases v) simp_all

lemma bytes_escape [simp]: "str_bytes (str_escape s) = xml_esc_string (str_bytes s)"
  by (cases s) (simp_all add: str_escape_def)

lemma attribute_tostring_text:
  "list_all (\<lambda>a. avalue a \<noteq> None) as \<Longrightarrow>
   str_bytes (attribute_tostring as valueStr str) = str_bytes str @ concat (map attr_text as)"
proof (induction as arbitrary: valueStr str)
  case (Cons a as)
  then obtain v where "avalue a = Some v" by auto
  with Cons show ?case
    by (simp add: Let_def mupnp_xml_attribute_getvalue_def mupnp_xml_attribute_getname_def attr_text_def)
qed simp

lemma xml_indent_text: "str_bytes (xml_indent s k) = str_bytes s @ replicate k (CHR '' '')"
  by (simp add: xml_indent_def bytes_str_adds concat_map_singleton flip: map_replicate_const)

lemma attrs_ok_values: "attrs_ok as \<Longrightarrow> list_all (\<lambda>a. avalue a \<noteq> None) as"
  by (induction as) (auto simp: attrs_ok_def list_all_iff split: option.splits)

lemma foldl_prints:
  "(\<And>f s. f \<in> set fs \<Longrightarrow> str_bytes (f s) = str_bytes s @ t f) \<Longrightarrow>
   str_bytes (foldl (\<lambda>str print. print str) s fs) = str_bytes s @ concat (map t fs)"
  by (induction fs arbitrary: s) auto

lemma tostring_text:
  "xml_ok node \<Longrightarrow> str_bytes (mupnp_xml_node_tostring_indent k True node str) = str_bytes str @ xml_text k node"
proof (induction k node arbitrary: str rule: xml_text.induct)
  case (1 k n v as cs)
  have as: "list_all (\<lambda>a. avalue a \<noteq> None) as" using 1(2) by (intro attrs_ok_values) simp
  show ?case
  proof (cases "cs = []")
    case True
    then show ?thesis
      by (simp add: Let_def mupnp_xml_node_attribute_tostring_def attribute_tostring_text [OF as] xml_indent_text)
  next
    case False
    have "str_bytes (foldl (\<lambda>str print. print str) s (map (mupnp_xml_node_tostring_indent (k + 1) True) ds)) =
        str_bytes s @ concat (map (xml_text (k + 1)) ds)" if "set ds \<subseteq> set cs" for s ds
      using that
    proof (induction ds arbitrary: s)
      case (Cons d ds)
      then have "xml_ok d" "d \<in> set cs" using 1(2) by (auto simp: list_all_iff)
      with 1(1) [OF False] Cons show ?case by simp
    qed simp
    then show ?thesis using False
      by (simp add: Let_def mupnp_xml_node_attribute_tostring_def attribute_tostring_text [OF as] xml_indent_text)
  qed
qed

section \<open>What a reader sees in it\<close>

abbreviation chars_events :: "cstring \<Rightarrow> xml_event list" where
  "chars_events s \<equiv> map (\<lambda>c. XChars [c]) s"

definition attr_pair :: "mUpnpXmlAttribute \<Rightarrow> cstring \<times> cstring" where
  "attr_pair a = (str_bytes (aname a), str_bytes (avalue a))"

fun xml_inner :: "nat \<Rightarrow> mUpnpXmlNode \<Rightarrow> xml_event list" where
  "xml_inner k (XmlNode n v as cs) =
     (if cs = [] then chars_events (str_bytes v)
      else XChars [CHR 0x0A] #
        concat (map (\<lambda>c. replicate (k + 1) (XChars [CHR '' '']) @
            XStart (str_bytes (xname c)) (map attr_pair (xattrs c)) # xml_inner (k + 1) c @
            [XEnd (str_bytes (xname c)), XChars [CHR 0x0A]]) cs) @
        replicate k (XChars [CHR '' '']))"

definition xml_events :: "nat \<Rightarrow> mUpnpXmlNode \<Rightarrow> xml_event list" where
  "xml_events k node =
     XStart (str_bytes (xname node)) (map attr_pair (xattrs node)) # xml_inner k node @ [XEnd (str_bytes (xname node))]"

lemma xml_inner_events:
  "cs \<noteq> [] \<Longrightarrow> xml_inner k (XmlNode n v as cs) =
     XChars [CHR 0x0A] #
     concat (map (\<lambda>c. replicate (k + 1) (XChars [CHR '' '']) @ xml_events (k + 1) c @ [XChars [CHR 0x0A]]) cs) @
     replicate k (XChars [CHR '' ''])"
  by (simp add: xml_events_def del: replicate_Suc)

declare xml_inner.simps [simp del]

lemma xml_namechar_no_markup:
  "xml_namechar c \<Longrightarrow> c \<noteq> CHR ''<'' \<and> c \<noteq> CHR ''>'' \<and> c \<noteq> CHR '' '' \<and> c \<noteq> CHR ''='' \<and> c \<noteq> CHR ''/'' \<and> c \<noteq> CHR 0x22"
  by (auto simp: xml_namechar_def c_isdigit_def)

lemma xml_nameD: "xml_name n \<Longrightarrow> n \<noteq> []" "xml_name n \<Longrightarrow> c \<in> set n \<Longrightarrow> xml_namechar c"
  by (auto simp: xml_name_def list_all_iff)

lemma takeWhile_name:
  "xml_name n \<Longrightarrow> r = [] \<or> \<not> xml_namechar (hd r) \<Longrightarrow> takeWhile xml_namechar (n @ r) = n"
  by (cases r) (auto simp: takeWhile_append2 takeWhile_tail dest: xml_nameD(2))

lemma xml_unesc_esc: "xml_unesc (xml_esc_string s) = Some s"
proof (induction s)
  case (Cons c s)
  then show ?case by (auto simp: xml_esc_def)
qed simp

lemma xml_lex_chars:
  "list_all xml_char s \<Longrightarrow> xml_lex r = Some es \<Longrightarrow> xml_lex (xml_esc_string s @ r) = Some (chars_events s @ es)"
proof (induction s)
  case (Cons c s)
  then show ?case by (auto simp: xml_esc_def)
qed simp

lemma xml_lex_space:
  "xml_lex r = Some es \<Longrightarrow> xml_lex (replicate k (CHR '' '') @ r) = Some (replicate k (XChars [CHR '' '']) @ es)"
  by (induction k) (simp_all add: xml_char_def)

lemma xml_lex_newline: "xml_lex r = Some es \<Longrightarrow> xml_lex (CHR 0x0A # r) = Some (XChars [CHR 0x0A] # es)"
  by (simp add: xml_char_def)

lemma xml_lex_tag:
  assumes "CHR ''>'' \<notin> set t" and "xml_tag t = Some e" and "xml_lex r = Some es"
  shows "xml_lex (CHR ''<'' # t @ CHR ''>'' # r) = Some (e # es)"
proof -
  have "takeWhile (\<lambda>c. c \<noteq> CHR ''>'') (t @ CHR ''>'' # r) = t"
    using assms(1) by (auto simp: takeWhile_tail)
  with assms(2,3) show ?thesis by (simp add: Let_def)
qed

lemma attr_text_markup: "xml_name_ok (aname a) \<Longrightarrow> CHR ''>'' \<notin> set (attr_text a)"
  using xml_esc_string_safe [of "str_bytes (avalue a)"]
  by (auto simp: attr_text_def xml_name_ok_def dest!: xml_nameD(2) xml_namechar_no_markup split: option.splits)

lemma xml_attributes_text: "attrs_ok as \<Longrightarrow> xml_attributes (concat (map attr_text as)) = Some (map attr_pair as)"
proof (induction as)
  case Nil
  show ?case by (simp add: xml_attributes.simps)
next
  case (Cons a as)
  from Cons.prems obtain n v where a: "aname a = Some n" "xml_name n" "avalue a = Some v" "list_all xml_attrchar v"
    by (auto simp: attrs_ok_def xml_name_ok_def split: option.splits)
  have as: "attrs_ok as" using Cons.prems by (simp add: attrs_ok_def)
  let ?r = "''='' @ [CHR 0x22] @ xml_esc_string v @ [CHR 0x22] @ concat (map attr_text as)"
  have n: "takeWhile xml_namechar (n @ ?r) = n" by (rule takeWhile_name [OF a(2)]) (simp add: xml_namechar_def c_isdigit_def)
  have v: "takeWhile (\<lambda>c. c \<noteq> CHR 0x22) (xml_esc_string v @ CHR 0x22 # concat (map attr_text as)) = xml_esc_string v"
    using xml_esc_string_safe [of v] by (auto simp: takeWhile_tail)
  have "list_all (\<lambda>c. xml_attrchar c \<and> c \<noteq> CHR ''<'') (xml_esc_string v)"
    using a(4) by (induction v) (auto simp: xml_esc_def xml_attrchar_def)
  moreover have "concat (map attr_text (a # as)) = CHR '' '' # n @ ?r" by (simp add: attr_text_def a)
  moreover have "attr_pair a = (n, v)" by (simp add: attr_pair_def a)
  ultimately show ?case using n v a(2) Cons.IH [OF as]
    by (subst xml_attributes.simps) (simp add: Let_def xml_unesc_esc)
qed

lemma xml_tag_start:
  assumes "xml_name n" and "attrs_ok as"
  shows "xml_tag (n @ concat (map attr_text as)) = Some (XStart n (map attr_pair as))"
proof -
  have "concat (map attr_text as) = [] \<or> \<not> xml_namechar (hd (concat (map attr_text as)))"
    by (cases as) (simp_all add: attr_text_def xml_namechar_def c_isdigit_def)
  then have n: "takeWhile xml_namechar (n @ concat (map attr_text as)) = n"
    by (rule takeWhile_name [OF assms(1)])
  have hd: "n \<noteq> []" "hd n \<noteq> CHR ''/''"
    using xml_nameD [OF assms(1)] xml_namechar_no_markup by (auto simp: hd_in_set)
  have "distinct (map (map c_tolower) (map fst (map attr_pair as)))"
    using assms(2) by (simp add: attrs_ok_def attr_pair_def comp_def)
  then have "distinct (map fst (map attr_pair as))" unfolding distinct_map [of _ "map fst _"] by blast
  with n hd assms(1) show ?thesis by (simp add: xml_tag_def xml_attributes_text [OF assms(2)])
qed

lemma xml_tag_end: "xml_name n \<Longrightarrow> xml_tag (CHR ''/'' # n) = Some (XEnd n)"
  by (simp add: xml_tag_def)

lemma xml_name_markup: "xml_name n \<Longrightarrow> CHR ''>'' \<notin> set n"
  using xml_nameD(2) xml_namechar_no_markup by blast

lemma xml_lex_tags:
  assumes "xml_name n" and "xml_lex r = Some es"
  shows "attrs_ok as \<Longrightarrow> xml_lex (''<'' @ n @ concat (map attr_text as) @ ''>'' @ r) = Some (XStart n (map attr_pair as) # es)"
    and "xml_lex (''</'' @ n @ ''>'' @ r) = Some (XEnd n # es)"
proof -
  assume as: "attrs_ok as"
  then have "\<forall>a \<in> set as. xml_name_ok (aname a)" by (simp add: attrs_ok_def list_all_iff)
  then have "CHR ''>'' \<notin> set (n @ concat (map attr_text as))"
    using attr_text_markup xml_name_markup [OF assms(1)] by auto
  from xml_lex_tag [OF this xml_tag_start [OF assms(1) as] assms(2)]
  show "xml_lex (''<'' @ n @ concat (map attr_text as) @ ''>'' @ r) = Some (XStart n (map attr_pair as) # es)" by simp
next
  from xml_lex_tag [of "CHR ''/'' # n", OF _ xml_tag_end [OF assms(1)] assms(2)] xml_name_markup [OF assms(1)]
  show "xml_lex (''</'' @ n @ ''>'' @ r) = Some (XEnd n # es)" by simp
qed

lemma xml_lex_text:
  "xml_ok node \<Longrightarrow> xml_lex r = Some es \<Longrightarrow>
   xml_lex (xml_text k node @ r) =
     Some (replicate k (XChars [CHR '' '']) @ xml_events k node @ XChars [CHR 0x0A] # es)"
proof (induction k node arbitrary: r es rule: xml_text.induct)
  case (1 k n v as cs)
  from 1(2) obtain m where n: "n = Some m" "xml_name m" "attrs_ok as" "list_all xml_char (str_bytes v)"
    by (auto simp: xml_name_ok_def split: option.splits)
  define fin where "fin = XEnd m # XChars [CHR 0x0A] # es"
  have e: "xml_lex (''</'' @ m @ ''>'' @ CHR 0x0A # r) = Some fin"
    unfolding fin_def by (rule xml_lex_tags(2) [OF n(2) xml_lex_newline [OF 1(3)]])
  show ?case
  proof (cases "cs = []")
    case True
    from xml_lex_space [OF xml_lex_tags(1) [OF n(2) xml_lex_chars [OF n(4) e] n(3)], of k] True n(1)
    show ?thesis by (simp add: fin_def xml_events_def xml_inner.simps)
  next
    case False
    let ?f = "\<lambda>c. replicate (k + 1) (XChars [CHR '' '']) @ xml_events (k + 1) c @ [XChars [CHR 0x0A]]"
    have cs: "xml_lex (concat (map (xml_text (k + 1)) ds) @ q) = Some (concat (map ?f ds) @ fs)"
      if "set ds \<subseteq> set cs" "xml_lex q = Some fs" for ds q fs
      using that
    proof (induction ds)
      case (Cons d ds)
      then have d: "xml_ok d" "d \<in> set cs" using 1(2) by (auto simp: list_all_iff)
      from 1(1) [OF False d(2,1)] Cons show ?case by simp
    qed simp
    from xml_lex_space [OF xml_lex_tags(1) [OF n(2) xml_lex_newline [OF cs [OF order_refl xml_lex_space [OF e, of k]]] n(3)], of k]
      False n(1)
    show ?thesis by (simp add: fin_def xml_events_def [of k] xml_inner_events del: replicate_Suc)
  qed
qed

text \<open>Tags match, and only the newline behind the root stands outside it.\<close>

lemma map_option_append_Nil [simp]: "map_option ((@) []) x = x"
  by (cases x) simp_all

lemma xml_inside_chars: "xml_inside (n # ns) (chars_events s @ es) = map_option ((@) (chars_events s)) (xml_inside (n # ns) es)"
  by (induction s) (simp_all add: option.map_comp comp_def option.map_ident)

lemma xml_inside_spaces:
  "xml_inside (n # ns) (replicate k (XChars [c]) @ es) = map_option ((@) (replicate k (XChars [c]))) (xml_inside (n # ns) es)"
  using xml_inside_chars [of n ns "replicate k c" es] by (simp add: option.map_ident)

lemma xml_inside_inner:
  "xml_inside (n # ns) (xml_inner k node @ es) = map_option ((@) (xml_inner k node)) (xml_inside (n # ns) es)"
proof (induction k node arbitrary: n ns es rule: xml_inner.induct)
  case (1 k m v as cs)
  show ?case
  proof (cases "cs = []")
    case True
    then show ?thesis by (simp add: xml_inside_chars xml_inner.simps)
  next
    case False
    let ?f = "\<lambda>c. replicate (k + 1) (XChars [CHR '' '']) @
            XStart (str_bytes (xname c)) (map attr_pair (xattrs c)) # xml_inner (k + 1) c @
            [XEnd (str_bytes (xname c)), XChars [CHR 0x0A]]"
    have "xml_inside (n # ns) (concat (map ?f ds) @ fs) = map_option ((@) (concat (map ?f ds))) (xml_inside (n # ns) fs)"
      if "set ds \<subseteq> set cs" for ds fs
      using that
    proof (induction ds arbitrary: fs)
      case (Cons d ds)
      then have d: "d \<in> set cs" by simp
      from 1 [OF False d] Cons show ?case
        by (simp add: xml_inside_spaces option.map_comp comp_def del: replicate_Suc)
    qed simp
    from this [OF order_refl] False show ?thesis
      by (simp add: xml_inner.simps xml_inside_spaces option.map_comp comp_def option.map_ident del: replicate_Suc)
  qed
qed

lemma xml_doc_text:
  assumes "xml_ok node" and "xml_body doc = xml_text 0 node"
  shows "xml_doc doc = Some (xml_events 0 node)"
proof -
  let ?n = "str_bytes (xname node)"
  have "xml_lex (xml_text 0 node) = Some (xml_events 0 node @ [XChars [CHR 0x0A]])"
    using xml_lex_text [OF assms(1), of "[]" "[]" 0] by simp
  moreover have "xml_inside [?n] (xml_inner 0 node @ [XEnd ?n, XChars [CHR 0x0A]]) = Some (xml_inner 0 node @ [XEnd ?n])"
    by (simp add: xml_inside_inner c_isspace_def)
  ultimately show ?thesis using assms(2) by (simp add: xml_doc_def xml_events_def)
qed

section \<open>What the handlers build\<close>

lemma xml_at_append: "xml_at r (p @ q) = xml_at (xml_at r p) q"
  by (induction p arbitrary: r) auto

lemma xml_update_append: "xml_update f r (p @ q) = xml_update (\<lambda>n. xml_update f n q) r p"
  by (induction p arbitrary: r) auto

lemma xml_replace_child_twice: "xml_replace_child (xml_replace_child r i x) i y = xml_replace_child r i y"
  by (cases r) simp

lemma xml_replace_child_same: "xml_replace_child r i (xnodes r ! i) = r"
  by (cases r) simp

lemma xml_replace_child_out: "i \<ge> length (xnodes r) \<Longrightarrow> xml_replace_child r i x = r"
  by (cases r) (simp add: list_update_beyond)

lemma xnodes_replace: "i < length (xnodes r) \<Longrightarrow> xnodes (xml_replace_child r i x) ! i = x"
  by (cases r) simp

lemma xml_update_twice: "xml_update f (xml_update g r p) p = xml_update (\<lambda>n. f (g n)) r p"
proof (induction p arbitrary: r)
  case (Cons i p)
  show ?case
  proof (cases "i < length (xnodes r)")
    case True
    with Cons show ?thesis by (simp add: xnodes_replace xml_replace_child_twice)
  qed (simp add: xml_replace_child_out)
qed simp

lemma xml_update_same: "(\<And>n. f n = n) \<Longrightarrow> xml_update f r p = r"
  by (induction p arbitrary: r) (simp_all add: xml_replace_child_same)

lemma naddvalue_twice:
  "mupnp_xml_node_naddvalue (mupnp_xml_node_naddvalue n (Some s)) (Some t) = mupnp_xml_node_naddvalue n (Some (s @ t))"
  by (cases n) (auto simp: str_add_def)

lemma naddvalue_empty: "mupnp_xml_node_naddvalue n (Some []) = n"
  by (cases n) (simp add: str_add_def)

text \<open>The parts in which a text is reported make no difference.\<close>

lemma character_data_twice:
  "mupnp_expat_character_data (mupnp_expat_character_data d s) t = mupnp_expat_character_data d (s @ t)"
  by (simp add: mupnp_expat_character_data_def option.map_comp comp_def xml_update_twice naddvalue_twice
      split: option.split)

lemma character_data_empty: "mupnp_expat_character_data d [] = d"
  by (simp add: mupnp_expat_character_data_def xml_update_same naddvalue_empty option.map_ident split: option.split)

lemma expat_run_merge: "expat_run d (merge_chars es) = expat_run d es"
proof (induction es arbitrary: d rule: merge_chars.induct)
  case (2 s es)
  have "expat_run (mupnp_expat_character_data d s) es = expat_run (mupnp_expat_character_data d s) (merge_chars es)"
    by (simp add: 2)
  also have "\<dots> = expat_run d (merge_chars (XChars s # es))"
    by (auto simp: character_data_empty character_data_twice split: list.split xml_event.split)
  finally show ?case by simp
qed (simp_all split: option.split)

text \<open>Events build up the node at the end of the current path.\<close>

definition hole :: "(mUpnpXmlNode \<Rightarrow> mUpnpXmlNode) \<Rightarrow> nat list \<Rightarrow> bool" where
  "hole C q \<longleftrightarrow> (\<forall>n f. xml_update f (C n) q = C (f n) \<and> xml_at (C n) q = n)"

definition builds :: "xml_event list \<Rightarrow> nat \<Rightarrow> mUpnpXmlNode \<Rightarrow> mUpnpXmlNode \<Rightarrow> bool" where
  "builds es h n n' \<longleftrightarrow>
     (\<forall>C q d fs. hole C q \<longrightarrow> d + h \<le> MUPNP_XML_MAX_DEPTH \<longrightarrow>
        expat_run \<lparr>rootNode = Some (C n), currNode = Some q, depth = d\<rparr> (es @ fs) =
        expat_run \<lparr>rootNode = Some (C n'), currNode = Some q, depth = d\<rparr> fs)"

lemma hole_child:
  assumes "hole C q"
  shows "hole (\<lambda>c. C (mupnp_xml_node_addchildnode n c)) (q @ [length (xnodes n)])"
proof -
  have "xml_replace_child (mupnp_xml_node_addchildnode n c) (length (xnodes n)) x = mupnp_xml_node_addchildnode n x"
    "xnodes (mupnp_xml_node_addchildnode n c) ! length (xnodes n) = c" for c x
    by (cases n; simp)+
  with assms show ?thesis by (simp add: hole_def xml_at_append xml_update_append)
qed

lemma builds_Nil: "builds [] h n n"
  by (simp add: builds_def)

lemma builds_append: "builds es h n n1 \<Longrightarrow> builds fs h n1 n2 \<Longrightarrow> builds (es @ fs) h n n2"
  by (simp add: builds_def)

lemma builds_mono: "builds es h n n' \<Longrightarrow> h \<le> k \<Longrightarrow> builds es k n n'"
  unfolding builds_def by (meson add_le_mono1 add_left_mono le_trans)

lemma builds_char: "builds [XChars s] h n (mupnp_xml_node_naddvalue n (Some s))"
  by (simp add: builds_def hole_def mupnp_expat_character_data_def)

lemma builds_chars: "builds (chars_events s) h n (mupnp_xml_node_naddvalue n (Some s))"
proof (induction s arbitrary: n)
  case (Cons c s)
  from builds_append [OF builds_char [of "[c]" h n] Cons] show ?case by (simp add: naddvalue_twice)
qed (simp add: builds_Nil naddvalue_empty)

lemma builds_spaces: "builds (replicate k (XChars [c])) h n (mupnp_xml_node_naddvalue n (Some (replicate k c)))"
  using builds_chars [of "replicate k c" h n] by simp

lemma builds_element:
  assumes "setattributes (XmlNode (Some m) None [] []) attrs = Some n0" and "builds es h n0 n1"
  shows "builds (XStart m attrs # es @ [XEnd m]) (h + 1) n (mupnp_xml_node_addchildnode n n1)"
  unfolding builds_def
proof (intro allI impI)
  fix C q d fs
  assume C: "hole C q" and d: "d + (h + 1) \<le> MUPNP_XML_MAX_DEPTH"
  let ?q = "q @ [length (xnodes n)]"
  have "hole (\<lambda>c. C (mupnp_xml_node_addchildnode n c)) ?q" using C by (rule hole_child)
  from assms(2) [unfolded builds_def, rule_format, OF this, of "d + 1" "XEnd m # fs"] d have inner: "expat_run \<lparr>rootNode = Some (C (mupnp_xml_node_addchildnode n n0)), currNode = Some ?q, depth = d + 1\<rparr> (es @ XEnd m # fs) =
      expat_run \<lparr>rootNode = Some (C (mupnp_xml_node_addchildnode n n1)), currNode = Some ?q, depth = d + 1\<rparr> (XEnd m # fs)"
    by simp
  have start: "mupnp_expat_element_start \<lparr>rootNode = Some (C n), currNode = Some q, depth = d\<rparr> m attrs =
      Some \<lparr>rootNode = Some (C (mupnp_xml_node_addchildnode n n0)), currNode = Some ?q, depth = d + 1\<rparr>"
    using d C assms(1) by (simp add: mupnp_expat_element_start_def mupnp_xml_node_new_def hole_def)
  have "mupnp_xml_node_getparentnode ?q = Some q" by (cases q) (simp_all add: butlast_append)
  then have "mupnp_expat_element_end \<lparr>rootNode = Some r, currNode = Some ?q, depth = d + 1\<rparr> =
      \<lparr>rootNode = Some r, currNode = Some q, depth = d\<rparr>" for r
    by (simp add: mupnp_expat_element_end_def)
  with start inner show "expat_run \<lparr>rootNode = Some (C n), currNode = Some q, depth = d\<rparr> ((XStart m attrs # es @ [XEnd m]) @ fs) =
      expat_run \<lparr>rootNode = Some (C (mupnp_xml_node_addchildnode n n1)), currNode = Some q, depth = d\<rparr> fs"
    by simp
qed

text \<open>The attributes are added one by one, none of them is taken for another.\<close>

lemma xml_name_nul_free: "xml_name n \<Longrightarrow> nul_free n"
  by (auto simp: xml_name_def nul_free_def xml_namechar_def c_isdigit_def list_all_iff)

lemma attributelist_find_fresh:
  "list_all (\<lambda>a. xml_name_ok (aname a)) as \<Longrightarrow> xml_name n \<Longrightarrow>
   map c_tolower n \<notin> set (map (\<lambda>a. map c_tolower (str_bytes (aname a))) as) \<Longrightarrow> attributelist_find as (Some n) = None"
proof (induction as)
  case (Cons a as)
  then obtain m where "aname a = Some m" "xml_name m" by (auto simp: xml_name_ok_def split: option.splits)
  with Cons show ?case
    by (auto simp: mupnp_xml_attribute_getname_def c_strcasecmp_eq_0 xml_name_nul_free)
qed simp

lemma setattributes_fresh:
  "attrs_ok (bs @ as) \<Longrightarrow> setattributes (XmlNode m v bs cs) (map attr_pair as) = Some (XmlNode m v (bs @ as) cs)"
proof (induction as arbitrary: bs)
  case (Cons a as)
  then obtain n x where a: "aname a = Some n" "xml_name n" "avalue a = Some x"
    by (auto simp: attrs_ok_def xml_name_ok_def split: option.splits)
  have "attributelist_find bs (Some n) = None"
    using Cons.prems a by (intro attributelist_find_fresh) (auto simp: attrs_ok_def list_all_iff)
  moreover have "\<lparr>aname = Some n, avalue = Some x\<rparr> = a" using a by simp
  ultimately have "mupnp_xml_attributelist_set bs (Some n) (Some x) = (True, bs @ [a])"
    by (simp add: mupnp_xml_attributelist_set_def mupnp_xml_attributelist_get_def mupnp_xml_attribute_setvalue_def
        mupnp_xml_attribute_setname_def mupnp_xml_attribute_new_def)
  with Cons.IH [of "bs @ [a]"] Cons.prems a show ?case by (simp add: attr_pair_def)
qed simp

fun xml_parsed :: "nat \<Rightarrow> mUpnpXmlNode \<Rightarrow> mUpnpXmlNode" where
  "xml_parsed k (XmlNode n v as cs) =
     XmlNode n
       (if cs = [] then if str_bytes v = [] then None else v
        else Some ([CHR 0x0A] @ concat (map (\<lambda>_. replicate (k + 1) (CHR '' '') @ [CHR 0x0A]) cs) @ replicate k (CHR '' '')))
       as (map (xml_parsed (k + 1)) cs)"

lemma builds_inner:
  "xml_ok (XmlNode n v as cs) \<Longrightarrow>
   builds (xml_inner k (XmlNode n v as cs)) (xml_height (XmlNode n v as cs) - 1) (XmlNode n None as []) (xml_parsed k (XmlNode n v as cs))"
proof (induction k "XmlNode n v as cs" arbitrary: n v as cs rule: xml_inner.induct)
  case (1 k n v as cs)
  let ?h = "foldr (\<lambda>c m. max (xml_height c) m) cs 0"
  show ?case
  proof (cases "cs = []")
    case True
    then show ?thesis
      using builds_chars [of "str_bytes v" ?h "XmlNode n None as []"]
      by (cases v) (auto simp: xml_inner.simps str_add_def)
  next
    case False
    let ?sp = "replicate (k + 1) (CHR '' '')"
    let ?f = "\<lambda>c. replicate (k + 1) (XChars [CHR '' '']) @ xml_events (k + 1) c @ [XChars [CHR 0x0A]]"
    let ?w = "\<lambda>ds. concat (map (\<lambda>_. ?sp @ [CHR 0x0A]) ds)"
    have le: "c \<in> set cs \<Longrightarrow> xml_height c \<le> ?h" for c
      by (induction cs) auto
    have cs: "builds (concat (map ?f ds)) ?h (XmlNode n (Some w) as ps) (XmlNode n (Some (w @ ?w ds)) as (ps @ map (xml_parsed (k + 1)) ds))"
      if "set ds \<subseteq> set cs" for ds w ps
      using that
    proof (induction ds arbitrary: w ps)
      case Nil
      show ?case by (simp add: builds_Nil)
    next
      case (Cons d ds)
      obtain m x bs es where d: "d = XmlNode m x bs es" by (cases d)
      have dcs: "d \<in> set cs" using Cons.prems by simp
      then have ok: "xml_ok d" using 1(2) by (auto simp: list_all_iff)
      then obtain q where q: "m = Some q" "attrs_ok bs" by (auto simp: d xml_name_ok_def split: option.splits)
      from 1(1) [OF False dcs [unfolded d]] ok
      have inner: "builds (xml_inner (k + 1) d) (xml_height d - 1) (XmlNode m None bs []) (xml_parsed (k + 1) d)"
        by (simp add: d)
      have "builds (xml_events (k + 1) d) ?h (XmlNode n (Some (w @ ?sp)) as ps)
          (mupnp_xml_node_addchildnode (XmlNode n (Some (w @ ?sp)) as ps) (xml_parsed (k + 1) d))"
      proof (rule builds_mono)
        show "builds (xml_events (k + 1) d) (xml_height d - 1 + 1) (XmlNode n (Some (w @ ?sp)) as ps)
          (mupnp_xml_node_addchildnode (XmlNode n (Some (w @ ?sp)) as ps) (xml_parsed (k + 1) d))"
          unfolding xml_events_def using inner q
          by (intro builds_element) (simp_all add: d setattributes_fresh [where bs = "[]", simplified])
        show "xml_height d - 1 + 1 \<le> ?h" using le [OF dcs] by (simp add: d)
      qed
      moreover have "builds (replicate (k + 1) (XChars [CHR '' ''])) ?h (XmlNode n (Some w) as ps) (XmlNode n (Some (w @ ?sp)) as ps)"
        using builds_spaces [of "k + 1" "CHR '' ''" ?h "XmlNode n (Some w) as ps"] by (simp add: str_add_def)
      moreover have "builds [XChars [CHR 0x0A]] ?h
          (mupnp_xml_node_addchildnode (XmlNode n (Some (w @ ?sp)) as ps) (xml_parsed (k + 1) d))
          (XmlNode n (Some ((w @ ?sp) @ [CHR 0x0A])) as (ps @ [xml_parsed (k + 1) d]))"
        using builds_char [of "[CHR 0x0A]" ?h "mupnp_xml_node_addchildnode (XmlNode n (Some (w @ ?sp)) as ps) (xml_parsed (k + 1) d)"]
        by (simp add: str_add_def del: replicate_Suc)
      ultimately have "builds (?f d) ?h (XmlNode n (Some w) as ps) (XmlNode n (Some ((w @ ?sp) @ [CHR 0x0A])) as (ps @ [xml_parsed (k + 1) d]))"
        by (blast intro: builds_append)
      from builds_append [OF this Cons.IH] Cons.prems show ?case by (simp del: replicate_Suc)
    qed
    have nl: "builds [XChars [CHR 0x0A]] ?h (XmlNode n None as []) (XmlNode n (Some [CHR 0x0A]) as [])"
      using builds_char [of "[CHR 0x0A]" ?h "XmlNode n None as []"] by (simp add: str_add_def)
    have sp: "builds (replicate k (XChars [CHR '' ''])) ?h (XmlNode n (Some w) as ps) (XmlNode n (Some (w @ replicate k (CHR '' ''))) as ps)" for w ps
      using builds_spaces [of k "CHR '' ''" ?h "XmlNode n (Some w) as ps"]
      by (cases "k = 0") (auto simp: str_add_def builds_Nil)
    from builds_append [OF nl builds_append [OF cs [OF order_refl] sp]] False show ?thesis
      by (simp add: xml_inner_events del: replicate_Suc)
  qed
qed

text \<open>The document is read as one tree.\<close>

lemma xml_parse_text:
  assumes expat: "reads_xml expat" and ok: "xml_ok node" and h: "xml_height node \<le> MUPNP_XML_MAX_DEPTH"
    and doc: "xml_body doc = xml_text 0 node" "doc \<noteq> []" "last doc \<noteq> NUL" "int (length doc) \<le> INT_MAX"
  shows "mupnp_xml_parse expat nodeList (Some doc) = Some (True, nodeList @ [xml_parsed 0 node])"
proof -
  obtain n v as cs where node: "node = XmlNode n v as cs" by (cases node)
  from ok obtain m where m: "n = Some m" "attrs_ok as" by (auto simp: node xml_name_ok_def split: option.splits)
  from expat doc(4) xml_doc_text [OF ok doc(1)] obtain fs where
    fs: "expat doc = (fs, True)" "merge_chars fs = merge_chars (xml_events 0 node)"
    unfolding reads_xml_def by blast
  let ?d0 = "\<lparr>rootNode = None, currNode = None, depth = 0\<rparr>"
  have h': "1 + (xml_height node - 1) \<le> MUPNP_XML_MAX_DEPTH" using h by (simp add: node)
  have "expat_run ?d0 fs = expat_run ?d0 (xml_events 0 node)" by (metis expat_run_merge fs(2))
  also have "\<dots> = expat_run \<lparr>rootNode = Some (XmlNode n None as []), currNode = Some [], depth = 1\<rparr>
      (xml_inner 0 node @ [XEnd m])"
    using m by (simp add: xml_events_def node mupnp_expat_element_start_def mupnp_xml_node_new_def MUPNP_XML_MAX_DEPTH_def
        setattributes_fresh [where bs = "[]", simplified])
  also have "\<dots> = expat_run \<lparr>rootNode = Some (xml_parsed 0 node), currNode = Some [], depth = 1\<rparr> [XEnd m]"
    using builds_inner [of n v as cs 0, unfolded builds_def, rule_format, of "\<lambda>x. x" "[]" 1 "[XEnd m]"] ok h'
    by (simp add: hole_def node)
  also have "\<dots> = Some \<lparr>rootNode = Some (xml_parsed 0 node), currNode = None, depth = 0\<rparr>"
    by (simp add: mupnp_expat_element_end_def)
  finally show ?thesis using doc fs(1) by (simp add: mupnp_xml_parse_def)
qed

lemma xml_parsed_similar: "xml_similar node (xml_parsed k node)"
proof (induction k node rule: xml_parsed.induct)
  case (1 k n v as cs)
  have "list_all c_isspace (concat (map (\<lambda>_. replicate (k + 1) (CHR '' '') @ [CHR 0x0A]) cs))"
    by (induction cs) (simp_all add: c_isspace_def list_all_iff)
  moreover have "list_all2 xml_similar cs (map (xml_parsed (k + 1)) cs)"
    using 1 by (simp add: list_all2_conv_all_nth)
  ultimately show ?case by (simp add: c_isspace_def list_all_iff del: replicate_Suc)
qed

definition ref_expat :: expat where
  "ref_expat doc = (case xml_doc doc of Some es \<Rightarrow> (es, True) | None \<Rightarrow> ([], False))"

lemma reads_xml_ref_expat: "reads_xml ref_expat"
  by (simp add: reads_xml_def ref_expat_def)

subsection \<open>Searches in the tree that was read\<close>

definition leaf_child :: "mUpnpXmlNode option \<Rightarrow> cstring \<Rightarrow> bool" where
  "leaf_child node name \<longleftrightarrow> (case xml_child node (Some name) of None \<Rightarrow> True | Some c \<Rightarrow> xnodes c = [])"

lemma similar_name: "xml_similar a b \<Longrightarrow> xname b = xname a"
  by (cases a; cases b) simp

lemma similar_nodes: "xml_similar a b \<Longrightarrow> list_all2 xml_similar (xnodes a) (xnodes b)"
  by (cases a; cases b) simp

lemma similar_attrs: "xml_similar a b \<Longrightarrow> xattrs b = xattrs a"
  by (cases a; cases b) simp

lemma similar_value: "xml_similar a b \<Longrightarrow> xnodes a = [] \<Longrightarrow> str_bytes (xvalue b) = str_bytes (xvalue a)"
  by (cases a; cases b) simp

lemma similar_isname: "xml_similar a b \<Longrightarrow> mupnp_xml_node_isname b n = mupnp_xml_node_isname a n"
  by (simp add: mupnp_xml_node_isname_def similar_name)

lemma similar_find: "list_all2 xml_similar cs ds \<Longrightarrow> nodelist_find ds n = nodelist_find cs n"
  by (induction cs ds rule: list_all2_induct) (simp_all add: similar_name)

lemma nodelist_find_less: "nodelist_find cs n = Some i \<Longrightarrow> i < length cs"
  by (induction cs arbitrary: i) (auto split: if_splits)

lemma similar_childnodes:
  "rel_option xml_similar a b \<Longrightarrow> list_all2 xml_similar (mupnp_xml_node_getchildnodes a) (mupnp_xml_node_getchildnodes b)"
  by (cases a; cases b) (simp_all add: mupnp_xml_node_getchildnodes_def similar_nodes)

lemma similar_child:
  assumes "rel_option xml_similar a b"
  shows "rel_option xml_similar (xml_child a n) (xml_child b n)"
proof (cases a)
  case None
  then show ?thesis using assms by (simp add: xml_child_def mupnp_xml_node_getchildnodebyname_def option.rel_sel)
next
  case (Some x)
  then obtain y where y: "b = Some y" "xml_similar x y" using assms by (auto simp: option_rel_Some1)
  note sim = similar_nodes [OF y(2)]
  show ?thesis
  proof (cases "nodelist_find (xnodes x) n")
    case None
    then show ?thesis using Some y similar_find [OF sim, of n]
      by (simp add: xml_child_def mupnp_xml_node_getchildnodebyname_def mupnp_xml_nodelist_getbyname_def)
  next
    case (Some i)
    then show ?thesis using \<open>a = Some x\<close> y similar_find [OF sim, of n] nodelist_find_less [OF Some] list_all2_nthD [OF sim]
      by (simp add: xml_child_def mupnp_xml_node_getchildnodebyname_def mupnp_xml_nodelist_getbyname_def mupnp_xml_node_getchildnodes_def)
  qed
qed

lemma similar_childvalue:
  assumes "rel_option xml_similar a b" and "leaf_child a n"
  shows "str_bytes (mupnp_xml_node_getchildnodevalue b (Some n)) = str_bytes (mupnp_xml_node_getchildnodevalue a (Some n))"
  using similar_child [OF assms(1), of "Some n"] assms(2)
  by (cases "xml_child a (Some n)"; cases "xml_child b (Some n)")
    (simp_all add: mupnp_xml_node_getchildnodevalue_def leaf_child_def similar_value)

text \<open>A printed document behind an XML declaration and white space is read.\<close>

lemma xml_text_start:
  assumes "xml_ok node"
  obtains c r where "xml_text 0 node = CHR ''<'' # c # r" and "c \<noteq> CHR ''?''" and "last (xml_text 0 node) = CHR 0x0A"
proof -
  obtain n v as cs where node: "node = XmlNode n v as cs" by (cases node)
  obtain m where m: "n = Some m" "xml_name m" using assms by (auto simp: node xml_name_ok_def split: option.splits)
  then have "m \<noteq> []" "xml_namechar (hd m)" by (simp_all add: xml_nameD)
  then have "hd m \<noteq> CHR ''?''" by (auto simp: xml_namechar_def c_isdigit_def)
  then obtain c m' where "m = c # m'" "c \<noteq> CHR ''?''" using \<open>m \<noteq> []\<close> by (cases m) auto
  then show thesis using that m by (simp add: node)
qed

lemma xml_body_declared:
  assumes "decl \<in> set xml_declarations" and "list_all xml_space sp" and "xml_ok node"
  shows "xml_body (decl @ sp @ xml_text 0 node) = xml_text 0 node"
proof -
  obtain c r where start: "xml_text 0 node = CHR ''<'' # c # r" using xml_text_start [OF assms(3)] by blast
  have "dropWhile xml_space (sp @ xml_text 0 node) = xml_text 0 node"
    using assms(2) by (induction sp) (simp_all add: start)
  moreover have "find (\<lambda>d. prefix d (decl @ s)) xml_declarations = Some decl" for s
    using assms(1) by (auto simp: xml_declarations_def)
  ultimately show ?thesis by (simp add: xml_body_def)
qed

lemma document_read:
  assumes "reads_xml expat" and "xml_ok node" and "xml_height node \<le> MUPNP_XML_MAX_DEPTH"
    and "decl \<in> set xml_declarations" and "list_all xml_space sp"
    and "int (length (decl @ sp @ xml_text 0 node)) \<le> INT_MAX"
  shows "mupnp_xml_parse expat nodeList (Some (decl @ sp @ xml_text 0 node)) = Some (True, nodeList @ [xml_parsed 0 node])"
proof (rule xml_parse_text [OF assms(1-3) xml_body_declared [OF assms(4,5,2)] _ _ assms(6)])
  obtain c r where "xml_text 0 node = CHR ''<'' # c # r" "last (xml_text 0 node) = CHR 0x0A"
    using xml_text_start [OF assms(2)] by metis
  then show "decl @ sp @ xml_text 0 node \<noteq> []" "last (decl @ sp @ xml_text 0 node) \<noteq> NUL" by auto
qed

section \<open>Properties\<close>


definition ex_node :: mUpnpXmlNode where
  "ex_node = XmlNode (Some ''a:b'') None [\<lparr>aname = Some ''x'', avalue = Some ''<1>''\<rparr>]
     [XmlNode (Some ''c'') (Some ''5 & 6'') [] [], XmlNode (Some ''d'') None [] []]"


end
