(* ===== verification/Service.thy ===== *)
theory Service
  imports Action Subscriber XmlRoundtrip
begin

section \<open>Services (src/mupnp/service.c, include/mupnp/service.h)\<close>

text \<open>
  A service of a device or of a control point: the node of the device description it was made
  from, its own description with the actions and state variables read from it, its subscribers
  and, on a control point, its subscription.  The mutex of a service is left out: an operation
  is one step.  \<open>eventKey\<close> is not set by \<open>mupnp_service_new\<close>; \<open>None\<close> is that memory.
\<close>

record mUpnpService =
  scpdNodeList :: "mUpnpXmlNode list option"
  serviceNode :: "mUpnpXmlNode option"
  actionList :: "mUpnpAction list"
  serviceStateTable :: "mUpnpStateVariable list"
  subscriberList :: "mUpnpSubscriber list"
  subscriptionSid :: charptr
  subscriptionTimeout :: int
  eventKey :: "nat option"
  subscriptionTimestamp :: int

definition MUPNP_XML_DECLARATION :: cstring where
  "MUPNP_XML_DECLARATION = ''<?xml version=\"1.0\"?>''"

definition MUPNP_SUBSCRIPTION_DELAY :: int where "MUPNP_SUBSCRIPTION_DELAY = 30"

definition mupnp_service_new :: mUpnpService where
  "mupnp_service_new =
     \<lparr>scpdNodeList = None, serviceNode = None, actionList = [], serviceStateTable = [], subscriberList = [],
      subscriptionSid = None, subscriptionTimeout = 0, eventKey = None, subscriptionTimestamp = 0\<rparr>"

definition mupnp_service_isservicenode :: "mUpnpXmlNode \<Rightarrow> bool" where
  "mupnp_service_isservicenode node = mupnp_xml_node_isname node (Some ''service'')"

definition mupnp_service_setservicenode :: "mUpnpService \<Rightarrow> mUpnpXmlNode option \<Rightarrow> mUpnpService" where
  "mupnp_service_setservicenode service node = service\<lparr>serviceNode := node\<rparr>"

definition mupnp_service_getscpdnode :: "mUpnpService \<Rightarrow> mUpnpXmlNode option" where
  "mupnp_service_getscpdnode service =
     (case scpdNodeList service of Some (n # ns) \<Rightarrow> Some n | _ \<Rightarrow> None)"

definition mupnp_service_getservicetype :: "mUpnpService \<Rightarrow> charptr" where
  "mupnp_service_getservicetype service = mupnp_xml_node_getchildnodevalue (serviceNode service) (Some ''serviceType'')"

definition mupnp_service_getserviceid :: "mUpnpService \<Rightarrow> charptr" where
  "mupnp_service_getserviceid service = mupnp_xml_node_getchildnodevalue (serviceNode service) (Some ''serviceId'')"

definition mupnp_service_setsubscriptionsid :: "mUpnpService \<Rightarrow> charptr \<Rightarrow> mUpnpService" where
  "mupnp_service_setsubscriptionsid service v = service\<lparr>subscriptionSid := str_set (subscriptionSid service) v\<rparr>"

definition mupnp_service_clearsubscriptionsid :: "mUpnpService \<Rightarrow> mUpnpService" where
  "mupnp_service_clearsubscriptionsid service = service\<lparr>subscriptionSid := str_set (subscriptionSid service) (Some [])\<rparr>"

definition mupnp_service_issubscribed :: "mUpnpService \<Rightarrow> bool" where
  "mupnp_service_issubscribed service = (if 0 < length (str_bytes (subscriptionSid service)) then True else False)"

definition mupnp_service_getsubscriptionexpiration :: "mUpnpService \<Rightarrow> int" where
  "mupnp_service_getsubscriptionexpiration service =
     subscriptionTimestamp service + subscriptionTimeout service - MUPNP_SUBSCRIPTION_DELAY"

text \<open>Setting the SID to NULL leaves it as it is.\<close>

definition mupnp_service_clear :: "mUpnpService \<Rightarrow> mUpnpService" where
  "mupnp_service_clear service =
     (let service = service\<lparr>scpdNodeList := None, actionList := [], serviceStateTable := [], subscriberList := []\<rparr>;
          service = mupnp_service_setsubscriptionsid service None
      in service\<lparr>subscriptionTimeout := 0\<rparr>)"

subsection \<open>The description\<close>

definition mupnp_service_initactionlist :: "mUpnpService \<Rightarrow> mUpnpService" where
  "mupnp_service_initactionlist service =
     (let service = service\<lparr>actionList := []\<rparr> in
      case mupnp_service_getscpdnode service of None \<Rightarrow> service
      | Some scpdNode \<Rightarrow>
          (case xml_child (Some scpdNode) (Some ''actionList'') of None \<Rightarrow> service
           | Some actionListNode \<Rightarrow>
               foldl (\<lambda>service childNode.
                   if \<not> mupnp_action_isactionnode childNode then service
                   else let action = mupnp_action_setactionnode mupnp_action_new (Some childNode)
                        in service\<lparr>actionList := actionList service @ [action]\<rparr>)
                 service (mupnp_xml_node_getchildnodes (Some actionListNode))))"

definition mupnp_service_initservicestatetable :: "mUpnpService \<Rightarrow> mUpnpService" where
  "mupnp_service_initservicestatetable service =
     (let service = service\<lparr>serviceStateTable := []\<rparr> in
      case mupnp_service_getscpdnode service of None \<Rightarrow> service
      | Some scpdNode \<Rightarrow>
          (case xml_child (Some scpdNode) (Some ''serviceStateTable'') of None \<Rightarrow> service
           | Some stateTableNode \<Rightarrow>
               foldl (\<lambda>service childNode.
                   if \<not> mupnp_statevariable_isstatevariablenode childNode then service
                   else let statVar = mupnp_statevariable_setstatevariablenode mupnp_statevariable_new (Some childNode)
                        in service\<lparr>serviceStateTable := serviceStateTable service @ [statVar]\<rparr>)
                 service (mupnp_xml_node_getchildnodes (Some stateTableNode))))"

definition mupnp_service_initchildnodes :: "mUpnpService \<Rightarrow> mUpnpService" where
  "mupnp_service_initchildnodes service = mupnp_service_initservicestatetable (mupnp_service_initactionlist service)"

text \<open>\<open>None\<close> is the crash of the parser on a document without a root.\<close>

definition mupnp_service_parsedescription ::
    "expat \<Rightarrow> mUpnpService \<Rightarrow> buffer option \<Rightarrow> (bool \<times> mUpnpService) option" where
  "mupnp_service_parsedescription expat service description = do {
     let service = (mupnp_service_clear service)\<lparr>scpdNodeList := Some []\<rparr>;
     (ok, nodes) \<leftarrow> mupnp_xml_parse expat [] description;
     let service = service\<lparr>scpdNodeList := Some nodes\<rparr>;
     if \<not> ok then Some (False, service)
     else if length nodes \<le> 0 then Some (False, mupnp_service_clear service)
     else if mupnp_service_getscpdnode service = None then Some (False, mupnp_service_clear service)
     else Some (True, mupnp_service_initchildnodes service) }"

definition mupnp_service_getdescription :: "mUpnpService \<Rightarrow> charptr \<Rightarrow> charptr" where
  "mupnp_service_getdescription service descStr =
     (case mupnp_service_getscpdnode service of None \<Rightarrow> descStr
      | Some scpdNode \<Rightarrow>
          mupnp_xml_node_tostring scpdNode True (str_add (str_add descStr (Some MUPNP_XML_DECLARATION)) (Some [CHR 0x0A])))"

definition mupnp_service_getactionbyname :: "mUpnpService \<Rightarrow> charptr \<Rightarrow> nat option" where
  "mupnp_service_getactionbyname service name =
     (if mupnp_strlen name \<le> 0 then None
      else index_where (\<lambda>action. mupnp_action_isname action name) (actionList service))"

definition mupnp_service_getstatevariablebyname :: "mUpnpService \<Rightarrow> charptr \<Rightarrow> nat option" where
  "mupnp_service_getstatevariablebyname service name =
     (if mupnp_strlen name \<le> 0 then None
      else index_where (\<lambda>stateVar. mupnp_statevariable_isname stateVar name) (serviceStateTable service))"

definition mupnp_service_setactionlistener :: "mUpnpService \<Rightarrow> nat option \<Rightarrow> mUpnpService" where
  "mupnp_service_setactionlistener service f =
     service\<lparr>actionList := map (\<lambda>action. action\<lparr>actionListener := f\<rparr>) (actionList service)\<rparr>"

definition mupnp_service_setquerylistener :: "mUpnpService \<Rightarrow> nat option \<Rightarrow> mUpnpService" where
  "mupnp_service_setquerylistener service f =
     service\<lparr>serviceStateTable := map (\<lambda>stateVar. stateVar\<lparr>svListener := f\<rparr>) (serviceStateTable service)\<rparr>"

subsection \<open>URLs\<close>

definition mupnp_service_isscpdurl :: "mUpnpService \<Rightarrow> charptr \<Rightarrow> bool option" where
  "mupnp_service_isscpdurl service url =
     mupnp_net_uri_isequivalent (mupnp_xml_node_getchildnodevalue (serviceNode service) (Some ''SCPDURL'')) url"

definition mupnp_net_url_isabsolutepath :: "cstring \<Rightarrow> bool" where
  "mupnp_net_url_isabsolutepath uripath = (if hd (uripath @ [NUL]) = CHR ''/'' then True else False)"

definition mangle_join :: "mUpnpNetURI \<Rightarrow> cstring \<Rightarrow> mUpnpNetURI" where
  "mangle_join absServiceURL serviceURLStr =
     (let serviceURL = mupnp_net_url_set mupnp_net_uri_new (Some serviceURLStr) in
      if mupnp_net_url_isabsolutepath serviceURLStr then
        absServiceURL\<lparr>path := str_set (path absServiceURL) (path serviceURL),
                      query := str_set (query absServiceURL) (query serviceURL)\<rparr>
      else
        absServiceURL\<lparr>path := str_add (path absServiceURL) (path serviceURL),
                      query := str_set (query absServiceURL) (query serviceURL)\<rparr>)"

text \<open>\<open>None\<close> is the NULL the function returns for an empty URL.\<close>

definition mupnp_service_mangleabsoluteurl :: "charptr \<Rightarrow> charptr \<Rightarrow> charptr \<Rightarrow> mUpnpNetURI option" where
  "mupnp_service_mangleabsoluteurl serviceURLStr baseURLStr locationURLStr =
     (if mupnp_strlen serviceURLStr \<le> 0 then None
      else
        let absServiceURL = mupnp_net_url_set mupnp_net_uri_new serviceURLStr in
        if mupnp_net_uri_isabsolute absServiceURL then Some absServiceURL
        else if 0 < mupnp_strlen baseURLStr then
          let absServiceURL = mupnp_net_url_set absServiceURL baseURLStr;
              absServiceURL = mangle_join absServiceURL (the serviceURLStr)
          in Some (if mupnp_net_url_isabsolutepath (the serviceURLStr) then absServiceURL
                   else mupnp_net_uri_rebuild absServiceURL)
        else if mupnp_strlen locationURLStr \<le> 0 then Some absServiceURL
        else
          let absServiceURL = mupnp_net_url_set absServiceURL locationURLStr;
              absServiceURL = (case mupnp_net_uri_getupnpbasepath absServiceURL of None \<Rightarrow> absServiceURL
                               | Some basePath \<Rightarrow> absServiceURL\<lparr>path := Some basePath\<rparr>)
          in Some (mangle_join absServiceURL (the serviceURLStr)))"

subsection \<open>Subscribers\<close>

definition mupnp_service_addsubscriber :: "mUpnpService \<Rightarrow> mUpnpSubscriber \<Rightarrow> bool \<times> mUpnpService" where
  "mupnp_service_addsubscriber service sub = (True, service\<lparr>subscriberList := subscriberList service @ [sub]\<rparr>)"

text \<open>A subscriber is named by its position in the list.\<close>

definition mupnp_service_removesubscriber :: "mUpnpService \<Rightarrow> nat \<Rightarrow> bool \<times> mUpnpService" where
  "mupnp_service_removesubscriber service i =
     (True, service\<lparr>subscriberList := take i (subscriberList service) @ drop (i + 1) (subscriberList service)\<rparr>)"

text \<open>Five characters are skipped when \<open>uuid\<close> occurs anywhere; the outer \<open>None\<close> is a pointer behind the
  end of the text.\<close>

definition skip_uuid :: "charptr \<Rightarrow> charptr option" where
  "skip_uuid sid =
     (if 0 \<le> mupnp_strstr sid (Some MUPNP_ST_UUID_DEVICE)
      then offset sid (int (mupnp_strlen (Some MUPNP_ST_UUID_DEVICE)) + 1) else Some sid)"

fun subscriber_find :: "mUpnpSubscriber list \<Rightarrow> charptr \<Rightarrow> nat option option" where
  "subscriber_find [] sid = Some None"
| "subscriber_find (sub # subs) sid = do {
     s \<leftarrow> skip_uuid (subSid sub);
     if mupnp_streq sid s then Some (Some 0)
     else map_option (map_option Suc) (subscriber_find subs sid) }"

definition mupnp_service_getsubscriberbysid :: "mUpnpService \<Rightarrow> charptr \<Rightarrow> nat option option" where
  "mupnp_service_getsubscriberbysid service sid =
     (if mupnp_strlen sid \<le> 0 then Some None
      else do { sid \<leftarrow> skip_uuid sid; subscriber_find (subscriberList service) sid })"

subsection \<open>Relative URLs\<close>

lemma url_setI: "mupnp_net_uri_setvalue u v = Some u' \<Longrightarrow> mupnp_net_url_set u v = u'"
  by (simp add: mupnp_net_url_set_def)

lemma strstr_absent: "c \<in> set t \<Longrightarrow> c \<notin> set s \<Longrightarrow> mupnp_strstr (Some s) (Some t) = - 1"
proof -
  assume c: "c \<in> set t" "c \<notin> set s"
  have "c_strstr s t = None"
    unfolding c_strstr_None using c by (auto simp: prefix_def dest!: in_set_dropD [of c _ s]) (metis Un_iff in_set_dropD set_append)
  then show ?thesis by simp
qed

lemma set_path_no_protocol:
  assumes "\<not> mupnp_net_uri_isabsolute u" "path u = None" "p \<noteq> []"
    and "set p \<inter> set ''?#'' = {}" and "CHR ''#'' \<notin> set (str_bytes q)"
    and "q = None \<or> i = 0" "0 \<le> i" "nat i \<le> length p" "query u = None"
  shows "uri_set_path u (Some (url_rest p q None)) i = Some (u\<lparr>path := Some p, query := q\<rparr>)"
proof (cases q)
  case None
  then have val: "url_rest p q None = p" by (simp add: url_rest_def)
  have off: "offset (Some p) i = Some (Some (drop (nat i) p))" using assms by (simp add: offset_def)
  have "CHR ''#'' \<notin> set (drop (nat i) p)" "CHR ''?'' \<notin> set (drop (nat i) p)"
    using assms(4) by (auto dest: in_set_dropD)
  then have a: "mupnp_strstr (Some (drop (nat i) p)) (Some ''#'') = - 1" "mupnp_strstr (Some (drop (nat i) p)) (Some ''?'') = - 1"
    by (simp_all add: c_strstr_single)
  show ?thesis
    using assms(1,2,3,9) off a unfolding val by (simp add: uri_set_path_def Let_def str_add_def None del: strstr_simps)
next
  case (Some x)
  then have i: "i = 0" using assms(6) by simp
  have val: "url_rest p q None = p @ CHR ''?'' # x" using Some by (simp add: url_rest_def)
  have no: "CHR ''#'' \<notin> set (p @ CHR ''?'' # x)" "CHR ''?'' \<notin> set p" using assms(4,5) Some by auto
  then have a: "mupnp_strstr (Some (p @ CHR ''?'' # x)) (Some ''#'') = - 1"
    "mupnp_strstr (Some (p @ CHR ''?'' # x)) (Some ''?'') = int (length p)"
    using strstr_absent [of "CHR ''#''" "''#''"] strstr_char_at [OF no(2), of x] by simp_all
  have r: "region (Some (p @ CHR ''?'' # x)) 0 (int (length p)) = Some p"
    "region (Some (p @ CHR ''?'' # x)) (int (length p) + 1) (int (length x)) = Some x"
    by (simp_all add: region_def nat_add_distrib)
  show ?thesis
    using assms(1,2,3) a r unfolding val i
    by (simp add: uri_set_path_def Let_def str_add_def Some offset_def del: strstr_simps)
qed

text \<open>A relative URL is all path and query: an absolute path, or a relative one without a query.\<close>

definition relative_ok :: "cstring \<Rightarrow> charptr \<Rightarrow> bool" where
  "relative_ok p q \<longleftrightarrow> p \<noteq> [] \<and> set p \<inter> set ''?#:@'' = {} \<and> set (str_bytes q) \<inter> set ''#:@'' = {} \<and>
     (q = None \<or> hd p = CHR ''/'')"

lemma uri_setvalue_relative:
  assumes ok: "relative_ok p q"
  obtains u' where "mupnp_net_uri_setvalue u (Some (url_rest p q None)) = Some u'"
    and "protocol u' = None" and "path u' = Some p" and "query u' = q"
proof -
  let ?val = "url_rest p q None"
  let ?u0 = "(mupnp_net_uri_clear u)\<lparr>uri := str_set (uri (mupnp_net_uri_clear u)) (Some ?val)\<rparr>"
  have no: "CHR '':'' \<notin> set ?val" "CHR ''@'' \<notin> set ?val"
    using ok by (auto simp: relative_ok_def url_rest_def split: option.splits)
  have ne: "p \<noteq> []" using ok by (simp add: relative_ok_def)
  have 1: "uri_set_protocol ?u0 (Some ?val) = Some (?u0, 0)"
    using strstr_absent [of "CHR '':''" "''://''" ?val] no(1) by (simp add: uri_set_protocol_def del: strstr_simps)
  have 2: "uri_set_user ?u0 (Some ?val) 0 = Some (?u0, 0)"
    using set_user_text [OF no(2), of ?u0 "[]"] by simp
  obtain h i where 3: "uri_set_host ?u0 (Some ?val) 0 = Some (?u0\<lparr>host := h\<rparr>, i)"
    and h: "CHR '':'' \<notin> set (str_bytes h)" and i: "0 \<le> i" "q = None \<or> i = 0" "nat i \<le> length p"
  proof (cases "0 < mupnp_strstr (Some ?val) (Some ''/'')")
    case True
    let ?k = "mupnp_strstr (Some ?val) (Some ''/'')"
    have "hd p \<noteq> CHR ''/''"
      using True ne by (cases p) (auto simp: url_rest_def c_strstr_single split: if_splits)
    then have q: "q = None" using ok by (auto simp: relative_ok_def)
    then have val: "?val = p" by (simp add: url_rest_def)
    have k: "nat ?k \<le> length p" using strstr_bound [of p "''/''"] True val by simp
    then have "region (Some ?val) 0 ?k = Some (take (nat ?k) p)" using True val by (simp add: region_def)
    then have "uri_set_host ?u0 (Some ?val) 0 = Some (?u0\<lparr>host := Some (take (nat ?k) p)\<rparr>, ?k)"
      using True by (simp add: uri_set_host_def offset_def Let_def del: strstr_simps)
    then show ?thesis
      by (rule that) (use no(1) q k True val in \<open>auto dest: in_set_takeD\<close>)
  next
    case False
    then have "uri_set_host ?u0 (Some ?val) 0 = Some (?u0\<lparr>host := None\<rparr>, 0)"
      by (simp add: uri_set_host_def offset_def Let_def mupnp_net_uri_isabsolute_def mupnp_net_uri_clear_def del: strstr_simps)
    then show ?thesis by (rule that) simp_all
  qed
  let ?u1 = "?u0\<lparr>host := h\<rparr>"
  have no_port: "mupnp_strrchr h (Some '':'') 1 = - 1" using h strrchr_absent by (cases h) simp_all
  obtain u2 where 4: "uri_set_port ?u1 = Some u2" and u2: "protocol u2 = None" "path u2 = None" "host u2 = h" "query u2 = None"
    using no_port by (simp add: uri_set_port_def Let_def mupnp_net_uri_clear_def)
  have "\<not> mupnp_net_isipv6address h" using h by (cases h) (simp_all add: isipv6_iff)
  then have 5: "uri_set_zone u2 = Some u2" using u2(3) by (simp add: uri_set_zone_def)
  have "set p \<inter> set ''?#'' = {}" "CHR ''#'' \<notin> set (str_bytes q)" using ok by (auto simp: relative_ok_def)
  then have 6: "uri_set_path u2 (Some ?val) i = Some (u2\<lparr>path := Some p, query := q\<rparr>)"
    using u2 i ne by (intro set_path_no_protocol) (simp_all add: mupnp_net_uri_isabsolute_def)
  have "mupnp_net_uri_setvalue u (Some ?val) = Some (u2\<lparr>path := Some p, query := q\<rparr>)"
    unfolding mupnp_net_uri_setvalue_def Let_def by (simp only: 1 2 3 4 5 6 bind.bind_lunit prod.case)
  then show thesis by (rule that) (simp_all add: u2)
qed

lemma basepath_at:
  "k < n \<Longrightarrow> p ! k = CHR ''/'' \<Longrightarrow> \<forall>j. k < j \<and> j < n \<longrightarrow> p ! j \<noteq> CHR ''/'' \<Longrightarrow> basepath_loop p n = take (k + 1) p"
proof (induction n)
  case (Suc n)
  then show ?case by (cases "k = n") auto
qed simp

lemma basepath_dir:
  assumes "CHR ''/'' \<notin> set f" and "path u = Some (d @ CHR ''/'' # f)"
  shows "mupnp_net_uri_getupnpbasepath u = Some (d @ ''/'')"
proof -
  have "(d @ CHR ''/'' # f) ! j \<noteq> CHR ''/''" if j: "length d < j" "j < length (d @ CHR ''/'' # f)" for j
  proof -
    obtain i where "j - length d = Suc i" "i < length f" using j by (cases "j - length d") auto
    moreover have "f ! i \<noteq> CHR ''/''" using assms(1) nth_mem [OF calculation(2)] by metis
    ultimately show ?thesis using j by (auto simp: nth_append)
  qed
  then have "basepath_loop (d @ CHR ''/'' # f) (length (d @ CHR ''/'' # f)) = take (length d + 1) (d @ CHR ''/'' # f)"
    by (intro basepath_at) auto
  then show ?thesis using assms(2) by (simp add: mupnp_net_uri_getupnpbasepath_def mupnp_strdup_def)
qed

section \<open>Properties\<close>



end
