(* ===== verification/HttpHeader.thy ===== *)
theory HttpHeader
  imports StringFunction Interfaces
begin

section \<open>HTTP headers (src/mupnp/http/http_header.c, http_header_list.c)\<close>

text \<open>
  A header list is the sequence of its headers, in the order in which they were added.  Names
  are compared without regard to case, in the first header that matches; a header that was
  never given a name is skipped.  \<open>http_header_next\<close> and \<open>gets\<close> are the iteration of
  \<open>LinkList\<close>.  The list is shown to be a table keyed by case-folded names.
\<close>

record mUpnpHttpHeader =
  hname :: charptr
  hvalue :: charptr

type_synonym mUpnpHttpHeaderList = "mUpnpHttpHeader list"

definition mupnp_http_header_new :: mUpnpHttpHeader where
  "mupnp_http_header_new = \<lparr>hname = None, hvalue = None\<rparr>"

definition mupnp_http_header_setname :: "mUpnpHttpHeader \<Rightarrow> charptr \<Rightarrow> mUpnpHttpHeader" where
  "mupnp_http_header_setname header name = header\<lparr>hname := str_set (hname header) name\<rparr>"

definition mupnp_http_header_setvalue :: "mUpnpHttpHeader \<Rightarrow> charptr \<Rightarrow> mUpnpHttpHeader" where
  "mupnp_http_header_setvalue header v = header\<lparr>hvalue := str_set (hvalue header) v\<rparr>"

definition mupnp_http_header_getname :: "mUpnpHttpHeader \<Rightarrow> charptr" where
  "mupnp_http_header_getname header = hname header"

definition mupnp_http_header_getvalue :: "mUpnpHttpHeader \<Rightarrow> charptr" where
  "mupnp_http_header_getvalue header = hvalue header"

definition mupnp_http_headerlist_new :: mUpnpHttpHeaderList where
  "mupnp_http_headerlist_new = []"

definition mupnp_http_headerlist_add :: "mUpnpHttpHeaderList \<Rightarrow> mUpnpHttpHeader \<Rightarrow> mUpnpHttpHeaderList" where
  "mupnp_http_headerlist_add headerList header = headerList @ [header]"

text \<open>The search loop; the result is the position of the header.\<close>

fun headerlist_find :: "mUpnpHttpHeaderList \<Rightarrow> charptr \<Rightarrow> nat \<Rightarrow> nat option" where
  "headerlist_find [] name i = None"
| "headerlist_find (header # hs) name i =
     (if mupnp_http_header_getname header = None then headerlist_find hs name (i + 1)
      else if mupnp_strcasecmp (mupnp_http_header_getname header) name = 0 then Some i
      else headerlist_find hs name (i + 1))"

definition mupnp_http_headerlist_get :: "mUpnpHttpHeaderList \<Rightarrow> charptr \<Rightarrow> nat option" where
  "mupnp_http_headerlist_get headerList name =
     (if name = None then None else headerlist_find headerList name 0)"

definition mupnp_http_headerlist_set ::
    "mUpnpHttpHeaderList \<Rightarrow> charptr \<Rightarrow> charptr \<Rightarrow> mUpnpHttpHeaderList" where
  "mupnp_http_headerlist_set headerList name v =
     (case mupnp_http_headerlist_get headerList name of
        None \<Rightarrow>
          mupnp_http_headerlist_add headerList
            (mupnp_http_header_setvalue (mupnp_http_header_setname mupnp_http_header_new name) v)
      | Some i \<Rightarrow> headerList[i := mupnp_http_header_setvalue (headerList ! i) v])"

definition mupnp_http_headerlist_getvalue :: "mUpnpHttpHeaderList \<Rightarrow> charptr \<Rightarrow> charptr" where
  "mupnp_http_headerlist_getvalue headerList name =
     (case mupnp_http_headerlist_get headerList name of
        Some i \<Rightarrow> mupnp_http_header_getvalue (headerList ! i)
      | None \<Rightarrow> None)"

text \<open>The search looks at the names only, and finds what was just stored.\<close>

lemma headerlist_find_names:
  "map hname hs = map hname gs \<Longrightarrow> headerlist_find hs k i = headerlist_find gs k i"
proof (induction hs arbitrary: gs i)
  case (Cons h hs)
  then show ?case by (cases gs) (auto simp: mupnp_http_header_getname_def)
qed simp

lemma headerlist_find_less: "headerlist_find hs k i = Some j \<Longrightarrow> i \<le> j \<and> j < length hs + i"
  by (induction hs arbitrary: i) (fastforce split: if_splits)+

lemma headerlist_find_new:
  "headerlist_find hs (Some k) i = None \<Longrightarrow> hname h = Some k \<Longrightarrow>
   headerlist_find (hs @ [h]) (Some k) i = Some (i + length hs)"
  by (induction hs arbitrary: i) (auto simp: mupnp_http_header_getname_def split: if_splits)

lemma headerlist_get_set:
  "mupnp_http_headerlist_getvalue (mupnp_http_headerlist_set hs (Some k) (Some v)) (Some k) = Some v"
proof (cases "headerlist_find hs (Some k) 0")
  case None
  then show ?thesis
    by (simp add: mupnp_http_headerlist_set_def mupnp_http_headerlist_get_def mupnp_http_headerlist_getvalue_def
        mupnp_http_headerlist_add_def headerlist_find_new mupnp_http_header_setname_def
        mupnp_http_header_setvalue_def mupnp_http_header_new_def mupnp_http_header_getvalue_def)
next
  case (Some i)
  then have i: "i < length hs" using headerlist_find_less by fastforce
  have "map hname (hs[i := (hs ! i)\<lparr>hvalue := Some v\<rparr>]) = map hname hs"
    using i by (simp add: map_update list_update_same_conv)
  from headerlist_find_names [OF this] Some i show ?thesis
    by (simp add: mupnp_http_headerlist_set_def mupnp_http_headerlist_get_def mupnp_http_headerlist_getvalue_def
        mupnp_http_header_setvalue_def mupnp_http_header_getvalue_def)
qed

section \<open>The header list as a keyed table\<close>

definition headers_inv :: "mUpnpHttpHeaderList \<Rightarrow> bool" where
  "headers_inv hs \<longleftrightarrow> (\<forall>h \<in> set hs. nul_free (str_bytes (hname h)))"

definition same_name :: "cstring \<Rightarrow> cstring \<Rightarrow> bool" where
  "same_name k l \<longleftrightarrow> map c_tolower k = map c_tolower l"

definition header_lookup :: "mUpnpHttpHeaderList \<Rightarrow> cstring \<Rightarrow> charptr" where
  "header_lookup hs k = mupnp_http_headerlist_getvalue hs (Some k)"

definition header_store :: "mUpnpHttpHeaderList \<Rightarrow> cstring \<Rightarrow> cstring \<Rightarrow> mUpnpHttpHeaderList" where
  "header_store hs k v = mupnp_http_headerlist_set hs (Some k) (Some v)"

definition named :: "cstring \<Rightarrow> mUpnpHttpHeader \<Rightarrow> bool" where
  "named k h \<longleftrightarrow> (\<exists>n. hname h = Some n \<and> same_name n k)"

lemma headers_inv_simps [simp]:
  "headers_inv []" "headers_inv (h # hs) \<longleftrightarrow> nul_free (str_bytes (hname h)) \<and> headers_inv hs"
  "headers_inv (hs @ gs) \<longleftrightarrow> headers_inv hs \<and> headers_inv gs"
  by (auto simp: headers_inv_def)

lemma headerlist_find_shift: "headerlist_find hs k (Suc i) = map_option Suc (headerlist_find hs k i)"
  by (induction hs arbitrary: i) auto

definition hpos :: "mUpnpHttpHeaderList \<Rightarrow> cstring \<Rightarrow> nat option" where
  "hpos hs k = mupnp_http_headerlist_get hs (Some k)"

lemma hpos_Nil [simp]: "hpos [] k = None"
  by (simp add: hpos_def mupnp_http_headerlist_get_def)

lemma hpos_Cons [simp]:
  "nul_free (str_bytes (hname h)) \<Longrightarrow> nul_free k \<Longrightarrow>
   hpos (h # hs) k = (if named k h then Some 0 else map_option Suc (hpos hs k))"
  by (auto simp: hpos_def mupnp_http_headerlist_get_def mupnp_http_header_getname_def headerlist_find_shift
      named_def same_name_def c_strcasecmp_eq_0)

lemma hpos_Some: "hpos hs k = Some i \<Longrightarrow> headers_inv hs \<Longrightarrow> nul_free k \<Longrightarrow> i < length hs \<and> named k (hs ! i)"
proof (induction hs arbitrary: i)
  case (Cons h hs)
  then show ?case by (cases i) (auto split: if_splits)
qed simp

lemma hpos_append:
  "headers_inv hs \<Longrightarrow> headers_inv [h] \<Longrightarrow> nul_free k \<Longrightarrow>
   hpos (hs @ [h]) k =
     (case hpos hs k of Some i \<Rightarrow> Some i | None \<Rightarrow> if named k h then Some (length hs) else None)"
  by (induction hs) (auto split: option.splits)

lemma hpos_update:
  "headers_inv hs \<Longrightarrow> i < length hs \<Longrightarrow> hname h = hname (hs ! i) \<Longrightarrow> nul_free k \<Longrightarrow> hpos (hs[i := h]) k = hpos hs k"
proof (induction hs arbitrary: i)
  case (Cons a hs)
  then show ?case by (cases i) (auto simp: named_def)
qed simp

lemma hpos_same: "same_name k l \<Longrightarrow> headers_inv hs \<Longrightarrow> nul_free k \<Longrightarrow> nul_free l \<Longrightarrow> hpos hs k = hpos hs l"
  by (induction hs) (auto simp: named_def same_name_def)

lemma named_unique: "named k h \<Longrightarrow> named l h \<Longrightarrow> same_name k l"
  by (auto simp: named_def same_name_def)

lemma header_lookup_pos: "header_lookup hs k = (case hpos hs k of None \<Rightarrow> None | Some i \<Rightarrow> hvalue (hs ! i))"
  by (simp add: header_lookup_def mupnp_http_headerlist_getvalue_def hpos_def mupnp_http_header_getvalue_def
      split: option.split)

lemma header_store_pos:
  "header_store hs k v =
     (case hpos hs k of None \<Rightarrow> hs @ [\<lparr>hname = Some k, hvalue = Some v\<rparr>]
      | Some i \<Rightarrow> hs[i := (hs ! i)\<lparr>hvalue := Some v\<rparr>])"
  by (simp add: header_store_def mupnp_http_headerlist_set_def hpos_def mupnp_http_headerlist_add_def
      mupnp_http_header_setvalue_def mupnp_http_header_setname_def mupnp_http_header_new_def split: option.split)

lemma headers_inv_store: "headers_inv hs \<Longrightarrow> nul_free k \<Longrightarrow> headers_inv (header_store hs k v)"
proof (cases "hpos hs k")
  case (Some i)
  assume "headers_inv hs" "nul_free k"
  with Some have "i < length hs" by (simp add: hpos_Some)
  with Some \<open>headers_inv hs\<close> show ?thesis
    by (auto simp: header_store_pos headers_inv_def dest!: set_update_subset_insert [THEN subsetD])
qed (simp add: header_store_pos)

lemma header_lookup_store:
  assumes hs: "headers_inv hs" and k: "nul_free k" and l: "nul_free l"
  shows "header_lookup (header_store hs k v) l = (if same_name k l then Some v else header_lookup hs l)"
proof (cases "hpos hs k")
  case None
  have "named l \<lparr>hname = Some k, hvalue = Some v\<rparr> \<longleftrightarrow> same_name k l" by (simp add: named_def)
  with None hs k l hpos_same [of k l hs] show ?thesis
    by (auto simp: header_store_pos header_lookup_pos hpos_append nth_append split: option.splits
        dest: hpos_Some)
next
  case (Some i)
  with hs k have i: "i < length hs" "named k (hs ! i)" by (simp_all add: hpos_Some)
  have "hpos (hs[i := (hs ! i)\<lparr>hvalue := Some v\<rparr>]) l = hpos hs l"
    using hs i l by (intro hpos_update) auto
  with Some hs k l i hpos_same [of k l hs] show ?thesis
    by (auto simp: header_store_pos header_lookup_pos nth_list_update split: option.splits
        dest: hpos_Some named_unique)
qed

interpretation http_headers: keyed_table headers_inv nul_free same_name header_lookup header_store
  by unfold_locales (auto simp: headers_inv_store header_lookup_store same_name_def)

section \<open>Properties\<close>

text \<open>C16: after any sequence of header assignments, reading a header in any capitalisation gives
  the value of the last assignment to a name that is equal up to case, or NULL.\<close>

theorem header_assignments:
  assumes "\<forall>(k, v) \<in> set kvs. nul_free k" and "nul_free l"
  shows "mupnp_http_headerlist_getvalue
       (foldl (\<lambda>hs (k, v). mupnp_http_headerlist_set hs (Some k) (Some v)) mupnp_http_headerlist_new kvs) (Some l) =
     map_option snd (find (\<lambda>(k, v). map c_tolower k = map c_tolower l) (rev kvs))"
proof -
  have "list_all (\<lambda>(k, v). nul_free k) kvs" using assms(1) by (auto simp: list_all_iff)
  then have "header_lookup (foldl (\<lambda>hs (k, v). header_store hs k v) [] kvs) l =
      (case find (\<lambda>(k, v). same_name k l) (rev kvs) of None \<Rightarrow> header_lookup [] l | Some (k, v) \<Rightarrow> Some v)"
    using assms(2) by (intro http_headers.lookup_stores) simp_all
  also have "header_lookup [] l = None" by (simp add: header_lookup_pos)
  finally show ?thesis
    by (simp add: header_lookup_def header_store_def mupnp_http_headerlist_new_def same_name_def
        split: option.splits)
qed

theorem header_assignments_witness:
  "mupnp_http_headerlist_getvalue
     (foldl (\<lambda>hs (k, v). mupnp_http_headerlist_set hs (Some k) (Some v)) mupnp_http_headerlist_new
        [(''Host'', ''a''), (''EXT'', ''''), (''HOST'', ''b'')]) (Some ''host'') = Some ''b''"
  using header_assignments [of "[(''Host'', ''a''), (''EXT'', ''''), (''HOST'', ''b'')]" "''host''"]
  by (simp add: c_tolower_def char_of_def bit_0)

end
