(* ===== verification/Socket.thy ===== *)
theory Socket
  imports Prelude
begin

section \<open>Stream sockets (src/mupnp/net/socket.c)\<close>

text \<open>
  The byte transfer of a connected stream socket: \<open>read\<close>, \<open>write\<close>, \<open>readline\<close> and \<open>skip\<close>.
  The operating system is the environment of the model and is part of the socket's state:
  the bytes that will arrive in time, how many of them each \<open>recv\<close> hands out at most, what a read
  gives once they are used up (0 for a closed connection, negative for an error, a timeout or a
  worker that is stopped), whether the descriptor is non-blocking, and what happens to the coming
  \<open>send\<close> calls.  A \<open>recv\<close> or \<open>send\<close> that succeeds transfers at least one and at most the
  requested number of bytes, in order; nothing else is assumed of it.  The model is of the POSIX
  build without OpenSSL, in which a blocking \<open>write\<close> waits for the descriptor to be ready; the
  calls that set and restore the timeout of the descriptor are taken to succeed.
  Opening, binding, connecting and the clock behind the deadlines are not modelled.
\<close>

text \<open>The events of the sending side: the wait for readiness gives up (deadline, error or stopped
  worker; a non-blocking \<open>send\<close> finds no room), \<open>send\<close> fails with \<open>EAGAIN\<close> or \<open>EINTR\<close>, or it has
  the given result: not positive for another error, else the number of bytes the system takes.\<close>

datatype send_event = Unready | Again | Sends int

record mUpnpSocket =
  instream :: buffer
  recvSizes :: "nat list"
  recvFails :: bool
  nonblocking :: bool
  sendResults :: "send_event list"
  outstream :: buffer

abbreviation LF :: char where "LF \<equiv> CHR 0x0A"
abbreviation CR :: char where "CR \<equiv> CHR 0x0D"

definition os_recv :: "mUpnpSocket \<Rightarrow> nat \<Rightarrow> int \<times> buffer \<times> mUpnpSocket" where
  "os_recv s n =
     (if instream s = [] then (if recvFails s then - 1 else 0, [], s)
      else let m = (case recvSizes s of [] \<Rightarrow> n | k # _ \<Rightarrow> min n (k + 1));
               b = take m (instream s)
           in (int (length b), b,
               s\<lparr>instream := drop m (instream s), recvSizes := tl (recvSizes s)\<rparr>))"

text \<open>Whether the wait for readiness succeeds, and one \<open>send\<close>: its result and whether \<open>errno\<close> asks
  to repeat it.\<close>

definition os_ready :: "mUpnpSocket \<Rightarrow> bool \<times> mUpnpSocket" where
  "os_ready s = (case sendResults s of Unready # rs \<Rightarrow> (False, s\<lparr>sendResults := rs\<rparr>) | _ \<Rightarrow> (True, s))"

definition os_send :: "mUpnpSocket \<Rightarrow> buffer \<Rightarrow> int \<times> bool \<times> mUpnpSocket" where
  "os_send s data =
     (case sendResults s of
        [] \<Rightarrow> (int (length data), False, s\<lparr>outstream := outstream s @ data\<rparr>)
      | Sends r # rs \<Rightarrow>
          if r \<le> 0 then (r, False, s\<lparr>sendResults := rs\<rparr>)
          else let m = min (nat r) (length data)
               in (int m, False, s\<lparr>sendResults := rs, outstream := outstream s @ take m data\<rparr>)
      | _ # rs \<Rightarrow> (- 1, True, s\<lparr>sendResults := rs\<rparr>))"

definition mupnp_socket_read :: "mUpnpSocket \<Rightarrow> nat \<Rightarrow> int \<times> buffer \<times> mUpnpSocket" where
  "mupnp_socket_read sock bufferLen = (if bufferLen = 0 then (0, [], sock) else os_recv sock bufferLen)"

lemma socket_read_cases:
  assumes "0 < n"
  obtains (closed) "instream s = []" and "mupnp_socket_read s n = (if recvFails s then - 1 else 0, [], s)"
  | (data) m where "0 < m" and "m \<le> n" and "m \<le> length (instream s)"
      and "mupnp_socket_read s n =
        (int m, take m (instream s), s\<lparr>instream := drop m (instream s), recvSizes := tl (recvSizes s)\<rparr>)"
proof (cases "instream s = []")
  case True
  with assms closed show thesis by (simp add: mupnp_socket_read_def os_recv_def)
next
  case False
  let ?k = "case recvSizes s of [] \<Rightarrow> n | k # _ \<Rightarrow> min n (k + 1)"
  let ?m = "min ?k (length (instream s))"
  have "0 < ?k" "?k \<le> n" using assms by (auto split: list.splits)
  moreover have "take ?k (instream s) = take ?m (instream s)" "drop ?k (instream s) = drop ?m (instream s)"
    by (auto simp: min_def)
  ultimately show thesis
    using assms False by (intro data [of ?m]) (auto simp: mupnp_socket_read_def os_recv_def Let_def)
qed

text \<open>A read of one byte.\<close>

lemma socket_read_one:
  "instream s = c # r \<Longrightarrow>
   mupnp_socket_read s (Suc 0) = (1, [c], s\<lparr>instream := r, recvSizes := tl (recvSizes s)\<rparr>)"
  by (auto simp: mupnp_socket_read_def os_recv_def Let_def min_def split: list.split)

lemma socket_read_end:
  "instream s = [] \<Longrightarrow> 0 < n \<Longrightarrow> mupnp_socket_read s n = (if recvFails s then - 1 else 0, [], s)"
  by (simp add: mupnp_socket_read_def os_recv_def)

lemma socket_read_less:
  "mupnp_socket_read s n = (r, b, s') \<Longrightarrow> 0 < r \<Longrightarrow>
     length (instream s') < length (instream s) \<and> int (length b) = r \<and> instream s = b @ instream s' \<and> length b \<le> n"
  by (cases "n = 0", simp add: mupnp_socket_read_def, rule socket_read_cases [of n s])
    (auto split: if_splits)

lemma socket_read_nonempty: "mupnp_socket_read s n = (r, b, s') \<Longrightarrow> \<not> r \<le> 0 \<Longrightarrow> b \<noteq> []"
  using socket_read_less [of s n r b s'] by auto

subsection \<open>Lines\<close>

text \<open>
  The result of the loop is the line read so far and whether a read failed.  \<open>bufferLen\<close> is
  at least two in every call of the library (the code reads \<open>buffer[-1]\<close> for smaller ones).
\<close>

function readline_loop :: "mUpnpSocket \<Rightarrow> nat \<Rightarrow> buffer \<Rightarrow> bool \<times> buffer \<times> mUpnpSocket" where
  "readline_loop sock bufferLen line =
     (if length line < bufferLen - 1 then
        (case mupnp_socket_read sock 1 of
           (readLen, b, sock') \<Rightarrow>
             if readLen \<le> 0 then (False, line, sock')
             else if hd b = LF then (True, line @ [hd b], sock')
             else readline_loop sock' bufferLen (line @ [hd b]))
      else (True, line, sock))"
  by pat_completeness auto
termination
  by (relation "measure (\<lambda>(sock, n, line). n - length line)") auto

declare readline_loop.simps [simp del]

function skipline_loop :: "mUpnpSocket \<Rightarrow> mUpnpSocket" where
  "skipline_loop sock =
     (case mupnp_socket_read sock 1 of
        (readLen, b, sock') \<Rightarrow>
          if readLen \<le> 0 then sock' else if hd b = LF then sock' else skipline_loop sock')"
  by pat_completeness auto
termination
  by (relation "measure (\<lambda>sock. length (instream sock))") (auto dest!: sym [of _ "mupnp_socket_read _ _"] socket_read_less)

declare skipline_loop.simps [simp del]

definition mupnp_socket_readline :: "mUpnpSocket \<Rightarrow> nat \<Rightarrow> int \<times> buffer \<times> mUpnpSocket" where
  "mupnp_socket_readline sock bufferLen =
     (case readline_loop sock bufferLen [] of
        (ok, line, sock) \<Rightarrow>
          if \<not> ok then (- 1, line, sock)
          else if line = [] \<or> last line \<noteq> LF then (int (length line), line, skipline_loop sock)
          else (int (length line), line, sock))"

function socket_skip_loop :: "mUpnpSocket \<Rightarrow> nat \<Rightarrow> nat \<Rightarrow> nat \<times> mUpnpSocket" where
  "socket_skip_loop sock skipLen readCnt =
     (if readCnt < skipLen then
        (case mupnp_socket_read sock 1 of
           (readLen, b, sock') \<Rightarrow>
             if readLen \<le> 0 then (readCnt, sock') else socket_skip_loop sock' skipLen (readCnt + 1))
      else (readCnt, sock))"
  by pat_completeness auto
termination
  by (relation "measure (\<lambda>(sock, n, i). n - i)") auto

declare socket_skip_loop.simps [simp del]

definition mupnp_socket_skip :: "mUpnpSocket \<Rightarrow> nat \<Rightarrow> nat \<times> mUpnpSocket" where
  "mupnp_socket_skip sock skipLen = socket_skip_loop sock skipLen 0"

subsection \<open>Writing\<close>

definition MUPNP_NET_SOCKET_SEND_RETRY_CNT :: nat where
  "MUPNP_NET_SOCKET_SEND_RETRY_CNT = 10"

text \<open>The inner loop: a blocking socket waits before each \<open>send\<close> and repeats one that asks for it
  without counting it; \<open>None\<close> is the return from the function when the wait gives up.\<close>

function send_wait_loop :: "mUpnpSocket \<Rightarrow> buffer \<Rightarrow> int option \<times> mUpnpSocket" where
  "send_wait_loop sock data =
     (case (if \<not> nonblocking sock then os_ready sock else (True, sock)) of
        (ready, sock) \<Rightarrow>
          if \<not> ready then (None, sock)
          else
            (case os_send sock data of
               (nSent, again, sock') \<Rightarrow>
                 if \<not> nonblocking sock \<and> nSent < 0 \<and> again then send_wait_loop sock' data
                 else (Some nSent, sock')))"
  by pat_completeness auto
termination
  by (relation "measure (\<lambda>(s, data). length (sendResults s))")
    (auto simp: os_send_def os_ready_def Let_def split: if_splits list.splits send_event.splits)

declare send_wait_loop.simps [simp del]

text \<open>\<open>data\<close> is the part of the command that is still to be sent; it is not empty.\<close>

function write_loop :: "mUpnpSocket \<Rightarrow> buffer \<Rightarrow> nat \<Rightarrow> nat \<Rightarrow> nat \<times> mUpnpSocket" where
  "write_loop sock data nTotalSent retryCnt =
     (case send_wait_loop sock data of
        (None, sock') \<Rightarrow> (0, sock')
      | (Some nSent, sock') \<Rightarrow>
          if nSent \<le> 0 then
            if MUPNP_NET_SOCKET_SEND_RETRY_CNT < retryCnt + 1 then (0, sock')
            else write_loop sock' data nTotalSent (retryCnt + 1)
          else
            let data' = drop (nat nSent) data in
            if 0 < length data' then write_loop sock' data' (nTotalSent + nat nSent) 0
            else (nTotalSent + nat nSent, sock'))"
  by pat_completeness auto
termination
  by (relation "measures [\<lambda>(s, data, n, k). length data, \<lambda>(s, data, n, k). Suc MUPNP_NET_SOCKET_SEND_RETRY_CNT - k]")
    auto

declare write_loop.simps [simp del]

definition mupnp_socket_write :: "mUpnpSocket \<Rightarrow> buffer \<Rightarrow> nat \<times> mUpnpSocket" where
  "mupnp_socket_write sock cmd = (if length cmd \<le> 0 then (0, sock) else write_loop sock cmd 0 0)"

section \<open>Reading lines\<close>

text \<open>The socket after \<open>k\<close> reads of one byte each.\<close>

definition sadv :: "nat \<Rightarrow> mUpnpSocket \<Rightarrow> mUpnpSocket" where
  "sadv k s = s\<lparr>instream := drop k (instream s), recvSizes := drop k (recvSizes s)\<rparr>"

lemma sadv_0 [simp]: "sadv 0 s = s"
  by (simp add: sadv_def)

lemma sadv_fields [simp]:
  "instream (sadv k s) = drop k (instream s)" "outstream (sadv k s) = outstream s"
  "sendResults (sadv k s) = sendResults s" "recvFails (sadv k s) = recvFails s" "nonblocking (sadv k s) = nonblocking s"
  by (simp_all add: sadv_def)

lemma sadv_Suc: "sadv k (s\<lparr>instream := r, recvSizes := tl (recvSizes s)\<rparr>) = sadv (Suc k) s"
  if "instream s = c # r"
  using that by (simp add: sadv_def drop_Suc)

lemma socket_read_sadv: "instream s = c # r \<Longrightarrow> mupnp_socket_read s (Suc 0) = (1, [c], sadv 1 s)"
  by (simp add: socket_read_one sadv_def drop_Suc)

lemma sadv_sadv [simp]: "sadv j (sadv k s) = sadv (k + j) s"
  by (simp add: sadv_def add.commute)

abbreviation first_line :: "buffer \<Rightarrow> buffer" where
  "first_line b \<equiv> takeWhile (\<lambda>c. c \<noteq> LF) b"

lemma length_first_line: "LF \<in> set b \<Longrightarrow> length (first_line b) < length b"
  by (induction b) auto

lemma first_line_all: "LF \<notin> set b \<Longrightarrow> first_line b = b"
  by (induction b) auto

lemma readline_loop_correct:
  "readline_loop s n line =
     (let l = first_line (instream s); m = n - 1 - length line in
      if length l < m then
        if LF \<in> set (instream s) then (True, line @ l @ [LF], sadv (length l + 1) s)
        else (False, line @ l, sadv (length l) s)
      else (True, line @ take m l, sadv m s))"
proof (induction "n - length line" arbitrary: s line rule: less_induct)
  case less
  show ?case
  proof (cases "length line < n - 1")
    case False
    then show ?thesis by (subst readline_loop.simps) (simp add: Let_def)
  next
    case True
    show ?thesis
    proof (cases "instream s")
      case Nil
      with True show ?thesis by (subst readline_loop.simps) (simp add: socket_read_end Let_def)
    next
      case (Cons c r)
      show ?thesis
      proof (cases "c = LF")
        case True
        with Cons \<open>length line < n - 1\<close> show ?thesis
          by (subst readline_loop.simps) (simp add: socket_read_sadv Let_def)
      next
        case False
        have "readline_loop s n line = readline_loop (sadv 1 s) n (line @ [c])"
          using Cons True False by (subst readline_loop.simps) (simp add: socket_read_sadv)
        also have "\<dots> = (let l = first_line r; m = n - 1 - length (line @ [c]) in
            if length l < m then
              if LF \<in> set r then (True, (line @ [c]) @ l @ [LF], sadv (length l + 2) s)
              else (False, (line @ [c]) @ l, sadv (length l + 1) s)
            else (True, (line @ [c]) @ take m l, sadv (m + 1) s))"
          using less [of "line @ [c]" "sadv 1 s"] True Cons by (simp add: Let_def)
        finally show ?thesis
          using Cons True False by (auto simp: Let_def take_Cons' Suc_diff_Suc)
      qed
    qed
  qed
qed

lemma skipline_loop_correct:
  "skipline_loop s = sadv (min (length (first_line (instream s)) + 1) (length (instream s))) s"
proof (induction "length (instream s)" arbitrary: s rule: less_induct)
  case less
  show ?case
  proof (cases "instream s")
    case Nil
    then show ?thesis by (subst skipline_loop.simps) (simp add: socket_read_end)
  next
    case (Cons c r)
    then have "skipline_loop s = (if c = LF then sadv 1 s else skipline_loop (sadv 1 s))"
      by (subst skipline_loop.simps) (simp add: socket_read_sadv)
    with Cons less [of "sadv 1 s"] show ?thesis by simp
  qed
qed

text \<open>A line that fits is returned with its line feed, and the stream moves behind it.\<close>

lemma readline_complete:
  assumes "instream s = l @ LF # r" and "LF \<notin> set l" and "length l + 1 < n"
  shows "mupnp_socket_readline s n = (int (length l) + 1, l @ [LF], sadv (length l + 1) s)"
proof -
  have "\<forall>x \<in> set l. x \<noteq> LF" using assms(2) by auto
  then have "first_line (instream s) = l" using assms(1) by (simp add: takeWhile_append2 takeWhile_tail)
  then show ?thesis
    using assms by (simp add: mupnp_socket_readline_def readline_loop_correct Let_def)
qed

lemma readline_eof:
  assumes "LF \<notin> set (instream s)" and "length (instream s) < n - 1"
  shows "fst (mupnp_socket_readline s n) = - 1"
proof -
  note eq = first_line_all [OF assms(1)]
  have "readline_loop s n [] = (False, instream s, sadv (length (instream s)) s)"
    using assms unfolding readline_loop_correct eq Let_def by simp
  then show ?thesis by (simp add: mupnp_socket_readline_def)
qed

lemma readline_consumes:
  assumes "mupnp_socket_readline s n = (r, line, s')" and "0 < r"
  shows "length (instream s') < length (instream s)" "outstream s' = outstream s"
    "sendResults s' = sendResults s" "nonblocking s' = nonblocking s" "int (length line) = r"
proof -
  have "length (first_line (instream s)) \<le> length (instream s)" by (rule length_takeWhile_le)
  moreover have "LF \<in> set (instream s) \<Longrightarrow> length (first_line (instream s)) < length (instream s)"
    by (rule length_first_line)
  ultimately show "length (instream s') < length (instream s)" "outstream s' = outstream s"
    "sendResults s' = sendResults s" "nonblocking s' = nonblocking s" "int (length line) = r"
    using assms
    by (auto simp: mupnp_socket_readline_def readline_loop_correct Let_def skipline_loop_correct
        split: if_splits)
qed

section \<open>Writing\<close>

text \<open>The waits succeed and fewer than eleven sends in a row fail, after \<open>c\<close> that have failed
  already.  A blocking socket does not count a \<open>send\<close> that is to be repeated; a non-blocking one
  does not wait and counts all of them.\<close>

fun calm :: "bool \<Rightarrow> nat \<Rightarrow> send_event list \<Rightarrow> bool" where
  "calm nb c [] = True"
| "calm nb c (Sends r # rs) =
     (if r \<le> 0 then c < MUPNP_NET_SOCKET_SEND_RETRY_CNT \<and> calm nb (c + 1) rs else calm nb 0 rs)"
| "calm nb c (Again # rs) =
     (if nb then c < MUPNP_NET_SOCKET_SEND_RETRY_CNT \<and> calm nb (c + 1) rs else calm nb c rs)"
| "calm nb c (Unready # rs) = (nb \<and> c < MUPNP_NET_SOCKET_SEND_RETRY_CNT \<and> calm nb (c + 1) rs)"

definition writable :: "mUpnpSocket \<Rightarrow> bool" where
  "writable s \<longleftrightarrow> calm (nonblocking s) 0 (sendResults s)"

definition wrote :: "mUpnpSocket \<Rightarrow> buffer \<Rightarrow> mUpnpSocket \<Rightarrow> bool" where
  "wrote s b s' \<longleftrightarrow> outstream s' = outstream s @ b \<and> instream s' = instream s \<and>
     recvSizes s' = recvSizes s \<and> recvFails s' = recvFails s \<and> nonblocking s' = nonblocking s"

lemma wrote_refl: "wrote s [] s"
  by (simp add: wrote_def)

lemma wrote_trans: "wrote s a t \<Longrightarrow> wrote t b u \<Longrightarrow> wrote s (a @ b) u"
  by (simp add: wrote_def)

text \<open>What the inner loop gives: the wait gave up, a \<open>send\<close> failed, or some bytes were taken.\<close>

lemma send_wait_result:
  "data \<noteq> [] \<Longrightarrow>
   (case send_wait_loop s data of
      (None, s') \<Rightarrow> wrote s [] s' \<and> \<not> calm (nonblocking s) c (sendResults s)
    | (Some n, s') \<Rightarrow>
        if n \<le> 0 then
          wrote s [] s' \<and> (calm (nonblocking s) c (sendResults s) \<longrightarrow>
            c < MUPNP_NET_SOCKET_SEND_RETRY_CNT \<and> calm (nonblocking s) (c + 1) (sendResults s'))
        else
          nat n \<le> length data \<and> wrote s (take (nat n) data) s' \<and>
          (calm (nonblocking s) c (sendResults s) \<longrightarrow> calm (nonblocking s) 0 (sendResults s')))"
proof (induction s data rule: send_wait_loop.induct)
  case (1 s data)
  show ?case
  proof (cases "sendResults s")
    case Nil
    with 1(2) show ?thesis
      by (subst send_wait_loop.simps) (simp add: os_ready_def os_send_def wrote_def)
  next
    case (Cons e rs)
    let ?s = "s\<lparr>sendResults := rs\<rparr>"
    show ?thesis
    proof (cases "e = Again \<and> \<not> nonblocking s")
      case True
      then have step: "send_wait_loop s data = send_wait_loop ?s data"
        using Cons by (subst send_wait_loop.simps) (simp add: os_ready_def os_send_def)
      have "os_ready s = (True, s)" "os_send s data = (- 1, True, ?s)"
        using True Cons by (simp_all add: os_ready_def os_send_def)
      with 1 True have "case send_wait_loop ?s data of
          (None, s') \<Rightarrow> wrote ?s [] s' \<and> \<not> calm (nonblocking ?s) c (sendResults ?s)
        | (Some n, s') \<Rightarrow>
            if n \<le> 0 then
              wrote ?s [] s' \<and> (calm (nonblocking ?s) c (sendResults ?s) \<longrightarrow>
                c < MUPNP_NET_SOCKET_SEND_RETRY_CNT \<and> calm (nonblocking ?s) (c + 1) (sendResults s'))
            else
              nat n \<le> length data \<and> wrote ?s (take (nat n) data) s' \<and>
              (calm (nonblocking ?s) c (sendResults ?s) \<longrightarrow> calm (nonblocking ?s) 0 (sendResults s'))"
        by simp
      then show ?thesis using True Cons
        by (simp add: step wrote_def split: prod.splits option.splits if_splits)
    next
      case False
      with Cons 1(2) show ?thesis
        by (cases e; subst send_wait_loop.simps)
          (auto simp: os_ready_def os_send_def wrote_def Let_def min_def)
    qed
  qed
qed

lemma write_loop_calm:
  "calm (nonblocking s) k (sendResults s) \<Longrightarrow> data \<noteq> [] \<Longrightarrow>
   \<exists>s'. write_loop s data t k = (t + length data, s') \<and> wrote s data s' \<and> writable s'"
proof (induction s data t k rule: write_loop.induct)
  case (1 s data t k)
  obtain r s1 where send: "send_wait_loop s data = (r, s1)" by fastforce
  note res = send_wait_result [OF 1(4), of s k, unfolded send, simplified]
  from res 1(3) obtain n where n: "r = Some n" by (cases r) auto
  show ?case
  proof (cases "n \<le> 0")
    case True
    with res n 1(3) have s1: "wrote s [] s1" "k < MUPNP_NET_SOCKET_SEND_RETRY_CNT"
      "calm (nonblocking s1) (k + 1) (sendResults s1)" by (simp_all add: wrote_def)
    with 1(1) [OF send [symmetric] n True] 1(4) obtain s' where
      "write_loop s1 data t (k + 1) = (t + length data, s')" "wrote s1 data s'" "writable s'"
      by auto
    with send n True s1 wrote_trans [OF s1(1)] show ?thesis by (subst write_loop.simps) auto
  next
    case False
    with res n 1(3) have s1: "nat n \<le> length data" "wrote s (take (nat n) data) s1"
      "calm (nonblocking s1) 0 (sendResults s1)" by (simp_all add: wrote_def)
    show ?thesis
    proof (cases "drop (nat n) data = []")
      case True
      with send n s1 False show ?thesis
        by (subst write_loop.simps) (auto simp: Let_def writable_def)
    next
      case more: False
      with 1(2) [OF send [symmetric] n False refl] s1 obtain s' where s':
        "write_loop s1 (drop (nat n) data) (t + nat n) 0 = (t + nat n + length (drop (nat n) data), s')"
        "wrote s1 (drop (nat n) data) s'" "writable s'" by auto
      then have "wrote s data s'" using wrote_trans [OF s1(2)] by fastforce
      with send n s1 False more s' show ?thesis
        by (subst write_loop.simps) (auto simp: Let_def)
    qed
  qed
qed

lemma write_all:
  assumes "writable s"
  obtains s' where "mupnp_socket_write s b = (length b, s')" and "wrote s b s'" and "writable s'"
proof (cases "b = []")
  case True
  with assms that [of s] show thesis by (simp add: mupnp_socket_write_def wrote_refl)
next
  case False
  with write_loop_calm [of s 0 b 0] assms that show thesis
    by (auto simp: mupnp_socket_write_def writable_def)
qed

lemma write_loop_prefix:
  "data \<noteq> [] \<Longrightarrow>
   \<exists>p. prefix p data \<and> outstream (snd (write_loop s data t k)) = outstream s @ p \<and>
     fst (write_loop s data t k) \<in> {0, t + length data} \<and>
     (fst (write_loop s data t k) \<noteq> 0 \<longrightarrow> p = data)"
proof (induction s data t k rule: write_loop.induct)
  case (1 s data t k)
  obtain r s1 where send: "send_wait_loop s data = (r, s1)" by fastforce
  note res = send_wait_result [OF 1(3), of s k, unfolded send, simplified]
  show ?case
  proof (cases r)
    case None
    with send res show ?thesis by (subst (1 2 3) write_loop.simps) (simp add: wrote_def)
  next
    case (Some n)
    show ?thesis
    proof (cases "n \<le> 0")
      case True
      then have out: "outstream s1 = outstream s" using res Some by (simp add: wrote_def)
      show ?thesis
      proof (cases "MUPNP_NET_SOCKET_SEND_RETRY_CNT < k + 1")
        case True
        with send Some \<open>n \<le> 0\<close> out show ?thesis by (subst (1 2 3) write_loop.simps) auto
      next
        case False
        with send Some True 1(1) [OF send [symmetric] Some True False 1(3)] out show ?thesis
          by (subst (1 2 3) write_loop.simps) simp
      qed
    next
      case False
      then have out: "outstream s1 = outstream s @ take (nat n) data" "nat n \<le> length data"
        using res Some by (simp_all add: wrote_def)
      show ?thesis
      proof (cases "0 < length (drop (nat n) data)")
        case True
        then have "drop (nat n) data \<noteq> []" by simp
        from 1(2) [OF send [symmetric] Some False refl True this] obtain p where
          p: "prefix p (drop (nat n) data)" "outstream (snd (write_loop s1 (drop (nat n) data) (t + nat n) 0)) = outstream s1 @ p"
            "fst (write_loop s1 (drop (nat n) data) (t + nat n) 0) \<in> {0, t + nat n + length (drop (nat n) data)}"
            "fst (write_loop s1 (drop (nat n) data) (t + nat n) 0) \<noteq> 0 \<longrightarrow> p = drop (nat n) data"
          by blast
        have "prefix (take (nat n) data @ p) data"
          using p(1) by (metis append_take_drop_id same_prefix_prefix)
        with p send Some False out True show ?thesis
          by (subst (1 2 3) write_loop.simps) (auto intro!: exI [of _ "take (nat n) data @ p"])
      next
        case complete: False
        with send Some False out show ?thesis
          by (subst (1 2 3) write_loop.simps) (auto intro!: exI [of _ data])
      qed
    qed
  qed
qed

section \<open>Properties\<close>

text \<open>C15: \<open>mupnp_socket_readline\<close> ends, and its result depends on the bytes of the stream only,
  not on how the system delivers them: a line that fits into the buffer comes back with its
  line feed; of a longer line the first \<open>n - 1\<close> bytes come back and the rest is skipped up to
  its line feed; a connection that ends within a line is an error.  It never stores more than
  \<open>n - 1\<close> bytes.\<close>

theorem readline_spec:
  assumes "2 \<le> n"
  shows "\<exists>r line s'. mupnp_socket_readline s n = (r, line, s') \<and> length line \<le> n - 1 \<and>
     (let l = first_line (instream s) in
      if n - 1 \<le> length l then
        r = int n - 1 \<and> line = take (n - 1) l \<and> instream s' = drop (length l + 1) (instream s)
      else if LF \<in> set (instream s) then
        r = int (length line) \<and> line = l @ [LF] \<and> instream s = line @ instream s'
      else r = - 1 \<and> line = instream s \<and> instream s' = [])"
proof -
  have split: "LF \<in> set b \<Longrightarrow> first_line b @ LF # drop (length (first_line b) + 1) b = b" for b
    by (induction b) auto
  have rest: "first_line (drop k b) = drop k (first_line b)" if "k \<le> length (first_line b)" for k b
    using that by (induction b arbitrary: k) (auto simp: drop_Cons split: nat.splits)
  have last: "take k (first_line b) = [] \<or> last (take k (first_line b)) \<noteq> LF" for k b
  proof -
    have "LF \<notin> set (take k (first_line b))" by (auto dest: in_set_takeD set_takeWhileD)
    then show ?thesis by (metis last_in_set)
  qed
  define l where "l = first_line (instream s)"
  have len: "length l \<le> length (instream s)" by (simp add: l_def length_takeWhile_le)
  consider (long) "n - 1 \<le> length l" | (line) "length l < n - 1" "LF \<in> set (instream s)"
    | (eof) "length l < n - 1" "LF \<notin> set (instream s)" by linarith
  then show ?thesis
  proof cases
    case long
    have "first_line (drop (n - 1) (instream s)) = drop (n - 1) l"
      using rest long by (simp add: l_def)
    moreover have "drop (min k m) (xs :: buffer) = drop k xs" if "m = length xs" for k m xs
      using that by (auto simp: min_def)
    moreover have "last (take (n - 1) l) \<noteq> LF" "take (n - 1) l \<noteq> []"
      using last [of "n - 1" "instream s"] long assms by (auto simp: l_def)
    ultimately have "mupnp_socket_readline s n =
        (int n - 1, take (n - 1) l, sadv (n - 1 + min (length l - (n - 1) + 1) (length (instream s) - (n - 1))) s)"
      using long assms by (simp add: mupnp_socket_readline_def readline_loop_correct skipline_loop_correct Let_def flip: l_def)
    moreover have "drop (n - 1 + min (length l - (n - 1) + 1) (length (instream s) - (n - 1))) (instream s)
        = drop (length l + 1) (instream s)"
      using long len by (cases "length l = length (instream s)") (simp_all add: min_def)
    ultimately show ?thesis using long by (simp add: Let_def flip: l_def)
  next
    case line
    have "instream s = l @ LF # drop (length l + 1) (instream s)"
      using split [OF line(2)] by (simp add: l_def)
    moreover have "LF \<notin> set l" by (auto simp: l_def dest: set_takeWhileD)
    ultimately have "mupnp_socket_readline s n = (int (length l) + 1, l @ [LF], sadv (length l + 1) s)"
      using line by (intro readline_complete) auto
    with line split [OF line(2)] show ?thesis by (simp add: Let_def flip: l_def)
  next
    case eof
    have "l = instream s" using first_line_all eof by (simp add: l_def)
    with eof have "mupnp_socket_readline s n = (- 1, l, sadv (length l) s)"
      by (simp add: mupnp_socket_readline_def readline_loop_correct Let_def flip: l_def)
    with eof \<open>l = instream s\<close> show ?thesis by (simp add: Let_def flip: l_def)
  qed
qed

theorem readline_spec_witness:
  "\<exists>line s'. mupnp_socket_readline
      \<lparr>instream = ''ab'' @ [CR, LF] @ ''c'', recvSizes = [], recvFails = False, nonblocking = False, sendResults = [], outstream = []\<rparr> 512
     = (4, line, s') \<and> line = ''ab'' @ [CR, LF] \<and> instream s' = ''c''"
  using readline_spec [of 512 "\<lparr>instream = ''ab'' @ [CR, LF] @ ''c'', recvSizes = [], recvFails = False, nonblocking = False, sendResults = [], outstream = []\<rparr>"]
  by (auto simp: Let_def)



end
