(* ===== verification/Tokenizer.thy ===== *)
theory Tokenizer
  imports StringFunction Interfaces
begin

section \<open>The string tokenizer (src/mupnp/util/string_tokenizer.c)\<close>

text \<open>
  The tokenizer owns a copy of the text and writes NULs into it: a token it returns is a
  pointer into that buffer, modelled as an offset; the text of a token is the C string at the
  offset.  The tokenizer always holds one token of lookahead.  \<open>tok_rep st r\<close> relates a state
  to the text \<open>r\<close> on which the lookahead was taken; each operation is shown to be an operation
  on \<open>r\<close>, and the client loop \<open>while (hasmoretoken) nexttoken\<close> to return exactly the
  maximal runs of non-delimiters.

  Allocation is taken to succeed, as in all theories above the strings.
\<close>

record mUpnpStringTokenizer =
  tvalue :: "buffer option"
  delim :: charptr
  delimCnt :: nat
  nextStartPos :: nat
  lastPos :: nat
  currToken :: "nat option"
  nextToken :: "nat option"
  repToken :: char
  hasNextTokens :: bool

definition tok_buf :: "mUpnpStringTokenizer \<Rightarrow> buffer" where
  "tok_buf st = (case tvalue st of None \<Rightarrow> [] | Some b \<Rightarrow> b)"

text \<open>The inner loop over the delimiters, at position \<open>i\<close>.\<close>

fun tok_delims ::
    "mUpnpStringTokenizer \<Rightarrow> nat \<Rightarrow> nat \<Rightarrow> char list \<Rightarrow> bool \<Rightarrow> mUpnpStringTokenizer \<times> bool" where
  "tok_delims st i tokenCnt [] isDelimChar = (st, isDelimChar)"
| "tok_delims st i tokenCnt (d # ds) isDelimChar =
     (if tok_buf st ! i = d then
        if tokenCnt = 0 then (st\<lparr>nextStartPos := i + 1\<rparr>, True)
        else tok_delims
          (st\<lparr>hasNextTokens := True, repToken := tok_buf st ! i,
              tvalue := Some ((tok_buf st)[i := NUL]),
              nextToken := Some (nextStartPos st), nextStartPos := i + 1\<rparr>)
          i tokenCnt ds True
      else tok_delims st i tokenCnt ds isDelimChar)"

lemma tok_delims_fixed:
  "lastPos (fst (tok_delims st i n ds f)) = lastPos st"
  "delim (fst (tok_delims st i n ds f)) = delim st"
  "delimCnt (fst (tok_delims st i n ds f)) = delimCnt st"
  "currToken (fst (tok_delims st i n ds f)) = currToken st"
  by (induction st i n ds f rule: tok_delims.induct) auto

lemma tok_delims_lastPos: "tok_delims st i n ds f = (st', d) \<Longrightarrow> lastPos st' = lastPos st"
  using tok_delims_fixed(1) [of st i n ds f] by simp

text \<open>The outer loop; the result is the state and \<open>tokenCnt\<close>.\<close>

function tok_scan :: "mUpnpStringTokenizer \<Rightarrow> nat \<Rightarrow> nat \<Rightarrow> mUpnpStringTokenizer \<times> nat" where
  "tok_scan st i tokenCnt =
     (if i \<le> lastPos st then
        (case tok_delims st i tokenCnt (take (delimCnt st) (str_bytes (delim st))) False of
           (st', isDelimChar) \<Rightarrow>
             if hasNextTokens st' then (st', tokenCnt)
             else tok_scan st' (i + 1) (if isDelimChar then tokenCnt else tokenCnt + 1))
      else (st, tokenCnt))"
  by pat_completeness auto
termination
  by (relation "measure (\<lambda>(st, i, tokenCnt). lastPos st + 1 - i)")
    (auto dest: tok_delims_lastPos tok_delims_lastPos [OF sym])

declare tok_scan.simps [simp del]

definition mupnp_string_tokenizer_nexttoken ::
    "mUpnpStringTokenizer \<Rightarrow> mUpnpStringTokenizer \<times> nat option" where
  "mupnp_string_tokenizer_nexttoken st =
     (let st = st\<lparr>currToken := nextToken st, nextToken := None, hasNextTokens := False,
                  repToken := NUL\<rparr>
      in case tok_scan st (nextStartPos st) 0 of
           (st, tokenCnt) \<Rightarrow>
             let st = (if \<not> hasNextTokens st \<and> 0 < tokenCnt
                       then st\<lparr>hasNextTokens := True, nextToken := Some (nextStartPos st),
                               nextStartPos := lastPos st + 1\<rparr>
                       else st)
             in (st, currToken st))"

definition mupnp_string_tokenizer_new :: "charptr \<Rightarrow> charptr \<Rightarrow> mUpnpStringTokenizer" where
  "mupnp_string_tokenizer_new v d =
     (let valueLen = mupnp_strlen v;
          st = \<lparr>tvalue = map_option (\<lambda>s. s @ [NUL]) (mupnp_strdup v), delim = mupnp_strdup d,
                delimCnt = mupnp_strlen d, nextStartPos = 0,
                lastPos = (if valueLen = 0 then 0 else valueLen - 1),
                currToken = None, nextToken = None, repToken = NUL, hasNextTokens = False\<rparr>
      in if valueLen > 0 then fst (mupnp_string_tokenizer_nexttoken st) else st)"

definition mupnp_string_tokenizer_hasmoretoken :: "mUpnpStringTokenizer \<Rightarrow> bool" where
  "mupnp_string_tokenizer_hasmoretoken st = hasNextTokens st"

text \<open>\<open>None\<close> when there is no token: the code then writes through NULL.\<close>

definition mupnp_string_tokenizer_nextalltoken ::
    "mUpnpStringTokenizer \<Rightarrow> (mUpnpStringTokenizer \<times> nat option) option" where
  "mupnp_string_tokenizer_nextalltoken st =
     (case nextToken st of None \<Rightarrow> None
      | Some p \<Rightarrow>
          let nextTokenLen = length (cstr (drop p (tok_buf st)));
              st = st\<lparr>tvalue := Some ((tok_buf st)[p + nextTokenLen := repToken st]),
                      currToken := Some p, nextToken := None, hasNextTokens := False\<rparr>
          in Some (st, currToken st))"

definition token_text :: "mUpnpStringTokenizer \<Rightarrow> nat option \<Rightarrow> charptr" where
  "token_text st p = map_option (\<lambda>p. cstr (drop p (tok_buf st))) p"

text \<open>The loop of the clients: the texts of the tokens, in order.\<close>

partial_function (option) tok_collect :: "mUpnpStringTokenizer \<Rightarrow> charptr list option" where
  "tok_collect st =
     (if mupnp_string_tokenizer_hasmoretoken st then
        (case mupnp_string_tokenizer_nexttoken st of
           (st', p) \<Rightarrow> do { ts \<leftarrow> tok_collect st'; Some (token_text st' p # ts) })
      else Some [])"

section \<open>Specification\<close>

abbreviation skip_delims :: "char set \<Rightarrow> string \<Rightarrow> string" where
  "skip_delims D \<equiv> dropWhile (\<lambda>c. c \<in> D)"

abbreviation word_of :: "char set \<Rightarrow> string \<Rightarrow> string" where
  "word_of D \<equiv> takeWhile (\<lambda>c. c \<notin> D)"

abbreviation after_word :: "char set \<Rightarrow> string \<Rightarrow> string" where
  "after_word D \<equiv> dropWhile (\<lambda>c. c \<notin> D)"

lemma length_tl_after_word:
  assumes "skip_delims D s \<noteq> []"
  shows "length (tl (after_word D (skip_delims D s))) < length s"
proof -
  have "length (after_word D (skip_delims D s)) \<le> length s"
    using length_dropWhile_le order_trans by blast
  moreover have "0 < length s" using assms by auto
  ultimately show ?thesis unfolding length_tl by linarith
qed

function tokens :: "char set \<Rightarrow> string \<Rightarrow> string list" where
  "tokens D s =
     (let q = skip_delims D s in
      if q = [] then [] else word_of D q # tokens D (tl (after_word D q)))"
  by pat_completeness auto
termination
  by (relation "measure (length \<circ> snd)") (use length_tl_after_word in simp_all)

declare tokens.simps [simp del]

lemma tokens_simps:
  "skip_delims D s = [] \<Longrightarrow> tokens D s = []"
  "skip_delims D s \<noteq> [] \<Longrightarrow>
     tokens D s = word_of D (skip_delims D s) # tokens D (tl (after_word D (skip_delims D s)))"
  by (subst tokens.simps, simp add: Let_def)+

lemma after_word_tl: "filter (\<lambda>c. c \<notin> D) (after_word D s) = filter (\<lambda>c. c \<notin> D) (tl (after_word D s))"
  by (induction s) auto

lemma filter_word: "filter (\<lambda>c. c \<notin> D) s = word_of D s @ filter (\<lambda>c. c \<notin> D) (tl (after_word D s))"
  by (induction s) auto

lemma filter_skip: "filter (\<lambda>c. c \<notin> D) (skip_delims D s) = filter (\<lambda>c. c \<notin> D) s"
  by (induction s) auto

lemma tokens_concat: "concat (tokens D s) = filter (\<lambda>c. c \<notin> D) s"
proof (induction D s rule: tokens.induct)
  case (1 D s)
  show ?case
  proof (cases "skip_delims D s = []")
    case True
    then have "filter (\<lambda>c. c \<notin> D) s = []" using filter_skip [of D s] by simp
    with True show ?thesis by (simp add: tokens_simps)
  next
    case False
    with 1 show ?thesis
      using filter_word [of D "skip_delims D s"] filter_skip [of D s] by (simp add: tokens_simps)
  qed
qed

lemma tokens_words: "t \<in> set (tokens D s) \<Longrightarrow> t \<noteq> [] \<and> set t \<inter> D = {}"
proof (induction D s rule: tokens.induct)
  case (1 D s)
  show ?case
  proof (cases "skip_delims D s = []")
    case True
    with 1(2) show ?thesis by (simp add: tokens_simps)
  next
    case False
    then have "hd (skip_delims D s) \<notin> D" by (rule hd_dropWhile)
    then have "word_of D (skip_delims D s) \<noteq> []" using False by (metis takeWhile_eq_Nil_iff)
    moreover have "set (word_of D (skip_delims D s)) \<inter> D = {}" by (auto dest: set_takeWhileD)
    ultimately show ?thesis using 1 False by (auto simp: tokens_simps)
  qed
qed

section \<open>The loops\<close>

definition tok_set :: "mUpnpStringTokenizer \<Rightarrow> char set" where
  "tok_set st = set (take (delimCnt st) (str_bytes (delim st)))"

definition found_state :: "mUpnpStringTokenizer \<Rightarrow> nat \<Rightarrow> mUpnpStringTokenizer" where
  "found_state st i =
     st\<lparr>hasNextTokens := True, repToken := tok_buf st ! i, tvalue := Some ((tok_buf st)[i := NUL]),
        nextToken := Some (nextStartPos st), nextStartPos := i + 1\<rparr>"

lemma tok_delims_miss: "tok_buf st ! i \<notin> set ds \<Longrightarrow> tok_delims st i n ds f = (st, f)"
  by (induction ds) auto

lemma tok_delims_skip:
  "tok_buf st ! i \<in> set ds \<Longrightarrow> tok_delims st i 0 ds f = (st\<lparr>nextStartPos := i + 1\<rparr>, True)"
  by (induction ds) auto

lemma tok_delims_hit:
  assumes "tok_buf st ! i \<in> set ds" and "NUL \<notin> set ds" and "0 < n" and "i < length (tok_buf st)"
  shows "tok_delims st i n ds f = (found_state st i, True)"
  using assms
proof (induction ds)
  case (Cons d ds)
  show ?case
  proof (cases "tok_buf st ! i = d")
    case True
    have "tok_buf (found_state st i) ! i = NUL"
      using Cons.prems by (simp add: found_state_def tok_buf_def)
    then have "tok_delims (found_state st i) i n ds True = (found_state st i, True)"
      using Cons.prems by (intro tok_delims_miss) auto
    with True Cons.prems show ?thesis by (simp add: found_state_def)
  next
    case False
    with Cons show ?thesis by auto
  qed
qed simp

text \<open>
  The scan from position \<open>i\<close>, with \<open>w\<close> the non-delimiters seen since \<open>nextStartPos\<close> and \<open>u\<close>
  the text ahead.
\<close>

definition scan_result ::
    "mUpnpStringTokenizer \<Rightarrow> nat \<Rightarrow> string \<Rightarrow> string \<Rightarrow> mUpnpStringTokenizer \<times> nat" where
  "scan_result st n w u =
     (let D = tok_set st;
          ds = (if w = [] then takeWhile (\<lambda>c. c \<in> D) u else []);
          x = w @ word_of D (drop (length ds) u);
          y = after_word D (drop (length ds) u);
          st1 = st\<lparr>nextStartPos := n + length ds\<rparr>
      in if x = [] \<or> y = [] then (st1, length x)
         else (found_state st1 (n + length ds + length x), length x))"

lemma scan_result_Nil: "nextStartPos st = n \<Longrightarrow> scan_result st n w [] = (st, length w)"
  by (cases st) (simp add: scan_result_def Let_def)

lemma scan_result_miss: "c \<notin> tok_set st \<Longrightarrow> scan_result st n w (c # u) = scan_result st n (w @ [c]) u"
  by (cases "w = []") (simp_all add: scan_result_def Let_def)

lemma scan_result_hit:
  assumes "c \<in> tok_set st" and "w \<noteq> []" and "nextStartPos st = n"
  shows "scan_result st n w (c # u) = (found_state st (n + length w), length w)"
proof -
  have "st\<lparr>nextStartPos := n\<rparr> = st" using assms(3) by (cases st) simp
  with assms(1,2) show ?thesis by (simp add: scan_result_def Let_def)
qed

lemma tok_set_start [simp]: "tok_set (st\<lparr>nextStartPos := k\<rparr>) = tok_set st"
  by (simp add: tok_set_def)

lemma scan_result_skip:
  assumes "c \<in> tok_set st"
  shows "scan_result st n [] (c # u) = scan_result (st\<lparr>nextStartPos := Suc n\<rparr>) (Suc n) [] u"
proof -
  have upd: "st\<lparr>nextStartPos := Suc n\<rparr>\<lparr>nextStartPos := k\<rparr> = st\<lparr>nextStartPos := k\<rparr>" for k
    by simp
  from assms show ?thesis
    by (simp only: scan_result_def Let_def tok_set_start upd takeWhile.simps(2) if_True list.size(4)
        drop_Suc_Cons add_Suc_right add_Suc One_nat_def add_0_right simp_thms)
qed

lemma tok_scan_text:
  assumes "tok_buf st = a @ w @ u @ [NUL]" and "nextStartPos st = length a"
    and "set w \<inter> tok_set st = {}" and "NUL \<notin> tok_set st" and "\<not> hasNextTokens st"
    and "length (tok_buf st) = lastPos st + 2"
  shows "tok_scan st (length a + length w) (length w) = scan_result st (length a) w u"
  using assms
proof (induction u arbitrary: st a w)
  case Nil
  then have "\<not> length a + length w \<le> lastPos st" by simp
  then show ?case using Nil by (simp add: tok_scan.simps scan_result_Nil)
next
  case (Cons c u)
  let ?D = "tok_set st" and ?i = "length a + length w"
  have i: "?i \<le> lastPos st" "?i < length (tok_buf st)" and c: "tok_buf st ! ?i = c"
    using Cons.prems by (simp_all add: nth_append)
  consider (miss) "c \<notin> ?D" | (skip) "c \<in> ?D" "w = []" | (hit) "c \<in> ?D" "w \<noteq> []" by blast
  then show ?case
  proof cases
    case miss
    then have "tok_scan st ?i (length w) = tok_scan st (length a + length (w @ [c])) (length (w @ [c]))"
      using i c Cons.prems(5)
      by (subst tok_scan.simps) (simp add: tok_delims_miss tok_set_def)
    with Cons.IH [of st a "w @ [c]"] Cons.prems miss show ?thesis by (simp add: scan_result_miss)
  next
    case skip
    define st' where "st' = st\<lparr>nextStartPos := Suc (length a)\<rparr>"
    have same: "tok_set st' = ?D" "tok_buf st' = tok_buf st" "hasNextTokens st' = hasNextTokens st"
      "lastPos st' = lastPos st" "nextStartPos st' = length (a @ [c])"
      by (simp_all add: st'_def tok_set_def tok_buf_def)
    have "tok_scan st ?i (length w) = tok_scan st' (Suc (length a)) 0"
      using i c skip Cons.prems(5)
      by (subst tok_scan.simps) (simp add: tok_delims_skip tok_set_def st'_def)
    also have "\<dots> = scan_result st' (length (a @ [c])) [] u"
      using Cons.IH [of st' "a @ [c]" "[]"] Cons.prems skip same by simp
    finally show ?thesis using skip by (simp add: scan_result_skip st'_def)
  next
    case hit
    then have "tok_scan st ?i (length w) = (found_state st ?i, length w)"
      using i c Cons.prems(4)
      by (subst tok_scan.simps) (simp add: tok_delims_hit tok_set_def found_state_def)
    with hit Cons.prems(2) show ?thesis by (simp add: scan_result_hit)
  qed
qed

section \<open>Simulation\<close>

definition tok_lookahead :: "mUpnpStringTokenizer \<Rightarrow> mUpnpStringTokenizer" where
  "tok_lookahead st =
     (case tok_scan st (nextStartPos st) 0 of
        (st, tokenCnt) \<Rightarrow>
          if \<not> hasNextTokens st \<and> 0 < tokenCnt
          then st\<lparr>hasNextTokens := True, nextToken := Some (nextStartPos st),
                  nextStartPos := lastPos st + 1\<rparr>
          else st)"

lemma tok_scan_lastPos: "tok_scan st i n = (st', k) \<Longrightarrow> lastPos st' = lastPos st"
proof (induction st i n arbitrary: st' k rule: tok_scan.induct)
  case (1 st i n)
  obtain st1 d where st1: "tok_delims st i n (take (delimCnt st) (str_bytes (delim st))) False = (st1, d)"
    by (cases "tok_delims st i n (take (delimCnt st) (str_bytes (delim st))) False")
  note 1(1) [OF _ st1 [symmetric]]
  with 1(2) st1 tok_delims_lastPos [OF st1] show ?case
    by (subst (asm) tok_scan.simps) (auto split: if_splits)
qed

lemma nexttoken_lookahead:
  "mupnp_string_tokenizer_nexttoken st =
     (let st' = tok_lookahead (st\<lparr>currToken := nextToken st, nextToken := None,
                                 hasNextTokens := False, repToken := NUL\<rparr>)
      in (st', currToken st'))"
  by (simp add: mupnp_string_tokenizer_nexttoken_def tok_lookahead_def Let_def split: prod.split)

definition tok_rep :: "mUpnpStringTokenizer \<Rightarrow> string \<Rightarrow> bool" where
  "tok_rep st r \<longleftrightarrow>
     (let D = tok_set st; q = skip_delims D r; t = word_of D q; y = after_word D q in
      NUL \<notin> D \<and> nul_free r \<and> length (tok_buf st) = lastPos st + 2 \<and>
      (if q = [] then
         nextToken st = None \<and> \<not> hasNextTokens st \<and> nextStartPos st = lastPos st + 1
       else
         hasNextTokens st \<and> repToken st = (if y = [] then NUL else hd y) \<and>
         (\<exists>a. nextToken st = Some (length a) \<and>
              tok_buf st = a @ t @ NUL # (if y = [] then [] else tl y @ [NUL]) \<and>
              nextStartPos st = length (a @ t) + (if y = [] then 0 else 1))))"

lemma tok_lookahead_rep:
  assumes buf: "tok_buf st = a @ r @ [NUL]" and pos: "nextStartPos st = length a"
    and D: "NUL \<notin> tok_set st" and r: "nul_free r"
    and st: "\<not> hasNextTokens st" "nextToken st = None" "repToken st = NUL"
    and len: "length (tok_buf st) = lastPos st + 2"
  shows "tok_rep (tok_lookahead st) r"
    and "\<exists>z. tok_buf (tok_lookahead st) = a @ z @ [NUL]"
    and "currToken (tok_lookahead st) = currToken st"
    and "tok_set (tok_lookahead st) = tok_set st"
    and "\<forall>j. nextToken (tok_lookahead st) = Some j \<longrightarrow> length a \<le> j"
proof -
  define D where "D = tok_set st"
  define ds where "ds = takeWhile (\<lambda>c. c \<in> D) r"
  define q where "q = skip_delims D r"
  define t where "t = word_of D q"
  define y where "y = after_word D q"
  define n where "n = length a + length ds"
  have r_split: "ds @ t @ y = r" by (simp add: ds_def t_def y_def q_def)
  have q_drop: "drop (length ds) r = q" by (simp add: dropWhile_eq_drop_length q_def ds_def)
  have tq: "t = [] \<longleftrightarrow> q = []" unfolding t_def q_def by (metis hd_dropWhile takeWhile_eq_Nil_iff)
  have qy: "q = [] \<Longrightarrow> y = []" by (simp add: y_def)
  note rep = tok_rep_def Let_def
  note folds = D_def [symmetric] q_def [symmetric] t_def [symmetric] y_def [symmetric]
  have scan: "tok_scan st (nextStartPos st) 0 =
      (if q = [] \<or> y = [] then (st\<lparr>nextStartPos := n\<rparr>, length t)
       else (found_state (st\<lparr>nextStartPos := n\<rparr>) (n + length t), length t))"
  proof -
    have "tok_scan st (nextStartPos st) 0 = scan_result st (length a) [] r"
      using tok_scan_text [of st a "[]" r] buf pos D st len by simp
    then show ?thesis
      unfolding scan_result_def Let_def if_True append_Nil D_def [symmetric] ds_def [symmetric]
        q_drop folds n_def
      by (simp only: simp_thms if_True folds q_drop append_Nil tq ds_def [symmetric])
  qed
  have buf2: "tok_buf st = (a @ ds) @ t @ y @ [NUL]"
    by (simp add: buf flip: r_split)
  have n: "n = length (a @ ds)" by (simp add: n_def)
  have set_eq: "tok_set (tok_lookahead st) = D" and cur: "currToken (tok_lookahead st) = currToken st"
    by (simp_all add: tok_lookahead_def scan found_state_def D_def tok_set_def)
  then show "tok_set (tok_lookahead st) = tok_set st" "currToken (tok_lookahead st) = currToken st"
    by (simp_all add: D_def)
  consider (none) "q = []" | (rest) "q \<noteq> []" "y = []" | (found) "q \<noteq> []" "y \<noteq> []" by blast
  then have "tok_rep (tok_lookahead st) r \<and> (\<exists>z. tok_buf (tok_lookahead st) = a @ z @ [NUL]) \<and>
      (\<forall>j. nextToken (tok_lookahead st) = Some j \<longrightarrow> length a \<le> j)"
  proof cases
    case none
    then have "ds = r" "t = []" using r_split tq qy by auto
    then have "tok_lookahead st = st\<lparr>nextStartPos := lastPos st + 1\<rparr>"
      using none st len buf by (simp add: tok_lookahead_def scan n_def)
    then show ?thesis
      using none D r len st buf unfolding rep set_eq folds
      by (simp add: tok_buf_def D_def)
  next
    case rest
    have ls: "tok_lookahead st = st\<lparr>nextStartPos := lastPos st + 1, hasNextTokens := True, nextToken := Some n\<rparr>"
      using rest st tq by (simp add: tok_lookahead_def scan)
    have eq: "tok_buf (tok_lookahead st) = tok_buf st" by (simp add: ls tok_buf_def)
    have "lastPos st + 1 = length ((a @ ds) @ t)" using len buf2 rest by simp
    then show ?thesis
      using rest D r len st buf2 buf n unfolding rep set_eq folds eq
      by (simp add: ls D_def)
  next
    case found
    have ls: "tok_lookahead st = found_state (st\<lparr>nextStartPos := n\<rparr>) (n + length t)"
      using found by (simp add: tok_lookahead_def scan found_state_def)
    have c: "tok_buf st ! (n + length t) = hd y"
      using found by (subst buf2) (simp add: n nth_append hd_conv_nth)
    have "(tok_buf st)[n + length t := NUL] = (a @ ds) @ t @ NUL # tl y @ [NUL]"
      using found by (subst buf2) (cases y, simp_all add: n list_update_append)
    then have eq: "tok_buf (tok_lookahead st) = (a @ ds) @ t @ NUL # tl y @ [NUL]"
      by (simp add: ls found_state_def tok_buf_def)
    have len': "length (tok_buf (tok_lookahead st)) = lastPos st + 2"
      using len by (simp add: ls found_state_def tok_buf_def)
    have fields: "hasNextTokens (tok_lookahead st)" "repToken (tok_lookahead st) = hd y"
      "nextToken (tok_lookahead st) = Some (length (a @ ds))"
      "nextStartPos (tok_lookahead st) = length ((a @ ds) @ t) + 1" "lastPos (tok_lookahead st) = lastPos st"
      using c n by (simp_all add: ls found_state_def tok_buf_def)
    have "tok_rep (tok_lookahead st) r"
      unfolding rep set_eq folds fields len' using found D r
      by (auto simp: D_def eq fields(1) simp del: length_append intro!: exI [of _ "a @ ds"])
    moreover have "\<exists>z. tok_buf (tok_lookahead st) = a @ z @ [NUL]"
      using eq by auto
    ultimately show ?thesis using fields(3) by simp
  qed
  then show "tok_rep (tok_lookahead st) r" "\<exists>z. tok_buf (tok_lookahead st) = a @ z @ [NUL]"
    "\<forall>j. nextToken (tok_lookahead st) = Some j \<longrightarrow> length a \<le> j" by auto
qed

text \<open>Each operation on a tokenizer over \<open>r\<close> is an operation on \<open>r\<close>.\<close>

lemma hasmoretoken_rep: "tok_rep st r \<Longrightarrow> mupnp_string_tokenizer_hasmoretoken st \<longleftrightarrow> skip_delims (tok_set st) r \<noteq> []"
  by (auto simp: tok_rep_def Let_def mupnp_string_tokenizer_hasmoretoken_def split: if_splits)

lemma nul_free_dropWhile: "nul_free s \<Longrightarrow> nul_free (dropWhile P s)"
  by (auto simp: nul_free_def dest: set_dropWhileD)

lemma nul_free_takeWhile: "nul_free s \<Longrightarrow> nul_free (takeWhile P s)"
  by (auto simp: nul_free_def dest: set_takeWhileD)

lemma nul_free_tl: "nul_free s \<Longrightarrow> nul_free (tl s)"
  by (cases s) auto

lemma nexttoken_rep:
  assumes rep: "tok_rep st r" and q: "skip_delims (tok_set st) r \<noteq> []"
  obtains st' p where "mupnp_string_tokenizer_nexttoken st = (st', Some p)"
    and "tok_set st' = tok_set st"
    and "tok_rep st' (tl (after_word (tok_set st) (skip_delims (tok_set st) r)))"
    and "token_text st' (Some p) = Some (word_of (tok_set st) (skip_delims (tok_set st) r))"
    and "\<forall>j. nextToken st' = Some j \<longrightarrow> p + length (word_of (tok_set st) (skip_delims (tok_set st) r)) < j"
proof -
  define q where "q = skip_delims (tok_set st) r"
  define t where "t = word_of (tok_set st) q"
  define y where "y = after_word (tok_set st) q"
  note folds = q_def [symmetric] t_def [symmetric] y_def [symmetric]
  from rep q obtain a where a: "nextToken st = Some (length a)"
      "tok_buf st = a @ t @ NUL # (if y = [] then [] else tl y @ [NUL])"
      "nextStartPos st = length (a @ t) + (if y = [] then 0 else 1)"
      "NUL \<notin> tok_set st" "nul_free r" "length (tok_buf st) = lastPos st + 2"
    unfolding tok_rep_def Let_def folds by auto
  let ?st = "st\<lparr>currToken := nextToken st, nextToken := None, hasNextTokens := False, repToken := NUL\<rparr>"
  define st' where "st' = tok_lookahead ?st"
  let ?a = "if y = [] then a @ t else a @ t @ [NUL]"
  have nf: "nul_free t" "nul_free (tl y)"
    using a(5) by (simp_all add: t_def y_def q_def nul_free_dropWhile nul_free_takeWhile nul_free_tl)
  have same: "tok_buf ?st = tok_buf st" "tok_set ?st = tok_set st"
    by (simp_all add: tok_buf_def tok_set_def)
  have "tok_buf ?st = ?a @ tl y @ [NUL]" "nextStartPos ?st = length ?a"
    using a same by auto
  from tok_lookahead_rep [OF this _ nf(2)] a same
  have st': "tok_rep st' (tl y)" "\<exists>z. tok_buf st' = ?a @ z @ [NUL]" "currToken st' = Some (length a)"
    "tok_set st' = tok_set st" "\<forall>j. nextToken st' = Some j \<longrightarrow> length ?a \<le> j"
    by (simp_all add: st'_def)
  have later: "p' + length t < j" if "nextToken st' = Some j" and "p' = length a" for p' j
  proof (cases "y = []")
    case True
    with st'(1) have "nextToken st' = None" by (simp add: tok_rep_def Let_def)
    with that show ?thesis by simp
  next
    case False
    with st'(5) that show ?thesis by auto
  qed
  have "cstr (drop (length a) (tok_buf st')) = t"
  proof (cases "y = []")
    case False
    with st'(2) nf(1) show ?thesis by auto
  next
    case True
    obtain z where z: "tok_buf st' = a @ t @ z @ [NUL]" using st'(2) True by auto
    have "length (tok_buf st') = lastPos st' + 2"
      using st'(1) by (auto simp: tok_rep_def Let_def)
    moreover have "lastPos st' = lastPos st"
      by (simp add: st'_def tok_lookahead_def tok_scan_lastPos split: prod.split) 
    ultimately have "length (tok_buf st') = length (tok_buf st)" using a(6) by simp
    moreover have "tok_buf st = a @ t @ [NUL]" using a(2) True by simp
    ultimately have "z = []" using z by simp
    with z nf(1) show ?thesis by simp
  qed
  then have "token_text st' (Some (length a)) = Some t" by (simp add: token_text_def)
  with st' later show thesis
    by (intro that [of st' "length a"])
      (simp_all add: nexttoken_lookahead Let_def folds flip: st'_def)
qed

lemma cstr_update_behind: "length (cstr b) < i \<Longrightarrow> cstr (b[i := c]) = cstr b"
proof (induction b arbitrary: i)
  case (Cons x b)
  then show ?case by (cases i) (auto simp: cstr_Cons split: if_splits)
qed simp

lemma nextToken_rep: "tok_rep st r \<Longrightarrow> skip_delims (tok_set st) r \<noteq> [] \<Longrightarrow> \<exists>j. nextToken st = Some j"
  unfolding tok_rep_def Let_def by (auto simp del: dropWhile_eq_Nil_conv)

text \<open>Taking all of the rest leaves the text of an earlier token alone.\<close>

lemma nextalltoken_earlier:
  assumes all: "mupnp_string_tokenizer_nextalltoken st = Some (st', q)" and "nextToken st = Some j"
    and t: "token_text st (Some p) = Some t" and j: "p + length t < j"
  shows "token_text st' (Some p) = Some t"
proof -
  let ?b = "tok_buf st"
  obtain k where "tok_buf st' = ?b[j + k := repToken st]"
    using assms(1,2) by (auto simp: mupnp_string_tokenizer_nextalltoken_def Let_def tok_buf_def)
  then have eq: "drop p (tok_buf st') = (drop p ?b)[j + k - p := repToken st]"
    using j by (simp add: drop_update_swap)
  with t j show ?thesis by (simp add: token_text_def cstr_update_behind)
qed

lemma nextalltoken_rep:
  assumes rep: "tok_rep st r" and q: "skip_delims (tok_set st) r \<noteq> []"
  obtains st' p where "mupnp_string_tokenizer_nextalltoken st = Some (st', Some p)"
    and "token_text st' (Some p) = Some (skip_delims (tok_set st) r)"
    and "\<not> mupnp_string_tokenizer_hasmoretoken st'"
proof -
  define q where "q = skip_delims (tok_set st) r"
  define t where "t = word_of (tok_set st) q"
  define y where "y = after_word (tok_set st) q"
  note folds = q_def [symmetric] t_def [symmetric] y_def [symmetric]
  from rep q obtain a where a: "nextToken st = Some (length a)"
      "tok_buf st = a @ t @ NUL # (if y = [] then [] else tl y @ [NUL])"
      "repToken st = (if y = [] then NUL else hd y)" "nul_free r"
    unfolding tok_rep_def Let_def folds by auto
  have q_split: "q = t @ y" by (simp add: t_def y_def)
  have nf: "nul_free t" "nul_free q"
    using a(4) by (simp_all add: t_def q_def nul_free_dropWhile nul_free_takeWhile)
  have "cstr (drop (length a) (tok_buf st)) = t" using a(2) nf by simp
  moreover have "(tok_buf st)[length a + length t := repToken st] = a @ q @ [NUL]"
    using a(2,3) by (cases y) (simp_all add: q_split list_update_append)
  ultimately show thesis
    using a(1) nf
    by (intro that [of "st\<lparr>tvalue := Some (a @ q @ [NUL]), currToken := Some (length a),
                            nextToken := None, hasNextTokens := False\<rparr>" "length a"])
      (simp_all add: mupnp_string_tokenizer_nextalltoken_def Let_def token_text_def tok_buf_def
        mupnp_string_tokenizer_hasmoretoken_def folds)
qed

lemma new_rep:
  assumes "s \<noteq> []" and "nul_free s" and "nul_free d"
  shows "tok_rep (mupnp_string_tokenizer_new (Some s) (Some d)) s"
    and "tok_set (mupnp_string_tokenizer_new (Some s) (Some d)) = set d"
proof -
  let ?st = "\<lparr>tvalue = Some (s @ [NUL]), delim = Some d, delimCnt = length d, nextStartPos = 0,
      lastPos = length s - 1, currToken = None, nextToken = None, repToken = NUL, hasNextTokens = False\<rparr>"
  have new: "mupnp_string_tokenizer_new (Some s) (Some d) = tok_lookahead ?st"
    using assms(1) by (simp add: mupnp_string_tokenizer_new_def Let_def nexttoken_lookahead)
  have set_eq: "tok_set ?st = set d" by (simp add: tok_set_def)
  have "tok_buf ?st = [] @ s @ [NUL]" and "nextStartPos ?st = length ([] :: string)"
    and "NUL \<notin> tok_set ?st" and "nul_free s" and "\<not> hasNextTokens ?st" and "nextToken ?st = None"
    and "repToken ?st = NUL" and "length (tok_buf ?st) = lastPos ?st + 2"
    using assms unfolding set_eq by (simp_all add: tok_buf_def nul_free_def)
  note look = tok_lookahead_rep [OF this]
  show "tok_rep (mupnp_string_tokenizer_new (Some s) (Some d)) s"
    unfolding new by (rule look(1))
  show "tok_set (mupnp_string_tokenizer_new (Some s) (Some d)) = set d"
    unfolding new set_eq [symmetric] by (rule look(4))
qed

lemma new_empty [simp]:
  "\<not> mupnp_string_tokenizer_hasmoretoken (mupnp_string_tokenizer_new None d)"
  "\<not> mupnp_string_tokenizer_hasmoretoken (mupnp_string_tokenizer_new (Some []) d)"
  by (simp_all add: mupnp_string_tokenizer_new_def mupnp_string_tokenizer_hasmoretoken_def)

lemma tok_collect_rep:
  "tok_rep st r \<Longrightarrow> tok_collect st = Some (map Some (tokens (tok_set st) r))"
proof (induction "length r" arbitrary: st r rule: less_induct)
  case less
  let ?D = "tok_set st" and ?q = "skip_delims (tok_set st) r"
  show ?case
  proof (cases "?q = []")
    case True
    with less.prems hasmoretoken_rep show ?thesis
      by (subst tok_collect.simps) (auto simp: tokens_simps)
  next
    case False
    with less.prems obtain st' p where st': "mupnp_string_tokenizer_nexttoken st = (st', Some p)"
        "tok_set st' = ?D" "tok_rep st' (tl (after_word ?D ?q))"
        "token_text st' (Some p) = Some (word_of ?D ?q)"
      by (rule nexttoken_rep)
    from less.hyps [OF length_tl_after_word [OF False] st'(3)] st' False less.prems show ?thesis
      by (subst tok_collect.simps) (simp add: hasmoretoken_rep tokens_simps)
  qed
qed

section \<open>Properties\<close>

text \<open>C18: the tokenizer loop \<open>while (hasmoretoken) nexttoken\<close> ends, and returns exactly the
  maximal runs of characters of the text that are not delimiters, in order; no token is empty
  or has a delimiter in it.\<close>

theorem tokenizer_splits:
  assumes "nul_free s" and "nul_free d"
  shows "tok_collect (mupnp_string_tokenizer_new (Some s) (Some d)) = Some (map Some (tokens (set d) s)) \<and>
      (\<forall>t \<in> set (tokens (set d) s). t \<noteq> [] \<and> set t \<inter> set d = {}) \<and>
      concat (tokens (set d) s) = filter (\<lambda>c. c \<notin> set d) s"
proof -
  have "tok_collect (mupnp_string_tokenizer_new (Some s) (Some d)) = Some (map Some (tokens (set d) s))"
  proof (cases "s = []")
    case True
    then show ?thesis by (subst tok_collect.simps) (simp add: tokens_simps)
  next
    case False
    with assms new_rep [of s d] tok_collect_rep show ?thesis by metis
  qed
  then show ?thesis using tokens_words [of _ "set d" s] tokens_concat [of "set d" s] by auto
qed

theorem tokenizer_splits_witness:
  "tok_collect (mupnp_string_tokenizer_new (Some ''GET  / HTTP'') (Some '' ''))
     = Some [Some ''GET'', Some ''/'', Some ''HTTP'']"
  using tokenizer_splits [of "''GET  / HTTP''" "'' ''"] by (simp add: tokens.simps)

end
