(* ===== verification/HttpPacket.thy ===== *)
theory HttpPacket
  imports HttpHeader Socket Tokenizer NetFunction MString
begin

section \<open>HTTP packets (src/mupnp/http/http_packet.c)\<close>

text \<open>
  The part that requests and responses share: the header list and the content.  Requests and
  responses extend the record, as the C structs start with the same members, so every
  operation works on both.  Reading goes through the socket of \<open>Socket\<close> line by line and
  byte by byte; a result \<open>None\<close> of a function that returns an option is an access outside
  a buffer.  The allocator is a parameter of \<open>read_exact\<close>, whose demand for memory is one of
  the properties; appending to the content is taken to succeed.
\<close>

record mUpnpHttpPacket =
  headerList :: mUpnpHttpHeaderList
  content :: charptr

definition MUPNP_HTTP_HEADERLINE_DELIM :: cstring where
  "MUPNP_HTTP_HEADERLINE_DELIM = [CR, LF, CHR '' '', CHR '':'']"

definition MUPNP_HTTP_CRLF :: cstring where "MUPNP_HTTP_CRLF = [CR, LF]"

definition MUPNP_HTTP_DEFAULT_PORT :: int where "MUPNP_HTTP_DEFAULT_PORT = 80"

definition MUPNP_NET_IPV6_ADDRSTRING_MAXSIZE :: nat where
  "MUPNP_NET_IPV6_ADDRSTRING_MAXSIZE = 1 + 8 * 4 + 1 * 7 + 1 + 1"

definition mupnp_http_packet_init :: "'a mUpnpHttpPacket_scheme \<Rightarrow> 'a mUpnpHttpPacket_scheme" where
  "mupnp_http_packet_init p = p\<lparr>headerList := mupnp_http_headerlist_new, content := None\<rparr>"

definition mupnp_http_packet_clear :: "'a mUpnpHttpPacket_scheme \<Rightarrow> 'a mUpnpHttpPacket_scheme" where
  "mupnp_http_packet_clear p = p\<lparr>headerList := [], content := None\<rparr>"

subsection \<open>Headers\<close>

definition mupnp_http_packet_setheadervalue ::
    "'a mUpnpHttpPacket_scheme \<Rightarrow> charptr \<Rightarrow> charptr \<Rightarrow> 'a mUpnpHttpPacket_scheme" where
  "mupnp_http_packet_setheadervalue p name v = p\<lparr>headerList := mupnp_http_headerlist_set (headerList p) name v\<rparr>"

definition mupnp_http_packet_setheaderinteger ::
    "'a mUpnpHttpPacket_scheme \<Rightarrow> charptr \<Rightarrow> int \<Rightarrow> 'a mUpnpHttpPacket_scheme" where
  "mupnp_http_packet_setheaderinteger p name v =
     mupnp_http_packet_setheadervalue p name (Some (mupnp_int2str v MUPNP_STRING_INTEGER_BUFLEN))"

definition mupnp_http_packet_setheaderlong ::
    "'a mUpnpHttpPacket_scheme \<Rightarrow> charptr \<Rightarrow> int \<Rightarrow> 'a mUpnpHttpPacket_scheme" where
  "mupnp_http_packet_setheaderlong p name v =
     mupnp_http_packet_setheadervalue p name (Some (mupnp_long2str v MUPNP_STRING_LONG_BUFLEN))"

definition mupnp_http_packet_setheadersizet ::
    "'a mUpnpHttpPacket_scheme \<Rightarrow> charptr \<Rightarrow> 64 word \<Rightarrow> 'a mUpnpHttpPacket_scheme" where
  "mupnp_http_packet_setheadersizet p name v =
     mupnp_http_packet_setheadervalue p name (Some (mupnp_sizet2str v MUPNP_STRING_LONG_BUFLEN))"

definition mupnp_http_packet_setheaderssizet ::
    "'a mUpnpHttpPacket_scheme \<Rightarrow> charptr \<Rightarrow> int \<Rightarrow> 'a mUpnpHttpPacket_scheme" where
  "mupnp_http_packet_setheaderssizet p name v =
     mupnp_http_packet_setheadervalue p name (Some (mupnp_ssizet2str v MUPNP_STRING_LONG_BUFLEN))"

definition mupnp_http_packet_getheadervalue :: "'a mUpnpHttpPacket_scheme \<Rightarrow> charptr \<Rightarrow> charptr" where
  "mupnp_http_packet_getheadervalue p name = mupnp_http_headerlist_getvalue (headerList p) name"

definition mupnp_http_packet_getheaderinteger :: "'a mUpnpHttpPacket_scheme \<Rightarrow> charptr \<Rightarrow> int" where
  "mupnp_http_packet_getheaderinteger p name =
     (case mupnp_http_packet_getheadervalue p name of Some v \<Rightarrow> c_atoi v | None \<Rightarrow> 0)"

definition mupnp_http_packet_getheaderlong :: "'a mUpnpHttpPacket_scheme \<Rightarrow> charptr \<Rightarrow> int" where
  "mupnp_http_packet_getheaderlong p name =
     (case mupnp_http_packet_getheadervalue p name of Some v \<Rightarrow> c_atol v | None \<Rightarrow> 0)"

definition mupnp_http_packet_getheadersizet :: "'a mUpnpHttpPacket_scheme \<Rightarrow> charptr \<Rightarrow> 64 word" where
  "mupnp_http_packet_getheadersizet p name =
     (case mupnp_http_packet_getheadervalue p name of Some v \<Rightarrow> word_of_int (c_atol v) | None \<Rightarrow> 0)"

definition mupnp_http_packet_getheaderssizet :: "'a mUpnpHttpPacket_scheme \<Rightarrow> charptr \<Rightarrow> int" where
  "mupnp_http_packet_getheaderssizet p name =
     (case mupnp_http_packet_getheadervalue p name of Some v \<Rightarrow> c_atol v | None \<Rightarrow> 0)"

definition mupnp_http_packet_hasheader :: "'a mUpnpHttpPacket_scheme \<Rightarrow> charptr \<Rightarrow> bool" where
  "mupnp_http_packet_hasheader p name = (if mupnp_http_headerlist_get (headerList p) name \<noteq> None then True else False)"

definition mupnp_http_packet_setcontentlength :: "'a mUpnpHttpPacket_scheme \<Rightarrow> int \<Rightarrow> 'a mUpnpHttpPacket_scheme" where
  "mupnp_http_packet_setcontentlength p v = mupnp_http_packet_setheaderssizet p (Some ''Content-Length'') v"

definition mupnp_http_packet_getcontentlength :: "'a mUpnpHttpPacket_scheme \<Rightarrow> int" where
  "mupnp_http_packet_getcontentlength p = mupnp_http_packet_getheaderssizet p (Some ''Content-Length'')"

definition mupnp_http_packet_ischunked :: "'a mUpnpHttpPacket_scheme \<Rightarrow> bool" where
  "mupnp_http_packet_ischunked p =
     mupnp_strcaseeq (mupnp_http_packet_getheadervalue p (Some ''Transfer-Encoding'')) (Some ''Chunked'')"

definition mupnp_http_packet_iskeepaliveconnection :: "'a mUpnpHttpPacket_scheme \<Rightarrow> bool" where
  "mupnp_http_packet_iskeepaliveconnection p =
     (mupnp_strcaseeq (mupnp_http_packet_getheadervalue p (Some ''Connection'')) (Some ''close'') = False)"

definition mupnp_http_packet_addheader ::
    "'a mUpnpHttpPacket_scheme \<Rightarrow> mUpnpHttpHeader \<Rightarrow> 'a mUpnpHttpPacket_scheme" where
  "mupnp_http_packet_addheader p h = p\<lparr>headerList := mupnp_http_headerlist_add (headerList p) h\<rparr>"

definition mupnp_http_packet_sethost ::
    "'a mUpnpHttpPacket_scheme \<Rightarrow> charptr \<Rightarrow> int \<Rightarrow> 'a mUpnpHttpPacket_scheme" where
  "mupnp_http_packet_sethost p addr port =
     (case addr of None \<Rightarrow> p
      | Some a \<Rightarrow>
          let hostMaxLen = length a + MUPNP_NET_IPV6_ADDRSTRING_MAXSIZE + MUPNP_STRING_INTEGER_BUFLEN;
              addrLen = (case c_strchr a (CHR ''%'') of
                           Some i \<Rightarrow> if mupnp_net_isipv6address addr then i else length a
                         | None \<Rightarrow> length a);
              host = (if 0 < port \<and> port \<noteq> MUPNP_HTTP_DEFAULT_PORT then
                        if mupnp_net_isipv6address addr
                        then c_snprintf hostMaxLen (''['' @ take addrLen a @ '']:'' @ show_int port)
                        else c_snprintf hostMaxLen (a @ '':'' @ show_int port)
                      else
                        if mupnp_net_isipv6address addr
                        then c_snprintf hostMaxLen (''['' @ take addrLen a @ '']'')
                        else c_snprintf hostMaxLen a)
          in mupnp_http_packet_setheadervalue p (Some ''HOST'') (Some host))"

subsection \<open>Posting\<close>

definition swrite :: "mUpnpSocket \<Rightarrow> cstring \<Rightarrow> mUpnpSocket" where
  "swrite sock b = snd (mupnp_socket_write sock b)"

definition post_header :: "mUpnpHttpHeader \<Rightarrow> mUpnpSocket \<Rightarrow> mUpnpSocket" where
  "post_header header sock =
     (case mupnp_http_header_getname header of
        None \<Rightarrow> sock
      | Some name \<Rightarrow>
          let sock = swrite sock name;
              sock = swrite sock '':'';
              sock = swrite sock '' '';
              sock = (case mupnp_http_header_getvalue header of Some v \<Rightarrow> swrite sock v | None \<Rightarrow> sock)
          in swrite sock MUPNP_HTTP_CRLF)"

text \<open>
  \<open>None\<close> when the length in the header is longer than the content: the code then reads behind
  the end of its buffer.  A negative length becomes a large \<open>size_t\<close>.
\<close>

definition mupnp_http_packet_post :: "'a mUpnpHttpPacket_scheme \<Rightarrow> mUpnpSocket \<Rightarrow> mUpnpSocket option" where
  "mupnp_http_packet_post p sock =
     (let sock = fold post_header (headerList p) sock;
          sock = swrite sock MUPNP_HTTP_CRLF;
          contentLen = unat (word_of_int (mupnp_http_packet_getcontentlength p) :: 64 word)
      in case content p of
           None \<Rightarrow> Some sock
         | Some c \<Rightarrow>
             if 0 < contentLen then
               if contentLen \<le> length c then Some (swrite sock (take contentLen c)) else None
             else Some sock)"

subsection \<open>Reading headers\<close>

text \<open>One header line; \<open>None\<close> is a write through NULL in \<open>nextalltoken\<close>.\<close>

definition read_header_line :: "buffer \<Rightarrow> (charptr \<times> charptr) option" where
  "read_header_line lineBuf =
     (let strTok = mupnp_string_tokenizer_new (Some (cstr lineBuf)) (Some MUPNP_HTTP_HEADERLINE_DELIM);
          (strTok, name) = (if mupnp_string_tokenizer_hasmoretoken strTok
                            then mupnp_string_tokenizer_nexttoken strTok else (strTok, None))
      in if mupnp_string_tokenizer_hasmoretoken strTok then do {
           (strTok, v) \<leftarrow> mupnp_string_tokenizer_nextalltoken strTok;
           Some (token_text strTok name,
                 map_option (\<lambda>v. mupnp_strrtrim v MUPNP_HTTP_HEADERLINE_DELIM
                              (mupnp_strlen (Some MUPNP_HTTP_HEADERLINE_DELIM))) (token_text strTok v)) }
         else Some (token_text strTok name, None))"

definition add_read_header :: "'a mUpnpHttpPacket_scheme \<Rightarrow> charptr \<times> charptr \<Rightarrow> 'a mUpnpHttpPacket_scheme" where
  "add_read_header p nv =
     (case nv of (name, v) \<Rightarrow>
        if 0 < mupnp_strlen name then
          let v = (if mupnp_strlen v = 0 then Some [] else v);
              header = mupnp_http_header_new;
              header = mupnp_http_header_setname header name;
              header = mupnp_http_header_setvalue header v
          in mupnp_http_packet_addheader p header
        else p)"

function mupnp_http_packet_read_headers ::
    "'a mUpnpHttpPacket_scheme \<Rightarrow> mUpnpSocket \<Rightarrow> nat \<Rightarrow> ('a mUpnpHttpPacket_scheme \<times> mUpnpSocket) option" where
  "mupnp_http_packet_read_headers p sock lineBufSize =
     (case mupnp_socket_readline sock lineBufSize of
        (readLen, line, sock') \<Rightarrow>
          if readLen \<le> 2 then Some (p, sock')
          else (case read_header_line line of
                  None \<Rightarrow> None
                | Some nv \<Rightarrow> mupnp_http_packet_read_headers (add_read_header p nv) sock' lineBufSize))"
  by pat_completeness auto
termination
  by (relation "measure (\<lambda>(p, sock, n). length (instream sock))")
    (auto dest!: sym [of _ "mupnp_socket_readline _ _"] intro: readline_consumes(1))

declare mupnp_http_packet_read_headers.simps [simp del]

subsection \<open>Reading a body\<close>

definition MUPNP_HTTP_PACKET_READ_INITIAL_BUFSIZE :: nat where
  "MUPNP_HTTP_PACKET_READ_INITIAL_BUFSIZE = 64 * 1024"

definition READBUF_LENGTH :: nat where "READBUF_LENGTH = 1024"

text \<open>\<open>data\<close> is what has been read; its length is \<open>readLen\<close> of the source.\<close>

function read_exact_loop ::
    "allocator \<Rightarrow> mUpnpSocket \<Rightarrow> nat \<Rightarrow> nat \<Rightarrow> buffer \<Rightarrow> buffer option \<times> mUpnpSocket" where
  "read_exact_loop A sock len bufSize data =
     (if length data < len then
        let grow = (length data = bufSize);
            bufSize' = (if grow then if bufSize \<le> len - bufSize then bufSize * 2 else len else bufSize)
        in if grow \<and> \<not> can_alloc A (bufSize' + 1) then (None, sock)
           else (case mupnp_socket_read sock (bufSize' - length data) of
                   (received, b, sock') \<Rightarrow>
                     if received \<le> 0 then (None, sock')
                     else read_exact_loop A sock' len bufSize' (data @ b))
      else (Some data, sock))"
  by pat_completeness auto
termination
  by (relation "measure (\<lambda>(A, sock, len, bufSize, data). len - length data)")
    (auto simp: Let_def diff_less_mono2 dest!: sym [of _ "mupnp_socket_read _ _"] dest: socket_read_nonempty)

declare read_exact_loop.simps [simp del]

definition mupnp_http_packet_read_exact :: "allocator \<Rightarrow> mUpnpSocket \<Rightarrow> nat \<Rightarrow> buffer option \<times> mUpnpSocket" where
  "mupnp_http_packet_read_exact A sock len =
     (let bufSize = (if len < MUPNP_HTTP_PACKET_READ_INITIAL_BUFSIZE then len
                     else MUPNP_HTTP_PACKET_READ_INITIAL_BUFSIZE)
      in if \<not> can_alloc A (bufSize + 1) then (None, sock)
         else read_exact_loop A sock len bufSize [])"

text \<open>The loop over the trailers, up to the empty line.\<close>

function read_trailers :: "mUpnpSocket \<Rightarrow> nat \<Rightarrow> int \<times> mUpnpSocket" where
  "read_trailers sock lineBufSize =
     (case mupnp_socket_readline sock lineBufSize of
        (received, line, sock') \<Rightarrow>
          if received \<le> 0 then (- 1, sock')
          else if c_strcmp (cstr line) [CR, LF] \<noteq> 0 \<and> c_strcmp (cstr line) [LF] \<noteq> 0
               then read_trailers sock' lineBufSize
          else (0, sock'))"
  by pat_completeness auto
termination
  by (relation "measure (\<lambda>(sock, n). length (instream sock))")
    (auto dest!: sym [of _ "mupnp_socket_readline _ _"] intro: readline_consumes(1))

declare read_trailers.simps [simp del]

definition mupnp_http_packet_appendncontent :: "'a mUpnpHttpPacket_scheme \<Rightarrow> buffer \<Rightarrow> 'a mUpnpHttpPacket_scheme" where
  "mupnp_http_packet_appendncontent p b = p\<lparr>content := str_add (content p) (Some b)\<rparr>"

definition mupnp_http_packet_read_chunk ::
    "allocator \<Rightarrow> 'a mUpnpHttpPacket_scheme \<Rightarrow> mUpnpSocket \<Rightarrow> nat \<Rightarrow>
     int \<times> 'a mUpnpHttpPacket_scheme \<times> mUpnpSocket" where
  "mupnp_http_packet_read_chunk A p sock lineBufSize =
     (case mupnp_socket_readline sock lineBufSize of
        (r, line, sock) \<Rightarrow>
          if r \<le> 0 then (- 1, p, sock)
          else if \<not> c_isxdigit (hd (line @ [NUL])) then (- 1, p, sock)
          else
            (case c_strtoull16 (cstr line) of
               (chunkLen, rest, overflow) \<Rightarrow>
                 if overflow \<or> hd (rest @ [NUL]) \<notin> {CHR '';'', CR, LF} \<or> int chunkLen > LONG_MAX - 1
                 then (- 1, p, sock)
                 else if chunkLen = 0 then
                   (case read_trailers sock lineBufSize of (r, sock) \<Rightarrow> (r, p, sock))
                 else
                   (case mupnp_http_packet_read_exact A sock chunkLen of
                      (None, sock) \<Rightarrow> (- 1, p, sock)
                    | (Some cont, sock) \<Rightarrow>
                        (case mupnp_socket_readline sock lineBufSize of
                           (received, line, sock) \<Rightarrow>
                             if received \<noteq> 2 \<or> c_strcmp (cstr line) [CR, LF] \<noteq> 0 then (- 1, p, sock)
                             else (int chunkLen, mupnp_http_packet_appendncontent p cont, sock)))))"

lemma socket_read_mono: "mupnp_socket_read s n = (r, b, s') \<Longrightarrow> length (instream s') \<le> length (instream s)"
proof (cases "n = 0")
  case False
  assume r: "mupnp_socket_read s n = (r, b, s')"
  from False have "0 < n" by simp
  then show ?thesis using r by (cases rule: socket_read_cases [of n s]) auto
qed (simp add: mupnp_socket_read_def)

lemma read_exact_loop_mono: "length (instream (snd (read_exact_loop A s len n d))) \<le> length (instream s)"
proof (induction A s len n d rule: read_exact_loop.induct)
  case (1 A s len n d)
  define n' where "n' = (if length d = n then if n \<le> len - n then n * 2 else len else n)"
  obtain r b s' where read: "mupnp_socket_read s (n' - length d) = (r, b, s')" by (metis prod_cases3)
  note mono = socket_read_mono [OF read]
  show ?case
  proof (cases "length d < len \<and> \<not> (length d = n \<and> \<not> can_alloc A (n' + 1)) \<and> \<not> r \<le> 0")
    case True
    then have "length (instream (snd (read_exact_loop A s' len n' (d @ b)))) \<le> length (instream s')"
      using 1 [OF _ refl n'_def _ read [symmetric] refl] by simp
    with True mono read show ?thesis
      by (subst read_exact_loop.simps) (simp add: Let_def flip: n'_def)
  next
    case False
    with mono read show ?thesis
      by (subst read_exact_loop.simps) (auto simp: Let_def simp flip: n'_def)
  qed
qed

lemma read_exact_mono: "length (instream (snd (mupnp_http_packet_read_exact A s len))) \<le> length (instream s)"
  using read_exact_loop_mono by (simp add: mupnp_http_packet_read_exact_def Let_def)

lemma read_chunk_consumes:
  assumes "mupnp_http_packet_read_chunk A p s n = (r, p', s')" and "0 < r"
  shows "length (instream s') < length (instream s)"
proof -
  obtain r1 line s1 where 1: "mupnp_socket_readline s n = (r1, line, s1)" by (metis prod_cases3)
  have r1: "0 < r1" using assms 1 by (auto simp: mupnp_http_packet_read_chunk_def split: if_splits)
  obtain v rest ov where num: "c_strtoull16 (cstr line) = (v, rest, ov)" by (metis prod_cases3)
  obtain c s2 where 2: "mupnp_http_packet_read_exact A s1 v = (c, s2)" by fastforce
  obtain r3 line3 s3 where 3: "mupnp_socket_readline s2 n = (r3, line3, s3)" by (metis prod_cases3)
  have tr: "fst (read_trailers s1 n) \<le> 0" for s1
    by (induction s1 n rule: read_trailers.induct) (subst read_trailers.simps, auto split: prod.splits)
  have "s' = s3 \<and> 0 < r3"
    using assms 1 num 2 3 tr [of s1]
    by (auto simp: mupnp_http_packet_read_chunk_def split: if_splits option.splits prod.splits)
  then show ?thesis
    using readline_consumes(1) [OF 1 r1] read_exact_mono [of A s1 v] readline_consumes(1) [OF 3] 2 by simp
qed

function read_chunks ::
    "allocator \<Rightarrow> 'a mUpnpHttpPacket_scheme \<Rightarrow> mUpnpSocket \<Rightarrow> nat \<Rightarrow> int \<Rightarrow>
     int option \<times> 'a mUpnpHttpPacket_scheme \<times> mUpnpSocket" where
  "read_chunks A p sock lineBufSize conLen =
     (case mupnp_http_packet_read_chunk A p sock lineBufSize of
        (chunkLen, p', sock') \<Rightarrow>
          if chunkLen < 0 \<or> chunkLen > LONG_MAX - conLen then (None, p', sock')
          else if chunkLen > 0 then read_chunks A p' sock' lineBufSize (conLen + chunkLen)
          else (Some (conLen + chunkLen), p', sock'))"
  by pat_completeness auto
termination
  by (relation "measure (\<lambda>(A, p, sock, n, c). length (instream sock))")
    (auto dest!: sym [of _ "mupnp_http_packet_read_chunk _ _ _ _"] intro: read_chunk_consumes)

declare read_chunks.simps [simp del]

function read_until_close ::
    "'a mUpnpHttpPacket_scheme \<Rightarrow> mUpnpSocket \<Rightarrow> int \<Rightarrow> int option \<times> 'a mUpnpHttpPacket_scheme \<times> mUpnpSocket" where
  "read_until_close p sock conLen =
     (case mupnp_socket_read sock READBUF_LENGTH of
        (received, b, sock') \<Rightarrow>
          if received > 0 then
            if received > LONG_MAX - conLen then (None, p, sock')
            else read_until_close (mupnp_http_packet_appendncontent p b) sock' (conLen + received)
          else if received < 0 then (None, p, sock')
          else (Some conLen, p, sock'))"
  by pat_completeness auto
termination
  by (relation "measure (\<lambda>(p, sock, c). length (instream sock))")
    (auto dest!: sym [of _ "mupnp_socket_read _ _"] dest: socket_read_less)

declare read_until_close.simps [simp del]

definition is_blank :: "char \<Rightarrow> bool" where
  "is_blank c \<longleftrightarrow> c = CHR '' '' \<or> c = CHR 0x09"

text \<open>\<open>setcontentpointer\<close> hands the buffer over to the content string.\<close>

definition mupnp_http_packet_read_body ::
    "allocator \<Rightarrow> 'a mUpnpHttpPacket_scheme \<Rightarrow> mUpnpSocket \<Rightarrow> nat \<Rightarrow>
     bool \<times> 'a mUpnpHttpPacket_scheme \<times> mUpnpSocket" where
  "mupnp_http_packet_read_body A p sock lineBufSize =
     (case mupnp_http_packet_getheadervalue p (Some ''Content-Length'') of
        Some lengthHeader \<Rightarrow>
          let lengthHeader = dropWhile is_blank lengthHeader in
          if \<not> c_isdigit (hd (lengthHeader @ [NUL])) then (False, p, sock)
          else
            (case c_strtoull10 lengthHeader of
               (len, rest, overflow) \<Rightarrow>
                 if overflow \<or> dropWhile is_blank rest \<noteq> [] \<or> int len > LONG_MAX - 1 then (False, p, sock)
                 else if len = 0 then (True, p, sock)
                 else
                   (case mupnp_http_packet_read_exact A sock len of
                      (None, sock) \<Rightarrow> (False, p, sock)
                    | (Some c, sock) \<Rightarrow> (True, p\<lparr>content := Some c\<rparr>, sock)))
      | None \<Rightarrow>
          if mupnp_http_packet_ischunked p then
            (case read_chunks A p sock lineBufSize 0 of
               (None, p, sock) \<Rightarrow> (False, p, sock)
             | (Some conLen, p, sock) \<Rightarrow> (True, mupnp_http_packet_setcontentlength p conLen, sock))
          else
            (case read_until_close p sock 0 of
               (None, p, sock) \<Rightarrow> (False, p, sock)
             | (Some conLen, p, sock) \<Rightarrow> (True, mupnp_http_packet_setcontentlength p conLen, sock)))"

definition mupnp_http_packet_read ::
    "allocator \<Rightarrow> 'a mUpnpHttpPacket_scheme \<Rightarrow> mUpnpSocket \<Rightarrow> bool \<Rightarrow> nat \<Rightarrow>
     (bool \<times> 'a mUpnpHttpPacket_scheme \<times> mUpnpSocket) option" where
  "mupnp_http_packet_read A p sock onlyHeader lineBufSize = do {
     (p, sock) \<leftarrow> mupnp_http_packet_read_headers (mupnp_http_packet_clear p) sock lineBufSize;
     if onlyHeader then Some (True, p, sock)
     else Some (mupnp_http_packet_read_body A p sock lineBufSize) }"

subsection \<open>Size and copy\<close>

definition mupnp_http_packet_getheadersize :: "'a mUpnpHttpPacket_scheme \<Rightarrow> nat" where
  "mupnp_http_packet_getheadersize p =
     foldl (\<lambda>headerSize header.
        headerSize + mupnp_strlen (mupnp_http_header_getname header) + 1 + 1 +
        mupnp_strlen (mupnp_http_header_getvalue header) + 2) 0 (headerList p) + 2"

definition mupnp_http_packet_copy ::
    "'a mUpnpHttpPacket_scheme \<Rightarrow> 'b mUpnpHttpPacket_scheme \<Rightarrow> 'a mUpnpHttpPacket_scheme" where
  "mupnp_http_packet_copy dest src =
     (let dest = mupnp_http_packet_clear dest;
          dest = foldl (\<lambda>dest h.
             mupnp_http_packet_addheader dest
               (mupnp_http_header_setvalue
                 (mupnp_http_header_setname mupnp_http_header_new (mupnp_http_header_getname h))
                 (mupnp_http_header_getvalue h))) dest (headerList src)
      in dest\<lparr>content := str_set (content dest) (map_option cstr (content src))\<rparr>)"

end
