(* ===== verification/HttpWire.thy ===== *)
theory HttpWire
  imports HttpPacket
begin

section \<open>HTTP on the wire\<close>

text \<open>
  What the reading functions of \<open>HttpPacket\<close> do with the bytes that the posting functions
  send: a body of a given length, chunks, and header lines.  All results are about the bytes
  of the stream, however the system delivers them.
\<close>

subsection \<open>Bodies of a given length\<close>

definition alloc_upto :: "allocator \<Rightarrow> nat \<Rightarrow> bool" where
  "alloc_upto A n \<longleftrightarrow> (\<forall>k \<le> n. can_alloc A k)"

lemma alloc_upto_total: "total_allocator A \<Longrightarrow> alloc_upto A n"
  by (simp add: alloc_upto_def total_allocator_def)

definition sock_after :: "mUpnpSocket \<Rightarrow> mUpnpSocket \<Rightarrow> buffer \<Rightarrow> bool" where
  "sock_after s s' r \<longleftrightarrow> instream s' = r \<and> outstream s' = outstream s \<and> sendResults s' = sendResults s \<and>
     recvFails s' = recvFails s \<and> nonblocking s' = nonblocking s"

lemma sock_after_trans: "sock_after s t r \<Longrightarrow> sock_after t u q \<Longrightarrow> sock_after s u q"
  by (simp add: sock_after_def)

lemma read_exact_loop_correct:
  "length d \<le> n \<Longrightarrow> n \<le> len \<Longrightarrow> (len = 0 \<or> 0 < n) \<Longrightarrow>
   alloc_upto A (2 * (length d + length (instream s)) + 1) \<Longrightarrow>
   (if len \<le> length d + length (instream s) then
      \<exists>s'. read_exact_loop A s len n d = (Some (d @ take (len - length d) (instream s)), s') \<and>
           sock_after s s' (drop (len - length d) (instream s))
    else \<exists>s'. read_exact_loop A s len n d = (None, s') \<and> sock_after s s' [])"
proof (induction "len - length d" arbitrary: s n d rule: less_induct)
  case less
  show ?case
  proof (cases "length d < len")
    case False
    then show ?thesis using less.prems by (subst (1 2) read_exact_loop.simps) (simp add: sock_after_def)
  next
    case True
    define n' where "n' = (if length d = n then if n \<le> len - n then n * 2 else len else n)"
    have n': "length d < n'" "n' \<le> len" "0 < n'" "length d = n \<Longrightarrow> n' \<le> 2 * length d"
      using less.prems(1-3) True by (auto simp: n'_def)
    have alloc: "\<not> (length d = n \<and> \<not> can_alloc A (n' + 1))"
      using less.prems(4) n'(4) by (auto simp: alloc_upto_def)
    have step: "read_exact_loop A s len n d =
        (case mupnp_socket_read s (n' - length d) of
           (received, b, sock') \<Rightarrow>
             if received \<le> 0 then (None, sock') else read_exact_loop A sock' len n' (d @ b))"
      by (subst read_exact_loop.simps) (simp only: Let_def n'_def [symmetric] True alloc if_True if_False)
    have "0 < n' - length d" using n' by simp
    then show ?thesis
    proof (cases rule: socket_read_cases [of "n' - length d" s])
      case closed
      with step True show ?thesis by (simp add: sock_after_def)
    next
      case (data m)
      define s1 where "s1 = s\<lparr>instream := drop m (instream s), recvSizes := tl (recvSizes s)\<rparr>"
      have s1: "instream s1 = drop m (instream s)" "outstream s1 = outstream s"
        "sendResults s1 = sendResults s" "recvFails s1 = recvFails s" "nonblocking s1 = nonblocking s"
        by (simp_all add: s1_def)
      let ?d = "d @ take m (instream s)"
      have step': "read_exact_loop A s len n d = read_exact_loop A s1 len n' ?d"
        using step data by (simp add: s1_def)
      have len: "length ?d = length d + m" using data by simp
      have total: "length ?d + length (instream s1) = length d + length (instream s)"
        using data len s1 by simp
      have ih: "if len \<le> length ?d + length (instream s1) then
          \<exists>s'. read_exact_loop A s1 len n' ?d = (Some (?d @ take (len - length ?d) (instream s1)), s') \<and>
             sock_after s1 s' (drop (len - length ?d) (instream s1))
        else \<exists>s'. read_exact_loop A s1 len n' ?d = (None, s') \<and> sock_after s1 s' []"
      proof (rule less.hyps)
        show "len - length ?d < len - length d" "length ?d \<le> n'" using len data n' True by auto
        show "alloc_upto A (2 * (length ?d + length (instream s1)) + 1)"
          unfolding total by (rule less.prems(4))
      qed (use n' in auto)
      have "?d @ take (len - length ?d) (instream s1) = d @ take (len - length d) (instream s)"
      proof -
        have "take (len - length d) (instream s) = take m (instream s) @ take (len - length d - m) (drop m (instream s))"
          using data n' by (metis le_add_diff_inverse le_diff_conv2 le_trans less_imp_le_nat take_add diff_le_mono)
        with len s1 show ?thesis by simp
      qed
      moreover have "drop (len - length ?d) (instream s1) = drop (len - length d) (instream s)"
        using len s1 data n' by (simp add: add.commute)
      moreover have "sock_after s s' r" if "sock_after s1 s' r" for s' r
        using that s1 by (simp add: sock_after_def)
      ultimately show ?thesis using ih unfolding step' total by (auto split: if_splits)
    qed
  qed
qed

lemma read_exact_correct:
  assumes "alloc_upto A (max (MUPNP_HTTP_PACKET_READ_INITIAL_BUFSIZE + 1) (2 * length (instream s) + 1))"
  shows "if len \<le> length (instream s) then
      \<exists>s'. mupnp_http_packet_read_exact A s len = (Some (take len (instream s)), s') \<and>
           sock_after s s' (drop len (instream s))
    else \<exists>s'. mupnp_http_packet_read_exact A s len = (None, s') \<and> sock_after s s' []"
proof -
  let ?I = MUPNP_HTTP_PACKET_READ_INITIAL_BUFSIZE
  let ?n = "if len < ?I then len else ?I"
  have I: "0 < ?I" by (simp add: MUPNP_HTTP_PACKET_READ_INITIAL_BUFSIZE_def)
  have "can_alloc A (?n + 1)" using assms by (auto simp: alloc_upto_def)
  then have "mupnp_http_packet_read_exact A s len = read_exact_loop A s len ?n []"
    by (simp add: mupnp_http_packet_read_exact_def Let_def)
  moreover have "alloc_upto A (2 * (length [] + length (instream s)) + 1)"
    using assms by (auto simp: alloc_upto_def)
  ultimately show ?thesis
    using read_exact_loop_correct [of "[]" ?n len A s] I by (cases "len = 0") auto
qed

subsection \<open>Chunks\<close>

text \<open>A chunk as \<open>mupnp_http_request_postchunkeddata\<close> sends it, and the last one.\<close>

definition chunk_text :: "buffer \<Rightarrow> buffer" where
  "chunk_text b = show_nat 16 (length b) @ [CR, LF] @ b @ [CR, LF]"

definition last_chunk_text :: buffer where
  "last_chunk_text = ''0'' @ [CR, LF, CR, LF]"

lemma show_nat_0: "show_nat 16 0 = ''0''"
  by (simp add: show_nat_def nat_digits.simps digit_char_def char_of_def bit_0)

lemma line_chars: "\<not> c_isxdigit CR" "\<not> c_isxdigit LF" "\<not> c_isxdigit NUL"
  by (simp_all add: c_isxdigit_def c_isdigit_def)

lemma LF_show_nat16: "LF \<notin> set (show_nat 16 n)"
  using show_nat_isxdigit line_chars by blast

lemma readline_crlf:
  "instream s = [CR, LF] @ r \<Longrightarrow> 3 < n \<Longrightarrow> mupnp_socket_readline s n = (2, [CR, LF], sadv 2 s)"
  using readline_complete [of s "[CR]" r n] by (simp add: numeral_2_eq_2)

lemma read_size_line:
  assumes "instream s = show_nat 16 k @ [CR, LF] @ r" and "k \<le> ULLONG_MAX" and "18 < n"
  shows "\<exists>s' line. mupnp_socket_readline s n = (int (length (show_nat 16 k)) + 2, line, s') \<and>
     c_isxdigit (hd (line @ [NUL])) \<and> c_strtoull16 (cstr line) = (k, [CR, LF], False) \<and> sock_after s s' r"
proof -
  let ?l = "show_nat 16 k @ [CR]"
  have "k < 16 ^ 16" using assms(2) by (simp add: ULLONG_MAX_def)
  then have "length (show_nat 16 k) \<le> 16" by (intro length_show_nat) simp_all
  then have "mupnp_socket_readline s n = (int (length ?l) + 1, ?l @ [LF], sadv (length ?l + 1) s)"
    using assms LF_show_nat16 by (intro readline_complete [where r = r]) auto
  moreover have "cstr (?l @ [LF]) = show_nat 16 k @ [CR, LF]"
    by (simp add: cstr_nul_free nul_free_show_nat16)
  moreover have "c_strtoull16 (show_nat 16 k @ [CR, LF]) = (k, [CR, LF], False)"
    using assms(2) line_chars by (intro strtoull16_show) auto
  moreover have "c_isxdigit (hd ((?l @ [LF]) @ [NUL]))"
    using show_nat_isxdigit [of "hd (show_nat 16 k)" k] by (simp add: hd_append)
  moreover have "sock_after s (sadv (length ?l + 1) s) r"
    using assms(1) by (simp add: sock_after_def)
  ultimately show ?thesis by (simp add: algebra_simps)
qed

definition alloc_for :: "allocator \<Rightarrow> nat \<Rightarrow> bool" where
  "alloc_for A k \<longleftrightarrow> alloc_upto A (max (MUPNP_HTTP_PACKET_READ_INITIAL_BUFSIZE + 1) (2 * k + 1))"

lemma alloc_for_mono: "alloc_for A k \<Longrightarrow> j \<le> k \<Longrightarrow> alloc_for A j"
  by (auto simp: alloc_for_def alloc_upto_def)

lemma read_chunk_data:
  assumes s: "instream s = chunk_text b @ r" and b: "b \<noteq> []" "int (length b) < LONG_MAX"
    and n: "18 < n" and A: "alloc_for A (length (instream s))"
  shows "\<exists>s'. mupnp_http_packet_read_chunk A p s n =
      (int (length b), mupnp_http_packet_appendncontent p b, s') \<and> sock_after s s' r"
proof -
  have "length b \<le> ULLONG_MAX" using b by (simp add: LONG_MAX_def ULLONG_MAX_def)
  then obtain s1 line where 1: "mupnp_socket_readline s n = (int (length (show_nat 16 (length b))) + 2, line, s1)"
      "c_isxdigit (hd (line @ [NUL]))" "c_strtoull16 (cstr line) = (length b, [CR, LF], False)"
      "sock_after s s1 (b @ [CR, LF] @ r)"
    using read_size_line [of s "length b" "b @ [CR, LF] @ r" n] s n by (auto simp: chunk_text_def)
  have "alloc_for A (length (instream s1))"
    using A 1(4) s by (auto simp: sock_after_def chunk_text_def elim: alloc_for_mono)
  then obtain s2 where 2: "mupnp_http_packet_read_exact A s1 (length b) = (Some b, s2)"
      "sock_after s1 s2 ([CR, LF] @ r)"
    using read_exact_correct [of A s1 "length b"] 1(4)
    by (auto simp: alloc_for_def sock_after_def)
  have 3: "mupnp_socket_readline s2 n = (2, [CR, LF], sadv 2 s2)"
    using 2(2) n by (intro readline_crlf) (auto simp: sock_after_def)
  have "sock_after s (sadv 2 s2) r" using 1(4) 2(2) by (simp add: sock_after_def)
  then show ?thesis using 1 2(1) 3 b by (simp add: mupnp_http_packet_read_chunk_def cstr_Cons)
qed

lemma read_chunk_last:
  assumes "instream s = last_chunk_text @ r" and "18 < n"
  shows "\<exists>s'. mupnp_http_packet_read_chunk A p s n = (0, p, s') \<and> sock_after s s' r"
proof -
  have "show_nat 16 0 = ''0''" by (simp add: show_nat_0)
  then obtain s1 line where 1: "mupnp_socket_readline s n = (int (length (show_nat 16 0)) + 2, line, s1)"
      "c_isxdigit (hd (line @ [NUL]))" "c_strtoull16 (cstr line) = (0, [CR, LF], False)"
      "sock_after s s1 ([CR, LF] @ r)"
    using read_size_line [of s 0 "[CR, LF] @ r" n] assms by (auto simp: last_chunk_text_def)
  have "mupnp_socket_readline s1 n = (2, [CR, LF], sadv 2 s1)"
    using 1(4) assms(2) by (intro readline_crlf) (auto simp: sock_after_def)
  then have "read_trailers s1 n = (0, sadv 2 s1)"
    by (subst read_trailers.simps) (simp add: cstr_Cons)
  moreover have "sock_after s (sadv 2 s1) r" using 1(4) by (simp add: sock_after_def)
  ultimately show ?thesis using 1 by (simp add: mupnp_http_packet_read_chunk_def LONG_MAX_def)
qed

lemma read_chunks_correct:
  "instream s = concat (map chunk_text bs) @ last_chunk_text @ r \<Longrightarrow> [] \<notin> set bs \<Longrightarrow>
   c + int (length (concat bs)) < LONG_MAX \<Longrightarrow> 0 \<le> c \<Longrightarrow> 18 < n \<Longrightarrow> alloc_for A (length (instream s)) \<Longrightarrow>
   \<exists>s'. read_chunks A p s n c =
      (Some (c + int (length (concat bs))), foldl mupnp_http_packet_appendncontent p bs, s') \<and> sock_after s s' r"
proof (induction bs arbitrary: s p c)
  case Nil
  then obtain s' where "mupnp_http_packet_read_chunk A p s n = (0, p, s')" "sock_after s s' r"
    using read_chunk_last [of s r n A p] by auto
  then show ?case using Nil by (subst read_chunks.simps) simp
next
  case (Cons b bs)
  let ?p = "mupnp_http_packet_appendncontent p b"
  obtain s1 where 1: "mupnp_http_packet_read_chunk A p s n = (int (length b), ?p, s1)"
      "sock_after s s1 (concat (map chunk_text bs) @ last_chunk_text @ r)"
    using read_chunk_data [of s b "concat (map chunk_text bs) @ last_chunk_text @ r" n A p] Cons.prems by auto
  have "\<exists>s'. read_chunks A ?p s1 n (c + int (length b)) =
      (Some ((c + int (length b)) + int (length (concat bs))), foldl mupnp_http_packet_appendncontent ?p bs, s') \<and>
      sock_after s1 s' r"
    using Cons.prems 1(2) by (intro Cons.IH) (auto simp: sock_after_def elim: alloc_for_mono)
  moreover have "0 < length b" using Cons.prems by auto
  ultimately show ?case
    using 1 Cons.prems by (subst read_chunks.simps) (auto simp: add.assoc intro: sock_after_trans)
qed

lemma append_chunks:
  "[] \<notin> set bs \<Longrightarrow> foldl mupnp_http_packet_appendncontent p bs =
     (if bs = [] then p else p\<lparr>content := Some (str_bytes (content p) @ concat bs)\<rparr>)"
  by (induction bs arbitrary: p)
    (auto simp: mupnp_http_packet_appendncontent_def str_add_def str_bytes_def split: option.splits)

subsection \<open>Tokens of a line\<close>

text \<open>
  A line of words that are separated by single delimiters, read by the tokenizer word by word,
  and the text that is left, trimmed on the right.
\<close>

definition word_text :: "cstring \<Rightarrow> cstring \<Rightarrow> bool" where
  "word_text ds w \<longleftrightarrow> w \<noteq> [] \<and> nul_free w \<and> set w \<inter> set ds = {}"

definition rest_text :: "cstring \<Rightarrow> cstring \<Rightarrow> bool" where
  "rest_text ds v \<longleftrightarrow> nul_free v \<and> LF \<notin> set v \<and> (v \<noteq> [] \<longrightarrow> hd v \<notin> set ds \<and> last v \<notin> set ds)"

lemma skip_delims_word: "word_text ds w \<Longrightarrow> skip_delims (set ds) (w @ r) = w @ r"
  by (cases w) (auto simp: word_text_def)

lemma word_of_word: "word_text ds w \<Longrightarrow> c \<in> set ds \<Longrightarrow> word_of (set ds) (w @ c # r) = w"
  by (rule span_append) (auto simp: word_text_def)

lemma after_word_word: "word_text ds w \<Longrightarrow> c \<in> set ds \<Longrightarrow> after_word (set ds) (w @ c # r) = c # r"
  by (rule span_append) (auto simp: word_text_def)

lemma hasmore_word:
  "tok_rep st (w @ r) \<Longrightarrow> tok_set st = set ds \<Longrightarrow> word_text ds w \<Longrightarrow> mupnp_string_tokenizer_hasmoretoken st"
  by (simp add: hasmoretoken_rep skip_delims_word) (simp add: word_text_def)

lemma nexttoken_word:
  assumes "tok_rep st (w @ c # r)" and "tok_set st = set ds" and "word_text ds w" and "c \<in> set ds"
  shows "\<exists>st' p. mupnp_string_tokenizer_nexttoken st = (st', Some p) \<and> tok_set st' = set ds \<and>
    tok_rep st' r \<and> token_text st' (Some p) = Some w \<and>
    (\<forall>j. nextToken st' = Some j \<longrightarrow> p + length w < j)"
proof -
  have eq: "skip_delims (tok_set st) (w @ c # r) = w @ c # r" "word_of (tok_set st) (w @ c # r) = w"
    "after_word (tok_set st) (w @ c # r) = c # r"
    using assms skip_delims_word word_of_word after_word_word by simp_all
  then have "skip_delims (tok_set st) (w @ c # r) \<noteq> []" by simp
  from nexttoken_rep [OF assms(1) this] obtain st' p where
    "mupnp_string_tokenizer_nexttoken st = (st', Some p)" "tok_set st' = tok_set st"
    "tok_rep st' (tl (after_word (tok_set st) (skip_delims (tok_set st) (w @ c # r))))"
    "token_text st' (Some p) = Some (word_of (tok_set st) (skip_delims (tok_set st) (w @ c # r)))"
    "\<forall>j. nextToken st' = Some j \<longrightarrow>
       p + length (word_of (tok_set st) (skip_delims (tok_set st) (w @ c # r))) < j"
    by blast
  then show ?thesis unfolding eq [unfolded assms(2)] assms(2) list.sel(3) by blast
qed

lemma skip_delims_rest:
  assumes "rest_text ds v" and "set a \<subseteq> set ds" and "set z \<subseteq> set ds"
  shows "skip_delims (set ds) (a @ v @ z) = (if v = [] then [] else v @ z)"
proof -
  have "skip_delims (set ds) (a @ v @ z) = skip_delims (set ds) (v @ z)"
    using assms(2) by (intro dropWhile_append2) auto
  also have "\<dots> = (if v = [] then [] else v @ z)"
    using assms(1,3) by (cases v) (auto simp: rest_text_def)
  finally show ?thesis .
qed

lemma rtrim_rest:
  assumes "rest_text ds v" and "set z \<subseteq> set ds" and "nul_free z"
  shows "mupnp_strrtrim (v @ z) ds (length ds) = v"
proof -
  have "dropWhile (\<lambda>c. c \<in> set ds) (rev z @ rev v) = dropWhile (\<lambda>c. c \<in> set ds) (rev v)"
    using assms(2) by (intro dropWhile_append2) auto
  also have "\<dots> = rev v"
    using assms(1) by (cases v rule: rev_cases) (auto simp: rest_text_def)
  finally show ?thesis using assms by (simp add: strrtrim_correct rest_text_def)
qed

lemma nextall_rest:
  assumes "tok_rep st (a @ v @ z)" and "tok_set st = set ds" and "rest_text ds v" and "v \<noteq> []"
    and "set a \<subseteq> set ds" and "set z \<subseteq> set ds"
  shows "mupnp_string_tokenizer_hasmoretoken st \<and> (\<exists>j. nextToken st = Some j) \<and>
    (\<exists>st' p. mupnp_string_tokenizer_nextalltoken st = Some (st', Some p) \<and>
       token_text st' (Some p) = Some (v @ z))"
proof -
  have eq: "skip_delims (tok_set st) (a @ v @ z) = v @ z"
    using assms skip_delims_rest by simp
  then have ne: "skip_delims (tok_set st) (a @ v @ z) \<noteq> []" using assms(4) by simp
  obtain st' p where st': "mupnp_string_tokenizer_nextalltoken st = Some (st', Some p)"
    "token_text st' (Some p) = Some (skip_delims (tok_set st) (a @ v @ z))"
    using nextalltoken_rep [OF assms(1) ne] by blast
  show ?thesis
    using st' nextToken_rep [OF assms(1) ne] hasmoretoken_rep [OF assms(1)] ne eq by auto
qed

subsection \<open>Header lines\<close>

definition header_text :: "mUpnpHttpHeader \<Rightarrow> buffer" where
  "header_text h =
     (case hname h of None \<Rightarrow> [] | Some name \<Rightarrow> name @ '': '' @ str_bytes (hvalue h) @ MUPNP_HTTP_CRLF)"

text \<open>The headers that survive the wire, for lines of at most \<open>n\<close> bytes.\<close>

definition header_ok :: "nat \<Rightarrow> mUpnpHttpHeader \<Rightarrow> bool" where
  "header_ok n h \<longleftrightarrow>
     (case hname h of None \<Rightarrow> False
      | Some name \<Rightarrow>
          word_text MUPNP_HTTP_HEADERLINE_DELIM name \<and>
          rest_text MUPNP_HTTP_HEADERLINE_DELIM (str_bytes (hvalue h)) \<and>
          length name + length (str_bytes (hvalue h)) + 5 \<le> n)"

definition header_norm :: "mUpnpHttpHeader \<Rightarrow> mUpnpHttpHeader" where
  "header_norm h = h\<lparr>hvalue := Some (str_bytes (hvalue h))\<rparr>"

lemma set_headerline_delim: "set MUPNP_HTTP_HEADERLINE_DELIM = {CR, LF, CHR '' '', CHR '':''}"
  by (auto simp: MUPNP_HTTP_HEADERLINE_DELIM_def)

lemma read_header_line_general:
  assumes name: "word_text MUPNP_HTTP_HEADERLINE_DELIM name"
    and v: "rest_text MUPNP_HTTP_HEADERLINE_DELIM v"
    and c: "c \<in> set MUPNP_HTTP_HEADERLINE_DELIM"
    and az: "set a \<subseteq> set MUPNP_HTTP_HEADERLINE_DELIM" "set z \<subseteq> set MUPNP_HTTP_HEADERLINE_DELIM"
  shows "read_header_line (name @ c # a @ v @ z) = Some (Some name, if v = [] then None else Some v)"
proof -
  let ?D = MUPNP_HTTP_HEADERLINE_DELIM
  let ?l = "name @ c # (a @ v @ z)"
  have nf_az: "nul_free a" "nul_free z" "c \<noteq> NUL"
    using az c by (auto simp: nul_free_def set_headerline_delim)
  have nf: "nul_free ?l" "?l \<noteq> []" using name v nf_az by (simp_all add: word_text_def rest_text_def)
  define st where "st = mupnp_string_tokenizer_new (Some ?l) (Some ?D)"
  have rep: "tok_rep st ?l" "tok_set st = set ?D"
    using new_rep [OF nf(2,1), of ?D] by (simp_all add: st_def MUPNP_HTTP_HEADERLINE_DELIM_def)
  have more: "mupnp_string_tokenizer_hasmoretoken st"
    using hasmore_word [OF rep name] .
  have line: "read_header_line ?l = (case mupnp_string_tokenizer_nexttoken st of (st1, t) \<Rightarrow>
      if mupnp_string_tokenizer_hasmoretoken st1 then
        (case mupnp_string_tokenizer_nextalltoken st1 of None \<Rightarrow> None
         | Some (st2, v) \<Rightarrow> Some (token_text st2 t,
             map_option (\<lambda>v. mupnp_strrtrim v ?D (mupnp_strlen (Some ?D))) (token_text st2 v)))
      else Some (token_text st1 t, None))"
    unfolding read_header_line_def cstr_nul_free [OF nf(1)] Let_def st_def [symmetric]
    by (auto simp: more bind_eq_Some_conv split: prod.split option.split)
  from nexttoken_word [OF rep name c] obtain st1 p where
    1: "mupnp_string_tokenizer_nexttoken st = (st1, Some p)" "tok_set st1 = set ?D"
      "tok_rep st1 (a @ v @ z)" "token_text st1 (Some p) = Some name"
      "\<forall>j. nextToken st1 = Some j \<longrightarrow> p + length name < j" by blast
  show ?thesis
  proof (cases "v = []")
    case True
    have "skip_delims (set ?D) (a @ v @ z) = []"
      using skip_delims_rest [OF v az] True by simp
    then have "\<not> mupnp_string_tokenizer_hasmoretoken st1"
      using hasmoretoken_rep [OF 1(3)] 1(2) by simp
    with line 1 True show ?thesis by simp
  next
    case False
    from nextall_rest [OF 1(3,2) v False az] obtain st2 q j where
      2: "mupnp_string_tokenizer_hasmoretoken st1" "mupnp_string_tokenizer_nextalltoken st1 = Some (st2, Some q)"
        "token_text st2 (Some q) = Some (v @ z)" "nextToken st1 = Some j" by blast
    have "token_text st2 (Some p) = Some name"
      using nextalltoken_earlier [OF 2(2,4) 1(4)] 1(5) 2(4) by blast
    moreover have "mupnp_strrtrim (v @ z) ?D (length ?D) = v"
      using v az nf_az by (intro rtrim_rest) simp_all
    ultimately show ?thesis using line 1 2 False by simp
  qed
qed

lemma read_header_line_correct:
  assumes "word_text MUPNP_HTTP_HEADERLINE_DELIM name" and "rest_text MUPNP_HTTP_HEADERLINE_DELIM v"
  shows "read_header_line (name @ '': '' @ v @ [CR, LF]) = Some (Some name, if v = [] then None else Some v)"
  using read_header_line_general [OF assms, of "CHR '':''" "'' ''" "[CR, LF]"]
  by (simp add: set_headerline_delim)

definition headers_text :: "mUpnpHttpHeaderList \<Rightarrow> buffer" where
  "headers_text hs = concat (map header_text hs) @ MUPNP_HTTP_CRLF"

lemma header_okE:
  assumes "header_ok n h"
  obtains name where "hname h = Some name" and "word_text MUPNP_HTTP_HEADERLINE_DELIM name"
    and "rest_text MUPNP_HTTP_HEADERLINE_DELIM (str_bytes (hvalue h))"
    and "length name + length (str_bytes (hvalue h)) + 5 \<le> n"
  using assms by (auto simp: header_ok_def split: option.splits)

lemma add_read_header_norm:
  assumes "hname h = Some name" and "name \<noteq> []"
  shows "add_read_header p (Some name, if str_bytes (hvalue h) = [] then None else hvalue h) =
    p\<lparr>headerList := headerList p @ [header_norm h]\<rparr>"
  using assms
  by (cases "hvalue h")
    (auto simp: add_read_header_def mupnp_http_header_setname_def mupnp_http_header_setvalue_def
      mupnp_http_header_new_def mupnp_http_packet_addheader_def mupnp_http_headerlist_add_def header_norm_def)

lemma read_headers_correct:
  "instream s = headers_text hs @ r \<Longrightarrow> \<forall>h \<in> set hs. header_ok n h \<Longrightarrow> 3 < n \<Longrightarrow>
   \<exists>s'. mupnp_http_packet_read_headers p s n = Some (p\<lparr>headerList := headerList p @ map header_norm hs\<rparr>, s') \<and>
     sock_after s s' r"
proof (induction hs arbitrary: s p)
  case Nil
  then have "mupnp_socket_readline s n = (2, [CR, LF], sadv 2 s)"
    by (intro readline_crlf) (simp_all add: headers_text_def MUPNP_HTTP_CRLF_def)
  with Nil show ?case
    by (subst mupnp_http_packet_read_headers.simps)
      (simp add: sock_after_def headers_text_def MUPNP_HTTP_CRLF_def)
next
  case (Cons h hs)
  then have "header_ok n h" by simp
  then obtain name where name: "hname h = Some name" "word_text MUPNP_HTTP_HEADERLINE_DELIM name"
    "rest_text MUPNP_HTTP_HEADERLINE_DELIM (str_bytes (hvalue h))"
    "length name + length (str_bytes (hvalue h)) + 5 \<le> n" by (rule header_okE)
  define v where "v = str_bytes (hvalue h)"
  let ?l = "name @ '': '' @ v @ [CR]"
  have stream: "instream s = ?l @ LF # headers_text hs @ r"
    using Cons.prems(1) name(1) by (simp add: headers_text_def header_text_def MUPNP_HTTP_CRLF_def v_def)
  have "LF \<notin> set ?l"
    using name(2,3) by (auto simp: word_text_def rest_text_def set_headerline_delim v_def)
  with stream have line: "mupnp_socket_readline s n = (int (length ?l) + 1, ?l @ [LF], sadv (length ?l + 1) s)"
    using name(4) by (intro readline_complete) (auto simp: v_def)
  have after: "sock_after s (sadv (length ?l + 1) s) (headers_text hs @ r)"
    using stream by (simp add: sock_after_def numeral_eq_Suc)
  have nv: "read_header_line (?l @ [LF]) = Some (Some name, if v = [] then None else Some v)"
    using read_header_line_correct [OF name(2), of v] name(3) by (simp add: v_def)
  have "hvalue h = Some v" if "v \<noteq> []" using that by (cases "hvalue h") (auto simp: v_def)
  then have eq: "(if v = [] then None else Some v) = (if str_bytes (hvalue h) = [] then None else hvalue h)"
    by (simp add: v_def)
  have "name \<noteq> []" using name(2) by (simp add: word_text_def)
  then have add: "add_read_header p (Some name, if v = [] then None else Some v) =
      p\<lparr>headerList := headerList p @ [header_norm h]\<rparr>"
    unfolding eq by (rule add_read_header_norm [OF name(1)])
  have "\<not> int (length ?l) + 1 \<le> 2" by simp
  then have step: "mupnp_http_packet_read_headers p s n =
      mupnp_http_packet_read_headers (p\<lparr>headerList := headerList p @ [header_norm h]\<rparr>) (sadv (length ?l + 1) s) n"
    by (subst mupnp_http_packet_read_headers.simps) (simp only: line nv add prod.case if_False option.case)
  obtain s' where "mupnp_http_packet_read_headers (p\<lparr>headerList := headerList p @ [header_norm h]\<rparr>) (sadv (length ?l + 1) s) n
      = Some (p\<lparr>headerList := (headerList p @ [header_norm h]) @ map header_norm hs\<rparr>, s')"
      "sock_after (sadv (length ?l + 1) s) s' r"
    using Cons.IH [of "sadv (length ?l + 1) s" "p\<lparr>headerList := headerList p @ [header_norm h]\<rparr>"] Cons.prems(2,3) after
    by (auto simp: sock_after_def)
  with step after show ?case by (auto intro: sock_after_trans)
qed

subsection \<open>Posting\<close>

definition sent :: "mUpnpSocket \<Rightarrow> buffer \<Rightarrow> mUpnpSocket \<Rightarrow> bool" where
  "sent s b s' \<longleftrightarrow> wrote s b s' \<and> writable s'"

lemma sent_refl: "writable s \<Longrightarrow> sent s [] s"
  by (simp add: sent_def wrote_refl)

lemma sent_swrite: "sent s a t \<Longrightarrow> sent s (a @ b) (swrite t b)"
  unfolding sent_def swrite_def by (metis write_all snd_conv wrote_trans)

lemma sent_post_header: "sent s a t \<Longrightarrow> sent s (a @ header_text h) (post_header h t)"
proof (cases "hname h")
  case (Some name)
  assume t: "sent s a t"
  define t1 where "t1 = swrite (swrite (swrite t name) '':'') '' ''"
  define t2 where "t2 = (case hvalue h of Some v \<Rightarrow> swrite t1 v | None \<Rightarrow> t1)"
  have "sent s (((a @ name) @ '':'') @ '' '') t1"
    unfolding t1_def by (intro sent_swrite t)
  then have "sent s ((((a @ name) @ '':'') @ '' '') @ str_bytes (hvalue h)) t2"
    unfolding t2_def by (cases "hvalue h") (simp_all only: option.case str_bytes_simps append_Nil2 sent_swrite)
  then have "sent s (((((a @ name) @ '':'') @ '' '') @ str_bytes (hvalue h)) @ MUPNP_HTTP_CRLF) (swrite t2 MUPNP_HTTP_CRLF)"
    by (rule sent_swrite)
  with Some show ?thesis
    by (simp add: post_header_def header_text_def mupnp_http_header_getname_def mupnp_http_header_getvalue_def
        t1_def t2_def Let_def split: option.splits)
qed (simp add: post_header_def header_text_def mupnp_http_header_getname_def)

lemma sent_post_headers: "sent s a t \<Longrightarrow> sent s (a @ concat (map header_text hs)) (fold post_header hs t)"
proof (induction hs arbitrary: a t)
  case (Cons h hs)
  from Cons.IH [OF sent_post_header [OF Cons.prems]] show ?case by simp
qed simp

text \<open>The number of content bytes that a packet announces.\<close>

definition announced :: "'a mUpnpHttpPacket_scheme \<Rightarrow> nat" where
  "announced p = unat (word_of_int (mupnp_http_packet_getcontentlength p) :: 64 word)"

lemma packet_post_sent:
  assumes "sent s a t" and "content p \<noteq> None \<longrightarrow> announced p \<le> length (str_bytes (content p))"
  shows "\<exists>t'. mupnp_http_packet_post p t = Some t' \<and>
    sent s (a @ headers_text (headerList p) @ take (announced p) (str_bytes (content p))) t'"
proof -
  let ?t = "swrite (fold post_header (headerList p) t) MUPNP_HTTP_CRLF"
  have t: "sent s (a @ headers_text (headerList p)) ?t"
    using sent_swrite [OF sent_post_headers [OF assms(1)]] by (simp add: headers_text_def)
  show ?thesis
  proof (cases "content p")
    case None
    with t show ?thesis by (simp add: mupnp_http_packet_post_def Let_def)
  next
    case (Some c)
    with assms(2) t sent_swrite [OF t, of "take (announced p) c"] show ?thesis
      by (auto simp: mupnp_http_packet_post_def Let_def simp flip: announced_def)
  qed
qed

subsection \<open>Bodies\<close>

lemma headerlist_find_norm: "headerlist_find (map header_norm hs) k i = headerlist_find hs k i"
  by (induction hs arbitrary: i) (simp_all add: mupnp_http_header_getname_def header_norm_def)

lemma getvalue_norm:
  "mupnp_http_headerlist_getvalue hs k = Some v \<Longrightarrow> mupnp_http_headerlist_getvalue (map header_norm hs) k = Some v"
  by (auto simp: mupnp_http_headerlist_getvalue_def mupnp_http_headerlist_get_def headerlist_find_norm
      mupnp_http_header_getvalue_def header_norm_def dest!: headerlist_find_less split: option.splits if_splits)

lemma getvalue_norm_None:
  "mupnp_http_headerlist_get hs k = None \<Longrightarrow> mupnp_http_headerlist_getvalue (map header_norm hs) k = None"
  by (auto simp: mupnp_http_headerlist_getvalue_def mupnp_http_headerlist_get_def headerlist_find_norm
      split: option.splits if_splits)

lemma alloc_for_total: "total_allocator A \<Longrightarrow> alloc_for A k"
  by (simp add: alloc_for_def alloc_upto_total)

lemma blank_show_nat: "dropWhile is_blank (show_nat 10 k) = show_nat 10 k" "c_isdigit (hd (show_nat 10 k))"
proof -
  obtain c t where ct: "show_nat 10 k = c # t" by (cases "show_nat 10 k") simp_all
  then have "c_isdigit c" using show_nat_isdigit [of c k] by simp
  with ct show "dropWhile is_blank (show_nat 10 k) = show_nat 10 k" "c_isdigit (hd (show_nat 10 k))"
    by (auto simp: is_blank_def c_isdigit_def)
qed

lemma read_body_length:
  assumes len: "mupnp_http_packet_getheadervalue p (Some ''Content-Length'') = Some (show_nat 10 (length c))"
    and c: "int (length c) < LONG_MAX" and s: "instream s = c @ r" and A: "alloc_for A (length (instream s))"
  shows "\<exists>s'. mupnp_http_packet_read_body A p s n =
      (True, p\<lparr>content := (if c = [] then content p else Some c)\<rparr>, s') \<and> sock_after s s' r"
proof -
  have "length c \<le> ULLONG_MAX" using c by (simp add: LONG_MAX_def ULLONG_MAX_def)
  then have num: "c_strtoull10 (show_nat 10 (length c)) = (length c, [], False)" by (rule strtoull10_show)
  have "\<exists>s'. mupnp_http_packet_read_exact A s (length c) = (Some c, s') \<and> sock_after s s' r"
    using read_exact_correct [of A s "length c"] A s by (auto simp: alloc_for_def)
  then show ?thesis
    using len c s num by (auto simp: mupnp_http_packet_read_body_def blank_show_nat Let_def sock_after_def)
qed

lemma read_body_chunked:
  assumes "mupnp_http_packet_getheadervalue p (Some ''Content-Length'') = None"
    and "mupnp_http_packet_ischunked p"
    and "instream s = concat (map chunk_text bs) @ last_chunk_text @ r" and "[] \<notin> set bs"
    and "int (length (concat bs)) < LONG_MAX" and "18 < n" and "alloc_for A (length (instream s))"
  shows "\<exists>s'. mupnp_http_packet_read_body A p s n =
      (True, mupnp_http_packet_setcontentlength
         (p\<lparr>content := (if bs = [] then content p else Some (str_bytes (content p) @ concat bs))\<rparr>)
         (int (length (concat bs))), s') \<and> sock_after s s' r"
proof -
  obtain s' where "read_chunks A p s n 0 =
      (Some (int (length (concat bs))), foldl mupnp_http_packet_appendncontent p bs, s')" "sock_after s s' r"
    using read_chunks_correct [of s bs r 0 n A p] assms by auto
  moreover have "foldl mupnp_http_packet_appendncontent p bs =
      p\<lparr>content := (if bs = [] then content p else Some (str_bytes (content p) @ concat bs))\<rparr>"
    using append_chunks [OF assms(4), of p] by (cases "bs = []") simp_all
  ultimately show ?thesis using assms(1,2) by (simp add: mupnp_http_packet_read_body_def)
qed

text \<open>Whole packets: header lines followed by a body of the announced length, or by chunks.\<close>

lemma packet_read_text:
  assumes "instream t = headers_text hs @ c @ r" and "\<forall>h \<in> set hs. header_ok n h" and "3 < n"
    and "mupnp_http_headerlist_getvalue hs (Some ''Content-Length'') = Some (show_nat 10 (length c))"
    and "int (length c) < LONG_MAX" and "total_allocator A"
  shows "\<exists>t'. mupnp_http_packet_read A q t False n =
    Some (True, q\<lparr>headerList := map header_norm hs, content := (if c = [] then None else Some c)\<rparr>, t') \<and>
    sock_after t t' r"
proof -
  define q1 where "q1 = q\<lparr>headerList := map header_norm hs, content := None\<rparr>"
  obtain t1 where hd: "mupnp_http_packet_read_headers (mupnp_http_packet_clear q) t n = Some (q1, t1)"
      and t1: "sock_after t t1 (c @ r)"
    using read_headers_correct [of t hs "c @ r" n "mupnp_http_packet_clear q"] assms(1-3)
    by (auto simp: q1_def mupnp_http_packet_clear_def)
  have "mupnp_http_packet_getheadervalue q1 (Some ''Content-Length'') = Some (show_nat 10 (length c))"
    using assms(4) by (simp add: mupnp_http_packet_getheadervalue_def q1_def getvalue_norm)
  then obtain t' where "mupnp_http_packet_read_body A q1 t1 n =
      (True, q1\<lparr>content := (if c = [] then content q1 else Some c)\<rparr>, t')" "sock_after t1 t' r"
    using read_body_length [of q1 c t1 r A n] assms(5,6) t1 by (auto simp: alloc_for_total sock_after_def)
  with hd t1 show ?thesis
    by (auto simp: mupnp_http_packet_read_def q1_def intro: sock_after_trans)
qed

lemma packet_read_chunked:
  assumes "instream t = headers_text hs @ concat (map chunk_text bs) @ last_chunk_text @ r"
    and "\<forall>h \<in> set hs. header_ok n h" and "18 < n"
    and "mupnp_http_headerlist_get hs (Some ''Content-Length'') = None"
    and "mupnp_http_headerlist_getvalue hs (Some ''Transfer-Encoding'') = Some ''Chunked''"
    and "[] \<notin> set bs" and "int (length (concat bs)) < LONG_MAX" and "total_allocator A"
  shows "\<exists>t'. mupnp_http_packet_read A q t False n =
    Some (True, mupnp_http_packet_setcontentlength
        (q\<lparr>headerList := map header_norm hs, content := (if bs = [] then None else Some (concat bs))\<rparr>)
        (int (length (concat bs))), t') \<and>
    sock_after t t' r"
proof -
  define q1 where "q1 = q\<lparr>headerList := map header_norm hs, content := None\<rparr>"
  let ?b = "concat (map chunk_text bs) @ last_chunk_text @ r"
  obtain t1 where hd: "mupnp_http_packet_read_headers (mupnp_http_packet_clear q) t n = Some (q1, t1)"
      and t1: "sock_after t t1 ?b"
    using read_headers_correct [of t hs ?b n "mupnp_http_packet_clear q"] assms(1-3)
    by (auto simp: q1_def mupnp_http_packet_clear_def)
  have "mupnp_http_packet_getheadervalue q1 (Some ''Content-Length'') = None" "mupnp_http_packet_ischunked q1"
    using assms(4,5) by (simp_all add: mupnp_http_packet_getheadervalue_def q1_def getvalue_norm
        getvalue_norm_None mupnp_http_packet_ischunked_def mupnp_strcaseeq_def)
  then obtain t' where "mupnp_http_packet_read_body A q1 t1 n =
      (True, mupnp_http_packet_setcontentlength
         (q1\<lparr>content := (if bs = [] then content q1 else Some (str_bytes (content q1) @ concat bs))\<rparr>)
         (int (length (concat bs))), t')" "sock_after t1 t' r"
    using read_body_chunked [of q1 t1 bs r n A] assms(3,6-8) t1 by (auto simp: alloc_for_total sock_after_def)
  with hd t1 show ?thesis
    by (auto simp: mupnp_http_packet_read_def q1_def intro: sock_after_trans)
qed

lemma announced_show:
  assumes "mupnp_http_packet_getheadervalue p (Some ''Content-Length'') = Some (show_nat 10 k)" and "int k < LONG_MAX"
  shows "announced p = k"
proof -
  have "c_atol (show_int (int k)) = int k"
    using assms(2) c_strtol10_show_int [of "int k" "[]"]
    by (simp add: c_atol_def long_range_def LONG_MAX_def LONG_MIN_def)
  moreover have "show_int (int k) = show_nat 10 k" by (simp add: show_int_def)
  ultimately show ?thesis
    using assms by (simp add: announced_def mupnp_http_packet_getcontentlength_def
        mupnp_http_packet_getheaderssizet_def unat_of_nat LONG_MAX_def)
qed

lemma ssizet2str_nat: "int k < LONG_MAX \<Longrightarrow> mupnp_ssizet2str (int k) MUPNP_STRING_LONG_BUFLEN = show_nat 10 k"
  using long2str_buflen [of "int k"]
  by (simp add: mupnp_ssizet2str_def mupnp_long2str_def long_range_def LONG_MAX_def LONG_MIN_def show_int_def)

section \<open>Properties\<close>

text \<open>C8: \<open>read_exact\<close> asks for no more memory than twice the bytes that are there to be read (or
  64 KiB), whatever length the peer announced: with an allocator that serves the requests up to
  this bound, and perhaps no others, it never stops for want of memory.  It returns exactly the
  announced bytes and leaves the rest in the stream; when they are not all there it has read
  the stream to its end before it fails.\<close>

theorem read_exact_demand:
  assumes "\<forall>k \<le> max (MUPNP_HTTP_PACKET_READ_INITIAL_BUFSIZE + 1) (2 * length (instream s) + 1). can_alloc A k"
  shows "if len \<le> length (instream s) then
      \<exists>s'. mupnp_http_packet_read_exact A s len = (Some (take len (instream s)), s') \<and>
           instream s' = drop len (instream s) \<and> outstream s' = outstream s
    else \<exists>s'. mupnp_http_packet_read_exact A s len = (None, s') \<and> instream s' = [] \<and> outstream s' = outstream s"
  using read_exact_correct [of A s len] assms by (auto simp: alloc_upto_def sock_after_def)

theorem read_exact_demand_witness:
  "\<exists>s'. mupnp_http_packet_read_exact \<lparr>can_alloc = \<lambda>n. n \<le> 65537, junk = CHR ''?''\<rparr>
     \<lparr>instream = ''abc'', recvSizes = [0], recvFails = False, nonblocking = False, sendResults = [], outstream = []\<rparr> 1000000000
     = (None, s') \<and> instream s' = []"
  using read_exact_demand [of "\<lparr>instream = ''abc'', recvSizes = [0], recvFails = False, nonblocking = False, sendResults = [], outstream = []\<rparr>"
      "\<lparr>can_alloc = \<lambda>n. n \<le> 65537, junk = CHR ''?''\<rparr>" 1000000000]
  by (auto simp: MUPNP_HTTP_PACKET_READ_INITIAL_BUFSIZE_def)

text \<open>C9: A chunked body, as the posting functions send it, is read back as the concatenation of
  its chunks, however the stream delivers the bytes; the length of the whole body is stored in
  the Content-Length header and what follows the body is left in the stream.\<close>

theorem chunked_body_read:
  assumes "mupnp_http_packet_getheadervalue p (Some ''Content-Length'') = None"
    and "mupnp_http_packet_ischunked p" and "content p = None"
    and "instream s = concat (map chunk_text bs) @ last_chunk_text @ r" and "[] \<notin> set bs" and "bs \<noteq> []"
    and "int (length (concat bs)) < LONG_MAX" and "18 < n" and "total_allocator A"
  shows "\<exists>p' s'. mupnp_http_packet_read_body A p s n = (True, p', s') \<and> content p' = Some (concat bs) \<and>
    mupnp_http_packet_getheadervalue p' (Some ''Content-Length'') = Some (show_nat 10 (length (concat bs))) \<and>
    instream s' = r"
proof -
  define p1 where "p1 = p\<lparr>content := Some (concat bs)\<rparr>"
  obtain s' where s': "mupnp_http_packet_read_body A p s n =
      (True, mupnp_http_packet_setcontentlength p1 (int (length (concat bs))), s')" "instream s' = r"
    using read_body_chunked [of p s bs r n A] assms by (auto simp: alloc_for_total sock_after_def p1_def)
  have "mupnp_http_packet_setcontentlength p1 (int (length (concat bs))) =
      p1\<lparr>headerList := mupnp_http_headerlist_set (headerList p1) (Some ''Content-Length'')
        (Some (show_nat 10 (length (concat bs))))\<rparr>"
    using assms(7) by (simp add: mupnp_http_packet_setcontentlength_def mupnp_http_packet_setheaderssizet_def
        mupnp_http_packet_setheadervalue_def ssizet2str_nat)
  then show ?thesis using s' by (simp add: mupnp_http_packet_getheadervalue_def headerlist_get_set p1_def)
qed

theorem chunked_body_read_witness:
  "\<exists>p' s'. mupnp_http_packet_read_body \<lparr>can_alloc = \<lambda>_. True, junk = CHR ''?''\<rparr>
     \<lparr>headerList = [\<lparr>hname = Some ''Transfer-Encoding'', hvalue = Some ''chunked''\<rparr>], content = None\<rparr>
     \<lparr>instream = concat (map chunk_text [''abc'', ''de'']) @ last_chunk_text @ ''x'', recvSizes = [],
      recvFails = False, nonblocking = False, sendResults = [], outstream = []\<rparr> 512 = (True, p', s') \<and>
     content p' = Some ''abcde'' \<and> instream s' = ''x''"
proof -
  let ?p = "\<lparr>headerList = [\<lparr>hname = Some ''Transfer-Encoding'', hvalue = Some ''chunked''\<rparr>], content = None\<rparr>"
  let ?s = "\<lparr>instream = concat (map chunk_text [''abc'', ''de'']) @ last_chunk_text @ ''x'', recvSizes = [],
      recvFails = False, nonblocking = False, sendResults = [], outstream = []\<rparr>"
  have "mupnp_http_packet_getheadervalue ?p (Some ''Content-Length'') = None" "mupnp_http_packet_ischunked ?p"
    by code_simp+
  with chunked_body_read [of ?p ?s "[''abc'', ''de'']" "''x''" 512 "\<lparr>can_alloc = \<lambda>_. True, junk = CHR ''?''\<rparr>"] show ?thesis
    by (auto simp: LONG_MAX_def total_allocator_def)
qed

text \<open>C10: What \<open>mupnp_http_packet_post\<close> sends is read back by \<open>mupnp_http_packet_read\<close> with the
  same headers in the same order and the same content, for headers whose lines fit the line
  buffer and a Content-Length header that is the length of the content; a missing header value
  is read as the empty one.  The system may cut the bytes on both sides as it likes.\<close>

theorem packet_roundtrip:
  assumes "writable s" and "outstream s = []"
    and "\<forall>h \<in> set (headerList p). header_ok n h" and "3 < n"
    and "mupnp_http_packet_getheadervalue p (Some ''Content-Length'') = Some (show_nat 10 (length (str_bytes (content p))))"
    and "int (length (str_bytes (content p))) < LONG_MAX" and "total_allocator A"
  shows "\<exists>s' q' t'. mupnp_http_packet_post p s = Some s' \<and>
    mupnp_http_packet_read A q (t\<lparr>instream := outstream s' @ r\<rparr>) False n = Some (True, q', t') \<and>
    headerList q' = map header_norm (headerList p) \<and> str_bytes (content q') = str_bytes (content p) \<and>
    instream t' = r"
proof -
  define c where "c = str_bytes (content p)"
  have ann: "announced p = length c"
    using assms(5,6) announced_show by (simp add: c_def)
  then obtain s' where post: "mupnp_http_packet_post p s = Some s'"
      and sent: "sent s (headers_text (headerList p) @ c) s'"
    using packet_post_sent [of s "[]" s p] assms(1) by (auto simp: sent_refl c_def)
  then have out: "outstream s' = headers_text (headerList p) @ c"
    using assms(2) by (simp add: sent_def wrote_def)
  have "mupnp_http_headerlist_getvalue (headerList p) (Some ''Content-Length'') = Some (show_nat 10 (length c))"
    using assms(5) by (simp add: mupnp_http_packet_getheadervalue_def c_def)
  then obtain t' where "mupnp_http_packet_read A q (t\<lparr>instream := outstream s' @ r\<rparr>) False n =
      Some (True, q\<lparr>headerList := map header_norm (headerList p), content := (if c = [] then None else Some c)\<rparr>, t')"
      "instream t' = r"
    using packet_read_text [of "t\<lparr>instream := outstream s' @ r\<rparr>" "headerList p" c r n A q] assms(3,4,6,7) out
    by (auto simp: c_def sock_after_def)
  with post show ?thesis by (auto simp: c_def)
qed

theorem packet_roundtrip_witness:
  "\<exists>s' q' t'. mupnp_http_packet_post
      \<lparr>headerList = [\<lparr>hname = Some ''Host'', hvalue = Some ''10.0.0.1:80''\<rparr>,
                     \<lparr>hname = Some ''Content-Length'', hvalue = Some ''2''\<rparr>], content = Some ''hi''\<rparr>
      \<lparr>instream = [], recvSizes = [], recvFails = False, nonblocking = False, sendResults = [Sends 1, Again, Sends (-1)], outstream = []\<rparr> = Some s' \<and>
    mupnp_http_packet_read \<lparr>can_alloc = \<lambda>_. True, junk = CHR ''?''\<rparr> \<lparr>headerList = [], content = None\<rparr>
      (\<lparr>instream = [], recvSizes = [3], recvFails = False, nonblocking = False, sendResults = [], outstream = []\<rparr>\<lparr>instream := outstream s' @ []\<rparr>)
      False 512 = Some (True, q', t') \<and> str_bytes (content q') = ''hi''"
proof -
  let ?p = "\<lparr>headerList = [\<lparr>hname = Some ''Host'', hvalue = Some ''10.0.0.1:80''\<rparr>,
                     \<lparr>hname = Some ''Content-Length'', hvalue = Some ''2''\<rparr>], content = Some ''hi''\<rparr>"
  let ?s = "\<lparr>instream = [], recvSizes = [], recvFails = False, nonblocking = False, sendResults = [Sends 1, Again, Sends (-1)], outstream = []\<rparr>"
  have "mupnp_http_packet_getheadervalue ?p (Some ''Content-Length'') = Some ''2''"
    "\<forall>h \<in> set (headerList ?p). header_ok 512 h" "writable ?s"
    "show_nat 10 (length (str_bytes (content ?p))) = ''2''"
    by code_simp+
  then show ?thesis
    using packet_roundtrip [where s = ?s and p = ?p and n = 512 and r = "[]"
        and A = "\<lparr>can_alloc = \<lambda>_. True, junk = CHR ''?''\<rparr>" and q = "\<lparr>headerList = [], content = None\<rparr>"
        and t = "\<lparr>instream = [], recvSizes = [3], recvFails = False, nonblocking = False, sendResults = [], outstream = []\<rparr>"]
    by (auto simp: LONG_MAX_def total_allocator_def)
qed

end
