(* ===== verification/HttpDate.thy ===== *)
theory HttpDate
  imports StringFunction
begin

section \<open>HTTP dates (src/mupnp/http/http_date.c)\<close>

text \<open>
  The date that every response carries.  \<open>gmtime\<close> of the C library is modelled for times at
  or after the epoch: it counts years and then months off the number of days.
\<close>

record c_tm =
  tm_wday :: int
  tm_mday :: int
  tm_mon :: int
  tm_year :: int
  tm_hour :: int
  tm_min :: int
  tm_sec :: int

definition leap_year :: "nat \<Rightarrow> bool" where
  "leap_year y \<longleftrightarrow> y mod 4 = 0 \<and> (y mod 100 \<noteq> 0 \<or> y mod 400 = 0)"

definition year_days :: "nat \<Rightarrow> nat" where
  "year_days y = (if leap_year y then 366 else 365)"

definition month_days :: "nat \<Rightarrow> nat list" where
  "month_days y = [31, if leap_year y then 29 else 28, 31, 30, 31, 30, 31, 31, 30, 31, 30, 31]"

function gm_year :: "nat \<Rightarrow> nat \<Rightarrow> nat \<times> nat" where
  "gm_year y d = (if d < year_days y then (y, d) else gm_year (y + 1) (d - year_days y))"
  by pat_completeness auto
termination
  by (relation "measure snd") (auto simp: year_days_def split: if_splits)

declare gm_year.simps [simp del]

fun gm_month :: "nat list \<Rightarrow> nat \<Rightarrow> nat \<Rightarrow> nat \<times> nat" where
  "gm_month [] m d = (m, d)"
| "gm_month (l # ls) m d = (if d < l then (m, d) else gm_month ls (m + 1) (d - l))"

definition c_gmtime :: "nat \<Rightarrow> c_tm" where
  "c_gmtime t =
     (let days = t div 86400;
          (y, yday) = gm_year 1970 days;
          (m, mday) = gm_month (month_days y) 0 yday
      in \<lparr>tm_wday = int ((days + 4) mod 7), tm_mday = int mday + 1, tm_mon = int m, tm_year = int y - 1900,
          tm_hour = int (t mod 86400 div 3600), tm_min = int (t mod 3600 div 60), tm_sec = int (t mod 60)\<rparr>)"

definition monthString :: "cstring list" where
  "monthString = [''Jan'', ''Feb'', ''Mar'', ''Apr'', ''May'', ''Jun'', ''Jul'', ''Aug'', ''Sep'', ''Oct'', ''Nov'', ''Dec'']"

definition to_month_string :: "int \<Rightarrow> cstring" where
  "to_month_string v = (if 0 \<le> v \<and> v < 12 then monthString ! nat v else [])"

definition weekString :: "cstring list" where
  "weekString = [''Sun'', ''Mon'', ''Tue'', ''Wed'', ''Thu'', ''Fri'', ''Sat'']"

definition to_week_string :: "int \<Rightarrow> cstring" where
  "to_week_string v = (if 0 \<le> v \<and> v < 7 then weekString ! nat v else [])"

text \<open>The conversion \<open>%0nd\<close> of printf, for numbers that are not negative.\<close>

definition show_padded :: "nat \<Rightarrow> int \<Rightarrow> string" where
  "show_padded n v = replicate (n - length (show_int v)) (CHR ''0'') @ show_int v"

definition mupnp_http_getdate :: "nat \<Rightarrow> nat \<Rightarrow> cstring" where
  "mupnp_http_getdate sysTime bufSize =
     (let gmTime = c_gmtime sysTime
      in c_snprintf bufSize
           (to_week_string (tm_wday gmTime) @ '', '' @ show_padded 2 (tm_mday gmTime) @ '' '' @
            to_month_string (tm_mon gmTime) @ '' '' @ show_padded 4 (tm_year gmTime + 1900) @ '' '' @
            show_padded 2 (tm_hour gmTime) @ '':'' @ show_padded 2 (tm_min gmTime) @ '':'' @
            show_padded 2 (tm_sec gmTime) @ '' GMT''))"

section \<open>The shape of a date\<close>

lemma gm_month_less:
  "d < sum_list ls \<Longrightarrow> gm_month ls m d = (m', d') \<Longrightarrow> m \<le> m' \<and> m' < m + length ls \<and> d' < ls ! (m' - m)"
proof (induction ls m d rule: gm_month.induct)
  case (2 l ls m d)
  show ?case
  proof (cases "d < l")
    case False
    with 2 have "m + 1 \<le> m' \<and> m' < m + 1 + length ls \<and> d' < ls ! (m' - (m + 1))" by simp
    then show ?thesis by (auto simp: nth_Cons')
  qed (use 2 in auto)
qed simp

lemma gm_year_less: "gm_year y d = (y', d') \<Longrightarrow> d' < year_days y' \<and> y \<le> y' \<and> y' \<le> y + d div 365"
proof (induction y d rule: gm_year.induct)
  case (1 y d)
  show ?case
  proof (cases "d < year_days y")
    case True
    with 1(2) show ?thesis by (subst (asm) gm_year.simps) auto
  next
    case False
    with 1 have ih: "d' < year_days y' \<and> y + 1 \<le> y' \<and> y' \<le> y + 1 + (d - year_days y) div 365"
      by (subst (asm) (2) gm_year.simps) simp
    have "1 + (d - year_days y) div 365 \<le> d div 365"
    proof -
      have "(d - year_days y) div 365 \<le> (d - 365) div 365" by (intro div_le_mono diff_le_mono2) (simp add: year_days_def)
      moreover have "365 \<le> d" using False by (simp add: year_days_def split: if_splits)
      ultimately show ?thesis by (simp add: le_div_geq)
    qed
    with ih show ?thesis by simp
  qed
qed

lemma month_days_sum: "sum_list (month_days y) = year_days y" "length (month_days y) = 12"
  by (simp_all add: month_days_def year_days_def)

lemma month_days_le: "m < 12 \<Longrightarrow> month_days y ! m \<le> 31"
  by (auto simp: month_days_def nth_Cons' dest: less_antisym)

lemma gmtime_ranges:
  "0 \<le> tm_wday (c_gmtime t) \<and> tm_wday (c_gmtime t) < 7" "1 \<le> tm_mday (c_gmtime t) \<and> tm_mday (c_gmtime t) \<le> 31"
  "0 \<le> tm_mon (c_gmtime t) \<and> tm_mon (c_gmtime t) < 12" "0 \<le> tm_hour (c_gmtime t) \<and> tm_hour (c_gmtime t) < 24"
  "0 \<le> tm_min (c_gmtime t) \<and> tm_min (c_gmtime t) < 60" "0 \<le> tm_sec (c_gmtime t) \<and> tm_sec (c_gmtime t) < 60"
  "1970 \<le> tm_year (c_gmtime t) + 1900 \<and> tm_year (c_gmtime t) + 1900 \<le> 1970 + int (t div 86400 div 365)"
proof -
  obtain y yday where y: "gm_year 1970 (t div 86400) = (y, yday)" by fastforce
  obtain m mday where m: "gm_month (month_days y) 0 yday = (m, mday)" by fastforce
  from gm_year_less [OF y] have yl: "yday < sum_list (month_days y)" "1970 \<le> y" "y \<le> 1970 + t div 86400 div 365"
    by (simp_all add: month_days_sum)
  from gm_month_less [OF yl(1) m] have ml: "m < 12" "mday < month_days y ! m" by (simp_all add: month_days_sum)
  with month_days_le [of m y] have "mday < 31" by simp
  have eq: "c_gmtime t = \<lparr>tm_wday = int ((t div 86400 + 4) mod 7), tm_mday = int mday + 1, tm_mon = int m,
      tm_year = int y - 1900, tm_hour = int (t mod 86400 div 3600), tm_min = int (t mod 3600 div 60),
      tm_sec = int (t mod 60)\<rparr>"
    using y m by (simp add: c_gmtime_def Let_def)
  have h: "t mod 86400 div 3600 < 24" "t mod 3600 div 60 < 60" by (simp_all add: less_mult_imp_div_less)
  show "0 \<le> tm_wday (c_gmtime t) \<and> tm_wday (c_gmtime t) < 7" "1 \<le> tm_mday (c_gmtime t) \<and> tm_mday (c_gmtime t) \<le> 31"
    "0 \<le> tm_mon (c_gmtime t) \<and> tm_mon (c_gmtime t) < 12" "0 \<le> tm_hour (c_gmtime t) \<and> tm_hour (c_gmtime t) < 24"
    "0 \<le> tm_min (c_gmtime t) \<and> tm_min (c_gmtime t) < 60" "0 \<le> tm_sec (c_gmtime t) \<and> tm_sec (c_gmtime t) < 60"
    "1970 \<le> tm_year (c_gmtime t) + 1900 \<and> tm_year (c_gmtime t) + 1900 \<le> 1970 + int (t div 86400 div 365)"
    unfolding eq using \<open>mday < 31\<close> ml(1) yl(2,3) h by simp_all
qed

lemma length_show_padded: "0 \<le> v \<Longrightarrow> v < 10 ^ n \<Longrightarrow> 0 < n \<Longrightarrow> length (show_padded n v) = n"
proof -
  assume v: "0 \<le> v" "v < 10 ^ n" "0 < n"
  then have "nat v < 10 ^ n" by (simp add: nat_less_iff)
  then have "length (show_nat 10 (nat v)) \<le> n" using v(3) by (intro length_show_nat) simp_all
  moreover have "show_int v = show_nat 10 (nat v)" using v(1) by (simp add: show_int_def)
  ultimately show ?thesis by (simp add: show_padded_def)
qed

definition date_char :: "char \<Rightarrow> bool" where
  "date_char c \<longleftrightarrow> c \<noteq> NUL \<and> c \<noteq> CHR 0x0A \<and> c \<noteq> CHR 0x0D"

lemma date_chars_padded: "c \<in> set (show_padded n v) \<Longrightarrow> date_char c"
  by (auto simp: show_padded_def date_char_def c_isdigit_def dest: show_int_chars)

lemma date_names:
  "0 \<le> v \<Longrightarrow> v < 7 \<Longrightarrow> length (to_week_string v) = 3 \<and> (\<forall>c \<in> set (to_week_string v). date_char c \<and> c \<noteq> CHR '' '' \<and> c \<noteq> CHR '':'')"
  "0 \<le> w \<Longrightarrow> w < 12 \<Longrightarrow> length (to_month_string w) = 3 \<and> (\<forall>c \<in> set (to_month_string w). date_char c)"
proof -
  have nth: "list_all P xs \<Longrightarrow> i < length xs \<Longrightarrow> P (xs ! i)" for P i and xs :: "cstring list"
    by (simp add: list_all_length)
  have w: "list_all (\<lambda>s. length s = 3 \<and> (\<forall>c \<in> set s. date_char c \<and> c \<noteq> CHR '' '' \<and> c \<noteq> CHR '':'')) weekString"
    by (simp add: weekString_def date_char_def)
  show "length (to_week_string v) = 3 \<and> (\<forall>c \<in> set (to_week_string v). date_char c \<and> c \<noteq> CHR '' '' \<and> c \<noteq> CHR '':'')"
    if "0 \<le> v" "v < 7"
    using nth [OF w, of "nat v"] that by (simp add: to_week_string_def weekString_def)
  have m: "list_all (\<lambda>s. length s = 3 \<and> (\<forall>c \<in> set s. date_char c)) monthString"
    by (simp add: monthString_def date_char_def)
  show "length (to_month_string w) = 3 \<and> (\<forall>c \<in> set (to_month_string w). date_char c)" if "0 \<le> w" "w < 12"
    using nth [OF m, of "nat w"] that by (simp add: to_month_string_def monthString_def)
qed

text \<open>Up to the year 9999 the date has its fixed length of 29 characters.\<close>

lemma getdate_shape:
  assumes "t div 86400 div 365 < 8030" and "30 \<le> n"
  shows "length (mupnp_http_getdate t n) = 29" and "\<forall>c \<in> set (mupnp_http_getdate t n). date_char c"
    and "hd (mupnp_http_getdate t n) \<notin> {CHR '' '', CHR '':''}" and "last (mupnp_http_getdate t n) = CHR ''T''"
proof -
  define g where "g = c_gmtime t"
  note r = gmtime_ranges [of t, folded g_def]
  define wd where "wd = to_week_string (tm_wday g)"
  define mo where "mo = to_month_string (tm_mon g)"
  have wd: "length wd = 3" "\<forall>c \<in> set wd. date_char c \<and> c \<noteq> CHR '' '' \<and> c \<noteq> CHR '':''"
    using date_names(1) [of "tm_wday g"] r(1) by (simp_all add: wd_def)
  have mo: "length mo = 3" "\<forall>c \<in> set mo. date_char c"
    using date_names(2) [of "tm_mon g"] r(3) by (simp_all add: mo_def)
  define s where "s = wd @ '', '' @ show_padded 2 (tm_mday g) @ '' '' @ mo @ '' '' @
      show_padded 4 (tm_year g + 1900) @ '' '' @ show_padded 2 (tm_hour g) @ '':'' @ show_padded 2 (tm_min g) @
      '':'' @ show_padded 2 (tm_sec g) @ '' GMT''"
  have len: "length s = 29"
    using r wd(1) mo(1) assms(1) by (simp add: s_def length_show_padded)
  with assms(2) have eq: "mupnp_http_getdate t n = s"
    by (simp add: mupnp_http_getdate_def c_snprintf_def Let_def s_def wd_def mo_def g_def)
  show "length (mupnp_http_getdate t n) = 29" by (simp add: eq len)
  have "date_char (CHR '','')" "date_char (CHR '' '')" "date_char (CHR '':'')" "date_char (CHR ''G'')"
    "date_char (CHR ''M'')" "date_char (CHR ''T'')"
    by (simp_all add: date_char_def)
  moreover have "\<forall>c \<in> set (show_padded k v). date_char c" for k v using date_chars_padded by blast
  moreover have "\<forall>c \<in> set wd. date_char c" using wd(2) by blast
  ultimately show "\<forall>c \<in> set (mupnp_http_getdate t n). date_char c"
    using mo(2) unfolding eq s_def set_append ball_Un by simp
  have "hd wd \<in> set wd" "wd \<noteq> []" using wd(1) by (auto intro: hd_in_set)
  with wd(2) show "hd (mupnp_http_getdate t n) \<notin> {CHR '' '', CHR '':''}" by (auto simp: eq s_def)
  show "last (mupnp_http_getdate t n) = CHR ''T''" by (simp add: eq s_def)
qed

end
