(* ===== verification/HttpResponse.thy ===== *)
theory HttpResponse
  imports HttpWire HttpDate
begin

section \<open>HTTP responses (src/mupnp/http/http.c, http_response.c)\<close>

text \<open>
  A response is a packet with a version, a status code and a reason phrase.  Clearing one with
  \<open>setversion (NULL)\<close> keeps the old version, because setting a string to NULL does nothing.
  User data is an opaque pointer, modelled as an address.
\<close>

record mUpnpHttpResponse = mUpnpHttpPacket +
  resVersion :: charptr
  statusCode :: int
  reasonPhrase :: charptr
  resUserData :: "nat option"
  resTimeout :: int

definition MUPNP_HTTP_READLINE_BUFSIZE :: nat where "MUPNP_HTTP_READLINE_BUFSIZE = 512"
definition MUPNP_HTTP_STATUSLINE_DELIM :: cstring where "MUPNP_HTTP_STATUSLINE_DELIM = [CR, LF, CHR '' '']"
definition MUPNP_HTTP_CONN_TIMEOUT :: int where "MUPNP_HTTP_CONN_TIMEOUT = 30"
definition MUPNP_HTTP_VER11 :: cstring where "MUPNP_HTTP_VER11 = ''HTTP/1.1''"
definition MUPNP_HTTP_VER10 :: cstring where "MUPNP_HTTP_VER10 = ''HTTP/1.0''"

definition mupnp_http_statuscode2reasonphrase :: "int \<Rightarrow> cstring" where
  "mupnp_http_statuscode2reasonphrase code =
     (if code = 100 then ''Continue''
     else if code = 101 then ''Switching Protocols''
     else if code = 200 then ''OK''
     else if code = 201 then ''Created''
     else if code = 202 then ''Accepted''
     else if code = 203 then ''Non-Authoritative Information''
     else if code = 204 then ''No Content''
     else if code = 205 then ''Reset Content''
     else if code = 206 then ''Partial Content''
     else if code = 300 then ''Multiple Choices''
     else if code = 301 then ''Moved Permanently''
     else if code = 302 then ''Found''
     else if code = 303 then ''See Other''
     else if code = 304 then ''Not Modified''
     else if code = 305 then ''Use Proxy''
     else if code = 307 then ''Temporary Redirect''
     else if code = 400 then ''Bad Request''
     else if code = 401 then ''Unauthorized''
     else if code = 402 then ''Payment Required''
     else if code = 403 then ''Forbidden''
     else if code = 404 then ''Not Found''
     else if code = 405 then ''Method Not Allowed''
     else if code = 406 then ''Not Acceptable''
     else if code = 407 then ''Proxy Authentication Required''
     else if code = 408 then ''Request Time-out''
     else if code = 409 then ''Conflict''
     else if code = 410 then ''Gone''
     else if code = 411 then ''Length Required''
     else if code = 412 then ''Precondition Failed''
     else if code = 413 then ''Request Entity Too Large''
     else if code = 414 then ''Request-URI Too Large''
     else if code = 415 then ''Unsupported Media Type''
     else if code = 416 then ''Requested range not satisfiable''
     else if code = 417 then ''Expectation Failed''
     else if code = 500 then ''Internal Server Error''
     else if code = 501 then ''Not Implemented''
     else if code = 502 then ''Bad Gateway''
     else if code = 503 then ''Service Unavailable''
     else if code = 504 then ''Gateway Time-out''
     else if code = 505 then ''HTTP Version not supported''
      else ''Unknown'')"

definition mupnp_http_response_setversion :: "mUpnpHttpResponse \<Rightarrow> charptr \<Rightarrow> mUpnpHttpResponse" where
  "mupnp_http_response_setversion httpRes v = httpRes\<lparr>resVersion := str_set (resVersion httpRes) v\<rparr>"

definition mupnp_http_response_getversion :: "mUpnpHttpResponse \<Rightarrow> charptr" where
  "mupnp_http_response_getversion httpRes = resVersion httpRes"

definition mupnp_http_response_setreasonphrase :: "mUpnpHttpResponse \<Rightarrow> charptr \<Rightarrow> mUpnpHttpResponse" where
  "mupnp_http_response_setreasonphrase httpRes v = httpRes\<lparr>reasonPhrase := str_set (reasonPhrase httpRes) v\<rparr>"

definition mupnp_http_response_getreasonphrase :: "mUpnpHttpResponse \<Rightarrow> charptr" where
  "mupnp_http_response_getreasonphrase httpRes = reasonPhrase httpRes"

definition mupnp_http_response_setstatuscode :: "mUpnpHttpResponse \<Rightarrow> int \<Rightarrow> mUpnpHttpResponse" where
  "mupnp_http_response_setstatuscode httpRes v =
     mupnp_http_response_setreasonphrase (httpRes\<lparr>statusCode := v\<rparr>)
       (Some (mupnp_http_statuscode2reasonphrase v))"

definition mupnp_http_response_getstatuscode :: "mUpnpHttpResponse \<Rightarrow> int" where
  "mupnp_http_response_getstatuscode httpRes = statusCode httpRes"

definition mupnp_http_response_issuccessful :: "mUpnpHttpResponse \<Rightarrow> bool" where
  "mupnp_http_response_issuccessful httpRes \<longleftrightarrow>
     mupnp_http_response_getstatuscode httpRes \<ge> 200 \<and> mupnp_http_response_getstatuscode httpRes < 300"

definition mupnp_http_response_new :: mUpnpHttpResponse where
  "mupnp_http_response_new =
     (let httpRes = \<lparr>headerList = mupnp_http_headerlist_new, content = None, resVersion = None, statusCode = 0,
                     reasonPhrase = None, resUserData = None, resTimeout = MUPNP_HTTP_CONN_TIMEOUT\<rparr>;
          httpRes = mupnp_http_response_setversion httpRes (Some MUPNP_HTTP_VER11)
      in mupnp_http_response_setstatuscode httpRes 400)"

definition mupnp_http_response_clear :: "mUpnpHttpResponse \<Rightarrow> mUpnpHttpResponse" where
  "mupnp_http_response_clear httpRes =
     (let httpRes = mupnp_http_packet_clear httpRes;
          httpRes = mupnp_http_response_setversion httpRes None;
          httpRes = mupnp_http_response_setstatuscode httpRes 500;
          httpRes = mupnp_http_response_setreasonphrase httpRes None
      in httpRes\<lparr>resUserData := None\<rparr>)"

text \<open>
  The next token of a line, if there is one: the outer option is \<open>hasmoretoken\<close>, the inner one
  the pointer that \<open>nexttoken\<close> returns.
\<close>

definition next_word :: "mUpnpStringTokenizer \<Rightarrow> mUpnpStringTokenizer \<times> charptr option" where
  "next_word strTok =
     (if mupnp_string_tokenizer_hasmoretoken strTok then
        (case mupnp_string_tokenizer_nexttoken strTok of (strTok, p) \<Rightarrow> (strTok, Some (token_text strTok p)))
      else (strTok, None))"

text \<open>\<open>None\<close> is \<open>atoi (NULL)\<close>, or a write through NULL in \<open>nextalltoken\<close>.\<close>

definition read_status_line :: "mUpnpHttpResponse \<Rightarrow> cstring \<Rightarrow> mUpnpHttpResponse option" where
  "read_status_line httpRes line =
     (let strTok = mupnp_string_tokenizer_new (Some line) (Some MUPNP_HTTP_STATUSLINE_DELIM);
          (strTok, ver) = next_word strTok;
          httpRes = (case ver of Some v \<Rightarrow> mupnp_http_response_setversion httpRes v | None \<Rightarrow> httpRes);
          (strTok, code) = next_word strTok
      in do {
        httpRes \<leftarrow> (case code of None \<Rightarrow> Some httpRes
                   | Some t \<Rightarrow> map_option (\<lambda>t. mupnp_http_response_setstatuscode httpRes (c_atoi t)) t);
        if mupnp_string_tokenizer_hasmoretoken strTok then do {
          (strTok, p) \<leftarrow> mupnp_string_tokenizer_nextalltoken strTok;
          token \<leftarrow> token_text strTok p;
          Some (mupnp_http_response_setreasonphrase httpRes
                  (Some (mupnp_strrtrim token MUPNP_HTTP_STATUSLINE_DELIM
                           (mupnp_strlen (Some MUPNP_HTTP_STATUSLINE_DELIM))))) }
        else Some httpRes })"

definition mupnp_http_response_read ::
    "allocator \<Rightarrow> mUpnpHttpResponse \<Rightarrow> mUpnpSocket \<Rightarrow> bool \<Rightarrow> (bool \<times> mUpnpHttpResponse \<times> mUpnpSocket) option" where
  "mupnp_http_response_read A httpRes sock onlyHeader =
     (let httpRes = mupnp_http_response_clear httpRes in
      case mupnp_socket_readline sock MUPNP_HTTP_READLINE_BUFSIZE of
        (readLen, lineBuf, sock) \<Rightarrow>
          if readLen \<le> 0 then Some (False, httpRes, sock)
          else do {
            httpRes \<leftarrow> read_status_line httpRes (cstr lineBuf);
            mupnp_http_packet_read A httpRes sock onlyHeader MUPNP_HTTP_READLINE_BUFSIZE })"

definition mupnp_http_response_copy :: "mUpnpHttpResponse \<Rightarrow> mUpnpHttpResponse \<Rightarrow> mUpnpHttpResponse" where
  "mupnp_http_response_copy dest src =
     (let dest = mupnp_http_response_setversion dest (mupnp_http_response_getversion src);
          dest = mupnp_http_response_setstatuscode dest (mupnp_http_response_getstatuscode src);
          dest = mupnp_http_response_setreasonphrase dest (mupnp_http_response_getreasonphrase src)
      in mupnp_http_packet_copy dest src)"

end
