(* ===== verification/HttpRequest.thy ===== *)
theory HttpRequest
  imports HttpResponse Uri
begin

section \<open>HTTP requests (src/mupnp/http/http_request.c)\<close>

text \<open>
  Requests, on the client side (post a request and read its response) and on the server side
  (read a request, post a response or chunks).  The socket of a request is a pointer that the
  caller keeps as well, so its state is passed to the operations and returned by them instead
  of being copied into the record.  The result \<open>None\<close> is a crash of the code, as in
  \<open>HttpPacket\<close>.  Connecting is a parameter: the connected socket, or \<open>None\<close> when the
  connection fails.  The version of the file without libcurl is modelled.
\<close>

record mUpnpHttpRequest = mUpnpHttpPacket +
  reqMethod :: charptr
  reqUri :: charptr
  reqVersion :: charptr
  userAgent :: charptr
  httpRes :: mUpnpHttpResponse
  postURL :: mUpnpNetURI
  reqUserData :: "nat option"
  reqTimeout :: int

definition MUPNP_HTTP_USERAGENT_DEFAULT :: cstring where
  "MUPNP_HTTP_USERAGENT_DEFAULT = ''mUPnP-HTTP/3.1.4''"

definition mupnp_http_request_setmethod :: "mUpnpHttpRequest \<Rightarrow> charptr \<Rightarrow> mUpnpHttpRequest" where
  "mupnp_http_request_setmethod httpReq v = httpReq\<lparr>reqMethod := str_set (reqMethod httpReq) v\<rparr>"

definition mupnp_http_request_setversion :: "mUpnpHttpRequest \<Rightarrow> charptr \<Rightarrow> mUpnpHttpRequest" where
  "mupnp_http_request_setversion httpReq v = httpReq\<lparr>reqVersion := str_set (reqVersion httpReq) v\<rparr>"

definition mupnp_http_request_setuseragent :: "mUpnpHttpRequest \<Rightarrow> charptr \<Rightarrow> mUpnpHttpRequest" where
  "mupnp_http_request_setuseragent httpReq v = httpReq\<lparr>userAgent := str_set (userAgent httpReq) v\<rparr>"

definition mupnp_http_request_addtouseragent :: "mUpnpHttpRequest \<Rightarrow> charptr \<Rightarrow> mUpnpHttpRequest" where
  "mupnp_http_request_addtouseragent httpReq v = httpReq\<lparr>userAgent := str_add (userAgent httpReq) v\<rparr>"

definition mupnp_http_request_seturi :: "mUpnpHttpRequest \<Rightarrow> charptr \<Rightarrow> mUpnpHttpRequest" where
  "mupnp_http_request_seturi httpReq v = httpReq\<lparr>reqUri := str_set (reqUri httpReq) v\<rparr>"

definition mupnp_http_request_getmethod :: "mUpnpHttpRequest \<Rightarrow> charptr" where
  "mupnp_http_request_getmethod httpReq = reqMethod httpReq"

definition mupnp_http_request_getversion :: "mUpnpHttpRequest \<Rightarrow> charptr" where
  "mupnp_http_request_getversion httpReq = reqVersion httpReq"

definition mupnp_http_request_getuseragent :: "mUpnpHttpRequest \<Rightarrow> charptr" where
  "mupnp_http_request_getuseragent httpReq = userAgent httpReq"

definition mupnp_http_request_geturi :: "mUpnpHttpRequest \<Rightarrow> charptr" where
  "mupnp_http_request_geturi httpReq = reqUri httpReq"

definition mupnp_http_request_new :: mUpnpHttpRequest where
  "mupnp_http_request_new =
     (let httpReq = \<lparr>headerList = mupnp_http_headerlist_new, content = None, reqMethod = None, reqUri = None,
                     reqVersion = None, userAgent = None, httpRes = mupnp_http_response_new,
                     postURL = mupnp_net_uri_new, reqUserData = None, reqTimeout = MUPNP_HTTP_CONN_TIMEOUT\<rparr>;
          httpReq = mupnp_http_request_setversion httpReq (Some MUPNP_HTTP_VER11)
      in mupnp_http_request_setuseragent httpReq (Some MUPNP_HTTP_USERAGENT_DEFAULT))"

definition mupnp_http_request_clear :: "mUpnpHttpRequest \<Rightarrow> mUpnpHttpRequest" where
  "mupnp_http_request_clear httpReq =
     (let httpReq = mupnp_http_packet_clear httpReq;
          httpReq = mupnp_http_request_setmethod httpReq None;
          httpReq = mupnp_http_request_seturi httpReq None;
          httpReq = mupnp_http_request_setversion httpReq None
      in httpReq\<lparr>postURL := mupnp_net_uri_clear (postURL httpReq), reqUserData := None\<rparr>)"

subsection \<open>Kinds of requests\<close>

definition mupnp_http_request_ismethod :: "mUpnpHttpRequest \<Rightarrow> cstring \<Rightarrow> bool" where
  "mupnp_http_request_ismethod httpReq v = mupnp_streq (mupnp_http_request_getmethod httpReq) (Some v)"

definition mupnp_http_request_isgetrequest :: "mUpnpHttpRequest \<Rightarrow> bool" where
  "mupnp_http_request_isgetrequest httpReq = mupnp_streq (mupnp_http_request_getmethod httpReq) (Some ''GET'')"

definition mupnp_http_request_ispostrequest :: "mUpnpHttpRequest \<Rightarrow> bool" where
  "mupnp_http_request_ispostrequest httpReq =
     (mupnp_streq (mupnp_http_request_getmethod httpReq) (Some ''POST'') \<or>
      mupnp_streq (mupnp_http_request_getmethod httpReq) (Some ''M-POST''))"

definition mupnp_http_request_isheadrequest :: "mUpnpHttpRequest \<Rightarrow> bool" where
  "mupnp_http_request_isheadrequest httpReq = mupnp_streq (mupnp_http_request_getmethod httpReq) (Some ''HEAD'')"

definition mupnp_http_request_issubscriberequest :: "mUpnpHttpRequest \<Rightarrow> bool" where
  "mupnp_http_request_issubscriberequest httpReq =
     mupnp_streq (mupnp_http_request_getmethod httpReq) (Some ''SUBSCRIBE'')"

definition mupnp_http_request_isunsubscriberequest :: "mUpnpHttpRequest \<Rightarrow> bool" where
  "mupnp_http_request_isunsubscriberequest httpReq =
     mupnp_streq (mupnp_http_request_getmethod httpReq) (Some ''UNSUBSCRIBE'')"

definition mupnp_http_request_isnotifyrequest :: "mUpnpHttpRequest \<Rightarrow> bool" where
  "mupnp_http_request_isnotifyrequest httpReq =
     mupnp_streq (mupnp_http_request_getmethod httpReq) (Some ''NOTIFY'')"

definition mupnp_http_request_issoapaction :: "mUpnpHttpRequest \<Rightarrow> bool" where
  "mupnp_http_request_issoapaction httpReq =
     (mupnp_http_packet_hasheader httpReq (Some ''SOAPACTION'') \<or>
      mupnp_streq (mupnp_http_request_getmethod httpReq) (Some ''M-POST''))"

subsection \<open>Posting a request\<close>

definition request_prepare :: "mUpnpHttpRequest \<Rightarrow> charptr \<Rightarrow> int \<Rightarrow> mUpnpHttpRequest" where
  "request_prepare httpReq ipaddr portNo =
     (let httpReq = mupnp_http_packet_sethost httpReq ipaddr portNo
      in mupnp_http_packet_setheadervalue httpReq (Some ''User-Agent'') (mupnp_http_request_getuseragent httpReq))"

definition request_first_line :: "cstring \<Rightarrow> cstring \<Rightarrow> cstring \<Rightarrow> charptr" where
  "request_first_line method uriVal version =
     foldl str_add None [Some method, Some '' '', Some uriVal, Some '' '', Some version, Some MUPNP_HTTP_CRLF]"

definition request_send :: "mUpnpHttpRequest \<Rightarrow> cstring \<Rightarrow> cstring \<Rightarrow> cstring \<Rightarrow> mUpnpSocket \<Rightarrow> mUpnpSocket option" where
  "request_send httpReq method uriVal version sock =
     mupnp_http_packet_post httpReq (swrite sock (str_bytes (request_first_line method uriVal version)))"

text \<open>The result is \<open>*received\<close>, the request with its response, and the socket that was used.\<close>

definition mupnp_http_request_post_main_status ::
    "allocator \<Rightarrow> mUpnpHttpRequest \<Rightarrow> charptr \<Rightarrow> int \<Rightarrow> mUpnpSocket option \<Rightarrow>
     (bool \<times> mUpnpHttpRequest \<times> mUpnpSocket option) option" where
  "mupnp_http_request_post_main_status A httpReq ipaddr portNo conn =
     (let httpReq = httpReq\<lparr>httpRes := mupnp_http_response_clear (httpRes httpReq)\<rparr> in
      case conn of None \<Rightarrow> Some (False, httpReq, None)
      | Some sock \<Rightarrow>
          let httpReq = request_prepare httpReq ipaddr portNo in
          case (mupnp_http_request_getmethod httpReq, mupnp_http_request_geturi httpReq,
                mupnp_http_request_getversion httpReq) of
            (Some method, Some uriVal, Some version) \<Rightarrow> do {
              sock \<leftarrow> request_send httpReq method uriVal version sock;
              (ok, res, sock) \<leftarrow> mupnp_http_response_read A (httpRes httpReq) sock
                                  (mupnp_http_request_isheadrequest httpReq);
              if \<not> ok then Some (False, httpReq\<lparr>httpRes := mupnp_http_response_clear res\<rparr>, Some sock)
              else Some (True, httpReq\<lparr>httpRes := res\<rparr>, Some sock) }
          | _ \<Rightarrow> Some (False, httpReq, Some sock))"

definition mupnp_http_request_post ::
    "allocator \<Rightarrow> mUpnpHttpRequest \<Rightarrow> charptr \<Rightarrow> int \<Rightarrow> mUpnpSocket option \<Rightarrow>
     (mUpnpHttpRequest \<times> mUpnpSocket option) option" where
  "mupnp_http_request_post A httpReq ipaddr portNo conn =
     map_option snd (mupnp_http_request_post_main_status A httpReq ipaddr portNo conn)"

subsection \<open>Reading a request\<close>

function read_first_line :: "mUpnpSocket \<Rightarrow> int \<times> buffer \<times> mUpnpSocket" where
  "read_first_line sock =
     (case mupnp_socket_readline sock MUPNP_HTTP_READLINE_BUFSIZE of
        (readLen, lineBuf, sock') \<Rightarrow>
          if readLen \<ge> 1 \<and> readLen \<le> 2 then read_first_line sock' else (readLen, lineBuf, sock'))"
  by pat_completeness auto
termination
  by (relation "measure (\<lambda>sock. length (instream sock))")
    (auto dest!: sym [of _ "mupnp_socket_readline _ _"] intro: readline_consumes(1))

declare read_first_line.simps [simp del]

text \<open>The result says whether all three words were there.\<close>

definition read_request_line :: "mUpnpHttpRequest \<Rightarrow> cstring \<Rightarrow> bool \<times> mUpnpHttpRequest" where
  "read_request_line httpReq line =
     (let strTok = mupnp_string_tokenizer_new (Some line) (Some MUPNP_HTTP_STATUSLINE_DELIM);
          (strTok, m) = next_word strTok;
          httpReq = (case m of Some v \<Rightarrow> mupnp_http_request_setmethod httpReq v | None \<Rightarrow> httpReq);
          (strTok, u) = next_word strTok;
          httpReq = (case u of Some v \<Rightarrow> mupnp_http_request_seturi httpReq v | None \<Rightarrow> httpReq);
          (strTok, w) = next_word strTok;
          httpReq = (case w of Some v \<Rightarrow> mupnp_http_request_setversion httpReq v | None \<Rightarrow> httpReq)
      in (m \<noteq> None \<and> u \<noteq> None \<and> w \<noteq> None, httpReq))"

text \<open>An absolute URI is replaced by its request part.\<close>

definition request_relative_uri :: "mUpnpHttpRequest \<Rightarrow> mUpnpHttpRequest option" where
  "request_relative_uri httpReq = do {
     u \<leftarrow> mupnp_net_uri_setvalue mupnp_net_uri_new (mupnp_http_request_geturi httpReq);
     if mupnp_net_uri_isabsolute u \<and> snd (mupnp_net_uri_getrequest u) \<noteq> None
     then Some (mupnp_http_request_seturi httpReq
                  (snd (mupnp_net_uri_getrequest (fst (mupnp_net_uri_getrequest u)))))
     else Some httpReq }"

definition mupnp_http_request_read ::
    "allocator \<Rightarrow> mUpnpHttpRequest \<Rightarrow> mUpnpSocket \<Rightarrow> (bool \<times> mUpnpHttpRequest \<times> mUpnpSocket) option" where
  "mupnp_http_request_read A httpReq sock =
     (let httpReq = mupnp_http_request_clear httpReq in
      case read_first_line sock of
        (readLen, lineBuf, sock) \<Rightarrow>
          if readLen \<le> 0 then Some (False, httpReq, sock)
          else (case read_request_line httpReq (cstr lineBuf) of
            (ok, httpReq) \<Rightarrow>
              if \<not> ok then Some (False, httpReq, sock)
              else do {
                httpReq \<leftarrow> request_relative_uri httpReq;
                let httpReq = mupnp_http_packet_clear httpReq;
                (httpReq, sock) \<leftarrow> mupnp_http_packet_read_headers httpReq sock MUPNP_HTTP_READLINE_BUFSIZE;
                if mupnp_http_packet_hasheader httpReq (Some ''Content-Length'') \<or>
                   mupnp_http_packet_hasheader httpReq (Some ''Transfer-Encoding'')
                then Some (mupnp_http_packet_read_body A httpReq sock MUPNP_HTTP_READLINE_BUFSIZE)
                else Some (True, httpReq, sock) }))"

subsection \<open>Posting a response\<close>

text \<open>The date, which the code reads off the system clock, is a parameter.\<close>

definition mupnp_http_request_postresponse ::
    "mUpnpSocket \<Rightarrow> mUpnpHttpResponse \<Rightarrow> nat \<Rightarrow> (bool \<times> mUpnpHttpResponse \<times> mUpnpSocket) option" where
  "mupnp_http_request_postresponse sock res now =
     (let res = mupnp_http_packet_setheadervalue res (Some ''Date'') (Some (mupnp_http_getdate now 128)) in
      case (mupnp_http_response_getversion res, mupnp_http_response_getreasonphrase res) of
        (Some version, Some reason) \<Rightarrow> do {
          let statusCodeBuf = mupnp_int2str (mupnp_http_response_getstatuscode res) MUPNP_STRING_INTEGER_BUFLEN;
          let sock = swrite sock version;
          let sock = swrite sock '' '';
          let sock = swrite sock statusCodeBuf;
          let sock = swrite sock '' '';
          let sock = swrite sock reason;
          let sock = swrite sock MUPNP_HTTP_CRLF;
          sock \<leftarrow> mupnp_http_packet_post res sock;
          Some (True, res, sock) }
      | _ \<Rightarrow> Some (False, res, sock))"

definition mupnp_http_request_poststatuscode :: "mUpnpSocket \<Rightarrow> int \<Rightarrow> nat \<Rightarrow> (bool \<times> mUpnpSocket) option" where
  "mupnp_http_request_poststatuscode sock httpStatCode now = do {
     let res = mupnp_http_response_new;
     let res = mupnp_http_response_setstatuscode res httpStatCode;
     let res = mupnp_http_packet_setcontentlength res 0;
     (postRet, res, sock) \<leftarrow> mupnp_http_request_postresponse sock res now;
     Some (postRet, sock) }"

definition mupnp_http_request_postdata :: "mUpnpSocket \<Rightarrow> buffer \<Rightarrow> int \<Rightarrow> (bool \<times> mUpnpSocket) option" where
  "mupnp_http_request_postdata sock data dataLen =
     (if dataLen \<le> 0 then Some (True, sock)
      else if nat dataLen \<le> length data then Some (True, swrite sock (take (nat dataLen) data))
      else None)"

definition mupnp_http_request_postchunkedsize :: "mUpnpSocket \<Rightarrow> int \<Rightarrow> mUpnpSocket" where
  "mupnp_http_request_postchunkedsize sock dataLen =
     swrite sock (c_snprintf (MUPNP_STRING_LONG_BUFLEN + 2)
       (show_nat 16 (unat (word_of_int dataLen :: 32 word)) @ MUPNP_HTTP_CRLF))"

definition mupnp_http_request_postchunkeddata :: "mUpnpSocket \<Rightarrow> buffer \<Rightarrow> int \<Rightarrow> (bool \<times> mUpnpSocket) option" where
  "mupnp_http_request_postchunkeddata sock data dataLen =
     (if dataLen \<le> 0 then Some (True, sock)
      else if nat dataLen \<le> length data then
        let sock = mupnp_http_request_postchunkedsize sock dataLen;
            sock = swrite sock (take (nat dataLen) data)
        in Some (True, swrite sock MUPNP_HTTP_CRLF)
      else None)"

definition mupnp_http_request_postlastchunk :: "mUpnpSocket \<Rightarrow> mUpnpSocket" where
  "mupnp_http_request_postlastchunk sock =
     swrite (mupnp_http_request_postchunkedsize sock 0) MUPNP_HTTP_CRLF"

definition mupnp_http_request_copy :: "mUpnpHttpRequest \<Rightarrow> mUpnpHttpRequest \<Rightarrow> mUpnpHttpRequest" where
  "mupnp_http_request_copy dest src =
     (let dest = mupnp_http_request_setmethod dest (mupnp_http_request_getmethod src);
          dest = mupnp_http_request_seturi dest (mupnp_http_request_geturi src);
          dest = mupnp_http_request_setversion dest (mupnp_http_request_getversion src)
      in mupnp_http_packet_copy dest src)"

end
