(* ===== verification/SsdpPacket.thy ===== *)
theory SsdpPacket
  imports HttpRequest HttpWire UpnpTypes NetFunction
begin

section \<open>SSDP messages (src/mupnp/ssdp/ssdp.c, ssdp_packet.c, ssdp_request.c, ssdp_response.c, ssdp_socket.c)\<close>

text \<open>
  The packets a device and a control point receive, with the headers of the datagram and the
  table that filters repeated searches, and the requests and responses they send.  The clock is
  a parameter (\<open>now\<close>, in seconds); a result \<open>None\<close> is a crash, as in \<open>HttpPacket\<close>.
  \<open>sendto\<close> is the socket call: the number of bytes the system says it sent of a datagram.
\<close>

record mUpnpDatagramPacket =
  dgmLocalAddress :: charptr
  dgmLocalPort :: int
  dgmRemoteAddress :: charptr
  dgmRemotePort :: int
  dgmData :: charptr

definition mupnp_socket_datagram_packet_new :: mUpnpDatagramPacket where
  "mupnp_socket_datagram_packet_new =
     \<lparr>dgmLocalAddress = None, dgmLocalPort = 0, dgmRemoteAddress = None, dgmRemotePort = 0, dgmData = None\<rparr>"

definition mupnp_socket_datagram_packet_copy ::
    "mUpnpDatagramPacket \<Rightarrow> mUpnpDatagramPacket \<Rightarrow> mUpnpDatagramPacket" where
  "mupnp_socket_datagram_packet_copy dst src =
     dst\<lparr>dgmData := str_set (dgmData dst) (dgmData src),
         dgmLocalAddress := str_set (dgmLocalAddress dst) (dgmLocalAddress src),
         dgmLocalPort := dgmLocalPort src,
         dgmRemoteAddress := str_set (dgmRemoteAddress dst) (dgmRemoteAddress src),
         dgmRemotePort := dgmRemotePort src\<rparr>"

definition MUPNP_SSDP_FILTER_TABLE_SIZE :: nat where "MUPNP_SSDP_FILTER_TABLE_SIZE = 101"
definition MUPNP_SSDP_HEADER_LINE_MAXSIZE :: nat where "MUPNP_SSDP_HEADER_LINE_MAXSIZE = 128"
definition MUPNP_SSDP_PORT :: int where "MUPNP_SSDP_PORT = 1900"
definition MUPNP_SSDP_ADDRESS :: cstring where "MUPNP_SSDP_ADDRESS = ''239.255.255.250''"
definition MUPNP_SSDP_MULTICAST_ADDRESS :: cstring where "MUPNP_SSDP_MULTICAST_ADDRESS = ''239.255.255.250:1900''"
definition MUPNP_SSDP_IPV6_LINK_LOCAL_ADDRESS :: cstring where "MUPNP_SSDP_IPV6_LINK_LOCAL_ADDRESS = ''FF02::C''"
definition MUPNP_HTTP_MAX_AGE :: cstring where "MUPNP_HTTP_MAX_AGE = ''max-age''"

text \<open>The memory of \<open>timestamps\<close> comes from \<open>malloc\<close>; its first contents are a parameter.\<close>

record mUpnpSSDPPacket =
  dgmPkt :: mUpnpDatagramPacket
  ssdpHeaders :: mUpnpHttpHeaderList
  timeStamp :: int
  timestamps :: "int list"
  initialized :: bool

definition mupnp_ssdp_packet_new :: "int list \<Rightarrow> int \<Rightarrow> mUpnpSSDPPacket" where
  "mupnp_ssdp_packet_new mem now =
     \<lparr>dgmPkt = mupnp_socket_datagram_packet_new, ssdpHeaders = mupnp_http_headerlist_new, timeStamp = now,
      timestamps = mem, initialized = False\<rparr>"

text \<open>Setting the data to NULL leaves the string as it is.\<close>

definition mupnp_ssdp_packet_clear :: "mUpnpSSDPPacket \<Rightarrow> mUpnpSSDPPacket" where
  "mupnp_ssdp_packet_clear pkt =
     pkt\<lparr>dgmPkt := (dgmPkt pkt)\<lparr>dgmData := str_set (dgmData (dgmPkt pkt)) None\<rparr>, ssdpHeaders := []\<rparr>"

definition ssdp_header :: "cstring \<Rightarrow> mUpnpSSDPPacket \<Rightarrow> charptr" where
  "ssdp_header name pkt = mupnp_http_headerlist_getvalue (ssdpHeaders pkt) (Some name)"

abbreviation "mupnp_ssdp_packet_gethost \<equiv> ssdp_header ''HOST''"
abbreviation "mupnp_ssdp_packet_getcachecontrol \<equiv> ssdp_header ''Cache-Control''"
abbreviation "mupnp_ssdp_packet_getlocation \<equiv> ssdp_header ''Location''"
abbreviation "mupnp_ssdp_packet_getst \<equiv> ssdp_header ''ST''"
abbreviation "mupnp_ssdp_packet_getusn \<equiv> ssdp_header ''USN''"
abbreviation "mupnp_ssdp_packet_getman \<equiv> ssdp_header ''MAN''"
abbreviation "mupnp_ssdp_packet_getnt \<equiv> ssdp_header ''NT''"
abbreviation "mupnp_ssdp_packet_getnts \<equiv> ssdp_header ''NTS''"

definition mupnp_ssdp_packet_isrootdevice :: "mUpnpSSDPPacket \<Rightarrow> bool" where
  "mupnp_ssdp_packet_isrootdevice pkt =
     (if mupnp_nt_isrootdevice (mupnp_ssdp_packet_getnt pkt) then True
      else if mupnp_st_isrootdevice (mupnp_ssdp_packet_getst pkt) then True
      else mupnp_usn_isrootdevice (mupnp_ssdp_packet_getusn pkt))"

definition mupnp_ssdp_packet_isdiscover :: "mUpnpSSDPPacket \<Rightarrow> bool" where
  "mupnp_ssdp_packet_isdiscover pkt = mupnp_man_isdiscover (mupnp_ssdp_packet_getman pkt)"

definition mupnp_ssdp_packet_isalive :: "mUpnpSSDPPacket \<Rightarrow> bool" where
  "mupnp_ssdp_packet_isalive pkt = mupnp_nts_isalive (mupnp_ssdp_packet_getnts pkt)"

definition mupnp_ssdp_packet_isbyebye :: "mUpnpSSDPPacket \<Rightarrow> bool" where
  "mupnp_ssdp_packet_isbyebye pkt = mupnp_nts_isbyebye (mupnp_ssdp_packet_getnts pkt)"

subsection \<open>Reading the headers\<close>

definition ssdp_header_line :: "charptr \<Rightarrow> (charptr \<times> charptr) option" where
  "ssdp_header_line lineMsg =
     (let ssdpLineTok = mupnp_string_tokenizer_new lineMsg (Some MUPNP_HTTP_HEADERLINE_DELIM);
          (ssdpLineTok, name) = (if mupnp_string_tokenizer_hasmoretoken ssdpLineTok
                                 then mupnp_string_tokenizer_nexttoken ssdpLineTok else (ssdpLineTok, None))
      in if mupnp_string_tokenizer_hasmoretoken ssdpLineTok then do {
           (ssdpLineTok, v) \<leftarrow> mupnp_string_tokenizer_nextalltoken ssdpLineTok;
           Some (token_text ssdpLineTok name,
                 map_option (\<lambda>v. mupnp_strrtrim v MUPNP_HTTP_HEADERLINE_DELIM
                              (mupnp_strlen (Some MUPNP_HTTP_HEADERLINE_DELIM))) (token_text ssdpLineTok v)) }
         else Some (token_text ssdpLineTok name, None))"

definition ssdp_add_header :: "mUpnpHttpHeaderList \<Rightarrow> charptr \<times> charptr \<Rightarrow> mUpnpHttpHeaderList" where
  "ssdp_add_header headers nv =
     (case nv of (name, v) \<Rightarrow>
        if name \<noteq> None then
          let v = (case v of None \<Rightarrow> Some [] | Some x \<Rightarrow> v);
              header = mupnp_http_header_new;
              header = mupnp_http_header_setname header name;
              header = mupnp_http_header_setvalue header v
          in mupnp_http_headerlist_add headers header
        else headers)"

partial_function (option) ssdp_lines ::
    "mUpnpStringTokenizer \<Rightarrow> mUpnpHttpHeaderList \<Rightarrow> mUpnpHttpHeaderList option" where
  "ssdp_lines ssdpTok headers =
     (if mupnp_string_tokenizer_hasmoretoken ssdpTok then
        (case mupnp_string_tokenizer_nexttoken ssdpTok of
           (ssdpTok, lineMsg) \<Rightarrow> do {
             nv \<leftarrow> ssdp_header_line (token_text ssdpTok lineMsg);
             ssdp_lines ssdpTok (ssdp_add_header headers nv) })
      else Some headers)"

text \<open>The test in front of the loop does not take a token.\<close>

definition mupnp_ssdp_packet_setheader :: "mUpnpSSDPPacket \<Rightarrow> charptr \<Rightarrow> mUpnpSSDPPacket option" where
  "mupnp_ssdp_packet_setheader pkt ssdpMsg =
     (let ssdpTok = mupnp_string_tokenizer_new ssdpMsg (Some MUPNP_HTTP_CRLF)
      in if \<not> mupnp_string_tokenizer_hasmoretoken ssdpTok then Some pkt
         else map_option (\<lambda>hs. pkt\<lparr>ssdpHeaders := hs\<rparr>) (ssdp_lines ssdpTok (ssdpHeaders pkt)))"

subsection \<open>Values of a packet\<close>

text \<open>The second search starts at \<open>max-age\<close>, but its result is used from the start of the value.\<close>

definition mupnp_ssdp_packet_getmaxage :: "mUpnpSSDPPacket \<Rightarrow> int" where
  "mupnp_ssdp_packet_getmaxage pkt =
     (case mupnp_ssdp_packet_getcachecontrol pkt of
        None \<Rightarrow> 0
      | Some cachecontrol \<Rightarrow>
          let maxageIdx = mupnp_strstr (Some cachecontrol) (Some MUPNP_HTTP_MAX_AGE) in
          if maxageIdx < 0 then 0
          else let maxageIdx = mupnp_strstr (Some (drop (nat maxageIdx) cachecontrol)) (Some ''='') in
          if maxageIdx \<le> 0 then 0
          else mupnp_str2long (Some (drop (nat maxageIdx + 1) cachecontrol)))"

definition mupnp_ssdp_packet_getexpiration :: "mUpnpSSDPPacket \<Rightarrow> int" where
  "mupnp_ssdp_packet_getexpiration pkt =
     (if mupnp_ssdp_packet_getmaxage pkt = 0 then 0 else timeStamp pkt + mupnp_ssdp_packet_getmaxage pkt)"

definition ssdp_copy_header :: "mUpnpHttpHeaderList \<Rightarrow> mUpnpHttpHeader \<Rightarrow> mUpnpHttpHeaderList" where
  "ssdp_copy_header headers srcHeader =
     (let destHeader = mupnp_http_header_new;
          destHeader = mupnp_http_header_setname destHeader (mupnp_http_header_getname srcHeader);
          destHeader = mupnp_http_header_setvalue destHeader (mupnp_http_header_getvalue srcHeader)
      in mupnp_http_headerlist_add headers destHeader)"

definition mupnp_ssdp_packet_copy :: "mUpnpSSDPPacket \<Rightarrow> mUpnpSSDPPacket \<Rightarrow> int \<Rightarrow> mUpnpSSDPPacket" where
  "mupnp_ssdp_packet_copy dst src now =
     (let dst = dst\<lparr>dgmPkt := mupnp_socket_datagram_packet_copy (dgmPkt dst) (dgmPkt src)\<rparr>;
          dst = mupnp_ssdp_packet_clear dst
      in dst\<lparr>ssdpHeaders := foldl ssdp_copy_header (ssdpHeaders dst) (ssdpHeaders src), timeStamp := now\<rparr>)"

fun getmx_loop :: "cstring \<Rightarrow> int \<Rightarrow> int" where
  "getmx_loop [] mx = mx"
| "getmx_loop (c # cs) mx =
     (if \<not> c_isdigit c then 0
      else getmx_loop cs
        (if mx < 5 then let mx = mx * 10 + (int (byte_of c) - 48) in if mx > 5 then 5 else mx else mx))"

definition mupnp_ssdp_packet_getmx :: "mUpnpSSDPPacket \<Rightarrow> int" where
  "mupnp_ssdp_packet_getmx pkt =
     (case ssdp_header ''MX'' pkt of None \<Rightarrow> 0 | Some v \<Rightarrow> if v = [] then 0 else getmx_loop v 0)"

subsection \<open>Requests and responses\<close>

definition mupnp_ssdp_getleasetime :: "charptr \<Rightarrow> int" where
  "mupnp_ssdp_getleasetime cacheCnt =
     (case cacheCnt of None \<Rightarrow> 0
      | Some c \<Rightarrow>
          let eqIdx = mupnp_strchr cacheCnt (Some ''='') 1
          in if eqIdx < 0 then 0 else c_atoi (drop (nat eqIdx + 1) c))"

definition mupnp_ssdp_gethostaddress :: "charptr \<Rightarrow> cstring" where
  "mupnp_ssdp_gethostaddress ifAddr =
     (if mupnp_net_isipv6address ifAddr then MUPNP_SSDP_IPV6_LINK_LOCAL_ADDRESS else MUPNP_SSDP_ADDRESS)"

definition mupnp_ssdprequest_new :: mUpnpHttpRequest where
  "mupnp_ssdprequest_new =
     (let ssdpReq = mupnp_http_request_new;
          ssdpReq = mupnp_http_request_seturi ssdpReq (Some ''*'');
          ssdpReq = mupnp_http_request_setversion ssdpReq (Some MUPNP_HTTP_VER11)
      in mupnp_http_packet_setcontentlength ssdpReq 0)"

text \<open>The buffer has 25 bytes; a longer text is written behind its end.\<close>

definition mupnp_ssdprequest_setleasetime :: "mUpnpHttpRequest \<Rightarrow> int \<Rightarrow> mUpnpHttpRequest option" where
  "mupnp_ssdprequest_setleasetime ssdpReq v =
     (let buf = MUPNP_HTTP_MAX_AGE @ ''='' @ show_int v in
      if length buf < (length MUPNP_HTTP_MAX_AGE + 1) + 1 + MUPNP_STRING_INTEGER_BUFLEN
      then Some (mupnp_http_packet_setheadervalue ssdpReq (Some ''Cache-Control'') (Some buf)) else None)"

definition mupnp_ssdprequest_getleasetime :: "mUpnpHttpRequest \<Rightarrow> int" where
  "mupnp_ssdprequest_getleasetime ssdpReq =
     mupnp_ssdp_getleasetime (mupnp_http_packet_getheadervalue ssdpReq (Some ''Cache-Control''))"

definition ssdp_header_tostring :: "charptr \<Rightarrow> mUpnpHttpHeader \<Rightarrow> charptr" where
  "ssdp_header_tostring ssdpMsg header =
     foldl str_add ssdpMsg [mupnp_http_header_getname header, Some '':'', Some '' '', mupnp_http_header_getvalue header,
                            Some MUPNP_HTTP_CRLF]"

definition mupnp_ssdprequest_tostring :: "mUpnpHttpRequest \<Rightarrow> charptr \<Rightarrow> charptr" where
  "mupnp_ssdprequest_tostring ssdpReq ssdpMsg =
     (let ssdpMsg = foldl str_add ssdpMsg [mupnp_http_request_getmethod ssdpReq, Some '' '',
                      mupnp_http_request_geturi ssdpReq, Some '' '', mupnp_http_request_getversion ssdpReq, Some MUPNP_HTTP_CRLF];
          ssdpMsg = foldl ssdp_header_tostring ssdpMsg (headerList ssdpReq)
      in str_add ssdpMsg (Some MUPNP_HTTP_CRLF))"

definition mupnp_ssdpresponse_new :: mUpnpHttpResponse where
  "mupnp_ssdpresponse_new =
     mupnp_http_response_setstatuscode (mupnp_http_response_setversion mupnp_http_response_new (Some MUPNP_HTTP_VER11)) 200"

definition mupnp_ssdpresponse_setleasetime :: "mUpnpHttpResponse \<Rightarrow> int \<Rightarrow> mUpnpHttpResponse" where
  "mupnp_ssdpresponse_setleasetime ssdpRes v =
     mupnp_http_packet_setheadervalue ssdpRes (Some ''Cache-Control'')
       (Some (MUPNP_HTTP_MAX_AGE @ ''='' @ show_int (to_int32 v)))"

definition mupnp_ssdpresponse_getleasetime :: "mUpnpHttpResponse \<Rightarrow> int" where
  "mupnp_ssdpresponse_getleasetime ssdpRes =
     mupnp_ssdp_getleasetime (mupnp_http_packet_getheadervalue ssdpRes (Some ''Cache-Control''))"

definition mupnp_ssdpresponse_tostring :: "mUpnpHttpResponse \<Rightarrow> charptr \<Rightarrow> charptr" where
  "mupnp_ssdpresponse_tostring ssdpRes ssdpMsg =
     (let ssdpMsg = foldl str_add ssdpMsg [mupnp_http_response_getversion ssdpRes, Some '' '',
                      Some (mupnp_int2str (mupnp_http_response_getstatuscode ssdpRes) MUPNP_STRING_INTEGER_BUFLEN), Some '' '',
                      mupnp_http_response_getreasonphrase ssdpRes, Some MUPNP_HTTP_CRLF];
          ssdpMsg = foldl ssdp_header_tostring ssdpMsg (headerList ssdpRes)
      in str_add ssdpMsg (Some MUPNP_HTTP_CRLF))"

text \<open>A datagram: the address, the port and the payload.\<close>

type_synonym datagram = "cstring \<times> int \<times> string"

definition mupnp_ssdp_socket_notify :: "(datagram \<Rightarrow> nat) \<Rightarrow> mUpnpHttpRequest \<Rightarrow> cstring \<Rightarrow> bool \<times> datagram" where
  "mupnp_ssdp_socket_notify sendto ssdpReq ssdpAddr =
     (let ssdpReq = mupnp_http_request_setmethod ssdpReq (Some ''NOTIFY'');
          ssdpMsg = mupnp_ssdprequest_tostring ssdpReq None;
          dgm = (ssdpAddr, MUPNP_SSDP_PORT, str_bytes ssdpMsg)
      in (0 < sendto dgm, dgm))"

definition mupnp_ssdp_socket_notifyfrom ::
    "(datagram \<Rightarrow> nat) \<Rightarrow> mUpnpHttpRequest \<Rightarrow> charptr \<Rightarrow> bool \<times> mUpnpHttpRequest \<times> datagram" where
  "mupnp_ssdp_socket_notifyfrom sendto ssdpReq bindAddr =
     (let ssdpAddr = mupnp_ssdp_gethostaddress bindAddr;
          ssdpReq = mupnp_http_packet_sethost ssdpReq (Some ssdpAddr) MUPNP_SSDP_PORT;
          (ok, dgm) = mupnp_ssdp_socket_notify sendto ssdpReq ssdpAddr
      in (ok, mupnp_http_request_setmethod ssdpReq (Some ''NOTIFY''), dgm))"

definition mupnp_ssdp_socket_postresponse ::
    "(datagram \<Rightarrow> nat) \<Rightarrow> mUpnpHttpResponse \<Rightarrow> cstring \<Rightarrow> int \<Rightarrow> bool \<times> datagram" where
  "mupnp_ssdp_socket_postresponse sendto ssdpRes remoteAddr remotePort =
     (let ssdpMsg = mupnp_ssdpresponse_tostring ssdpRes None;
          dgm = (remoteAddr, remotePort, str_bytes ssdpMsg)
      in (sendto dgm = length (str_bytes ssdpMsg), dgm))"

section \<open>What the receiver reads\<close>

text \<open>A line gives a name and a value, for every line without NUL.\<close>

definition line_name :: "char set \<Rightarrow> string \<Rightarrow> string" where
  "line_name D l = word_of D (skip_delims D l)"

definition line_rest :: "char set \<Rightarrow> string \<Rightarrow> string" where
  "line_rest D l = skip_delims D (tl (after_word D (skip_delims D l)))"

lemma ssdp_header_line_total:
  assumes "nul_free l"
  shows "\<exists>name v. ssdp_header_line (Some l) = Some (name, v)"
proof (cases "l = []")
  case True
  then show ?thesis by (simp add: ssdp_header_line_def Let_def)
next
  case False
  let ?D = MUPNP_HTTP_HEADERLINE_DELIM
  define st where "st = mupnp_string_tokenizer_new (Some l) (Some ?D)"
  have rep: "tok_rep st l" "tok_set st = set ?D"
    using new_rep [OF False assms, of ?D] by (simp_all add: st_def MUPNP_HTTP_HEADERLINE_DELIM_def nul_free_def)
  define st1 where "st1 = fst (if mupnp_string_tokenizer_hasmoretoken st then mupnp_string_tokenizer_nexttoken st else (st, None))"
  have "\<exists>r. tok_rep st1 r"
  proof (cases "mupnp_string_tokenizer_hasmoretoken st")
    case True
    then have "skip_delims (tok_set st) l \<noteq> []" using hasmoretoken_rep [OF rep(1)] by simp
    from nexttoken_rep [OF rep(1) this] show ?thesis using True by (metis st1_def fst_conv)
  qed (use rep in \<open>auto simp: st1_def\<close>)
  then obtain r where r: "tok_rep st1 r" ..
  then have "mupnp_string_tokenizer_nextalltoken st1 \<noteq> None" if "mupnp_string_tokenizer_hasmoretoken st1"
    using that nextalltoken_rep [OF r] hasmoretoken_rep [OF r] by (metis option.distinct(1))
  then show ?thesis
    unfolding ssdp_header_line_def Let_def st_def [symmetric]
    by (auto simp: st1_def split: prod.split if_splits)
qed

lemma ssdp_header_line_eq: "nul_free l \<Longrightarrow> ssdp_header_line (Some l) = read_header_line l"
  unfolding ssdp_header_line_def read_header_line_def by (simp only: cstr_nul_free)

lemma ssdp_lines_rep:
  "tok_rep st r \<Longrightarrow> \<forall>l \<in> set (tokens (tok_set st) r). ssdp_header_line (Some l) = Some (f l) \<Longrightarrow>
   ssdp_lines st hs = Some (foldl (\<lambda>hs l. ssdp_add_header hs (f l)) hs (tokens (tok_set st) r))"
proof (induction "length r" arbitrary: st r hs rule: less_induct)
  case less
  let ?D = "tok_set st" and ?q = "skip_delims (tok_set st) r"
  show ?case
  proof (cases "?q = []")
    case True
    then have "\<not> mupnp_string_tokenizer_hasmoretoken st" using hasmoretoken_rep [OF less.prems(1)] by simp
    then show ?thesis by (subst ssdp_lines.simps) (simp add: tokens_simps(1) [OF True])
  next
    case False
    obtain st' p where st': "mupnp_string_tokenizer_nexttoken st = (st', Some p)"
        "tok_set st' = ?D" "tok_rep st' (tl (after_word ?D ?q))"
        "token_text st' (Some p) = Some (word_of ?D ?q)"
      by (rule nexttoken_rep [OF less.prems(1) False])
    have more: "mupnp_string_tokenizer_hasmoretoken st" using hasmoretoken_rep [OF less.prems(1)] False by simp
    have tok: "tokens ?D r = word_of ?D ?q # tokens ?D (tl (after_word ?D ?q))" by (rule tokens_simps(2) [OF False])
    have line: "ssdp_header_line (Some (word_of ?D ?q)) = Some (f (word_of ?D ?q))"
      and rest: "\<forall>l \<in> set (tokens (tok_set st') (tl (after_word ?D ?q))). ssdp_header_line (Some l) = Some (f l)"
      using less.prems(2) st'(2) unfolding tok by simp_all
    show ?thesis
      using less.hyps [OF length_tl_after_word [OF False] st'(3) rest] st' more line
      by (subst ssdp_lines.simps) (simp add: tok)
  qed
qed

lemma nul_free_tokens:
  assumes "nul_free s" and "l \<in> set (tokens D s)"
  shows "nul_free l"
proof -
  have "set (concat (tokens D s)) \<subseteq> set s" by (simp only: tokens_concat) auto
  then show ?thesis using assms by (auto simp: nul_free_def)
qed

lemma setheader_tokens:
  assumes "nul_free s" and "\<forall>l \<in> set (tokens {CR, LF} s). ssdp_header_line (Some l) = Some (f l)"
  shows "mupnp_ssdp_packet_setheader pkt (Some s) =
    Some (pkt\<lparr>ssdpHeaders := foldl (\<lambda>hs l. ssdp_add_header hs (f l)) (ssdpHeaders pkt) (tokens {CR, LF} s)\<rparr>)"
proof (cases "s = []")
  case True
  then show ?thesis by (simp add: mupnp_ssdp_packet_setheader_def tokens_simps)
next
  case False
  let ?st = "mupnp_string_tokenizer_new (Some s) (Some MUPNP_HTTP_CRLF)"
  have rep: "tok_rep ?st s" "tok_set ?st = {CR, LF}"
    using new_rep [OF False assms(1), of MUPNP_HTTP_CRLF] by (simp_all add: MUPNP_HTTP_CRLF_def nul_free_def)
  have "ssdp_lines ?st (ssdpHeaders pkt) =
    Some (foldl (\<lambda>hs l. ssdp_add_header hs (f l)) (ssdpHeaders pkt) (tokens {CR, LF} s))"
    using ssdp_lines_rep [OF rep(1)] assms(2) rep(2) by simp
  moreover have "tokens {CR, LF} s = []" if "\<not> mupnp_string_tokenizer_hasmoretoken ?st"
    using that hasmoretoken_rep [OF rep(1)] rep(2) by (simp add: tokens_simps)
  ultimately show ?thesis by (auto simp: mupnp_ssdp_packet_setheader_def Let_def)
qed

text \<open>Tokens of lines that end with a delimiter.\<close>

lemma tokens_delim: "c \<in> D \<Longrightarrow> tokens D (c # r) = tokens D r"
  by (subst (1 2) tokens.simps) simp

lemma tokens_word:
  assumes "w \<noteq> []" and "set w \<inter> D = {}" and "c \<in> D"
  shows "tokens D (w @ c # r) = w # tokens D r"
proof -
  have s: "skip_delims D (w @ c # r) = w @ c # r" using assms(1,2) by (cases w) auto
  have "word_of D (w @ c # r) = w \<and> after_word D (w @ c # r) = c # r"
    using assms(2,3) by (induction w) auto
  then show ?thesis using assms(1) by (subst tokens_simps(2)) (simp_all add: s)
qed

subsection \<open>Messages\<close>

definition ssdp_header_ok :: "mUpnpHttpHeader \<Rightarrow> bool" where
  "ssdp_header_ok h \<longleftrightarrow>
     (case hname h of None \<Rightarrow> False
      | Some name \<Rightarrow>
          word_text MUPNP_HTTP_HEADERLINE_DELIM name \<and>
          rest_text MUPNP_HTTP_HEADERLINE_DELIM (str_bytes (hvalue h)) \<and> CR \<notin> set (str_bytes (hvalue h)))"

definition ssdp_text :: "cstring \<Rightarrow> cstring \<Rightarrow> mUpnpHttpHeaderList \<Rightarrow> string" where
  "ssdp_text first rest hs = first @ '' '' @ rest @ MUPNP_HTTP_CRLF @ concat (map header_text hs) @ MUPNP_HTTP_CRLF"

lemma bytes_foldl_add: "str_bytes (foldl str_add s vs) = str_bytes s @ concat (map str_bytes vs)"
  by (induction vs arbitrary: s) simp_all

lemma bytes_headers_tostring:
  "\<forall>h \<in> set hs. hname h \<noteq> None \<Longrightarrow>
   str_bytes (foldl ssdp_header_tostring s hs) = str_bytes s @ concat (map header_text hs)"
  by (induction hs arbitrary: s)
    (auto simp: ssdp_header_tostring_def mupnp_http_header_getname_def mupnp_http_header_getvalue_def header_text_def)

lemma request_text:
  assumes "reqMethod req = Some m" "reqUri req = Some u" "reqVersion req = Some w"
    and "\<forall>h \<in> set (headerList req). hname h \<noteq> None"
  shows "str_bytes (mupnp_ssdprequest_tostring req None) = ssdp_text m (u @ '' '' @ w) (headerList req)"
  using assms
  by (simp add: mupnp_ssdprequest_tostring_def bytes_headers_tostring mupnp_http_request_getmethod_def
      mupnp_http_request_geturi_def mupnp_http_request_getversion_def ssdp_text_def bytes_foldl_add)

lemma response_text:
  assumes "resVersion res = Some w" "reasonPhrase res = Some p"
    and "\<forall>h \<in> set (headerList res). hname h \<noteq> None"
  shows "str_bytes (mupnp_ssdpresponse_tostring res None) =
    ssdp_text w (mupnp_int2str (statusCode res) MUPNP_STRING_INTEGER_BUFLEN @ '' '' @ p) (headerList res)"
  using assms
  by (simp add: mupnp_ssdpresponse_tostring_def bytes_headers_tostring mupnp_http_response_getversion_def
      mupnp_http_response_getreasonphrase_def mupnp_http_response_getstatuscode_def ssdp_text_def bytes_foldl_add)

text \<open>One line of the message as the receiver stores it.\<close>

lemma ssdp_header_line_word:
  assumes "word_text MUPNP_HTTP_HEADERLINE_DELIM name" and "rest_text MUPNP_HTTP_HEADERLINE_DELIM v"
    and "c \<in> set MUPNP_HTTP_HEADERLINE_DELIM" and "set a \<subseteq> set MUPNP_HTTP_HEADERLINE_DELIM"
  shows "ssdp_header_line (Some (name @ c # a @ v)) = Some (Some name, if v = [] then None else Some v)"
proof -
  have "nul_free (name @ c # a @ v)"
    using assms by (auto simp: word_text_def rest_text_def nul_free_def set_headerline_delim)
  then show ?thesis
    using read_header_line_general [OF assms(1,2,3,4), of "[]"] by (simp add: ssdp_header_line_eq)
qed

lemma ssdp_add_header_word:
  "ssdp_add_header hs (Some name, if v = [] then None else Some v) = hs @ [\<lparr>hname = Some name, hvalue = Some v\<rparr>]"
  by (simp add: ssdp_add_header_def mupnp_http_header_new_def mupnp_http_header_setname_def
      mupnp_http_header_setvalue_def mupnp_http_headerlist_add_def)

definition line_header :: "string \<Rightarrow> charptr \<times> charptr" where
  "line_header l = the (ssdp_header_line (Some l))"

abbreviation read_lines :: "mUpnpHttpHeaderList \<Rightarrow> string list \<Rightarrow> mUpnpHttpHeaderList" where
  "read_lines \<equiv> foldl (\<lambda>hs l. ssdp_add_header hs (line_header l))"

lemma setheader_total:
  assumes "nul_free s"
  shows "mupnp_ssdp_packet_setheader pkt (Some s) =
    Some (pkt\<lparr>ssdpHeaders := read_lines (ssdpHeaders pkt) (tokens {CR, LF} s)\<rparr>)"
proof (rule setheader_tokens [OF assms], rule ballI)
  fix l assume "l \<in> set (tokens {CR, LF} s)"
  then obtain name v where "ssdp_header_line (Some l) = Some (name, v)"
    using ssdp_header_line_total nul_free_tokens [OF assms] by blast
  then show "ssdp_header_line (Some l) = Some (line_header l)" by (simp add: line_header_def)
qed

lemma tokens_line:
  assumes "l \<noteq> []" and "CR \<notin> set l" and "LF \<notin> set l"
  shows "tokens {CR, LF} (l @ MUPNP_HTTP_CRLF @ r) = l # tokens {CR, LF} r"
proof -
  have "tokens {CR, LF} (l @ CR # LF # r) = l # tokens {CR, LF} (LF # r)"
    using assms by (intro tokens_word) auto
  then show ?thesis by (simp add: MUPNP_HTTP_CRLF_def tokens_delim)
qed

lemma read_line_step:
  assumes "word_text MUPNP_HTTP_HEADERLINE_DELIM name" and "rest_text MUPNP_HTTP_HEADERLINE_DELIM v" "CR \<notin> set v"
    and "c \<in> {CHR '':'', CHR '' ''}" and "set a \<subseteq> {CHR '' ''}"
  shows "read_lines hs (tokens {CR, LF} (name @ c # a @ v @ MUPNP_HTTP_CRLF @ r)) =
    read_lines (hs @ [\<lparr>hname = Some name, hvalue = Some v\<rparr>]) (tokens {CR, LF} r)"
proof -
  have "tokens {CR, LF} ((name @ c # a @ v) @ MUPNP_HTTP_CRLF @ r) = (name @ c # a @ v) # tokens {CR, LF} r"
    using assms by (intro tokens_line) (auto simp: word_text_def rest_text_def set_headerline_delim)
  moreover have "line_header (name @ c # a @ v) = (Some name, if v = [] then None else Some v)"
  proof -
    have "c \<in> set MUPNP_HTTP_HEADERLINE_DELIM" "set a \<subseteq> set MUPNP_HTTP_HEADERLINE_DELIM"
      using assms(4,5) by (auto simp: set_headerline_delim)
    then show ?thesis by (simp only: line_header_def ssdp_header_line_word [OF assms(1,2)] option.sel)
  qed
  ultimately show ?thesis by (simp add: ssdp_add_header_word)
qed

lemma read_header_texts:
  "\<forall>h \<in> set hs. ssdp_header_ok h \<Longrightarrow>
   read_lines acc (tokens {CR, LF} (concat (map header_text hs) @ MUPNP_HTTP_CRLF)) = acc @ map header_norm hs"
proof (induction hs arbitrary: acc)
  case Nil
  show ?case by (simp add: MUPNP_HTTP_CRLF_def tokens_delim tokens_simps)
next
  case (Cons h hs)
  then obtain name where h: "hname h = Some name" "word_text MUPNP_HTTP_HEADERLINE_DELIM name"
    "rest_text MUPNP_HTTP_HEADERLINE_DELIM (str_bytes (hvalue h))" "CR \<notin> set (str_bytes (hvalue h))"
    by (auto simp: ssdp_header_ok_def split: option.splits)
  have norm: "\<lparr>hname = Some name, hvalue = Some (str_bytes (hvalue h))\<rparr> = header_norm h"
    using h(1) by (cases h) (simp add: header_norm_def)
  have whole: "concat (map header_text (h # hs)) @ MUPNP_HTTP_CRLF =
      name @ CHR '':'' # '' '' @ str_bytes (hvalue h) @ MUPNP_HTTP_CRLF @ (concat (map header_text hs) @ MUPNP_HTTP_CRLF)"
    using h(1) by (simp add: header_text_def)
  have "read_lines acc (tokens {CR, LF} (concat (map header_text (h # hs)) @ MUPNP_HTTP_CRLF)) =
      read_lines (acc @ [header_norm h]) (tokens {CR, LF} (concat (map header_text hs) @ MUPNP_HTTP_CRLF))"
    unfolding whole by (subst read_line_step [OF h(2,3,4)]) (simp_all add: norm)
  then show ?case using Cons by simp
qed

lemma nul_free_ssdp_text:
  assumes "nul_free first" "nul_free rest" "\<forall>h \<in> set hs. ssdp_header_ok h"
  shows "nul_free (ssdp_text first rest hs)"
proof -
  have "nul_free (header_text h)" if "h \<in> set hs" for h
    using assms(3) that
    by (auto simp: ssdp_header_ok_def header_text_def word_text_def rest_text_def MUPNP_HTTP_CRLF_def nul_free_def split: option.splits)
  then have "nul_free (concat (map header_text hs))" by (auto simp: nul_free_def)
  then show ?thesis using assms by (simp add: ssdp_text_def MUPNP_HTTP_CRLF_def)
qed

text \<open>The receiver gets the headers of the message behind one made of its first line.\<close>

lemma ssdp_text_received:
  assumes "word_text MUPNP_HTTP_HEADERLINE_DELIM first" and "rest_text MUPNP_HTTP_HEADERLINE_DELIM rest" "CR \<notin> set rest"
    and hs: "\<forall>h \<in> set hs. ssdp_header_ok h"
  shows "mupnp_ssdp_packet_setheader pkt (Some (ssdp_text first rest hs)) =
    Some (pkt\<lparr>ssdpHeaders := ssdpHeaders pkt @ \<lparr>hname = Some first, hvalue = Some rest\<rparr> # map header_norm hs\<rparr>)"
proof -
  have nf: "nul_free (ssdp_text first rest hs)"
    using assms by (intro nul_free_ssdp_text) (simp_all add: word_text_def rest_text_def)
  have "read_lines acc (tokens {CR, LF} (ssdp_text first rest hs)) =
      acc @ \<lparr>hname = Some first, hvalue = Some rest\<rparr> # map header_norm hs" for acc
    unfolding ssdp_text_def append.simps
    by (subst read_line_step [OF assms(1,2,3), of _ "[]", simplified]) (simp_all add: read_header_texts [OF hs])
  then show ?thesis by (simp add: setheader_total [OF nf])
qed

subsection \<open>The age and the delay\<close>

lemma maxage_of_leasetime:
  assumes "mupnp_ssdp_packet_getcachecontrol pkt = Some (MUPNP_HTTP_MAX_AGE @ ''='' @ show_int v)" and "long_range v"
  shows "mupnp_ssdp_packet_getmaxage pkt = v"
proof -
  let ?c = "MUPNP_HTTP_MAX_AGE @ ''='' @ show_int v"
  have "mupnp_strstr (Some ?c) (Some MUPNP_HTTP_MAX_AGE) = 0"
    by (simp add: mupnp_strstr_def MUPNP_HTTP_MAX_AGE_def)
  moreover have "mupnp_strstr (Some ?c) (Some ''='') = 7"
    by (simp add: mupnp_strstr_def MUPNP_HTTP_MAX_AGE_def c_strstr_single)
  moreover have "mupnp_str2long (Some (drop 8 ?c)) = v"
    using c_strtol10_show_int [OF assms(2), of "[]"]
    by (simp add: mupnp_str2long_def c_atol_def MUPNP_HTTP_MAX_AGE_def)
  ultimately show ?thesis using assms(1) by (simp add: mupnp_ssdp_packet_getmaxage_def Let_def)
qed

lemma getmx_loop_nondigit: "\<not> list_all c_isdigit cs \<Longrightarrow> getmx_loop cs mx = 0"
  by (induction cs arbitrary: mx) auto

lemma digit_of: "c_isdigit c \<Longrightarrow> int (byte_of c) - 48 = int (char_digit c) \<and> char_digit c < 10"
  by (auto simp: c_isdigit_def char_digit_def)

lemma getmx_loop_digits:
  "list_all c_isdigit cs \<Longrightarrow> getmx_loop cs (int (min 5 n)) = int (min 5 (digits_val 10 (n # map char_digit cs)))"
proof (induction cs arbitrary: n)
  case Nil
  then show ?case by (simp add: digits_val_def)
next
  case (Cons c cs)
  then have c: "int (byte_of c) - 48 = int (char_digit c)" "char_digit c < 10" using digit_of by simp_all
  have "getmx_loop (c # cs) (int (min 5 n)) = getmx_loop cs (int (min 5 (n * 10 + char_digit c)))"
  proof -
    have "(if m < 5 then let mx = m * 10 + (int (byte_of c) - 48) in if mx > 5 then 5 else mx else m) =
        int (min 5 (n * 10 + char_digit c))" if "m = int (min 5 n)" for m
      unfolding c(1) using that by (simp add: Let_def min_def)
    from this [OF refl] show ?thesis using Cons.prems by (simp only: getmx_loop.simps list.pred_inject simp_thms if_False)
  qed
  also have "\<dots> = int (min 5 (digits_val 10 ((n * 10 + char_digit c) # map char_digit cs)))"
    using Cons by simp
  finally show ?case by (simp add: digits_val_def mult.commute)
qed

section \<open>Properties\<close>

text \<open>C27: the delay a search asks for is read as a number of at most five seconds: the value of
  the MX header when it is a decimal number of any length, and 0 when the header is missing,
  empty or holds anything else; it never overflows.\<close>

theorem getmx_spec:
  shows "mupnp_ssdp_packet_getmx pkt =
    (case ssdp_header ''MX'' pkt of None \<Rightarrow> 0
     | Some v \<Rightarrow> if v \<noteq> [] \<and> list_all c_isdigit v then int (min 5 (dec_value v)) else 0)"
proof (cases "ssdp_header ''MX'' pkt")
  case None
  then show ?thesis by (simp add: mupnp_ssdp_packet_getmx_def)
next
  case (Some v)
  have "getmx_loop v 0 = int (min 5 (dec_value v))" if "list_all c_isdigit v"
    using getmx_loop_digits [OF that, of 0] by (simp add: dec_value_def digits_val_def)
  then show ?thesis using Some getmx_loop_nondigit by (auto simp: mupnp_ssdp_packet_getmx_def)
qed

end
