(* ===== verification/HttpMessage.thy ===== *)
theory HttpMessage
  imports HttpRequest
begin

section \<open>Requests and responses on the wire\<close>

text \<open>
  What is posted by \<open>HttpRequest\<close> on one side of a connection is read by it on the other side:
  the start lines, and with the results of \<open>HttpWire\<close> whole messages.
\<close>

subsection \<open>Start lines\<close>

lemma next_word_rep:
  assumes "tok_rep st (w @ c # r)" and "tok_set st = set ds" and "word_text ds w" and "c \<in> set ds"
  shows "\<exists>st'. next_word st = (st', Some (Some w)) \<and> tok_set st' = set ds \<and> tok_rep st' r"
  using hasmore_word [OF assms(1-3)] nexttoken_word [OF assms] by (auto simp: next_word_def)

lemma set_statusline_delim: "set MUPNP_HTTP_STATUSLINE_DELIM = {CR, LF, CHR '' ''}"
  by (auto simp: MUPNP_HTTP_STATUSLINE_DELIM_def)

lemma statusline_new:
  assumes "s \<noteq> []" and "nul_free s"
  defines "st \<equiv> mupnp_string_tokenizer_new (Some s) (Some MUPNP_HTTP_STATUSLINE_DELIM)"
  shows "tok_rep st s" "tok_set st = set MUPNP_HTTP_STATUSLINE_DELIM"
proof -
  have "nul_free MUPNP_HTTP_STATUSLINE_DELIM" by (simp add: MUPNP_HTTP_STATUSLINE_DELIM_def)
  from new_rep [OF assms(1,2) this] show "tok_rep st s" "tok_set st = set MUPNP_HTTP_STATUSLINE_DELIM"
    by (simp_all add: st_def)
qed

abbreviation line_word :: "cstring \<Rightarrow> bool" where
  "line_word \<equiv> word_text MUPNP_HTTP_STATUSLINE_DELIM"

abbreviation line_rest :: "cstring \<Rightarrow> bool" where
  "line_rest \<equiv> rest_text MUPNP_HTTP_STATUSLINE_DELIM"

lemma line_word_show_int: "line_word (show_int v)"
proof -
  have "c \<noteq> CR \<and> c \<noteq> LF \<and> c \<noteq> CHR '' ''" if "c \<in> set (show_int v)" for c
    using show_int_chars [OF that] by (auto simp: c_isdigit_def)
  moreover have "show_int v \<noteq> []" by (simp add: show_int_def)
  ultimately show ?thesis by (auto simp: word_text_def set_statusline_delim)
qed

lemma read_status_line_correct:
  assumes ver: "line_word ver" and code: "int_range code" and reason: "line_rest reason" "reason \<noteq> []"
  shows "read_status_line res (ver @ '' '' @ show_int code @ '' '' @ reason @ [CR, LF]) =
    Some (res\<lparr>resVersion := Some ver, statusCode := code, reasonPhrase := Some reason\<rparr>)"
proof -
  let ?D = MUPNP_HTTP_STATUSLINE_DELIM
  let ?l = "ver @ CHR '' '' # show_int code @ CHR '' '' # reason @ [CR, LF]"
  define st where "st = mupnp_string_tokenizer_new (Some ?l) (Some ?D)"
  have nf: "?l \<noteq> []" "nul_free ?l" using ver reason by (auto simp: word_text_def rest_text_def)
  note rep = statusline_new [OF nf, folded st_def]
  have sp: "CHR '' '' \<in> set ?D" by (simp add: set_statusline_delim)
  obtain st1 where 1: "next_word st = (st1, Some (Some ver))" "tok_set st1 = set ?D"
      "tok_rep st1 (show_int code @ CHR '' '' # reason @ [CR, LF])"
    using next_word_rep [OF rep ver sp] by blast
  obtain st2 where 2: "next_word st1 = (st2, Some (Some (show_int code)))" "tok_set st2 = set ?D"
      "tok_rep st2 (reason @ [CR, LF])"
    using next_word_rep [OF 1(3,2) line_word_show_int sp] by blast
  have "tok_rep st2 ([] @ reason @ [CR, LF])" "set [] \<subseteq> set ?D" "set [CR, LF] \<subseteq> set ?D"
    using 2(3) by (simp_all add: set_statusline_delim)
  from nextall_rest [OF this(1) 2(2) reason this(2,3)] obtain st3 p where
    3: "mupnp_string_tokenizer_hasmoretoken st2" "mupnp_string_tokenizer_nextalltoken st2 = Some (st3, Some p)"
      "token_text st3 (Some p) = Some (reason @ [CR, LF])" by blast
  have "mupnp_strrtrim (reason @ [CR, LF]) ?D (length ?D) = reason"
    using reason by (intro rtrim_rest) (simp_all add: set_statusline_delim)
  moreover have "c_atoi (show_int code) = code" using c_atoi_show_int [OF code, of "[]"] by simp
  ultimately show ?thesis
    using 1(1) 2(1) 3
    by (simp add: read_status_line_def Let_def mupnp_http_response_setversion_def
        mupnp_http_response_setstatuscode_def mupnp_http_response_setreasonphrase_def flip: st_def)
qed

lemma read_request_line_correct:
  assumes m: "line_word m" and u: "line_word u" and v: "line_word v"
  shows "read_request_line req (m @ '' '' @ u @ '' '' @ v @ [CR, LF]) =
    (True, req\<lparr>reqMethod := Some m, reqUri := Some u, reqVersion := Some v\<rparr>)"
proof -
  let ?D = MUPNP_HTTP_STATUSLINE_DELIM
  let ?l = "m @ CHR '' '' # u @ CHR '' '' # v @ CR # [LF]"
  define st where "st = mupnp_string_tokenizer_new (Some ?l) (Some ?D)"
  have nf: "?l \<noteq> []" "nul_free ?l" using m u v by (auto simp: word_text_def)
  note rep = statusline_new [OF nf, folded st_def]
  have sp: "CHR '' '' \<in> set ?D" "CR \<in> set ?D" by (simp_all add: set_statusline_delim)
  obtain st1 where 1: "next_word st = (st1, Some (Some m))" "tok_set st1 = set ?D"
      "tok_rep st1 (u @ CHR '' '' # v @ CR # [LF])"
    using next_word_rep [OF rep m sp(1)] by blast
  obtain st2 where 2: "next_word st1 = (st2, Some (Some u))" "tok_set st2 = set ?D"
      "tok_rep st2 (v @ CR # [LF])"
    using next_word_rep [OF 1(3,2) u sp(1)] by blast
  obtain st3 where 3: "next_word st2 = (st3, Some (Some v))"
    using next_word_rep [OF 2(3,2) v sp(2)] by blast
  show ?thesis
    using 1(1) 2(1) 3
    by (simp add: read_request_line_def Let_def mupnp_http_request_setmethod_def
        mupnp_http_request_seturi_def mupnp_http_request_setversion_def flip: st_def)
qed

text \<open>A start line that fits the line buffer.\<close>

lemma readline_start:
  assumes "instream s = l @ [CR, LF] @ r" and "LF \<notin> set l" and "length l + 2 < MUPNP_HTTP_READLINE_BUFSIZE"
  shows "\<exists>s'. mupnp_socket_readline s MUPNP_HTTP_READLINE_BUFSIZE = (int (length l) + 2, l @ [CR, LF], s') \<and>
    sock_after s s' r"
  using readline_complete [of s "l @ [CR]" r MUPNP_HTTP_READLINE_BUFSIZE] assms
  by (auto simp: sock_after_def)

subsection \<open>Setting headers\<close>

lemma header_ok_inv: "\<forall>h \<in> set hs. header_ok n h \<Longrightarrow> headers_inv hs"
  by (auto simp: headers_inv_def word_text_def elim!: header_okE dest!: bspec)

lemma headerlist_set_ok:
  assumes hs: "\<forall>h \<in> set hs. header_ok n h" and k: "word_text MUPNP_HTTP_HEADERLINE_DELIM k"
    and v: "rest_text MUPNP_HTTP_HEADERLINE_DELIM v" and len: "length k + length v + 5 \<le> n"
  shows "\<forall>h \<in> set (mupnp_http_headerlist_set hs (Some k) (Some v)). header_ok n h"
proof -
  have nf: "nul_free k" using k by (simp add: word_text_def)
  have set_eq: "mupnp_http_headerlist_set hs (Some k) (Some v) = header_store hs k v" by (simp add: header_store_def)
  show ?thesis
  proof (cases "hpos hs k")
    case None
    with hs k v len show ?thesis by (auto simp: set_eq header_store_pos header_ok_def)
  next
    case (Some i)
    from hpos_Some [OF Some header_ok_inv [OF hs] nf] have i: "i < length hs" "named k (hs ! i)" by simp_all
    then obtain name where name: "hname (hs ! i) = Some name" "length name = length k"
      by (auto simp: named_def same_name_def dest: map_eq_imp_length_eq)
    have "header_ok n (hs ! i)" using hs i by simp
    then have "header_ok n ((hs ! i)\<lparr>hvalue := Some v\<rparr>)"
      using name v len by (simp add: header_ok_def)
    with hs Some show ?thesis
      by (auto simp: set_eq header_store_pos dest!: set_update_subset_insert [THEN subsetD])
  qed
qed

lemma getvalue_set_other:
  assumes "headers_inv hs" and "nul_free k" and "nul_free l" and "map c_tolower k \<noteq> map c_tolower l"
  shows "mupnp_http_headerlist_getvalue (mupnp_http_headerlist_set hs (Some k) (Some v)) (Some l) =
    mupnp_http_headerlist_getvalue hs (Some l)"
  using http_headers.lookup_store [OF assms(1-3), of v] assms(4)
  by (simp add: header_lookup_def header_store_def same_name_def)

lemma get_set_other:
  assumes "headers_inv hs" and "nul_free k" and "nul_free l" and "map c_tolower k \<noteq> map c_tolower l"
  shows "mupnp_http_headerlist_get (mupnp_http_headerlist_set hs (Some k) (Some v)) (Some l) =
    mupnp_http_headerlist_get hs (Some l)"
proof -
  have ne: "\<not> same_name k l" using assms(4) by (simp add: same_name_def)
  have "hpos (header_store hs k v) l = hpos hs l"
  proof (cases "hpos hs k")
    case None
    with assms(1-3) ne show ?thesis
      by (simp add: header_store_pos hpos_append named_def split: option.split)
  next
    case (Some i)
    with assms(1,2) have "i < length hs" by (simp add: hpos_Some)
    with Some assms(1,3) show ?thesis by (simp add: header_store_pos hpos_update)
  qed
  then show ?thesis by (simp add: hpos_def header_store_def)
qed

subsection \<open>Responses\<close>

definition status_line :: "cstring \<Rightarrow> int \<Rightarrow> cstring \<Rightarrow> cstring" where
  "status_line ver code reason = ver @ '' '' @ show_int code @ '' '' @ reason"

definition dated :: "mUpnpHttpResponse \<Rightarrow> nat \<Rightarrow> mUpnpHttpResponse" where
  "dated res now = mupnp_http_packet_setheadervalue res (Some ''Date'') (Some (mupnp_http_getdate now 128))"

text \<open>A response whose parts survive the wire, and a time before the year 10000.\<close>

definition response_ok :: "mUpnpHttpResponse \<Rightarrow> nat \<Rightarrow> bool" where
  "response_ok res now \<longleftrightarrow>
     (case (resVersion res, reasonPhrase res) of
        (Some ver, Some reason) \<Rightarrow>
          line_word ver \<and> line_rest reason \<and> reason \<noteq> [] \<and> int_range (statusCode res) \<and>
          length ver + length reason < 480
      | _ \<Rightarrow> False) \<and>
     (\<forall>h \<in> set (headerList res). header_ok MUPNP_HTTP_READLINE_BUFSIZE h) \<and> now div 86400 div 365 < 8030"

lemma dated_headers:
  "headerList (dated res now) =
     mupnp_http_headerlist_set (headerList res) (Some ''Date'') (Some (mupnp_http_getdate now 128))"
  "content (dated res now) = content res" "resVersion (dated res now) = resVersion res"
  "reasonPhrase (dated res now) = reasonPhrase res" "statusCode (dated res now) = statusCode res"
  by (simp_all add: dated_def mupnp_http_packet_setheadervalue_def)

lemma date_value:
  assumes "now div 86400 div 365 < 8030"
  shows "rest_text MUPNP_HTTP_HEADERLINE_DELIM (mupnp_http_getdate now 128)" "length (mupnp_http_getdate now 128) = 29"
proof -
  define d where "d = mupnp_http_getdate now 128"
  have d: "length d = 29" "\<forall>c \<in> set d. date_char c" "hd d \<notin> {CHR '' '', CHR '':''}" "last d = CHR ''T''"
    using getdate_shape [OF assms, of 128] by (simp_all add: d_def)
  have "hd d \<in> set d" using d(1) by (cases d) simp_all
  with d(2) have "date_char (hd d)" by simp
  with d show "rest_text MUPNP_HTTP_HEADERLINE_DELIM (mupnp_http_getdate now 128)"
    unfolding d_def [symmetric] rest_text_def set_headerline_delim
    by (auto simp: date_char_def nul_free_def)
  show "length (mupnp_http_getdate now 128) = 29" using d(1) by (simp add: d_def)
qed

lemma dated_ok:
  assumes "response_ok res now"
  shows "\<forall>h \<in> set (headerList (dated res now)). header_ok MUPNP_HTTP_READLINE_BUFSIZE h"
proof -
  have hs: "\<forall>h \<in> set (headerList res). header_ok MUPNP_HTTP_READLINE_BUFSIZE h"
    and now: "now div 86400 div 365 < 8030"
    using assms by (auto simp: response_ok_def)
  have "word_text MUPNP_HTTP_HEADERLINE_DELIM ''Date''" by (simp add: word_text_def set_headerline_delim)
  then show ?thesis
    unfolding dated_headers using hs date_value [OF now]
    by (intro headerlist_set_ok) (simp_all add: MUPNP_HTTP_READLINE_BUFSIZE_def)
qed

lemma dated_getvalue:
  assumes "response_ok res now" and "nul_free k" and "map c_tolower ''Date'' \<noteq> map c_tolower k"
  shows "mupnp_http_headerlist_getvalue (headerList (dated res now)) (Some k) =
    mupnp_http_headerlist_getvalue (headerList res) (Some k)"
proof -
  have "headers_inv (headerList res)"
    using assms(1) by (intro header_ok_inv [of _ MUPNP_HTTP_READLINE_BUFSIZE]) (simp add: response_ok_def)
  then show ?thesis unfolding dated_headers using assms(2,3) by (intro getvalue_set_other) simp_all
qed

lemma dated_get:
  assumes "response_ok res now" and "nul_free k" and "map c_tolower ''Date'' \<noteq> map c_tolower k"
  shows "mupnp_http_headerlist_get (headerList (dated res now)) (Some k) =
    mupnp_http_headerlist_get (headerList res) (Some k)"
proof -
  have "headers_inv (headerList res)"
    using assms(1) by (intro header_ok_inv [of _ MUPNP_HTTP_READLINE_BUFSIZE]) (simp add: response_ok_def)
  then show ?thesis unfolding dated_headers using assms(2,3) by (intro get_set_other) simp_all
qed

lemma postresponse_sent:
  assumes s: "writable s" and ok: "response_ok res now"
    and len: "content res \<noteq> None \<longrightarrow> announced (dated res now) \<le> length (str_bytes (content res))"
  obtains s' ver reason where "resVersion res = Some ver" and "reasonPhrase res = Some reason"
    and "line_word ver" and "line_rest reason" and "reason \<noteq> []" and "int_range (statusCode res)"
    and "length (status_line ver (statusCode res) reason) < 500"
    and "mupnp_http_request_postresponse s res now = Some (True, dated res now, s')"
    and "sent s (status_line ver (statusCode res) reason @ [CR, LF] @ headers_text (headerList (dated res now)) @
      take (announced (dated res now)) (str_bytes (content res))) s'"
proof -
  from ok obtain ver reason where vr: "resVersion res = Some ver" "reasonPhrase res = Some reason"
      "line_word ver" "line_rest reason" "reason \<noteq> []" "int_range (statusCode res)"
      "length ver + length reason < 480"
    by (auto simp: response_ok_def split: option.splits)
  let ?code = "show_int (statusCode res)"
  have code: "mupnp_int2str (statusCode res) MUPNP_STRING_INTEGER_BUFLEN = ?code"
    using vr(6) by (rule int2str_buflen)
  define s1 where "s1 = swrite (swrite (swrite (swrite (swrite (swrite s ver) '' '') ?code) '' '') reason) MUPNP_HTTP_CRLF"
  have "sent s (((((([] @ ver) @ '' '') @ ?code) @ '' '') @ reason) @ MUPNP_HTTP_CRLF) s1"
    unfolding s1_def by (intro sent_swrite sent_refl s)
  then have s1: "sent s (status_line ver (statusCode res) reason @ [CR, LF]) s1"
    by (simp add: status_line_def MUPNP_HTTP_CRLF_def)
  from packet_post_sent [OF this, of "dated res now"] len obtain s' where
    post: "mupnp_http_packet_post (dated res now) s1 = Some s'"
    "sent s ((status_line ver (statusCode res) reason @ [CR, LF]) @ headers_text (headerList (dated res now)) @
      take (announced (dated res now)) (str_bytes (content res))) s'"
    by (auto simp: dated_headers)
  have "length (status_line ver (statusCode res) reason) < 500"
    using vr(7) length_show_int32 [OF vr(6)] by (simp add: status_line_def)
  moreover have "mupnp_http_request_postresponse s res now = Some (True, dated res now, s')"
    using vr(1,2) code post(1)
    by (simp add: mupnp_http_request_postresponse_def Let_def mupnp_http_response_getversion_def
        mupnp_http_response_getreasonphrase_def mupnp_http_response_getstatuscode_def dated_headers s1_def
        flip: dated_def)
  ultimately show thesis using vr post(2) by (intro that [of ver reason s']) simp_all
qed

lemma response_read_start:
  assumes "line_word ver" and "int_range code" and "line_rest reason" and "reason \<noteq> []"
    and "length (status_line ver code reason) < 500"
    and "instream t = status_line ver code reason @ [CR, LF] @ b"
  shows "\<exists>t1. sock_after t t1 b \<and> mupnp_http_response_read A q t onlyHeader =
    mupnp_http_packet_read A ((mupnp_http_response_clear q)\<lparr>resVersion := Some ver, statusCode := code,
        reasonPhrase := Some reason\<rparr>) t1 onlyHeader MUPNP_HTTP_READLINE_BUFSIZE"
proof -
  let ?l = "status_line ver code reason"
  have nf: "nul_free ?l" "LF \<notin> set ?l"
    using assms(1,3) line_word_show_int [of code]
    by (auto simp: status_line_def word_text_def rest_text_def set_statusline_delim)
  obtain t1 where t1: "mupnp_socket_readline t MUPNP_HTTP_READLINE_BUFSIZE = (int (length ?l) + 2, ?l @ [CR, LF], t1)"
      "sock_after t t1 b"
    using readline_start [OF assms(6) nf(2)] assms(5) by (auto simp: MUPNP_HTTP_READLINE_BUFSIZE_def)
  have "cstr (?l @ [CR, LF]) = ver @ '' '' @ show_int code @ '' '' @ reason @ [CR, LF]"
    using nf(1) by (simp add: cstr_nul_free status_line_def)
  then show ?thesis
    using t1 read_status_line_correct [OF assms(1-4), of "mupnp_http_response_clear q"]
    by (auto simp: mupnp_http_response_read_def Let_def)
qed

subsection \<open>Chunks\<close>

lemma sent_chunksize:
  assumes "sent s a t" and "length b < 2 ^ 31"
  shows "sent s (a @ show_nat 16 (length b) @ [CR, LF]) (mupnp_http_request_postchunkedsize t (int (length b)))"
proof -
  have "length b < 16 ^ 8" using assms(2) by simp
  then have "length (show_nat 16 (length b)) \<le> 8" by (intro length_show_nat) simp_all
  moreover have "unat (word_of_int (int (length b)) :: 32 word) = length b"
    using assms(2) by (simp add: unat_of_nat)
  ultimately show ?thesis
    using sent_swrite [OF assms(1), of "show_nat 16 (length b) @ [CR, LF]"]
    by (simp add: mupnp_http_request_postchunkedsize_def c_snprintf_def MUPNP_STRING_LONG_BUFLEN_def
        MUPNP_HTTP_CRLF_def)
qed

lemma sent_chunk:
  assumes "sent s a t" and "b \<noteq> []" and "length b < 2 ^ 31"
  shows "\<exists>t'. mupnp_http_request_postchunkeddata t b (int (length b)) = Some (True, t') \<and>
    sent s (a @ chunk_text b) t'"
  using sent_swrite [OF sent_swrite [OF sent_chunksize [OF assms(1,3)], of b], of MUPNP_HTTP_CRLF] assms(2)
  by (simp add: mupnp_http_request_postchunkeddata_def chunk_text_def Let_def MUPNP_HTTP_CRLF_def)

lemma sent_lastchunk:
  "sent s a t \<Longrightarrow> sent s (a @ last_chunk_text) (mupnp_http_request_postlastchunk t)"
  using sent_swrite [OF sent_chunksize [of s a t "[]"], of MUPNP_HTTP_CRLF]
  by (simp add: mupnp_http_request_postlastchunk_def last_chunk_text_def MUPNP_HTTP_CRLF_def show_nat_0)

text \<open>A body in chunks, as a listener posts it.\<close>

fun post_chunks :: "mUpnpSocket \<Rightarrow> buffer list \<Rightarrow> mUpnpSocket option" where
  "post_chunks sock [] = Some (mupnp_http_request_postlastchunk sock)"
| "post_chunks sock (b # bs) = do {
     (ok, sock) \<leftarrow> mupnp_http_request_postchunkeddata sock b (int (length b));
     post_chunks sock bs }"

lemma sent_chunks:
  "sent s a t \<Longrightarrow> [] \<notin> set bs \<Longrightarrow> \<forall>b \<in> set bs. length b < 2 ^ 31 \<Longrightarrow>
   \<exists>t'. post_chunks t bs = Some t' \<and> sent s (a @ concat (map chunk_text bs) @ last_chunk_text) t'"
proof (induction bs arbitrary: a t)
  case Nil
  then show ?case by (simp add: sent_lastchunk)
next
  case (Cons b bs)
  then obtain t1 where t1: "mupnp_http_request_postchunkeddata t b (int (length b)) = Some (True, t1)"
      "sent s (a @ chunk_text b) t1"
    using sent_chunk [of s a t b] by auto
  from Cons.IH [OF t1(2)] Cons.prems t1(1) show ?case by auto
qed

subsection \<open>Requests\<close>

lemma request_relative_id:
  assumes "mupnp_strstr (reqUri req) (Some ''://'') \<le> 0"
  shows "request_relative_uri req = Some req"
proof -
  obtain u where u: "mupnp_net_uri_setvalue mupnp_net_uri_new (reqUri req) = Some u" "protocol u = None"
    using uri_setvalue_total [of mupnp_net_uri_new "reqUri req"] assms by metis
  then show ?thesis
    by (simp add: request_relative_uri_def mupnp_http_request_geturi_def mupnp_net_uri_isabsolute_def)
qed

lemma request_first_line_text: "str_bytes (request_first_line m u v) = m @ '' '' @ u @ '' '' @ v @ [CR, LF]"
  by (simp add: request_first_line_def MUPNP_HTTP_CRLF_def)

lemma request_read_start:
  fixes q :: mUpnpHttpRequest
  assumes m: "line_word m" and u: "line_word u" and v: "line_word v" and rel: "mupnp_strstr (Some u) (Some ''://'') \<le> 0"
    and len: "length m + length u + length v < 500"
    and t: "instream t = m @ '' '' @ u @ '' '' @ v @ [CR, LF] @ b"
  defines "q1 \<equiv> (mupnp_http_request_clear q)\<lparr>reqMethod := Some m, reqUri := Some u, reqVersion := Some v\<rparr>"
  shows "\<exists>t1. sock_after t t1 b \<and> mupnp_http_request_read A q t =
    Option.bind (mupnp_http_packet_read_headers (mupnp_http_packet_clear q1) t1 MUPNP_HTTP_READLINE_BUFSIZE)
      (\<lambda>(httpReq, sock).
         if mupnp_http_packet_hasheader httpReq (Some ''Content-Length'') \<or>
            mupnp_http_packet_hasheader httpReq (Some ''Transfer-Encoding'')
         then Some (mupnp_http_packet_read_body A httpReq sock MUPNP_HTTP_READLINE_BUFSIZE)
         else Some (True, httpReq, sock))"
proof -
  let ?l = "m @ '' '' @ u @ '' '' @ v"
  have nf: "nul_free ?l" "LF \<notin> set ?l"
    using m u v by (auto simp: word_text_def set_statusline_delim)
  obtain t1 where t1: "mupnp_socket_readline t MUPNP_HTTP_READLINE_BUFSIZE = (int (length ?l) + 2, ?l @ [CR, LF], t1)"
      "sock_after t t1 b"
    using readline_start [of t ?l b, OF _ nf(2)] t len by (auto simp: MUPNP_HTTP_READLINE_BUFSIZE_def)
  have first: "read_first_line t = (int (length ?l) + 2, ?l @ [CR, LF], t1)"
    using t1(1) by (subst read_first_line.simps) simp
  have line: "cstr (?l @ [CR, LF]) = m @ '' '' @ u @ '' '' @ v @ [CR, LF]"
    using nf(1) by (simp add: cstr_nul_free)
  have rel': "request_relative_uri q1 = Some q1"
    using rel by (intro request_relative_id) (simp add: q1_def)
  have "mupnp_http_request_read A q t = (case (True, q1) of (ok, httpReq) \<Rightarrow>
      if \<not> ok then Some (False, httpReq, t1)
      else do {
        httpReq \<leftarrow> request_relative_uri httpReq;
        let httpReq = mupnp_http_packet_clear httpReq;
        (httpReq, sock) \<leftarrow> mupnp_http_packet_read_headers httpReq t1 MUPNP_HTTP_READLINE_BUFSIZE;
        if mupnp_http_packet_hasheader httpReq (Some ''Content-Length'') \<or>
           mupnp_http_packet_hasheader httpReq (Some ''Transfer-Encoding'')
        then Some (mupnp_http_packet_read_body A httpReq sock MUPNP_HTTP_READLINE_BUFSIZE)
        else Some (True, httpReq, sock) })"
    unfolding mupnp_http_request_read_def Let_def first prod.case line read_request_line_correct [OF m u v] q1_def
    by simp
  with t1(2) rel' show ?thesis by (auto simp: Let_def)
qed

text \<open>A request whose parts survive the wire, and what of it arrives.\<close>

definition request_ok :: "mUpnpHttpRequest \<Rightarrow> bool" where
  "request_ok req \<longleftrightarrow>
     (case (reqMethod req, reqUri req, reqVersion req) of
        (Some m, Some u, Some v) \<Rightarrow>
          line_word m \<and> line_word u \<and> line_word v \<and> length m + length u + length v < 500 \<and>
          mupnp_strstr (Some u) (Some ''://'') \<le> 0
      | _ \<Rightarrow> False) \<and>
     (\<forall>h \<in> set (headerList req). header_ok MUPNP_HTTP_READLINE_BUFSIZE h) \<and>
     (if content req = None
      then mupnp_http_headerlist_get (headerList req) (Some ''Content-Length'') = None \<and>
           mupnp_http_headerlist_get (headerList req) (Some ''Transfer-Encoding'') = None
      else mupnp_http_packet_getheadervalue req (Some ''Content-Length'') =
           Some (show_nat 10 (length (str_bytes (content req))))) \<and>
     int (length (str_bytes (content req))) < LONG_MAX"

definition request_view ::
    "mUpnpHttpRequest \<Rightarrow> charptr \<times> charptr \<times> charptr \<times> mUpnpHttpHeaderList \<times> buffer" where
  "request_view req =
     (reqMethod req, reqUri req, reqVersion req, map header_norm (headerList req), str_bytes (content req))"

definition request_text :: "mUpnpHttpRequest \<Rightarrow> buffer" where
  "request_text req =
     the (reqMethod req) @ '' '' @ the (reqUri req) @ '' '' @ the (reqVersion req) @ [CR, LF] @
     headers_text (headerList req) @ str_bytes (content req)"

lemma request_announced:
  assumes "request_ok req" and "content req \<noteq> None"
  shows "announced req = length (str_bytes (content req))"
  using assms by (intro announced_show) (simp_all add: request_ok_def)

lemma request_send_text:
  assumes "sent s a t" and "request_ok req"
  shows "\<exists>t'. request_send req (the (reqMethod req)) (the (reqUri req)) (the (reqVersion req)) t = Some t' \<and>
    sent s (a @ request_text req) t'"
proof -
  have take: "take (announced req) (str_bytes (content req)) = str_bytes (content req)"
    using request_announced [OF assms(2)] by (cases "content req") simp_all
  have "content req \<noteq> None \<longrightarrow> announced req \<le> length (str_bytes (content req))"
    using request_announced [OF assms(2)] by simp
  from packet_post_sent [OF sent_swrite [OF assms(1), of "str_bytes (request_first_line (the (reqMethod req))
      (the (reqUri req)) (the (reqVersion req)))"] this] show ?thesis
    by (auto simp: request_send_def request_first_line_text request_text_def take)
qed

lemma request_read_text:
  assumes ok: "request_ok req" and t: "instream t = request_text req @ r" and A: "total_allocator A"
  shows "\<exists>q' t'. mupnp_http_request_read A q t = Some (True, q', t') \<and> sock_after t t' r \<and>
    request_view q' = request_view req \<and> headerList q' = map header_norm (headerList req)"
proof -
  obtain m u v where muv: "reqMethod req = Some m" "reqUri req = Some u" "reqVersion req = Some v"
    "line_word m" "line_word u" "line_word v" "length m + length u + length v < 500"
    "mupnp_strstr (Some u) (Some ''://'') \<le> 0"
    using ok by (auto simp: request_ok_def split: option.splits)
  define c where "c = str_bytes (content req)"
  let ?hs = "headerList req" and ?n = MUPNP_HTTP_READLINE_BUFSIZE
  have "instream t = m @ '' '' @ u @ '' '' @ v @ [CR, LF] @ (headers_text ?hs @ c @ r)"
    using t muv(1-3) by (simp add: request_text_def c_def)
  from request_read_start [OF muv(4-6,8,7) this, of A q] obtain t1 where
    t1: "sock_after t t1 (headers_text ?hs @ c @ r)" and
    read: "mupnp_http_request_read A q t = Option.bind (mupnp_http_packet_read_headers (mupnp_http_packet_clear
        ((mupnp_http_request_clear q)\<lparr>reqMethod := Some m, reqUri := Some u, reqVersion := Some v\<rparr>)) t1 ?n)
      (\<lambda>(httpReq, sock).
         if mupnp_http_packet_hasheader httpReq (Some ''Content-Length'') \<or>
            mupnp_http_packet_hasheader httpReq (Some ''Transfer-Encoding'')
         then Some (mupnp_http_packet_read_body A httpReq sock ?n) else Some (True, httpReq, sock))"
    by blast
  define q1 where "q1 = mupnp_http_packet_clear
    ((mupnp_http_request_clear q)\<lparr>reqMethod := Some m, reqUri := Some u, reqVersion := Some v\<rparr>)"
  define q2 where "q2 = q1\<lparr>headerList := map header_norm ?hs\<rparr>"
  have q2: "reqMethod q2 = Some m" "reqUri q2 = Some u" "reqVersion q2 = Some v" "content q2 = None"
    "headerList q2 = map header_norm ?hs"
    by (simp_all add: q2_def q1_def mupnp_http_packet_clear_def)
  obtain t2 where hd: "mupnp_http_packet_read_headers q1 t1 ?n = Some (q2, t2)" and t2: "sock_after t1 t2 (c @ r)"
    using read_headers_correct [of t1 ?hs "c @ r" ?n q1] t1 ok
    by (auto simp: q2_def q1_def mupnp_http_packet_clear_def sock_after_def MUPNP_HTTP_READLINE_BUFSIZE_def
        request_ok_def)
  have has: "mupnp_http_packet_hasheader q2 k \<longleftrightarrow> mupnp_http_headerlist_get ?hs k \<noteq> None" for k
    by (simp add: mupnp_http_packet_hasheader_def q2(5) mupnp_http_headerlist_get_def headerlist_find_norm)
  have "\<exists>t'. mupnp_http_request_read A q t =
      Some (True, q2\<lparr>content := (if c = [] then None else Some c)\<rparr>, t') \<and> sock_after t2 t' r"
  proof (cases "content req")
    case None
    then have "mupnp_http_request_read A q t = Some (True, q2, t2)"
      using read hd has ok by (simp add: request_ok_def flip: q1_def)
    moreover have "q2\<lparr>content := None\<rparr> = q2" using q2(4) by (cases q2) simp
    ultimately show ?thesis using None t2 by (auto simp: c_def sock_after_def)
  next
    case (Some b)
    then have len: "mupnp_http_headerlist_getvalue ?hs (Some ''Content-Length'') = Some (show_nat 10 (length c))"
      using ok by (simp add: mupnp_http_packet_getheadervalue_def c_def request_ok_def)
    then have "mupnp_http_headerlist_get ?hs (Some ''Content-Length'') \<noteq> None"
      by (auto simp: mupnp_http_headerlist_getvalue_def split: option.splits)
    with read hd has have "mupnp_http_request_read A q t = Some (mupnp_http_packet_read_body A q2 t2 ?n)"
      by (simp flip: q1_def)
    moreover have "mupnp_http_packet_getheadervalue q2 (Some ''Content-Length'') = Some (show_nat 10 (length c))"
      using len by (simp add: mupnp_http_packet_getheadervalue_def q2(5) getvalue_norm)
    ultimately show ?thesis
      using read_body_length [of q2 c t2 r A ?n] t2 ok A q2(4)
      by (auto simp: sock_after_def alloc_for_total c_def request_ok_def)
  qed
  then obtain t' where t': "mupnp_http_request_read A q t =
      Some (True, q2\<lparr>content := (if c = [] then None else Some c)\<rparr>, t')" "sock_after t2 t' r" by blast
  have "sock_after t t' r" using t1 t2 t'(2) by (simp add: sock_after_def)
  with t'(1) q2 muv(1-3) show ?thesis
    by (auto simp: request_view_def c_def header_norm_def comp_def)
qed

section \<open>Properties\<close>

text \<open>C2: A response that \<open>postresponse\<close> sends is read back by \<open>mupnp_http_response_read\<close> with
  the same version, status code, reason phrase, headers (the Date header included, in their
  order) and content, and what follows it stays in the stream.\<close>

theorem response_roundtrip:
  assumes "writable s" and "outstream s = []" and "response_ok res now"
    and "mupnp_http_packet_getheadervalue res (Some ''Content-Length'') = Some (show_nat 10 (length (str_bytes (content res))))"
    and "int (length (str_bytes (content res))) < LONG_MAX" and "total_allocator A"
  shows "\<exists>res' s' q' t'. mupnp_http_request_postresponse s res now = Some (True, res', s') \<and>
    mupnp_http_response_read A q (t\<lparr>instream := outstream s' @ r\<rparr>) False = Some (True, q', t') \<and>
    resVersion q' = resVersion res \<and> statusCode q' = statusCode res \<and> reasonPhrase q' = reasonPhrase res \<and>
    headerList q' = map header_norm (headerList res') \<and> str_bytes (content q') = str_bytes (content res) \<and>
    instream t' = r"
proof -
  define c where "c = str_bytes (content res)"
  let ?hs = "headerList (dated res now)"
  have len: "mupnp_http_headerlist_getvalue ?hs (Some ''Content-Length'') = Some (show_nat 10 (length c))"
    using assms(4) dated_getvalue [OF assms(3), of "''Content-Length''"]
    by (simp add: mupnp_http_packet_getheadervalue_def c_def c_tolower_def char_of_def bit_0)
  then have ann: "announced (dated res now) = length c"
    using assms(5) by (intro announced_show) (simp_all add: mupnp_http_packet_getheadervalue_def c_def)
  then have le: "content res \<noteq> None \<longrightarrow> announced (dated res now) \<le> length (str_bytes (content res))"
    by (simp add: c_def)
  obtain s' ver reason where p: "resVersion res = Some ver" "reasonPhrase res = Some reason" "line_word ver"
      "line_rest reason" "reason \<noteq> []" "int_range (statusCode res)"
      "length (status_line ver (statusCode res) reason) < 500"
      "mupnp_http_request_postresponse s res now = Some (True, dated res now, s')"
      "sent s (status_line ver (statusCode res) reason @ [CR, LF] @ headers_text ?hs @
        take (announced (dated res now)) (str_bytes (content res))) s'"
    by (rule postresponse_sent [OF assms(1,3) le])
  define t0 where "t0 = t\<lparr>instream := outstream s' @ r\<rparr>"
  have "instream t0 = status_line ver (statusCode res) reason @ [CR, LF] @ (headers_text ?hs @ c @ r)"
    using p(9) assms(2) ann by (simp add: t0_def sent_def wrote_def c_def)
  from response_read_start [OF p(3,6,4,5,7) this, of A q False] obtain t1 where
    t1: "sock_after t0 t1 (headers_text ?hs @ c @ r)"
      "mupnp_http_response_read A q t0 False = mupnp_http_packet_read A ((mupnp_http_response_clear q)
        \<lparr>resVersion := Some ver, statusCode := statusCode res, reasonPhrase := Some reason\<rparr>) t1 False
        MUPNP_HTTP_READLINE_BUFSIZE" by blast
  define q1 where "q1 = (mupnp_http_response_clear q)\<lparr>resVersion := Some ver, statusCode := statusCode res,
    reasonPhrase := Some reason\<rparr>"
  obtain t' where t': "mupnp_http_packet_read A q1 t1 False MUPNP_HTTP_READLINE_BUFSIZE =
      Some (True, q1\<lparr>headerList := map header_norm ?hs, content := (if c = [] then None else Some c)\<rparr>, t')"
      "sock_after t1 t' r"
    using packet_read_text [of t1 ?hs c r MUPNP_HTTP_READLINE_BUFSIZE A q1] t1(1) dated_ok [OF assms(3)] len assms(5,6)
    by (auto simp: sock_after_def c_def MUPNP_HTTP_READLINE_BUFSIZE_def)
  define q2 where "q2 = q1\<lparr>headerList := map header_norm ?hs, content := (if c = [] then None else Some c)\<rparr>"
  have read: "mupnp_http_response_read A q (t\<lparr>instream := outstream s' @ r\<rparr>) False = Some (True, q2, t')"
    using t1(2) t'(1) by (simp add: q1_def q2_def flip: t0_def)
  have "resVersion q2 = resVersion res" "statusCode q2 = statusCode res" "reasonPhrase q2 = reasonPhrase res"
    "headerList q2 = map header_norm ?hs" "str_bytes (content q2) = str_bytes (content res)" "instream t' = r"
    using p(1,2) t'(2) by (simp_all add: q1_def q2_def c_def sock_after_def)
  with p(8) read show ?thesis by blast
qed

theorem response_roundtrip_witness:
  "\<exists>res' s' q' t'. mupnp_http_request_postresponse
       \<lparr>instream = [], recvSizes = [], recvFails = False, nonblocking = False, sendResults = [], outstream = []\<rparr>
       \<lparr>headerList = [\<lparr>hname = Some ''Content-Length'', hvalue = Some ''2''\<rparr>], content = Some ''hi'',
        resVersion = Some ''HTTP/1.1'', statusCode = 200, reasonPhrase = Some ''OK'', resUserData = None, resTimeout = 30\<rparr> 0
       = Some (True, res', s') \<and>
    mupnp_http_response_read \<lparr>can_alloc = \<lambda>_. True, junk = CHR ''?''\<rparr> mupnp_http_response_new
      (\<lparr>instream = [], recvSizes = [1], recvFails = False, nonblocking = False, sendResults = [], outstream = []\<rparr>\<lparr>instream := outstream s' @ ''x''\<rparr>)
      False = Some (True, q', t') \<and> statusCode q' = 200 \<and> reasonPhrase q' = Some ''OK'' \<and>
    str_bytes (content q') = ''hi'' \<and> instream t' = ''x''"
proof -
  let ?s = "\<lparr>instream = [], recvSizes = [], recvFails = False, nonblocking = False, sendResults = [], outstream = []\<rparr> :: mUpnpSocket"
  let ?res = "\<lparr>headerList = [\<lparr>hname = Some ''Content-Length'', hvalue = Some ''2''\<rparr>], content = Some ''hi'',
        resVersion = Some ''HTTP/1.1'', statusCode = 200, reasonPhrase = Some ''OK'', resUserData = None, resTimeout = 30\<rparr>"
  have 1: "writable ?s" by (simp add: writable_def)
  have 2: "response_ok ?res 0"
    by (simp add: response_ok_def word_text_def rest_text_def set_statusline_delim header_ok_def set_headerline_delim
        int_range_def INT_MAX_def INT_MIN_def MUPNP_HTTP_READLINE_BUFSIZE_def)
  have 3: "show_nat 10 2 = ''2''" by code_simp
  have 4: "mupnp_http_packet_getheadervalue ?res (Some ''Content-Length'') = Some ''2''" by code_simp
  show ?thesis
    using response_roundtrip [where s = ?s and res = ?res and now = 0 and r = "''x''"
        and A = "\<lparr>can_alloc = \<lambda>_. True, junk = CHR ''?''\<rparr>" and q = mupnp_http_response_new
        and t = "\<lparr>instream = [], recvSizes = [1], recvFails = False, nonblocking = False, sendResults = [], outstream = []\<rparr>", OF 1 _ 2] 3 4
    by (auto simp: LONG_MAX_def total_allocator_def numeral_2_eq_2)
qed

text \<open>C3: A response with \<open>Transfer-Encoding: Chunked\<close> followed by any number of chunks and the last
  chunk is read back as one response whose content is the concatenation of the chunks.\<close>

theorem chunked_response_roundtrip:
  assumes "writable s" and "outstream s = []" and "response_ok res now" and "content res = None"
    and "\<not> mupnp_http_packet_hasheader res (Some ''Content-Length'')"
    and "mupnp_http_packet_getheadervalue res (Some ''Transfer-Encoding'') = Some ''Chunked''"
    and "\<forall>b \<in> set bs. 0 < length b \<and> length b < 2 ^ 31" and "bs \<noteq> []"
    and "int (length (concat bs)) < LONG_MAX" and "total_allocator A"
  shows "\<exists>res' s1 s' q' t'. mupnp_http_request_postresponse s res now = Some (True, res', s1) \<and>
    post_chunks s1 bs = Some s' \<and>
    mupnp_http_response_read A q (t\<lparr>instream := outstream s' @ r\<rparr>) False = Some (True, q', t') \<and>
    statusCode q' = statusCode res \<and> content q' = Some (concat bs) \<and> instream t' = r"
proof -
  let ?hs = "headerList (dated res now)"
  have te: "mupnp_http_headerlist_getvalue ?hs (Some ''Transfer-Encoding'') = Some ''Chunked''"
    using assms(6) dated_getvalue [OF assms(3), of "''Transfer-Encoding''"]
    by (simp add: mupnp_http_packet_getheadervalue_def c_tolower_def char_of_def bit_0)
  have cl: "mupnp_http_headerlist_get ?hs (Some ''Content-Length'') = None"
    using assms(5) dated_get [OF assms(3), of "''Content-Length''"]
    by (simp add: mupnp_http_packet_hasheader_def c_tolower_def char_of_def bit_0 split: if_splits)
  have le: "content res \<noteq> None \<longrightarrow> announced (dated res now) \<le> length (str_bytes (content res))"
    using assms(4) by simp
  obtain s1 ver reason where p: "resVersion res = Some ver" "reasonPhrase res = Some reason" "line_word ver"
      "line_rest reason" "reason \<noteq> []" "int_range (statusCode res)"
      "length (status_line ver (statusCode res) reason) < 500"
      "mupnp_http_request_postresponse s res now = Some (True, dated res now, s1)"
      "sent s (status_line ver (statusCode res) reason @ [CR, LF] @ headers_text ?hs @
        take (announced (dated res now)) (str_bytes (content res))) s1"
    by (rule postresponse_sent [OF assms(1,3) le])
  have nb: "[] \<notin> set bs" "\<forall>b \<in> set bs. length b < 2 ^ 31" using assms(7) by auto
  obtain s' where s': "post_chunks s1 bs = Some s'"
      "sent s ((status_line ver (statusCode res) reason @ [CR, LF] @ headers_text ?hs @
        take (announced (dated res now)) (str_bytes (content res))) @ concat (map chunk_text bs) @ last_chunk_text) s'"
    using sent_chunks [OF p(9) nb] by blast
  define t0 where "t0 = t\<lparr>instream := outstream s' @ r\<rparr>"
  let ?b = "headers_text ?hs @ concat (map chunk_text bs) @ last_chunk_text @ r"
  have "instream t0 = status_line ver (statusCode res) reason @ [CR, LF] @ ?b"
    using s'(2) assms(2,4) by (simp add: t0_def sent_def wrote_def)
  from response_read_start [OF p(3,6,4,5,7) this, of A q False] obtain t1 where
    t1: "sock_after t0 t1 ?b"
      "mupnp_http_response_read A q t0 False = mupnp_http_packet_read A ((mupnp_http_response_clear q)
        \<lparr>resVersion := Some ver, statusCode := statusCode res, reasonPhrase := Some reason\<rparr>) t1 False
        MUPNP_HTTP_READLINE_BUFSIZE" by blast
  define q1 where "q1 = (mupnp_http_response_clear q)\<lparr>resVersion := Some ver, statusCode := statusCode res,
    reasonPhrase := Some reason\<rparr>"
  define q2 where "q2 = mupnp_http_packet_setcontentlength (q1\<lparr>headerList := map header_norm ?hs,
    content := (if bs = [] then None else Some (concat bs))\<rparr>) (int (length (concat bs)))"
  obtain t' where t': "mupnp_http_packet_read A q1 t1 False MUPNP_HTTP_READLINE_BUFSIZE = Some (True, q2, t')"
      "sock_after t1 t' r"
    using packet_read_chunked [of t1 ?hs bs r MUPNP_HTTP_READLINE_BUFSIZE A q1] t1(1) dated_ok [OF assms(3)] cl te nb(1)
      assms(9,10)
    by (auto simp: sock_after_def MUPNP_HTTP_READLINE_BUFSIZE_def q2_def)
  have read: "mupnp_http_response_read A q (t\<lparr>instream := outstream s' @ r\<rparr>) False = Some (True, q2, t')"
    using t1(2) t'(1) by (simp add: q1_def flip: t0_def)
  have "statusCode q2 = statusCode res" "content q2 = Some (concat bs)" "instream t' = r"
    using assms(8) t'(2) by (simp_all add: q1_def q2_def sock_after_def mupnp_http_packet_setcontentlength_def
        mupnp_http_packet_setheaderssizet_def mupnp_http_packet_setheadervalue_def)
  with p(8) s'(1) read show ?thesis by blast
qed

theorem chunked_response_roundtrip_witness:
  "\<exists>res' s1 s' q' t'. mupnp_http_request_postresponse
       \<lparr>instream = [], recvSizes = [], recvFails = False, nonblocking = False, sendResults = [], outstream = []\<rparr>
       \<lparr>headerList = [\<lparr>hname = Some ''Transfer-Encoding'', hvalue = Some ''Chunked''\<rparr>], content = None,
        resVersion = Some ''HTTP/1.1'', statusCode = 206, reasonPhrase = Some ''Partial Content'', resUserData = None, resTimeout = 30\<rparr> 0
       = Some (True, res', s1) \<and> post_chunks s1 [''abc'', ''d''] = Some s' \<and>
    mupnp_http_response_read \<lparr>can_alloc = \<lambda>_. True, junk = CHR ''?''\<rparr> mupnp_http_response_new
      (\<lparr>instream = [], recvSizes = [1], recvFails = False, nonblocking = False, sendResults = [], outstream = []\<rparr>\<lparr>instream := outstream s' @ ''x''\<rparr>)
      False = Some (True, q', t') \<and> statusCode q' = 206 \<and> content q' = Some ''abcd'' \<and> instream t' = ''x''"
proof -
  let ?s = "\<lparr>instream = [], recvSizes = [], recvFails = False, nonblocking = False, sendResults = [], outstream = []\<rparr> :: mUpnpSocket"
  let ?res = "\<lparr>headerList = [\<lparr>hname = Some ''Transfer-Encoding'', hvalue = Some ''Chunked''\<rparr>], content = None,
        resVersion = Some ''HTTP/1.1'', statusCode = 206, reasonPhrase = Some ''Partial Content'', resUserData = None, resTimeout = 30\<rparr>"
  have 1: "writable ?s" by (simp add: writable_def)
  have 2: "response_ok ?res 0"
    by (simp add: response_ok_def word_text_def rest_text_def set_statusline_delim header_ok_def set_headerline_delim
        int_range_def INT_MAX_def INT_MIN_def MUPNP_HTTP_READLINE_BUFSIZE_def)
  have 3: "\<not> mupnp_http_packet_hasheader ?res (Some ''Content-Length'')" by code_simp
  have 4: "mupnp_http_packet_getheadervalue ?res (Some ''Transfer-Encoding'') = Some ''Chunked''" by code_simp
  show ?thesis
    using chunked_response_roundtrip [where s = ?s and res = ?res and now = 0 and r = "''x''" and bs = "[''abc'', ''d'']"
        and A = "\<lparr>can_alloc = \<lambda>_. True, junk = CHR ''?''\<rparr>" and q = mupnp_http_response_new
        and t = "\<lparr>instream = [], recvSizes = [1], recvFails = False, nonblocking = False, sendResults = [], outstream = []\<rparr>",
        OF 1 _ 2 _ 3 4]
    by (auto simp: LONG_MAX_def total_allocator_def)
qed

text \<open>C1: The request line, headers and content that the client sends are read by the server as
  the same method, URI, version, headers and content, with a Content-Length header and the
  content or without both; the URI is one without a scheme.\<close>

theorem request_roundtrip:
  assumes "writable s" and "outstream s = []" and "request_ok req" and "total_allocator A"
  shows "\<exists>s' q' t'. request_send req (the (reqMethod req)) (the (reqUri req)) (the (reqVersion req)) s = Some s' \<and>
    mupnp_http_request_read A q (t\<lparr>instream := outstream s' @ r\<rparr>) = Some (True, q', t') \<and>
    reqMethod q' = reqMethod req \<and> reqUri q' = reqUri req \<and> reqVersion q' = reqVersion req \<and>
    headerList q' = map header_norm (headerList req) \<and> str_bytes (content q') = str_bytes (content req) \<and>
    instream t' = r"
proof -
  obtain s' where s': "request_send req (the (reqMethod req)) (the (reqUri req)) (the (reqVersion req)) s = Some s'"
      "sent s ([] @ request_text req) s'"
    using request_send_text [OF sent_refl [OF assms(1)] assms(3)] by blast
  then have "instream (t\<lparr>instream := outstream s' @ r\<rparr>) = request_text req @ r"
    using assms(2) by (simp add: sent_def wrote_def)
  from request_read_text [OF assms(3) this assms(4), of q] s'(1) show ?thesis
    by (auto simp: request_view_def sock_after_def)
qed

theorem request_roundtrip_witness:
  "\<exists>s' q' t'. request_send
      (mupnp_http_request_new\<lparr>reqMethod := Some ''GET'', reqUri := Some ''/description.xml'',
         headerList := [\<lparr>hname = Some ''HOST'', hvalue = Some ''10.0.0.1:8080''\<rparr>]\<rparr>)
      ''GET'' ''/description.xml'' ''HTTP/1.1''
      \<lparr>instream = [], recvSizes = [], recvFails = False, nonblocking = False, sendResults = [], outstream = []\<rparr> = Some s' \<and>
    mupnp_http_request_read \<lparr>can_alloc = \<lambda>_. True, junk = CHR ''?''\<rparr> mupnp_http_request_new
      (\<lparr>instream = [], recvSizes = [1], recvFails = False, nonblocking = False, sendResults = [], outstream = []\<rparr>\<lparr>instream := outstream s' @ []\<rparr>)
      = Some (True, q', t') \<and> reqMethod q' = Some ''GET'' \<and> reqUri q' = Some ''/description.xml''"
proof -
  let ?s = "\<lparr>instream = [], recvSizes = [], recvFails = False, nonblocking = False, sendResults = [], outstream = []\<rparr> :: mUpnpSocket"
  let ?req = "mupnp_http_request_new\<lparr>reqMethod := Some ''GET'', reqUri := Some ''/description.xml'',
         headerList := [\<lparr>hname = Some ''HOST'', hvalue = Some ''10.0.0.1:8080''\<rparr>]\<rparr>"
  have 1: "writable ?s" by (simp add: writable_def)
  have 2: "content ?req = None" "reqVersion ?req = Some ''HTTP/1.1''"
    by (simp_all add: mupnp_http_request_new_def mupnp_http_request_setversion_def mupnp_http_request_setuseragent_def
        MUPNP_HTTP_VER11_def)
  have 3: "mupnp_strstr (Some ''/description.xml'') (Some ''://'') \<le> 0" by code_simp
  have 4: "mupnp_http_headerlist_get [\<lparr>hname = Some ''HOST'', hvalue = Some ''10.0.0.1:8080''\<rparr>] (Some ''Content-Length'') = None"
    "mupnp_http_headerlist_get [\<lparr>hname = Some ''HOST'', hvalue = Some ''10.0.0.1:8080''\<rparr>] (Some ''Transfer-Encoding'') = None"
    by code_simp+
  have 5: "request_ok ?req"
    using 2 3 4 by (simp add: request_ok_def word_text_def rest_text_def header_ok_def set_headerline_delim
        set_statusline_delim MUPNP_HTTP_READLINE_BUFSIZE_def LONG_MAX_def)
  show ?thesis
    using request_roundtrip [where s = ?s and req = ?req and r = "[]"
        and A = "\<lparr>can_alloc = \<lambda>_. True, junk = CHR ''?''\<rparr>" and q = mupnp_http_request_new
        and t = "\<lparr>instream = [], recvSizes = [1], recvFails = False, nonblocking = False, sendResults = [], outstream = []\<rparr>",
        OF 1 _ 5] 2
    by (auto simp: total_allocator_def)
qed

end
