(* ===== verification/HttpFields.thy ===== *)
theory HttpFields
  imports HttpMessage
begin

section \<open>Header fields of the messages the components build\<close>

text \<open>
  The builders of requests and responses set headers with fixed names one after another.  The
  facts here say what a reader finds in the result and that it survives the wire; the
  collection \<open>lower\<close> evaluates the case conversion under which names are compared.
\<close>

named_theorems lower

lemma lower_all: "map c_tolower ''ABCDEFGHIJKLMNOPQRSTUVWXYZabcdefghijklmnopqrstuvwxyz-01'' =
    ''abcdefghijklmnopqrstuvwxyzabcdefghijklmnopqrstuvwxyz-01''"
  by code_simp

lemmas lower_chars [lower] = lower_all [simplified]

definition field :: "'a mUpnpHttpPacket_scheme \<Rightarrow> cstring \<Rightarrow> charptr" where
  "field p k = mupnp_http_packet_getheadervalue p (Some k)"

definition fields_ok :: "'a mUpnpHttpPacket_scheme \<Rightarrow> bool" where
  "fields_ok p \<longleftrightarrow> (\<forall>h \<in> set (headerList p). header_ok MUPNP_HTTP_READLINE_BUFSIZE h)"

definition field_text :: "cstring \<Rightarrow> bool" where
  "field_text v \<longleftrightarrow> rest_text MUPNP_HTTP_HEADERLINE_DELIM v"

lemma field_set_same [simp]: "field (mupnp_http_packet_setheadervalue p (Some k) (Some v)) k = Some v"
  by (simp add: field_def mupnp_http_packet_getheadervalue_def mupnp_http_packet_setheadervalue_def headerlist_get_set)

lemma fields_inv: "fields_ok p \<Longrightarrow> headers_inv (headerList p)"
  unfolding fields_ok_def by (rule header_ok_inv)

lemma field_set_other [simp]:
  "fields_ok p \<Longrightarrow> nul_free k \<Longrightarrow> nul_free l \<Longrightarrow> map c_tolower l \<noteq> map c_tolower k \<Longrightarrow>
   field (mupnp_http_packet_setheadervalue p (Some k) (Some v)) l = field p l"
  by (simp add: field_def mupnp_http_packet_getheadervalue_def mupnp_http_packet_setheadervalue_def
      getvalue_set_other [OF fields_inv _ _ not_sym])

lemma fields_ok_set [simp]:
  "fields_ok p \<Longrightarrow> word_text MUPNP_HTTP_HEADERLINE_DELIM k \<Longrightarrow> field_text v \<Longrightarrow> length k + length v \<le> 507 \<Longrightarrow>
   fields_ok (mupnp_http_packet_setheadervalue p (Some k) (Some v))"
  using headerlist_set_ok [of "headerList p" MUPNP_HTTP_READLINE_BUFSIZE k v]
  by (simp add: fields_ok_def field_text_def mupnp_http_packet_setheadervalue_def MUPNP_HTTP_READLINE_BUFSIZE_def)

lemma set_keeps [simp]: "content (mupnp_http_packet_setheadervalue p k v) = content p"
  by (simp add: mupnp_http_packet_setheadervalue_def)

lemma set_keeps_request [simp]:
  fixes r :: mUpnpHttpRequest
  shows "reqMethod (mupnp_http_packet_setheadervalue r k v) = reqMethod r"
    and "reqUri (mupnp_http_packet_setheadervalue r k v) = reqUri r"
    and "reqVersion (mupnp_http_packet_setheadervalue r k v) = reqVersion r"
    and "userAgent (mupnp_http_packet_setheadervalue r k v) = userAgent r"
    and "postURL (mupnp_http_packet_setheadervalue r k v) = postURL r"
  by (simp_all add: mupnp_http_packet_setheadervalue_def)

lemma field_content [simp]: "field (p\<lparr>content := c\<rparr>) = field p" "fields_ok (p\<lparr>content := c\<rparr>) = fields_ok p"
  by (simp_all add: fun_eq_iff field_def fields_ok_def mupnp_http_packet_getheadervalue_def)

lemma field_append [simp]: "field (mupnp_http_packet_appendncontent p b) = field p"
  "fields_ok (mupnp_http_packet_appendncontent p b) = fields_ok p"
  by (simp_all add: mupnp_http_packet_appendncontent_def)

lemma field_of_request [simp]:
  fixes r :: mUpnpHttpRequest
  shows "field (r\<lparr>reqMethod := m\<rparr>) = field r" "fields_ok (r\<lparr>reqMethod := m\<rparr>) = fields_ok r"
    "field (r\<lparr>reqUri := u\<rparr>) = field r" "fields_ok (r\<lparr>reqUri := u\<rparr>) = fields_ok r"
    "field (r\<lparr>postURL := w\<rparr>) = field r" "fields_ok (r\<lparr>postURL := w\<rparr>) = fields_ok r"
    "field (r\<lparr>reqVersion := v\<rparr>) = field r" "fields_ok (r\<lparr>reqVersion := v\<rparr>) = fields_ok r"
    "field (r\<lparr>userAgent := v\<rparr>) = field r" "fields_ok (r\<lparr>userAgent := v\<rparr>) = fields_ok r"
  by (simp_all add: fun_eq_iff field_def fields_ok_def mupnp_http_packet_getheadervalue_def)

lemma field_of_response [simp]:
  fixes r :: mUpnpHttpResponse
  shows "field (r\<lparr>statusCode := n\<rparr>) = field r" "fields_ok (r\<lparr>statusCode := n\<rparr>) = fields_ok r"
    "field (r\<lparr>reasonPhrase := v\<rparr>) = field r" "fields_ok (r\<lparr>reasonPhrase := v\<rparr>) = fields_ok r"
  by (simp_all add: fun_eq_iff field_def fields_ok_def mupnp_http_packet_getheadervalue_def)

lemma fields_new [simp]:
  "fields_ok mupnp_http_request_new" "field mupnp_http_request_new = (\<lambda>k. None)"
  "fields_ok mupnp_http_response_new" "field mupnp_http_response_new = (\<lambda>k. None)"
  by (simp_all add: fun_eq_iff fields_ok_def field_def mupnp_http_request_new_def mupnp_http_request_setversion_def
      mupnp_http_request_setuseragent_def mupnp_http_response_new_def mupnp_http_response_setversion_def
      mupnp_http_response_setstatuscode_def mupnp_http_response_setreasonphrase_def mupnp_http_packet_getheadervalue_def mupnp_http_headerlist_getvalue_def mupnp_http_headerlist_get_def
      mupnp_http_headerlist_new_def)

lemma content_new [simp]: "content mupnp_http_request_new = None" "content mupnp_http_response_new = None"
  by (simp_all add: mupnp_http_request_new_def mupnp_http_request_setversion_def
      mupnp_http_request_setuseragent_def mupnp_http_response_new_def mupnp_http_response_setversion_def
      mupnp_http_response_setstatuscode_def mupnp_http_response_setreasonphrase_def)

text \<open>The names are words.\<close>

lemma word_names [simp]:
  "k \<noteq> [] \<Longrightarrow> list_all (\<lambda>c. c \<notin> {CR, LF, CHR '' '', CHR '':'', NUL}) k \<Longrightarrow> word_text MUPNP_HTTP_HEADERLINE_DELIM k"
  by (auto simp: word_text_def set_headerline_delim list_all_iff nul_free_def)

subsection \<open>Numbers and hosts as values\<close>

lemma field_text_nonempty:
  "nul_free v \<Longrightarrow> LF \<notin> set v \<Longrightarrow> v \<noteq> [] \<Longrightarrow> hd v \<notin> {CR, LF, CHR '' '', CHR '':''} \<Longrightarrow>
   last v \<notin> {CR, LF, CHR '' '', CHR '':''} \<Longrightarrow> field_text v"
  by (simp add: field_text_def rest_text_def set_headerline_delim)

lemma digit_delim: "c_isdigit c \<Longrightarrow> c \<notin> {CR, LF, CHR '' '', CHR '':'', NUL}"
  by (auto simp: c_isdigit_def)

lemma field_text_plain:
  assumes "v \<noteq> []" and d: "set v \<inter> {CR, LF, CHR '' '', CHR '':'', NUL} = {}"
  shows "field_text v"
proof (rule field_text_nonempty)
  show "hd v \<notin> {CR, LF, CHR '' '', CHR '':''}" using d hd_in_set [OF assms(1)] by blast
  show "last v \<notin> {CR, LF, CHR '' '', CHR '':''}" using d last_in_set [OF assms(1)] by blast
qed (use assms in \<open>auto simp: nul_free_def\<close>)

lemma field_text_show_nat [simp]: "field_text (show_nat 10 n)"
  using digit_delim show_nat_isdigit [of _ n] by (intro field_text_plain) (simp, blast)

lemma length_show_nat_long: "int n < LONG_MAX \<Longrightarrow> length (show_nat 10 n) \<le> 20"
  using length_show_nat [of 10 n 20] by (simp add: LONG_MAX_def)

lemma contentlength_field:
  assumes "0 \<le> n" and "n < LONG_MAX"
  shows "mupnp_http_packet_setcontentlength p n =
    mupnp_http_packet_setheadervalue p (Some ''Content-Length'') (Some (show_nat 10 (nat n)))"
  using ssizet2str_nat [of "nat n"] assms
  by (simp add: mupnp_http_packet_setcontentlength_def mupnp_http_packet_setheaderssizet_def)

text \<open>The host of a request: a name or an address without a zone.\<close>

definition host_text :: "cstring \<Rightarrow> bool" where
  "host_text a \<longleftrightarrow> a \<noteq> [] \<and> length a \<le> 400 \<and> set a \<inter> {CR, LF, CHR '' '', CHR '':'', CHR ''%'', NUL} = {}"

lemma sethost_field:
  assumes "host_text a" and "0 \<le> i" and "i < 65536"
  obtains v where "mupnp_http_packet_sethost p (Some a) i = mupnp_http_packet_setheadervalue p (Some ''HOST'') (Some v)"
    and "field_text v" and "length v \<le> 406"
proof -
  have a: "\<not> mupnp_net_isipv6address (Some a)" "nul_free a" "field_text a"
    using assms(1) by (auto simp: host_text_def isipv6_iff nul_free_def intro!: field_text_plain)
  have i: "show_int i = show_nat 10 (nat i)" "length (show_nat 10 (nat i)) \<le> 5"
    using assms(2,3) length_show_nat [of 10 "nat i" 5] by (simp_all add: show_int_def)
  have "field_text (a @ '':'' @ show_int i)"
    using assms(1) a i(1) field_text_show_nat [of "nat i"]
    by (auto simp: field_text_def rest_text_def host_text_def set_headerline_delim nul_free_def)
  with a i assms(1) show thesis
    by (intro that [of "if 0 < i \<and> i \<noteq> MUPNP_HTTP_DEFAULT_PORT then a @ '':'' @ show_int i else a"])
      (auto simp: mupnp_http_packet_sethost_def Let_def c_snprintf_def host_text_def
         MUPNP_NET_IPV6_ADDRSTRING_MAXSIZE_def MUPNP_STRING_INTEGER_BUFLEN_def)
qed

subsection \<open>What a receiver gets\<close>

text \<open>A request that was read off the wire has the fields of the one that was posted.\<close>

lemma received_field:
  assumes "headerList q' = map header_norm (headerList q)" and "field q k = Some v"
  shows "field q' k = Some v"
  using assms getvalue_norm by (simp add: field_def mupnp_http_packet_getheadervalue_def)

lemma received_hasheader:
  assumes "headerList q' = map header_norm (headerList q)"
  shows "mupnp_http_packet_hasheader q' k = mupnp_http_packet_hasheader q k"
  by (simp add: mupnp_http_packet_hasheader_def assms mupnp_http_headerlist_get_def headerlist_find_norm)

lemma hasheader_field: "field p k = Some v \<Longrightarrow> mupnp_http_packet_hasheader p (Some k)"
  by (auto simp: field_def mupnp_http_packet_getheadervalue_def mupnp_http_headerlist_getvalue_def
      mupnp_http_packet_hasheader_def split: option.splits)

subsection \<open>Requests ready to be sent\<close>

lemma user_agent_text [simp]: "field_text MUPNP_HTTP_USERAGENT_DEFAULT" "length MUPNP_HTTP_USERAGENT_DEFAULT = 16"
  by (simp_all add: MUPNP_HTTP_USERAGENT_DEFAULT_def field_text_def rest_text_def set_headerline_delim nul_free_def)

lemma request_okI:
  assumes "reqMethod q = Some m" "reqUri q = Some u" "reqVersion q = Some v" "line_word m" "line_word u" "line_word v"
    and "length m + length u + length v < 500" and "mupnp_strstr (Some u) (Some ''://'') \<le> 0"
    and "fields_ok q" and "content q = Some c" and "field q ''Content-Length'' = Some (show_nat 10 (length c))"
    and "int (length c) < LONG_MAX"
  shows "request_ok q"
  using assms by (simp add: request_ok_def fields_ok_def field_def)

lemma prepared:
  assumes "fields_ok q" and "host_text a" and "0 \<le> i" "i < 65536" and "userAgent q = Some MUPNP_HTTP_USERAGENT_DEFAULT"
  shows "fields_ok (request_prepare q (Some a) i)" and "content (request_prepare q (Some a) i) = content q"
    and "reqMethod (request_prepare q (Some a) i) = reqMethod q" and "reqUri (request_prepare q (Some a) i) = reqUri q"
    and "reqVersion (request_prepare q (Some a) i) = reqVersion q"
    and "nul_free k \<Longrightarrow> map c_tolower k \<notin> {''host'', ''user-agent''} \<Longrightarrow> field (request_prepare q (Some a) i) k = field q k"
proof -
  obtain v where v: "mupnp_http_packet_sethost q (Some a) i = mupnp_http_packet_setheadervalue q (Some ''HOST'') (Some v)"
    "field_text v" "length v \<le> 406" using sethost_field [OF assms(2-4), of q] by blast
  let ?p = "request_prepare q (Some a) i"
  show "fields_ok ?p" "content ?p = content q" "reqMethod ?p = reqMethod q" "reqUri ?p = reqUri q" "reqVersion ?p = reqVersion q"
    "nul_free k \<Longrightarrow> map c_tolower k \<notin> {''host'', ''user-agent''} \<Longrightarrow> field ?p k = field q k"
    using assms v by (simp_all add: request_prepare_def Let_def mupnp_http_request_getuseragent_def lower nul_free_def)
qed

end
