(* ===== verification/Soap.thy ===== *)
theory Soap
  imports HttpFields XmlRoundtrip
begin

section \<open>SOAP messages (src/mupnp/soap)\<close>

text \<open>
  A SOAP request owns an HTTP request, or borrows the one a server received; the trees parsed
  from its body are in \<open>reqRootNodeList\<close>.  The user data is a pointer to an object of the
  caller, here the type parameter.  Posting is a parameter, the function from a request to the
  request with its response (\<open>mupnp_http_request_post\<close> on a connection): the two posts of
  \<open>mupnp_soap_request_post\<close> differ in their method.  Expat is the parameter of \<open>XmlParser\<close>.
\<close>

record mUpnpSoapResponse =
  soapHttpRes :: mUpnpHttpResponse
  isHttpResCreated :: bool
  resRootNodeList :: "mUpnpXmlNode list"

record 'u mUpnpSoapRequest =
  soapHttpReq :: mUpnpHttpRequest
  isHttpReqCreated :: bool
  reqRootNodeList :: "mUpnpXmlNode list"
  soapRes :: mUpnpSoapResponse
  soapUserData :: "'u option"

type_synonym transport = "mUpnpHttpRequest \<Rightarrow> charptr \<Rightarrow> int \<Rightarrow> mUpnpHttpRequest"

definition MUPNP_SOAP_CONTENT_TYPE :: cstring where
  "MUPNP_SOAP_CONTENT_TYPE = ''text/xml; charset='' @ [CHR 0x22] @ ''utf-8'' @ [CHR 0x22]"

definition MUPNP_XML_CONTENT_TYPE :: cstring where
  "MUPNP_XML_CONTENT_TYPE = ''text/xml; charset='' @ [CHR 0x22] @ ''utf-8'' @ [CHR 0x22]"

definition MUPNP_SOAP_VERSION_HEADER :: cstring where
  "MUPNP_SOAP_VERSION_HEADER =
     ''<?xml version='' @ [CHR 0x22] @ ''1.0'' @ [CHR 0x22] @ '' encoding='' @ [CHR 0x22] @ ''utf-8'' @ [CHR 0x22] @ ''?>''"

definition MUPNP_SOAP_XMLNS_URL :: cstring where
  "MUPNP_SOAP_XMLNS_URL = ''http://schemas.xmlsoap.org/soap/envelope/''"

definition MUPNP_HTTP_SOAP_MAN_VALUE :: cstring where
  "MUPNP_HTTP_SOAP_MAN_VALUE =
     [CHR 0x22] @ ''http://schemas.xmlsoap.org/soap/envelope/'' @ [CHR 0x22] @ ''; ns=01''"

definition MUPNP_HTTP_STATUS_METHOD_NOT_ALLOWED :: int where "MUPNP_HTTP_STATUS_METHOD_NOT_ALLOWED = 405"

subsection \<open>Responses\<close>

definition mupnp_soap_response_new :: mUpnpSoapResponse where
  "mupnp_soap_response_new =
     \<lparr>soapHttpRes = mupnp_http_response_new, isHttpResCreated = True, resRootNodeList = []\<rparr>"

definition mupnp_soap_response_clear :: "mUpnpSoapResponse \<Rightarrow> mUpnpSoapResponse" where
  "mupnp_soap_response_clear res =
     res\<lparr>resRootNodeList := [], soapHttpRes := mupnp_http_response_new, isHttpResCreated := True\<rparr>"

definition mupnp_soap_response_getenvelopenode :: "mUpnpSoapResponse \<Rightarrow> mUpnpXmlNode option" where
  "mupnp_soap_response_getenvelopenode res = first_of (resRootNodeList res)"

definition mupnp_soap_response_getbodynode :: "mUpnpSoapResponse \<Rightarrow> mUpnpXmlNode option" where
  "mupnp_soap_response_getbodynode res =
     (let envNode = mupnp_soap_response_getenvelopenode res in
      if envNode = None then None
      else if mupnp_xml_node_haschildnodes envNode = False then None
      else first_of (mupnp_xml_node_getchildnodes envNode))"

definition mupnp_soap_response_sethttpresponse :: "mUpnpSoapResponse \<Rightarrow> mUpnpHttpResponse \<Rightarrow> mUpnpSoapResponse" where
  "mupnp_soap_response_sethttpresponse res httpResponse = res\<lparr>soapHttpRes := httpResponse, isHttpResCreated := False\<rparr>"

text \<open>\<open>soap_content\<close> is the body of the setters of requests and of responses, on their HTTP packet.\<close>

definition soap_content :: "'a mUpnpHttpPacket_scheme \<Rightarrow> mUpnpXmlNode \<Rightarrow> 'a mUpnpHttpPacket_scheme" where
  "soap_content p node =
     (let p = mupnp_http_packet_setheadervalue p (Some ''Content-Type'') (Some MUPNP_XML_CONTENT_TYPE);
          p = mupnp_http_packet_appendncontent p MUPNP_SOAP_VERSION_HEADER;
          p = mupnp_http_packet_appendncontent p [CHR 0x0A];
          p = p\<lparr>content := mupnp_xml_node_tostring node True (content p)\<rparr>
      in mupnp_http_packet_setcontentlength p (int (length (str_bytes (content p)))))"

definition mupnp_soap_response_setcontent :: "mUpnpSoapResponse \<Rightarrow> mUpnpXmlNode \<Rightarrow> mUpnpSoapResponse" where
  "mupnp_soap_response_setcontent res node = res\<lparr>soapHttpRes := soap_content (soapHttpRes res) node\<rparr>"

subsection \<open>Requests\<close>

definition soap_http_request :: mUpnpHttpRequest where
  "soap_http_request =
     (let httpReq = mupnp_http_request_new;
          httpReq = mupnp_http_packet_setheadervalue httpReq (Some ''Content-Type'') (Some MUPNP_SOAP_CONTENT_TYPE)
      in mupnp_http_request_setmethod httpReq (Some ''POST''))"

definition mupnp_soap_request_new :: "'u mUpnpSoapRequest" where
  "mupnp_soap_request_new =
     \<lparr>soapHttpReq = soap_http_request, isHttpReqCreated = True, reqRootNodeList = [],
      soapRes = mupnp_soap_response_new, soapUserData = None\<rparr>"

definition mupnp_soap_request_clear :: "'u mUpnpSoapRequest \<Rightarrow> 'u mUpnpSoapRequest" where
  "mupnp_soap_request_clear req =
     req\<lparr>reqRootNodeList := [], soapHttpReq := soap_http_request, isHttpReqCreated := True\<rparr>"

definition mupnp_soap_request_getenvelopenode :: "'u mUpnpSoapRequest \<Rightarrow> mUpnpXmlNode option" where
  "mupnp_soap_request_getenvelopenode req = first_of (reqRootNodeList req)"

text \<open>A token and the tokenizer behind it.\<close>

definition next_text :: "mUpnpStringTokenizer \<Rightarrow> mUpnpStringTokenizer \<times> charptr" where
  "next_text tok = (case mupnp_string_tokenizer_nexttoken tok of (tok, p) \<Rightarrow>
     (tok, if p = None then None else token_text tok p))"

text \<open>The name of the body as the namespaces of the envelope give it, and its place in the envelope.\<close>

fun soap_body_name :: "mUpnpXmlAttribute list \<Rightarrow> cstring option" where
  "soap_body_name [] = None"
| "soap_body_name (attr # attrs) =
     (case next_text (mupnp_string_tokenizer_new (mupnp_xml_attribute_getname attr) (Some '':'')) of (tok, nsPrefix) \<Rightarrow>
        if - 1 \<noteq> mupnp_strstr nsPrefix (Some ''xmlns'') \<and>
           mupnp_strcmp (mupnp_xml_attribute_getvalue attr) (Some MUPNP_SOAP_XMLNS_URL) = 0
        then
          (if mupnp_string_tokenizer_hasmoretoken tok
           then Some (str_bytes (snd (next_text tok)) @ '':'' @ ''Body'')
           else Some ''Body'')
        else soap_body_name attrs)"

definition soap_body_index :: "mUpnpXmlNode \<Rightarrow> nat option" where
  "soap_body_index envNode =
     (if mupnp_xml_node_haschildnodes (Some envNode) = False then None
      else case soap_body_name (xattrs envNode) of None \<Rightarrow> None
           | Some n \<Rightarrow> mupnp_xml_node_getchildnodebyname (Some envNode) (Some n))"

definition mupnp_soap_request_getbodynode :: "'u mUpnpSoapRequest \<Rightarrow> mUpnpXmlNode option" where
  "mupnp_soap_request_getbodynode req =
     (case mupnp_soap_request_getenvelopenode req of
        None \<Rightarrow> None
      | Some envNode \<Rightarrow> map_option (\<lambda>i. xnodes envNode ! i) (soap_body_index envNode))"

text \<open>
  The message is as long as the header says, as a \<open>size_t\<close>; \<open>None\<close> is a read behind the end of
  the content and its terminating null.
\<close>

definition mupnp_soap_request_parsemessage ::
    "expat \<Rightarrow> 'u mUpnpSoapRequest \<Rightarrow> buffer \<Rightarrow> int \<Rightarrow> (bool \<times> 'u mUpnpSoapRequest) option" where
  "mupnp_soap_request_parsemessage expat req msg msgLen =
     (if msgLen = 0 then Some (False, req)
      else if msgLen < 0 \<or> INT_MAX < msgLen then Some (False, req)
      else if length msg + 1 < nat msgLen then None
      else do {
        (parseRet, nodes) \<leftarrow> mupnp_xml_parse expat (reqRootNodeList req) (Some (take (nat msgLen) (msg @ [NUL])));
        Some (parseRet, req\<lparr>reqRootNodeList := nodes\<rparr>) })"

definition mupnp_soap_request_sethttprequest ::
    "expat \<Rightarrow> 'u mUpnpSoapRequest \<Rightarrow> mUpnpHttpRequest \<Rightarrow> (bool \<times> 'u mUpnpSoapRequest) option" where
  "mupnp_soap_request_sethttprequest expat req httpReq =
     (let req = req\<lparr>soapHttpReq := httpReq, isHttpReqCreated := False\<rparr>;
          contentLen = mupnp_http_packet_getcontentlength httpReq
      in case content httpReq of
           None \<Rightarrow> Some (False, req)
         | Some c \<Rightarrow> if contentLen = 0 then Some (False, req)
                     else mupnp_soap_request_parsemessage expat req c contentLen)"

text \<open>The second attempt, after \<open>405 Method Not Allowed\<close>.\<close>

definition soap_mpost :: "mUpnpHttpRequest \<Rightarrow> mUpnpHttpRequest" where
  "soap_mpost httpReq =
     (let httpReq = mupnp_http_request_setmethod httpReq (Some ''M-POST'');
          header = mupnp_http_header_setvalue (mupnp_http_header_setname mupnp_http_header_new (Some ''MAN''))
                     (Some MUPNP_HTTP_SOAP_MAN_VALUE);
          httpReq = mupnp_http_packet_addheader httpReq header
      in case mupnp_http_headerlist_get (headerList httpReq) (Some ''SOAPACTION'') of
           None \<Rightarrow> httpReq
         | Some i \<Rightarrow> httpReq\<lparr>headerList := (headerList httpReq)[i := mupnp_http_header_setname (headerList httpReq ! i)
                                                                   (Some ''01-SOAPACTION'')]\<rparr>)"

definition mupnp_soap_request_post ::
    "expat \<Rightarrow> transport \<Rightarrow> 'u mUpnpSoapRequest \<Rightarrow> charptr \<Rightarrow> int \<Rightarrow> 'u mUpnpSoapRequest option" where
  "mupnp_soap_request_post expat post req ipaddr portNo =
     (let httpReq = post (soapHttpReq req) ipaddr portNo;
          httpReq = (if mupnp_http_response_getstatuscode (httpRes httpReq) = MUPNP_HTTP_STATUS_METHOD_NOT_ALLOWED
                     then post (soap_mpost httpReq) ipaddr portNo else httpReq);
          res = mupnp_soap_response_sethttpresponse (soapRes req) (httpRes httpReq);
          req = req\<lparr>soapHttpReq := httpReq, soapRes := res\<rparr>;
          contentLen = mupnp_http_packet_getcontentlength (httpRes httpReq)
      in case content (httpRes httpReq) of
           None \<Rightarrow> Some req
         | Some c \<Rightarrow>
             if contentLen \<le> 0 \<or> INT_MAX < contentLen then Some req
             else if length c + 1 < nat contentLen then None
             else do {
               (ok, nodes) \<leftarrow> mupnp_xml_parse expat (resRootNodeList res) (Some (take (nat contentLen) (c @ [NUL])));
               Some (req\<lparr>soapRes := res\<lparr>resRootNodeList := nodes\<rparr>\<rparr>) })"

definition mupnp_soap_request_setcontent :: "'u mUpnpSoapRequest \<Rightarrow> mUpnpXmlNode \<Rightarrow> 'u mUpnpSoapRequest" where
  "mupnp_soap_request_setcontent req node = req\<lparr>soapHttpReq := soap_content (soapHttpReq req) node\<rparr>"

subsection \<open>A message is read as the tree that was put into it\<close>

definition soap_text :: "mUpnpXmlNode \<Rightarrow> buffer" where
  "soap_text node = MUPNP_SOAP_VERSION_HEADER @ [CHR 0x0A] @ xml_text 0 node"

lemma soap_text_nonempty: "soap_text node \<noteq> []"
  by (simp add: soap_text_def)

lemma soap_content_text:
  assumes "xml_ok node" and "content p = None" and "int (length (soap_text node)) < LONG_MAX"
  shows "soap_content p node =
    mupnp_http_packet_setheadervalue
      ((mupnp_http_packet_setheadervalue p (Some ''Content-Type'') (Some MUPNP_XML_CONTENT_TYPE))\<lparr>content := Some (soap_text node)\<rparr>)
      (Some ''Content-Length'') (Some (show_nat 10 (length (soap_text node))))"
proof -
  let ?c = "str_add (str_add None (Some MUPNP_SOAP_VERSION_HEADER)) (Some [CHR 0x0A])"
  have "str_bytes (mupnp_xml_node_tostring node True ?c) = soap_text node"
    using tostring_text [OF assms(1)] by (simp add: mupnp_xml_node_tostring_def soap_text_def)
  then have "mupnp_xml_node_tostring node True ?c = Some (soap_text node)"
    using soap_text_nonempty [of node] by (cases "mupnp_xml_node_tostring node True ?c") simp_all
  then show ?thesis using assms(2,3)
    by (simp add: soap_content_def mupnp_http_packet_appendncontent_def mupnp_http_packet_setheadervalue_def contentlength_field)
qed

lemma soap_text_parsed:
  assumes "reads_xml expat" and "xml_ok node" and "xml_height node \<le> MUPNP_XML_MAX_DEPTH"
    and "int (length (soap_text node)) \<le> INT_MAX"
  shows "mupnp_xml_parse expat nodes (Some (soap_text node)) = Some (True, nodes @ [xml_parsed 0 node])"
proof -
  have "MUPNP_SOAP_VERSION_HEADER \<in> set xml_declarations"
    by (simp add: MUPNP_SOAP_VERSION_HEADER_def xml_declarations_def)
  from document_read [OF assms(1-3) this, of "[CHR 0x0A]" nodes] assms(4) show ?thesis
    by (simp add: soap_text_def c_isspace_def)
qed

lemma contentlength_shown:
  assumes "field q ''Content-Length'' = Some (show_nat 10 n)" and "int n < LONG_MAX"
  shows "mupnp_http_packet_getcontentlength q = int n"
proof -
  have "c_atol (show_int (int n)) = int n"
    using assms(2) c_strtol10_show_int [of "int n" "[]"]
    by (simp add: c_atol_def long_range_def LONG_MAX_def LONG_MIN_def)
  then show ?thesis
    using assms(1) by (simp add: field_def mupnp_http_packet_getcontentlength_def
        mupnp_http_packet_getheaderssizet_def show_int_def)
qed

lemma soap_request_read:
  assumes "reads_xml expat" and "xml_ok node" and "xml_height node \<le> MUPNP_XML_MAX_DEPTH"
    and "int (length (soap_text node)) \<le> INT_MAX"
    and "content q = Some (soap_text node)" and "field q ''Content-Length'' = Some (show_nat 10 (length (soap_text node)))"
  shows "mupnp_soap_request_sethttprequest expat req q =
    Some (True, req\<lparr>soapHttpReq := q, isHttpReqCreated := False, reqRootNodeList := reqRootNodeList req @ [xml_parsed 0 node]\<rparr>)"
proof -
  have len: "mupnp_http_packet_getcontentlength q = int (length (soap_text node))"
    using assms(4,6) by (intro contentlength_shown) (simp_all add: INT_MAX_def LONG_MAX_def)
  show ?thesis
    using soap_text_parsed [OF assms(1-4), of "reqRootNodeList req"] assms(4,5) soap_text_nonempty [of node]
    by (simp add: mupnp_soap_request_sethttprequest_def mupnp_soap_request_parsemessage_def len)
qed

lemma content_type_text [simp]:
  "field_text MUPNP_XML_CONTENT_TYPE" "field_text MUPNP_SOAP_CONTENT_TYPE"
  "length MUPNP_XML_CONTENT_TYPE = 25" "length MUPNP_SOAP_CONTENT_TYPE = 25"
  by (simp_all add: field_text_def rest_text_def set_headerline_delim nul_free_def MUPNP_XML_CONTENT_TYPE_def
      MUPNP_SOAP_CONTENT_TYPE_def)

lemma soap_http_request_simps [simp]:
  "fields_ok soap_http_request" "content soap_http_request = None" "reqVersion soap_http_request = Some ''HTTP/1.1''"
  "reqMethod soap_http_request = Some ''POST''" "userAgent soap_http_request = Some MUPNP_HTTP_USERAGENT_DEFAULT"
  by (simp_all add: soap_http_request_def Let_def mupnp_http_request_setmethod_def)
   (simp_all add: mupnp_http_request_new_def mupnp_http_request_setversion_def mupnp_http_request_setuseragent_def MUPNP_HTTP_VER11_def)

end
