(* ===== verification/Notify.thy ===== *)
theory Notify
  imports Soap Service
begin

section \<open>Event notifications (src/mupnp/event/property.c, notify_request.c)\<close>

text \<open>
  A NOTIFY request is a SOAP request whose user data is its list of properties.  The name of
  the server, which the code asks the system for, is a parameter.
\<close>

record mUpnpProperty =
  propName :: charptr
  propValue :: charptr
  propSid :: charptr
  propSeq :: "64 word"

type_synonym mUpnpNotifyRequest = "mUpnpProperty list mUpnpSoapRequest"

definition MUPNP_NOTIFY_XMLNS :: cstring where "MUPNP_NOTIFY_XMLNS = ''e''"
definition MUPNP_NOTIFY_PROPERTY :: cstring where "MUPNP_NOTIFY_PROPERTY = ''property''"
definition MUPNP_NOTIFY_PROPERTYSET :: cstring where "MUPNP_NOTIFY_PROPERTYSET = ''propertyset''"
definition MUPNP_SUBSCRIPTION_XMLNS :: cstring where "MUPNP_SUBSCRIPTION_XMLNS = ''urn:schemas-upnp-org:event-1-0''"
definition MUPNP_SUBSCRIPTION_SID_SIZE :: nat where "MUPNP_SUBSCRIPTION_SID_SIZE = 128 + 8"
definition MUPNP_SUBSCRIPTION_SID_HEADER_SIZE :: nat where
  "MUPNP_SUBSCRIPTION_SID_HEADER_SIZE = 5 + MUPNP_SUBSCRIPTION_SID_SIZE"

subsection \<open>Properties of an event\<close>

definition mupnp_property_new :: mUpnpProperty where
  "mupnp_property_new = \<lparr>propName = None, propValue = None, propSid = None, propSeq = 0\<rparr>"

definition mupnp_property_setname :: "mUpnpProperty \<Rightarrow> charptr \<Rightarrow> mUpnpProperty" where
  "mupnp_property_setname prop v = prop\<lparr>propName := str_set (propName prop) v\<rparr>"

definition mupnp_property_setvalue :: "mUpnpProperty \<Rightarrow> charptr \<Rightarrow> mUpnpProperty" where
  "mupnp_property_setvalue prop v = prop\<lparr>propValue := str_set (propValue prop) v\<rparr>"

definition mupnp_property_setsid :: "mUpnpProperty \<Rightarrow> charptr \<Rightarrow> mUpnpProperty" where
  "mupnp_property_setsid prop v = prop\<lparr>propSid := str_set (propSid prop) v\<rparr>"

text \<open>Nothing is cleared: setting a string to NULL leaves it.\<close>

definition mupnp_property_clear :: "mUpnpProperty \<Rightarrow> mUpnpProperty" where
  "mupnp_property_clear prop =
     mupnp_property_setsid (mupnp_property_setvalue (mupnp_property_setname prop None) None) None"

subsection \<open>The request\<close>

definition mupnp_event_notify_request_new :: mUpnpNotifyRequest where
  "mupnp_event_notify_request_new = mupnp_soap_request_new\<lparr>soapUserData := Some []\<rparr>"

definition mupnp_event_notify_request_clear :: "mUpnpNotifyRequest \<Rightarrow> mUpnpNotifyRequest" where
  "mupnp_event_notify_request_clear req = mupnp_soap_request_clear (req\<lparr>soapUserData := map_option (\<lambda>_. []) (soapUserData req)\<rparr>)"

definition notify_variable_node :: "mUpnpStateVariable \<Rightarrow> mUpnpXmlNode" where
  "notify_variable_node statVar =
     (let propNode = mupnp_xml_node_setname mupnp_xml_node_new (Some (MUPNP_NOTIFY_XMLNS @ '':'' @ MUPNP_NOTIFY_PROPERTY));
          varNode = mupnp_xml_node_setname mupnp_xml_node_new (mupnp_statevariable_getname statVar);
          varNode = mupnp_xml_node_setvalue varNode (mupnp_statevariable_getvalue statVar)
      in mupnp_xml_node_addchildnode propNode varNode)"

definition mupnp_event_notify_request_createpropertysetnode ::
    "mUpnpService option \<Rightarrow> mUpnpStateVariable option \<Rightarrow> mUpnpXmlNode" where
  "mupnp_event_notify_request_createpropertysetnode service statVar =
     (let propSetNode = mupnp_xml_node_setname mupnp_xml_node_new (Some (MUPNP_NOTIFY_XMLNS @ '':'' @ MUPNP_NOTIFY_PROPERTYSET));
          propSetNode = mupnp_xml_node_setnamespace propSetNode MUPNP_NOTIFY_XMLNS (Some MUPNP_SUBSCRIPTION_XMLNS)
      in case service of
           Some service \<Rightarrow>
             foldl (\<lambda>propSetNode statVar.
                 if \<not> mupnp_statevariable_issendevents statVar then propSetNode
                 else mupnp_xml_node_addchildnode propSetNode (notify_variable_node statVar))
               propSetNode (serviceStateTable service)
         | None \<Rightarrow>
             (case statVar of None \<Rightarrow> propSetNode
              | Some statVar \<Rightarrow> mupnp_xml_node_addchildnode propSetNode (notify_variable_node statVar)))"

text \<open>The SID of a subscriber is set; the header is made from NULL as well in the code, which is then undefined
  (\<open>None\<close>).\<close>

definition mupnp_event_notify_request_setsid :: "mUpnpNotifyRequest \<Rightarrow> cstring \<Rightarrow> mUpnpNotifyRequest" where
  "mupnp_event_notify_request_setsid req sid =
     req\<lparr>soapHttpReq := mupnp_http_packet_setheadervalue (soapHttpReq req) (Some ''SID'')
           (Some (mupnp_event_subscription_tosidheaderstring sid MUPNP_SUBSCRIPTION_SID_HEADER_SIZE))\<rparr>"

definition mupnp_event_notify_request_setpropertysetnode ::
    "cstring \<Rightarrow> mUpnpNotifyRequest \<Rightarrow> mUpnpSubscriber \<Rightarrow> mUpnpService option \<Rightarrow> mUpnpStateVariable option \<Rightarrow>
     mUpnpNotifyRequest option" where
  "mupnp_event_notify_request_setpropertysetnode server req sub service statVar =
     (case subSid sub of None \<Rightarrow> None
      | Some sid \<Rightarrow>
          let httpReq = soapHttpReq req;
              httpReq = mupnp_http_request_setmethod httpReq (Some ''NOTIFY'');
              httpReq = mupnp_http_packet_setheadervalue httpReq (Some ''Connection'') (Some ''close'');
              httpReq = mupnp_http_request_seturi httpReq (path (deliveryURL sub));
              httpReq = mupnp_http_packet_sethost httpReq (host (deliveryURL sub)) (port (deliveryURL sub));
              httpReq = mupnp_http_packet_setheadervalue httpReq (Some ''Server'') (Some server);
              httpReq = mupnp_http_packet_setheadervalue httpReq (Some ''NT'') (Some MUPNP_NT_EVENT);
              httpReq = mupnp_http_packet_setheadervalue httpReq (Some ''NTS'') (Some MUPNP_NTS_PROPCHANGE);
              req = mupnp_event_notify_request_setsid (req\<lparr>soapHttpReq := httpReq\<rparr>) sid;
              req = req\<lparr>soapHttpReq := mupnp_http_packet_setheaderlong (soapHttpReq req) (Some ''SEQ'') (notifyCount sub)\<rparr>
          in Some (mupnp_soap_request_setcontent req (mupnp_event_notify_request_createpropertysetnode service statVar)))"

definition mupnp_event_notify_request_getvariablenode :: "mUpnpNotifyRequest \<Rightarrow> mUpnpXmlNode option" where
  "mupnp_event_notify_request_getvariablenode req =
     (let propSetNode = first_of (reqRootNodeList req) in
      if propSetNode = None then None
      else if mupnp_xml_node_haschildnodes propSetNode = False then None
      else
        let propNode = first_of (mupnp_xml_node_getchildnodes propSetNode) in
        if propNode = None then None
        else if mupnp_xml_node_haschildnodes propNode = False then None
        else first_of (mupnp_xml_node_getchildnodes propNode))"

definition mupnp_property_createfromnode :: "mUpnpXmlNode option \<Rightarrow> mUpnpProperty" where
  "mupnp_property_createfromnode varNode =
     (case varNode of
        None \<Rightarrow> mupnp_property_new
      | Some varNode \<Rightarrow>
          let colonIdx = mupnp_strstr (xname varNode) (Some '':'');
              varName = (if 0 \<le> colonIdx then map_option (drop (nat colonIdx + 1)) (xname varNode) else xname varNode)
          in mupnp_property_setvalue (mupnp_property_setname mupnp_property_new varName) (xvalue varNode))"

definition mupnp_event_notify_request_getsid :: "mUpnpNotifyRequest \<Rightarrow> charptr" where
  "mupnp_event_notify_request_getsid req =
     mupnp_event_subscription_getsid (mupnp_http_packet_getheadervalue (soapHttpReq req) (Some ''SID''))"

definition mupnp_event_notify_request_getseq :: "mUpnpNotifyRequest \<Rightarrow> 64 word" where
  "mupnp_event_notify_request_getseq req = mupnp_http_packet_getheadersizet (soapHttpReq req) (Some ''SEQ'')"

definition mupnp_event_notify_request_getpropertylist :: "mUpnpNotifyRequest \<Rightarrow> mUpnpNotifyRequest" where
  "mupnp_event_notify_request_getpropertylist req =
     (let sid = mupnp_event_notify_request_getsid req;
          seq = mupnp_event_notify_request_getseq req;
          req = req\<lparr>soapUserData := Some []\<rparr>
      in case first_of (reqRootNodeList req) of
           None \<Rightarrow> req
         | Some propSetNode \<Rightarrow>
             req\<lparr>soapUserData := Some (foldl (\<lambda>propList propNode.
                let varNode = first_of (mupnp_xml_node_getchildnodes (Some propNode));
                    prop = mupnp_property_createfromnode varNode;
                    prop = mupnp_property_setsid prop sid;
                    prop = prop\<lparr>propSeq := seq\<rparr>
                in propList @ [prop]) [] (xnodes propSetNode))\<rparr>)"

subsection \<open>The tree of an event\<close>

definition event_ok :: "mUpnpStateVariable \<Rightarrow> bool" where
  "event_ok sv \<longleftrightarrow>
     (case mupnp_statevariable_getname sv of None \<Rightarrow> False | Some n \<Rightarrow> xml_name n \<and> CHR '':'' \<notin> set n) \<and>
     list_all xml_char (str_bytes (svValue sv))"

definition evented :: "mUpnpService \<Rightarrow> mUpnpStateVariable list" where
  "evented service = filter mupnp_statevariable_issendevents (serviceStateTable service)"

lemma variable_node:
  "notify_variable_node sv =
     XmlNode (Some ''e:property'') None [] [XmlNode (mupnp_statevariable_getname sv) (svValue sv) [] []]"
  by (simp add: notify_variable_node_def Let_def mupnp_xml_node_new_def MUPNP_NOTIFY_XMLNS_def
      MUPNP_NOTIFY_PROPERTY_def mupnp_statevariable_getvalue_def)

lemma propertyset_node:
  "mupnp_event_notify_request_createpropertysetnode (Some service) sv =
     XmlNode (Some ''e:propertyset'') None [\<lparr>aname = Some ''xmlns:e'', avalue = Some MUPNP_SUBSCRIPTION_XMLNS\<rparr>]
       (map notify_variable_node (evented service))"
proof -
  have *: "foldl (\<lambda>n sv. if \<not> mupnp_statevariable_issendevents sv then n
        else mupnp_xml_node_addchildnode n (notify_variable_node sv)) (XmlNode m v as cs) svs =
      XmlNode m v as (cs @ map notify_variable_node (filter mupnp_statevariable_issendevents svs))" for m v as cs svs
    by (induction svs arbitrary: cs) simp_all
  show ?thesis
    by (simp add: mupnp_event_notify_request_createpropertysetnode_def Let_def mupnp_xml_node_new_def
        MUPNP_NOTIFY_XMLNS_def MUPNP_NOTIFY_PROPERTYSET_def mupnp_xml_node_setnamespace_def
        mupnp_xml_attributelist_set_def mupnp_xml_attributelist_get_def mupnp_xml_attribute_setvalue_def
        mupnp_xml_attribute_setname_def mupnp_xml_attribute_new_def evented_def *)
qed

lemma propertyset_ok:
  assumes "list_all event_ok (evented service)"
  shows "xml_ok (mupnp_event_notify_request_createpropertysetnode (Some service) sv)"
    and "xml_height (mupnp_event_notify_request_createpropertysetnode (Some service) sv) \<le> MUPNP_XML_MAX_DEPTH"
proof -
  have var: "xml_ok (notify_variable_node sv)" if "event_ok sv" for sv
    using that
    by (auto simp: variable_node event_ok_def xml_name_ok_def attrs_ok_def xml_name_def xml_namechar_def c_isdigit_def
        split: option.splits)
  have set: "xml_name_ok (Some ''e:propertyset'')" "attrs_ok [\<lparr>aname = Some ''xmlns:e'', avalue = Some MUPNP_SUBSCRIPTION_XMLNS\<rparr>]"
    by (simp_all add: xml_name_ok_def attrs_ok_def xml_name_def xml_namechar_def c_isdigit_def
        MUPNP_SUBSCRIPTION_XMLNS_def xml_attrchar_def)
  show "xml_ok (mupnp_event_notify_request_createpropertysetnode (Some service) sv)"
    using assms var set by (auto simp: propertyset_node list_all_iff)
  have "foldr (\<lambda>c m. max (xml_height c) m) (map notify_variable_node svs) 0 \<le> 2" for svs
    by (induction svs) (simp_all add: variable_node)
  from this [of "evented service"]
  show "xml_height (mupnp_event_notify_request_createpropertysetnode (Some service) sv) \<le> MUPNP_XML_MAX_DEPTH"
    by (simp add: propertyset_node MUPNP_XML_MAX_DEPTH_def)
qed

text \<open>What a control point takes out of an event: name, value, SID and sequence number.\<close>

definition property_view :: "mUpnpProperty \<Rightarrow> string \<times> string \<times> string \<times> 64 word" where
  "property_view prop = (str_bytes (propName prop), str_bytes (propValue prop), str_bytes (propSid prop), propSeq prop)"

lemma event_property:
  assumes "event_ok sv"
  shows "property_view ((mupnp_property_setsid (mupnp_property_createfromnode
      (first_of (mupnp_xml_node_getchildnodes (Some (xml_parsed k (notify_variable_node sv)))))) sid)\<lparr>propSeq := n\<rparr>) =
    (str_bytes (mupnp_statevariable_getname sv), str_bytes (svValue sv), str_bytes sid, n)"
proof -
  obtain m where m: "mupnp_statevariable_getname sv = Some m" "CHR '':'' \<notin> set m"
    using assms by (auto simp: event_ok_def split: option.splits)
  have "mupnp_strstr (Some m) (Some '':'') = - 1" by (rule strstr_absent) (use m in auto)
  with m(1) show ?thesis
    by (simp add: variable_node mupnp_property_createfromnode_def mupnp_property_new_def mupnp_property_setname_def
        mupnp_property_setvalue_def mupnp_property_setsid_def property_view_def mupnp_xml_node_getchildnodes_def Let_def del: strstr_simps)
qed

lemma propertylist_read:
  assumes "list_all event_ok (evented service)"
    and "reqRootNodeList req = [xml_parsed 0 (mupnp_event_notify_request_createpropertysetnode (Some service) sv)]"
  shows "map property_view (the (soapUserData (mupnp_event_notify_request_getpropertylist req))) =
    map (\<lambda>sv. (str_bytes (mupnp_statevariable_getname sv), str_bytes (svValue sv),
      str_bytes (mupnp_event_notify_request_getsid req), mupnp_event_notify_request_getseq req)) (evented service)"
proof -
  have *: "foldl (\<lambda>ps n. ps @ [f n]) ps ns = ps @ map f ns" for f :: "mUpnpXmlNode \<Rightarrow> mUpnpProperty" and ps ns
    by (induction ns arbitrary: ps) simp_all
  show ?thesis
    using assms(1)
    by (simp add: mupnp_event_notify_request_getpropertylist_def Let_def assms(2) propertyset_node * list_all_iff
        event_property)
qed


subsection \<open>The request on the wire\<close>

text \<open>A SID as the code makes it: \<open>uuid:\<close> and an identifier, or the identifier alone.\<close>

definition bare_sid :: "cstring \<Rightarrow> cstring" where
  "bare_sid sid = (if prefix ''uuid:'' sid then drop 5 sid else sid)"

definition sid_text :: "cstring \<Rightarrow> bool" where
  "sid_text sid \<longleftrightarrow> sid \<noteq> [] \<and> length sid \<le> 128 \<and> set sid \<inter> {CR, LF, CHR '' '', CHR '':'', CHR ''u'', NUL} = {}"

definition deliverable :: "mUpnpSubscriber \<Rightarrow> bool" where
  "deliverable sub \<longleftrightarrow>
     (case subSid sub of None \<Rightarrow> False | Some sid \<Rightarrow> sid_text (bare_sid sid)) \<and>
     (case host (deliveryURL sub) of None \<Rightarrow> False | Some a \<Rightarrow> host_text a) \<and>
     0 \<le> port (deliveryURL sub) \<and> port (deliveryURL sub) < 65536 \<and>
     (case path (deliveryURL sub) of None \<Rightarrow> False
      | Some u \<Rightarrow> line_word u \<and> length u \<le> 400 \<and> mupnp_strstr (Some u) (Some ''://'') \<le> 0) \<and>
     0 \<le> notifyCount sub \<and> notifyCount sub \<le> MUPNP_NOTIFY_COUNT_MAX"

lemma bare_sid_cases:
  assumes "sid_text (bare_sid sid)"
  obtains "sid = ''uuid:'' @ bare_sid sid" | "sid = bare_sid sid"
  using assms by (auto simp: bare_sid_def prefix_def split: if_splits)

lemma sid_text_absent:
  assumes "sid_text u" and "c \<in> set t" and "c = CHR '':'' \<or> c = CHR ''u''"
  shows "mupnp_strstr (Some u) (Some t) = - 1"
  by (rule strstr_absent [OF assms(2)]) (use assms in \<open>auto simp: sid_text_def\<close>)

lemma sidheader:
  assumes "sid_text (bare_sid sid)"
  shows "mupnp_event_subscription_tosidheaderstring sid MUPNP_SUBSCRIPTION_SID_HEADER_SIZE = ''uuid:'' @ bare_sid sid"
    and "mupnp_event_subscription_getsid (Some (''uuid:'' @ bare_sid sid)) = Some (bare_sid sid)"
    and "field_text (''uuid:'' @ bare_sid sid)"
proof -
  let ?u = "bare_sid sid"
  have len: "length ?u \<le> 128" using assms by (simp add: sid_text_def)
  show "mupnp_event_subscription_tosidheaderstring sid MUPNP_SUBSCRIPTION_SID_HEADER_SIZE = ''uuid:'' @ ?u"
  proof (cases rule: bare_sid_cases [OF assms])
    case 1
    have "0 \<le> mupnp_strstr (Some (''uuid:'' @ ?u)) (Some MUPNP_SUBSCRIPTION_UUID)"
      by (simp add: MUPNP_SUBSCRIPTION_UUID_def)
    then show ?thesis
      using len by (subst 1, subst (asm) 1 [symmetric])
        (simp add: mupnp_event_subscription_tosidheaderstring_def 1 [symmetric] MUPNP_SUBSCRIPTION_SID_HEADER_SIZE_def
          MUPNP_SUBSCRIPTION_SID_SIZE_def del: strstr_simps)
  next
    case 2
    have "mupnp_strstr (Some ?u) (Some MUPNP_SUBSCRIPTION_UUID) = - 1"
      by (rule sid_text_absent [OF assms, of "CHR '':''"]) (simp_all add: MUPNP_SUBSCRIPTION_UUID_def)
    then show ?thesis
      using len 2 by (simp add: mupnp_event_subscription_tosidheaderstring_def c_snprintf_def
          MUPNP_SUBSCRIPTION_SID_HEADER_SIZE_def MUPNP_SUBSCRIPTION_SID_SIZE_def MUPNP_SUBSCRIPTION_UUID_def del: strstr_simps)
  qed
  show "mupnp_event_subscription_getsid (Some (''uuid:'' @ ?u)) = Some ?u"
    by (simp add: mupnp_event_subscription_getsid_def c_strstr_single)
  have d: "?u \<noteq> []" "set ?u \<inter> {CR, LF, CHR '' '', CHR '':'', NUL} = {}" using assms by (auto simp: sid_text_def)
  then have "last ?u \<notin> {CR, LF, CHR '' '', CHR '':''}" using last_in_set [of ?u] by blast
  with d show "field_text (''uuid:'' @ ?u)"
    by (intro field_text_nonempty) (auto simp: nul_free_def)
qed

lemma long2str_small: "0 \<le> n \<Longrightarrow> n < LONG_MAX \<Longrightarrow> mupnp_long2str n MUPNP_STRING_LONG_BUFLEN = show_nat 10 (nat n)"
  using long2str_buflen [of n] by (simp add: long_range_def LONG_MIN_def LONG_MAX_def show_int_def)

lemma event_type_text [simp]:
  "field_text ''close''" "field_text MUPNP_NT_EVENT" "field_text MUPNP_NTS_PROPCHANGE"
  "length MUPNP_NT_EVENT = 10" "length MUPNP_NTS_PROPCHANGE = 15"
  by (simp_all add: field_text_def rest_text_def set_headerline_delim nul_free_def MUPNP_NT_EVENT_def
      MUPNP_NTS_PROPCHANGE_def)

lemma notify_request:
  assumes "deliverable sub" and "list_all event_ok (evented service)" and "field_text server" "length server \<le> 64"
    and "node = mupnp_event_notify_request_createpropertysetnode (Some service) None"
    and "int (length (soap_text node)) < LONG_MAX"
  obtains req q sid where
    "mupnp_event_notify_request_setpropertysetnode server mupnp_event_notify_request_new sub (Some service) None = Some req"
    and "subSid sub = Some sid" "sid_text (bare_sid sid)"
    and "soapHttpReq req = q" and "fields_ok q" and "content q = Some (soap_text node)"
    and "field q ''Content-Length'' = Some (show_nat 10 (length (soap_text node)))"
    and "field q ''NT'' = Some MUPNP_NT_EVENT" "field q ''NTS'' = Some MUPNP_NTS_PROPCHANGE"
    and "field q ''SID'' = Some (''uuid:'' @ bare_sid sid)" "field q ''SEQ'' = Some (show_nat 10 (nat (notifyCount sub)))"
    and "reqMethod q = Some ''NOTIFY''" "reqUri q = path (deliveryURL sub)" "reqVersion q = Some ''HTTP/1.1''"
    and "userAgent q = Some MUPNP_HTTP_USERAGENT_DEFAULT"
proof -
  obtain sid a where sub: "subSid sub = Some sid" "sid_text (bare_sid sid)" "host (deliveryURL sub) = Some a" "host_text a"
      "0 \<le> port (deliveryURL sub)" "port (deliveryURL sub) < 65536" "0 \<le> notifyCount sub"
      "notifyCount sub \<le> MUPNP_NOTIFY_COUNT_MAX" "path (deliveryURL sub) \<noteq> None"
    using assms(1) by (auto simp: deliverable_def split: option.splits)
  define q0 where "q0 = mupnp_http_request_seturi (mupnp_http_packet_setheadervalue (mupnp_http_request_setmethod
      soap_http_request (Some ''NOTIFY'')) (Some ''Connection'') (Some ''close'')) (path (deliveryURL sub))"
  have q0: "fields_ok q0" "content q0 = None" "reqMethod q0 = Some ''NOTIFY''" "reqUri q0 = path (deliveryURL sub)"
      "reqVersion q0 = Some ''HTTP/1.1''" "userAgent q0 = Some MUPNP_HTTP_USERAGENT_DEFAULT"
    using sub(9)
    by (auto simp: q0_def mupnp_http_request_seturi_def mupnp_http_request_setmethod_def)
  obtain v where v: "mupnp_http_packet_sethost q0 (Some a) (port (deliveryURL sub)) =
      mupnp_http_packet_setheadervalue q0 (Some ''HOST'') (Some v)" "field_text v" "length v \<le> 406"
    using sethost_field [OF sub(4-6), of q0] by blast
  have n: "nat (notifyCount sub) < 10 ^ 10" "notifyCount sub < LONG_MAX"
    using sub(7,8) by (simp_all add: MUPNP_NOTIFY_COUNT_MAX_def LONG_MAX_def)
  have sid: "length (bare_sid sid) \<le> 128" using sub(2) by (simp add: sid_text_def)
  let ?set = "\<lambda>q k v. mupnp_http_packet_setheadervalue q (Some k) (Some v)"
  define q1 where "q1 = ?set (?set (?set (?set (?set (?set q0 ''HOST'' v) ''Server'' server) ''NT'' MUPNP_NT_EVENT)
      ''NTS'' MUPNP_NTS_PROPCHANGE) ''SID'' (''uuid:'' @ bare_sid sid)) ''SEQ'' (show_nat 10 (nat (notifyCount sub)))"
  have seq: "length (show_nat 10 (nat (notifyCount sub))) \<le> 10" using n(1) by (intro length_show_nat) simp_all
  have q1: "fields_ok q1" "content q1 = None"
    "field q1 ''NT'' = Some MUPNP_NT_EVENT" "field q1 ''NTS'' = Some MUPNP_NTS_PROPCHANGE"
    "field q1 ''SID'' = Some (''uuid:'' @ bare_sid sid)" "field q1 ''SEQ'' = Some (show_nat 10 (nat (notifyCount sub)))"
    "reqMethod q1 = Some ''NOTIFY''" "reqUri q1 = path (deliveryURL sub)" "reqVersion q1 = Some ''HTTP/1.1''"
    "userAgent q1 = Some MUPNP_HTTP_USERAGENT_DEFAULT"
    using q0 v assms(3,4) sidheader(3) [OF sub(2)] sid seq
    by (simp_all add: q1_def lower nul_free_def)
  define q2 where "q2 = soap_content q1 node"
  have ok: "xml_ok node" using propertyset_ok(1) [OF assms(2), of None] assms(5) by simp
  have len: "length (show_nat 10 (length (soap_text node))) \<le> 20" using assms(6) by (rule length_show_nat_long)
  note q2 = soap_content_text [OF ok q1(2) assms(6), folded q2_def]
  have q1f: "fields_ok (?set q1 ''Content-Type'' MUPNP_XML_CONTENT_TYPE)" using q1(1) by simp
  show thesis
  proof (rule that [OF _ sub(1,2) refl])
    show "mupnp_event_notify_request_setpropertysetnode server mupnp_event_notify_request_new sub (Some service) None =
        Some (mupnp_event_notify_request_new\<lparr>soapHttpReq := q2\<rparr>)"
      using n(2) sub(7) sidheader(1) [OF sub(2)] sub(1,3)
      by (simp add: mupnp_event_notify_request_setpropertysetnode_def Let_def v(1) q0_def [symmetric]
          mupnp_event_notify_request_new_def mupnp_soap_request_new_def mupnp_event_notify_request_setsid_def
          mupnp_http_packet_setheaderlong_def long2str_small mupnp_soap_request_setcontent_def q2_def q1_def assms(5))
  qed (use q1 q1f len in \<open>simp_all add: q2 lower nul_free_def\<close>)
qed


section \<open>Properties\<close>

text \<open>C32: the notification a device sends to a subscriber is read by the control point as a NOTIFY
  request for the path of its callback, out of which it takes exactly the evented state variables
  of the service, in their order, with their values, the identifier in the SID of the subscription
  and its sequence number.\<close>

theorem notify_roundtrip:
  assumes "reads_xml expat" and "total_allocator A"
    and "deliverable sub" and "list_all event_ok (evented service)" and "field_text server" and "length server \<le> 64"
    and "int (length (soap_text (mupnp_event_notify_request_createpropertysetnode (Some service) None))) \<le> INT_MAX"
    and "writable s" and "outstream s = []"
  shows "\<exists>req q s' q' t' req'.
    mupnp_event_notify_request_setpropertysetnode server mupnp_event_notify_request_new sub (Some service) None = Some req \<and>
    q = request_prepare (soapHttpReq req) (host (deliveryURL sub)) (port (deliveryURL sub)) \<and>
    request_send q (the (reqMethod q)) (the (reqUri q)) (the (reqVersion q)) s = Some s' \<and>
    mupnp_http_request_read A old (t\<lparr>instream := outstream s' @ r\<rparr>) = Some (True, q', t') \<and> instream t' = r \<and>
    mupnp_http_request_isnotifyrequest q' \<and> reqUri q' = path (deliveryURL sub) \<and>
    mupnp_soap_request_sethttprequest expat mupnp_event_notify_request_new q' = Some (True, req') \<and>
    map property_view (the (soapUserData (mupnp_event_notify_request_getpropertylist req'))) =
      map (\<lambda>sv. (str_bytes (mupnp_statevariable_getname sv), str_bytes (svValue sv), bare_sid (the (subSid sub)),
        word_of_int (notifyCount sub))) (evented service)"
proof -
  define node where "node = mupnp_event_notify_request_createpropertysetnode (Some service) None"
  have len: "int (length (soap_text node)) \<le> INT_MAX" "int (length (soap_text node)) < LONG_MAX"
    using assms(7) by (simp_all add: node_def INT_MAX_def LONG_MAX_def)
  obtain a u where sub: "host (deliveryURL sub) = Some a" "host_text a" "0 \<le> port (deliveryURL sub)"
      "port (deliveryURL sub) < 65536" "path (deliveryURL sub) = Some u" "line_word u" "length u \<le> 400"
      "mupnp_strstr (Some u) (Some ''://'') \<le> 0" "0 \<le> notifyCount sub" "notifyCount sub \<le> MUPNP_NOTIFY_COUNT_MAX"
    using assms(3) by (auto simp: deliverable_def simp del: strstr_simps split: option.splits)
  obtain req q sid where q:
      "mupnp_event_notify_request_setpropertysetnode server mupnp_event_notify_request_new sub (Some service) None = Some req"
      "subSid sub = Some sid" "sid_text (bare_sid sid)" "soapHttpReq req = q" "fields_ok q" "content q = Some (soap_text node)"
      "field q ''Content-Length'' = Some (show_nat 10 (length (soap_text node)))"
      "field q ''SID'' = Some (''uuid:'' @ bare_sid sid)" "field q ''SEQ'' = Some (show_nat 10 (nat (notifyCount sub)))"
      "reqMethod q = Some ''NOTIFY''" "reqUri q = path (deliveryURL sub)" "reqVersion q = Some ''HTTP/1.1''"
      "userAgent q = Some MUPNP_HTTP_USERAGENT_DEFAULT"
    by (rule notify_request [OF assms(3-6) node_def len(2)])
  define p where "p = request_prepare q (Some a) (port (deliveryURL sub))"
  note p = prepared [OF q(5) sub(2-4) q(13), folded p_def]
  have fields: "field p ''Content-Length'' = field q ''Content-Length''" "field p ''SID'' = field q ''SID''"
      "field p ''SEQ'' = field q ''SEQ''"
    by (rule p(6), simp add: nul_free_def, simp add: lower)+
  have "request_ok p"
    by (rule request_okI [where m = "''NOTIFY''" and u = u and v = "''HTTP/1.1''"])
      (use p q sub fields len in \<open>simp_all add: word_text_def set_statusline_delim nul_free_def del: strstr_simps\<close>)
  then obtain s' where s': "request_send p (the (reqMethod p)) (the (reqUri p)) (the (reqVersion p)) s = Some s'"
      "sent s ([] @ request_text p) s'"
    using request_send_text [OF sent_refl [OF assms(8)]] by blast
  then have "instream (t\<lparr>instream := outstream s' @ r\<rparr>) = request_text p @ r"
    using assms(9) by (simp add: sent_def wrote_def)
  from request_read_text [OF \<open>request_ok p\<close> this assms(2), of old] obtain q' t' where
    read: "mupnp_http_request_read A old (t\<lparr>instream := outstream s' @ r\<rparr>) = Some (True, q', t')" "instream t' = r"
      "request_view q' = request_view p" "headerList q' = map header_norm (headerList p)"
    by (auto simp: sock_after_def)
  note got = received_field [OF read(4)]
  have q': "content q' = Some (soap_text node)" "reqMethod q' = Some ''NOTIFY''" "reqUri q' = Some u"
    using read(3) p q sub(5) soap_text_nonempty [of node] by (auto simp: request_view_def str_bytes_def split: option.splits)
  have f': "field q' ''SID'' = Some (''uuid:'' @ bare_sid sid)" "field q' ''SEQ'' = Some (show_nat 10 (nat (notifyCount sub)))"
      "field q' ''Content-Length'' = Some (show_nat 10 (length (soap_text node)))"
    by (rule got, simp add: fields q)+
  define req' where "req' = (mupnp_event_notify_request_new :: mUpnpNotifyRequest)
     \<lparr>soapHttpReq := q', isHttpReqCreated := False, reqRootNodeList := [xml_parsed 0 node]\<rparr>"
  have msg: "mupnp_soap_request_sethttprequest expat mupnp_event_notify_request_new q' = Some (True, req')"
    using soap_request_read [where req = mupnp_event_notify_request_new, OF assms(1) propertyset_ok [OF assms(4), of None, folded node_def] len(1) q'(1) f'(3)]
    by (simp add: req'_def mupnp_event_notify_request_new_def mupnp_soap_request_new_def)
  have "c_atol (show_nat 10 (nat (notifyCount sub))) = notifyCount sub"
    using c_strtol10_show_int [of "notifyCount sub" "[]"] sub(9,10)
    by (simp add: c_atol_def long_range_def LONG_MAX_def LONG_MIN_def MUPNP_NOTIFY_COUNT_MAX_def show_int_def)
  then have ids: "mupnp_event_notify_request_getsid req' = Some (bare_sid sid)"
      "mupnp_event_notify_request_getseq req' = word_of_int (notifyCount sub)"
    using f'(1,2) sidheader(2) [OF q(3)]
    by (simp_all add: req'_def mupnp_event_notify_request_getsid_def mupnp_event_notify_request_getseq_def field_def
        mupnp_http_packet_getheadersizet_def)
  have "reqRootNodeList req' = [xml_parsed 0 node]" by (simp add: req'_def)
  from propertylist_read [OF assms(4) this [unfolded node_def]] have read':
    "map property_view (the (soapUserData (mupnp_event_notify_request_getpropertylist req'))) =
      map (\<lambda>sv. (str_bytes (mupnp_statevariable_getname sv), str_bytes (svValue sv), bare_sid (the (subSid sub)),
        word_of_int (notifyCount sub))) (evented service)" by (simp add: ids q(2))
  have "mupnp_http_request_isnotifyrequest q'"
    using q'(2) by (simp add: mupnp_http_request_isnotifyrequest_def mupnp_http_request_getmethod_def)
  have "p = request_prepare (soapHttpReq req) (host (deliveryURL sub)) (port (deliveryURL sub))"
    by (simp add: p_def q(4) sub(1))
  have "reqUri q' = path (deliveryURL sub)" using q'(3) sub(5) by simp
  show ?thesis
    by (rule exI [of _ req], rule exI [of _ p], rule exI [of _ s'], rule exI [of _ q'], rule exI [of _ t'],
        rule exI [of _ req'], intro conjI) fact+
qed

definition ex_evented :: mUpnpService where
  "ex_evented = mupnp_service_new\<lparr>serviceStateTable :=
     [\<lparr>stateVarNode = Some (XmlNode (Some ''stateVariable'') None [\<lparr>aname = Some ''sendEvents'', avalue = Some ''yes''\<rparr>]
          [XmlNode (Some ''name'') (Some ''Power'') [] []]),
       svValue = Some ''1 < 2'', svStatus = mupnp_status_new, svListener = None, allowedValueList = None\<rparr>]\<rparr>"

definition ex_subscriber :: mUpnpSubscriber where
  "ex_subscriber = (mupnp_subscriber_new 0)\<lparr>subSid := Some ''uuid:ab-1'', notifyCount := 7,
     deliveryURL := mupnp_net_uri_new\<lparr>host := Some ''10.0.0.2'', port := 8058, path := Some ''/evt''\<rparr>\<rparr>"

theorem notify_roundtrip_witness:
  "\<exists>q' req'. mupnp_http_request_isnotifyrequest q' \<and> reqUri q' = Some ''/evt'' \<and>
    mupnp_soap_request_sethttprequest ref_expat mupnp_event_notify_request_new q' = Some (True, req') \<and>
    map property_view (the (soapUserData (mupnp_event_notify_request_getpropertylist req'))) = [(''Power'', ''1 < 2'', ''ab-1'', 7)]"
proof -
  let ?s = "\<lparr>instream = [], recvSizes = [], recvFails = False, nonblocking = False, sendResults = [], outstream = []\<rparr> :: mUpnpSocket"
  let ?A = "\<lparr>can_alloc = \<lambda>_. True, junk = CHR ''?''\<rparr>"
  have 1: "evented ex_evented = serviceStateTable ex_evented"
    by code_simp
  have 2: "list_all event_ok (evented ex_evented)" by code_simp
  have 3: "deliverable ex_subscriber"
    by (simp add: deliverable_def ex_subscriber_def sid_text_def bare_sid_def host_text_def word_text_def set_statusline_delim
        nul_free_def MUPNP_NOTIFY_COUNT_MAX_def)
  have 4: "int (length (soap_text (mupnp_event_notify_request_createpropertysetnode (Some ex_evented) None))) \<le> INT_MAX"
    by (rule order_trans [where y = "1000"], code_simp, simp add: INT_MAX_def)
  have 5: "map (\<lambda>sv. (str_bytes (mupnp_statevariable_getname sv), str_bytes (svValue sv), bare_sid (the (subSid ex_subscriber)),
        word_of_int (notifyCount ex_subscriber) :: 64 word)) (evented ex_evented) = [(''Power'', ''1 < 2'', ''ab-1'', 7)]"
    unfolding 1 by (simp add: ex_evented_def ex_subscriber_def mupnp_statevariable_getname_def bare_sid_def)
     (simp add: mupnp_xml_node_getchildnodevalue_def xml_child_def mupnp_xml_node_getchildnodebyname_def
        mupnp_xml_nodelist_getbyname_def mupnp_xml_node_getchildnodes_def)
  have 6: "path (deliveryURL ex_subscriber) = Some ''/evt''" by (simp add: ex_subscriber_def)
  show ?thesis
    using notify_roundtrip [where expat = ref_expat and A = ?A and s = ?s and server = "''x''" and r = "[]" and t = ?s
        and old = mupnp_http_request_new, OF reads_xml_ref_expat _ 3 2 _ _ 4] 5 6
    by (auto simp: total_allocator_def writable_def field_text_def rest_text_def nul_free_def set_headerline_delim)
qed

end
