(* ===== verification/Gena.thy ===== *)
theory Gena
  imports Notify "HOL-Library.Sublist"
begin

section \<open>Eventing (src/mupnp/device_http_server.c, service_notify.c, event)\<close>

text \<open>
  The subscriptions of a service: the requests a control point builds, the handlers of the
  device and the notifications.  The clock, the UUID made for a subscription, the server name
  and the network are parameters.  A handler gives the service it leaves behind and the
  responses it posts on the connection of the request; \<open>None\<close> is a crash.
\<close>

record gena_env =
  server_name :: cstring
  xml_parser :: expat
  network :: transport

definition MUPNP_HTTP_STATUS_OK :: int where "MUPNP_HTTP_STATUS_OK = 200"
definition MUPNP_HTTP_STATUS_BAD_REQUEST :: int where "MUPNP_HTTP_STATUS_BAD_REQUEST = 400"
definition MUPNP_HTTP_STATUS_PRECONDITION_FAILED :: int where "MUPNP_HTTP_STATUS_PRECONDITION_FAILED = 412"

subsection \<open>Headers of subscription messages\<close>

definition mupnp_event_subscription_request_hassid :: "mUpnpHttpRequest \<Rightarrow> bool" where
  "mupnp_event_subscription_request_hassid subReq = mupnp_http_packet_hasheader subReq (Some ''SID'')"

definition mupnp_event_subscription_request_hascallback :: "mUpnpHttpRequest \<Rightarrow> bool" where
  "mupnp_event_subscription_request_hascallback subReq = mupnp_http_packet_hasheader subReq (Some ''CALLBACK'')"

definition mupnp_event_subscription_request_hasnt :: "mUpnpHttpRequest \<Rightarrow> bool" where
  "mupnp_event_subscription_request_hasnt subReq = mupnp_http_packet_hasheader subReq (Some ''NT'')"

definition mupnp_event_subscription_request_getsid :: "mUpnpHttpRequest \<Rightarrow> charptr" where
  "mupnp_event_subscription_request_getsid subReq =
     mupnp_event_subscription_getsid (mupnp_http_packet_getheadervalue subReq (Some ''SID''))"

definition mupnp_event_subscription_request_getcallback :: "mUpnpHttpRequest \<Rightarrow> charptr" where
  "mupnp_event_subscription_request_getcallback subReq = mupnp_http_packet_getheadervalue subReq (Some ''CALLBACK'')"

definition mupnp_event_subscription_request_getnt :: "mUpnpHttpRequest \<Rightarrow> charptr" where
  "mupnp_event_subscription_request_getnt subReq = mupnp_http_packet_getheadervalue subReq (Some ''NT'')"

definition mupnp_event_subscription_request_gettimeout :: "mUpnpHttpRequest \<Rightarrow> int" where
  "mupnp_event_subscription_request_gettimeout subReq =
     mupnp_event_subscription_gettimeout (mupnp_http_packet_getheadervalue subReq (Some ''TIMEOUT''))"

text \<open>Both setters of a SID header build the same text.\<close>

definition sid_header :: "charptr \<Rightarrow> charptr" where
  "sid_header sid =
     (let headerSID = None;
          uuidIdx = mupnp_strstr sid (Some MUPNP_ST_UUID_DEVICE);
          headerSID = (if uuidIdx < 0 then str_add headerSID (Some (MUPNP_ST_UUID_DEVICE @ '':'')) else headerSID)
      in str_add headerSID sid)"

definition mupnp_event_subscription_response_setsid :: "mUpnpHttpResponse \<Rightarrow> charptr \<Rightarrow> mUpnpHttpResponse" where
  "mupnp_event_subscription_response_setsid subRes sid =
     mupnp_http_packet_setheadervalue subRes (Some ''SID'') (sid_header sid)"

definition mupnp_event_subscription_response_settimeout :: "mUpnpHttpResponse \<Rightarrow> int \<Rightarrow> mUpnpHttpResponse" where
  "mupnp_event_subscription_response_settimeout subRes v =
     mupnp_http_packet_setheadervalue subRes (Some ''TIMEOUT'') (mupnp_event_subscription_totimeoutheaderstring v None)"

definition mupnp_event_subscription_subscriberesponse_setresponse ::
    "cstring \<Rightarrow> mUpnpHttpResponse \<Rightarrow> int \<Rightarrow> mUpnpHttpResponse" where
  "mupnp_event_subscription_subscriberesponse_setresponse server subRes code =
     (let subRes = mupnp_http_response_setstatuscode subRes code;
          subRes = mupnp_http_packet_setheadervalue subRes (Some ''Server'') (Some server)
      in mupnp_http_packet_setcontentlength subRes 0)"

subsection \<open>The requests of a control point\<close>

definition mupnp_event_subscription_request_setsid :: "mUpnpHttpRequest \<Rightarrow> charptr \<Rightarrow> mUpnpHttpRequest" where
  "mupnp_event_subscription_request_setsid subReq sid =
     mupnp_http_packet_setheadervalue subReq (Some ''SID'') (sid_header sid)"

definition mupnp_event_subscription_request_settimeout :: "mUpnpHttpRequest \<Rightarrow> int \<Rightarrow> mUpnpHttpRequest" where
  "mupnp_event_subscription_request_settimeout subReq timeout =
     mupnp_http_packet_setheadervalue subReq (Some ''TIMEOUT'') (mupnp_event_subscription_totimeoutheaderstring timeout None)"

text \<open>The event URL of the service, which \<open>mupnp_service_geteventsuburl\<close> resolves, is an argument.\<close>

definition mupnp_event_subscription_request_setservice :: "mUpnpHttpRequest \<Rightarrow> mUpnpNetURI \<Rightarrow> mUpnpHttpRequest" where
  "mupnp_event_subscription_request_setservice subReq eventSubURL =
     (case mupnp_net_uri_getrequest eventSubURL of (eventSubURL, req) \<Rightarrow>
        (mupnp_http_request_seturi subReq req)\<lparr>postURL := eventSubURL\<rparr>)"

definition mupnp_event_subscription_request_setnewsubscription ::
    "mUpnpHttpRequest \<Rightarrow> mUpnpNetURI \<Rightarrow> charptr \<Rightarrow> int \<Rightarrow> mUpnpHttpRequest" where
  "mupnp_event_subscription_request_setnewsubscription subReq eventSubURL callback timeout =
     (let subReq = mupnp_http_request_setmethod subReq (Some ''SUBSCRIBE'');
          subReq = mupnp_event_subscription_request_setservice subReq eventSubURL;
          subReq = mupnp_http_packet_setheadervalue subReq (Some ''CALLBACK'') callback;
          subReq = mupnp_http_packet_setheadervalue subReq (Some ''NT'') (Some MUPNP_NT_EVENT)
      in mupnp_event_subscription_request_settimeout subReq timeout)"

definition mupnp_event_subscription_request_setrenewsubscription ::
    "mUpnpHttpRequest \<Rightarrow> mUpnpNetURI \<Rightarrow> charptr \<Rightarrow> int \<Rightarrow> mUpnpHttpRequest" where
  "mupnp_event_subscription_request_setrenewsubscription subReq eventSubURL uuid timeout =
     (let subReq = mupnp_http_request_setmethod subReq (Some ''SUBSCRIBE'');
          subReq = mupnp_event_subscription_request_setservice subReq eventSubURL;
          subReq = mupnp_event_subscription_request_setsid subReq uuid
      in mupnp_event_subscription_request_settimeout subReq timeout)"

definition mupnp_event_subscription_request_setunsubscription ::
    "mUpnpHttpRequest \<Rightarrow> mUpnpService \<Rightarrow> mUpnpNetURI \<Rightarrow> mUpnpHttpRequest" where
  "mupnp_event_subscription_request_setunsubscription subReq service eventSubURL =
     (let subReq = mupnp_http_request_setmethod subReq (Some ''UNSUBSCRIBE'');
          subReq = mupnp_event_subscription_request_setservice subReq eventSubURL
      in mupnp_event_subscription_request_setsid subReq (subscriptionSid service))"

subsection \<open>Notifications\<close>

definition mupnp_subscriber_notifymain ::
    "gena_env \<Rightarrow> mUpnpSubscriber \<Rightarrow> mUpnpService option \<Rightarrow> mUpnpStateVariable option \<Rightarrow> (bool \<times> mUpnpSubscriber) option" where
  "mupnp_subscriber_notifymain E sub service statVar = do {
     notifyReq \<leftarrow> mupnp_event_notify_request_setpropertysetnode (server_name E) mupnp_event_notify_request_new sub service statVar;
     notifyReq \<leftarrow> mupnp_soap_request_post (xml_parser E) (network E) notifyReq (host (deliveryURL sub)) (port (deliveryURL sub));
     let notifySuccess = mupnp_http_response_issuccessful (soapHttpRes (soapRes notifyReq));
     if notifySuccess = False then Some (False, sub)
     else Some (True, mupnp_subscriber_incrementnotifycount sub) }"

definition mupnp_subscriber_notify :: "gena_env \<Rightarrow> mUpnpSubscriber \<Rightarrow> mUpnpStateVariable \<Rightarrow> (bool \<times> mUpnpSubscriber) option" where
  "mupnp_subscriber_notify E sub statVar = mupnp_subscriber_notifymain E sub None (Some statVar)"

definition mupnp_subscriber_notifyall :: "gena_env \<Rightarrow> mUpnpSubscriber \<Rightarrow> mUpnpService \<Rightarrow> (bool \<times> mUpnpSubscriber) option" where
  "mupnp_subscriber_notifyall E sub service = mupnp_subscriber_notifymain E sub (Some service) None"

text \<open>The loop over the array of subscribers: those that cannot be reached are removed.\<close>

fun notify_subscribers ::
    "gena_env \<Rightarrow> mUpnpService \<Rightarrow> mUpnpStateVariable option \<Rightarrow> mUpnpSubscriber list \<Rightarrow> mUpnpSubscriber list option" where
  "notify_subscribers E service statVar [] = Some []"
| "notify_subscribers E service statVar (sub # subs) = do {
     (ok, sub) \<leftarrow> (case statVar of
                     Some statVar \<Rightarrow> mupnp_subscriber_notify E sub statVar
                   | None \<Rightarrow> mupnp_subscriber_notifyall E sub service);
     subs \<leftarrow> notify_subscribers E service statVar subs;
     Some (if ok = False then subs else sub # subs) }"

definition mupnp_service_notifymain ::
    "gena_env \<Rightarrow> int \<Rightarrow> mUpnpService \<Rightarrow> mUpnpStateVariable option \<Rightarrow> mUpnpService option" where
  "mupnp_service_notifymain E now service statVar = do {
     let service = service\<lparr>subscriberList := filter (\<lambda>sub. \<not> mupnp_subscriber_isexpired sub now) (subscriberList service)\<rparr>;
     subs \<leftarrow> notify_subscribers E service statVar (subscriberList service);
     Some (service\<lparr>subscriberList := subs\<rparr>) }"

definition mupnp_service_notify :: "gena_env \<Rightarrow> int \<Rightarrow> mUpnpService \<Rightarrow> mUpnpStateVariable \<Rightarrow> mUpnpService option" where
  "mupnp_service_notify E now service statVar = mupnp_service_notifymain E now service (Some statVar)"

fun notify_each :: "gena_env \<Rightarrow> int \<Rightarrow> mUpnpService \<Rightarrow> mUpnpStateVariable list \<Rightarrow> mUpnpService option" where
  "notify_each E now service [] = Some service"
| "notify_each E now service (statVar # svs) = do {
     service \<leftarrow> (if mupnp_statevariable_issendevents statVar = True
                 then mupnp_service_notify E now service statVar else Some service);
     notify_each E now service svs }"

definition mupnp_service_notifyall :: "gena_env \<Rightarrow> int \<Rightarrow> mUpnpService \<Rightarrow> bool \<Rightarrow> mUpnpService option" where
  "mupnp_service_notifyall E now service doBracket =
     (if doBracket then mupnp_service_notifymain E now service None
      else notify_each E now service (serviceStateTable service))"

text \<open>The state variable number \<open>i\<close> of a service gets a value and the subscribers are told.\<close>

definition mupnp_statevariable_setvaluewithnotify ::
    "gena_env \<Rightarrow> int \<Rightarrow> mUpnpService \<Rightarrow> nat \<Rightarrow> charptr \<Rightarrow> bool \<Rightarrow> mUpnpService option" where
  "mupnp_statevariable_setvaluewithnotify E now service i data doNotify =
     (let statVar = mupnp_statevariable_setvaluewithoutnotify (serviceStateTable service ! i) data;
          service = service\<lparr>serviceStateTable := (serviceStateTable service)[i := statVar]\<rparr>
      in if doNotify = True \<and> mupnp_statevariable_issendevents statVar = True
         then mupnp_service_notify E now service statVar else Some service)"

text \<open>\<open>later\<close> is the time after the wait; \<open>running\<close> says whether the worker has been told to stop.\<close>

definition mupnp_service_createnotifyallthread :: "gena_env \<Rightarrow> int \<Rightarrow> bool \<Rightarrow> mUpnpService \<Rightarrow> mUpnpService option" where
  "mupnp_service_createnotifyallthread E later running service =
     (if running = False then Some service else mupnp_service_notifyall E later service True)"

subsection \<open>The handlers of the device\<close>

definition mupnp_device_badsubscriptionrecieved :: "int \<Rightarrow> mUpnpHttpResponse" where
  "mupnp_device_badsubscriptionrecieved code = mupnp_http_response_setstatuscode mupnp_http_response_new code"

definition limit_timeout :: "int \<Rightarrow> int" where
  "limit_timeout timeout =
     (if MUPNP_SUBSCRIPTION_MAX_TIMEOUT > 0 then
        if timeout > MUPNP_SUBSCRIPTION_MAX_TIMEOUT \<or> timeout = MUPNP_SUBSCRIPTION_INFINITE_VALUE
        then MUPNP_SUBSCRIPTION_MAX_TIMEOUT else timeout
      else timeout)"

text \<open>
  \<open>uuid\<close> is what \<open>mupnp_event_subscription_createsid\<close> made, \<open>now\<close> the time of the request and \<open>later\<close>
  the time of the initial event.
\<close>

definition mupnp_device_newsubscriptionrecieved ::
    "gena_env \<Rightarrow> int \<Rightarrow> int \<Rightarrow> bool \<Rightarrow> cstring \<Rightarrow> mUpnpService \<Rightarrow> mUpnpHttpRequest \<Rightarrow>
     (mUpnpService \<times> mUpnpHttpResponse list) option" where
  "mupnp_device_newsubscriptionrecieved E now later running uuid service subReq =
     (case mupnp_strdup (mupnp_event_subscription_request_getcallback subReq) of
        None \<Rightarrow> Some (service, [])
      | Some aux \<Rightarrow> do {
          let callback = mupnp_strrtrim (mupnp_strltrim aux ''<'' 1) ''>'' 1;
          let timeout = limit_timeout (mupnp_event_subscription_request_gettimeout subReq);
          let sid = c_snprintf MUPNP_SUBSCRIPTION_SID_SIZE uuid;
          let sub = mupnp_subscriber_new now;
          let sub = mupnp_subscriber_setdeliveryurl sub (Some callback);
          let sub = mupnp_subscriber_settimeout sub timeout;
          let sub = mupnp_subscriber_setsid sub (Some sid);
          let service = snd (mupnp_service_addsubscriber service sub);
          let subRes = mupnp_event_subscription_subscriberesponse_setresponse (server_name E) mupnp_http_response_new MUPNP_HTTP_STATUS_OK;
          let subRes = mupnp_event_subscription_response_setsid subRes (Some sid);
          let subRes = mupnp_event_subscription_response_settimeout subRes timeout;
          service \<leftarrow> mupnp_service_createnotifyallthread E later running service;
          Some (service, [subRes]) })"

definition mupnp_device_renewsubscriptionrecieved ::
    "gena_env \<Rightarrow> int \<Rightarrow> mUpnpService \<Rightarrow> mUpnpHttpRequest \<Rightarrow> (mUpnpService \<times> mUpnpHttpResponse list) option" where
  "mupnp_device_renewsubscriptionrecieved E now service subReq = do {
     let sid = mupnp_event_subscription_request_getsid subReq;
     found \<leftarrow> mupnp_service_getsubscriberbysid service sid;
     case found of
       None \<Rightarrow> Some (service, [mupnp_device_badsubscriptionrecieved MUPNP_HTTP_STATUS_PRECONDITION_FAILED])
     | Some i \<Rightarrow>
         let timeout = limit_timeout (mupnp_event_subscription_request_gettimeout subReq);
             sub = mupnp_subscriber_renew (mupnp_subscriber_settimeout (subscriberList service ! i) timeout) now;
             subRes = mupnp_event_subscription_subscriberesponse_setresponse (server_name E) mupnp_http_response_new MUPNP_HTTP_STATUS_OK;
             subRes = mupnp_event_subscription_response_setsid subRes sid;
             subRes = mupnp_event_subscription_response_settimeout subRes timeout
         in Some (service\<lparr>subscriberList := (subscriberList service)[i := sub]\<rparr>, [subRes]) }"

definition mupnp_device_unsubscriptionrecieved ::
    "gena_env \<Rightarrow> mUpnpService \<Rightarrow> mUpnpHttpRequest \<Rightarrow> (mUpnpService \<times> mUpnpHttpResponse list) option" where
  "mupnp_device_unsubscriptionrecieved E service subReq = do {
     let sid = mupnp_event_subscription_request_getsid subReq;
     found \<leftarrow> mupnp_service_getsubscriberbysid service sid;
     case found of
       None \<Rightarrow> Some (service, [mupnp_device_badsubscriptionrecieved MUPNP_HTTP_STATUS_PRECONDITION_FAILED])
     | Some i \<Rightarrow>
         let service = snd (mupnp_service_removesubscriber service i);
             subRes = mupnp_event_subscription_subscriberesponse_setresponse (server_name E) mupnp_http_response_new MUPNP_HTTP_STATUS_OK
         in Some (service, [subRes]) }"

text \<open>The checks of \<open>mupnp_device_subscriptionrecieved\<close> once the service is found, and the choice of the handler.\<close>

definition subscription_error :: "mUpnpHttpRequest \<Rightarrow> int option" where
  "subscription_error subReq =
     (if mupnp_event_subscription_request_hascallback subReq = False \<and> mupnp_event_subscription_request_hassid subReq = False
      then Some MUPNP_HTTP_STATUS_PRECONDITION_FAILED
      else if mupnp_event_subscription_request_hascallback subReq \<and>
              mupnp_strlen (mupnp_event_subscription_request_getcallback subReq) \<le> 0
      then Some MUPNP_HTTP_STATUS_PRECONDITION_FAILED
      else if mupnp_event_subscription_request_hassid subReq \<and>
              (mupnp_event_subscription_request_hascallback subReq \<or> mupnp_event_subscription_request_hasnt subReq)
      then Some MUPNP_HTTP_STATUS_BAD_REQUEST
      else if mupnp_event_subscription_request_hasnt subReq \<and>
              mupnp_strcmp (mupnp_event_subscription_request_getnt subReq) (Some MUPNP_NT_EVENT) \<noteq> 0
      then Some MUPNP_HTTP_STATUS_PRECONDITION_FAILED
      else None)"

definition service_subscriptionrecieved ::
    "gena_env \<Rightarrow> int \<Rightarrow> int \<Rightarrow> bool \<Rightarrow> cstring \<Rightarrow> mUpnpService \<Rightarrow> mUpnpHttpRequest \<Rightarrow>
     (mUpnpService \<times> mUpnpHttpResponse list) option" where
  "service_subscriptionrecieved E now later running uuid service subReq =
     (case subscription_error subReq of
        Some code \<Rightarrow> Some (service, [mupnp_device_badsubscriptionrecieved code])
      | None \<Rightarrow>
          if mupnp_http_request_isunsubscriberequest subReq = True
          then mupnp_device_unsubscriptionrecieved E service subReq
          else if mupnp_event_subscription_request_hascallback subReq = True
          then mupnp_device_newsubscriptionrecieved E now later running uuid service subReq
          else if mupnp_event_subscription_request_hassid subReq = True
          then mupnp_device_renewsubscriptionrecieved E now service subReq
          else Some (service, [mupnp_device_badsubscriptionrecieved MUPNP_HTTP_STATUS_PRECONDITION_FAILED]))"

subsection \<open>The subscriptions over time\<close>

text \<open>
  A step is a request or an event of the service, in any environment.  The clock does not run
  backwards, and the UUID of a new subscription is one no subscriber has.
\<close>

definition sub_id :: "mUpnpSubscriber \<Rightarrow> cstring" where
  "sub_id sub = bare_sid (str_bytes (subSid sub))"

definition fresh_uuid :: "cstring \<Rightarrow> mUpnpService \<Rightarrow> bool" where
  "fresh_uuid uuid service \<longleftrightarrow>
     prefix ''uuid:'' uuid \<and> sid_text (bare_sid uuid) \<and> bare_sid uuid \<notin> sub_id ` set (subscriberList service)"

inductive gena_step :: "int \<times> mUpnpService \<Rightarrow> int \<times> mUpnpService \<Rightarrow> bool" where
  request: "service_subscriptionrecieved E t later running uuid service subReq = Some (service', replies) \<Longrightarrow>
    now \<le> t \<Longrightarrow> t \<le> later \<Longrightarrow> fresh_uuid uuid service \<Longrightarrow> gena_step (now, service) (later, service')"
| event: "mupnp_statevariable_setvaluewithnotify E t service i data doNotify = Some service' \<Longrightarrow>
    now \<le> t \<Longrightarrow> i < length (serviceStateTable service) \<Longrightarrow> gena_step (now, service) (t, service')"
| events: "mupnp_service_notifyall E t service doBracket = Some service' \<Longrightarrow>
    now \<le> t \<Longrightarrow> gena_step (now, service) (t, service')"

inductive gena_reachable :: "int \<times> mUpnpService \<Rightarrow> bool" where
  start: "subscriberList service = [] \<Longrightarrow> gena_reachable (now, service)"
| step: "gena_reachable c \<Longrightarrow> gena_step c c' \<Longrightarrow> gena_reachable c'"

inductive_cases gena_stepE: "gena_step (now, service) (t, service')"

definition subscriber_ok :: "int \<Rightarrow> mUpnpSubscriber \<Rightarrow> bool" where
  "subscriber_ok now sub \<longleftrightarrow>
     prefix ''uuid:'' (str_bytes (subSid sub)) \<and> sid_text (sub_id sub) \<and>
     subTimeout sub \<le> 300 \<and> subTimeout sub \<noteq> MUPNP_SUBSCRIPTION_INFINITE_VALUE \<and> subscriptionTime sub \<le> now \<and>
     0 \<le> notifyCount sub \<and> notifyCount sub \<le> MUPNP_NOTIFY_COUNT_MAX"

definition gena_inv :: "int \<Rightarrow> mUpnpService \<Rightarrow> bool" where
  "gena_inv now service \<longleftrightarrow>
     distinct (map sub_id (subscriberList service)) \<and> (\<forall>sub \<in> set (subscriberList service). subscriber_ok now sub)"

lemma subscriber_ok_later: "subscriber_ok now sub \<Longrightarrow> now \<le> t \<Longrightarrow> subscriber_ok t sub"
  by (simp add: subscriber_ok_def)

lemma gena_inv_later: "gena_inv now service \<Longrightarrow> now \<le> t \<Longrightarrow> gena_inv t service"
  by (auto simp: gena_inv_def intro: subscriber_ok_later)

lemma gena_inv_table [simp]: "gena_inv now (service\<lparr>serviceStateTable := svs\<rparr>) = gena_inv now service"
  by (simp add: gena_inv_def)

lemma increment_simps [simp]:
  "sub_id (mupnp_subscriber_incrementnotifycount sub) = sub_id sub"
  "subscriptionTime (mupnp_subscriber_incrementnotifycount sub) = subscriptionTime sub"
  "subTimeout (mupnp_subscriber_incrementnotifycount sub) = subTimeout sub"
  by (simp_all add: mupnp_subscriber_incrementnotifycount_def sub_id_def Let_def)

lemma increment_ok: "subscriber_ok now sub \<Longrightarrow> subscriber_ok now (mupnp_subscriber_incrementnotifycount sub)"
  by (auto simp: subscriber_ok_def mupnp_subscriber_incrementnotifycount_def sub_id_def Let_def MUPNP_NOTIFY_COUNT_MAX_def)

text \<open>
  The answer of the control point: the event, built for the subscriber, is posted to the host and
  the port of its delivery URL, once more as M-POST when that is refused with 405, and the last
  answer has a status of 200 to 299.
\<close>

definition event_accepted :: "gena_env \<Rightarrow> mUpnpService option \<Rightarrow> mUpnpStateVariable option \<Rightarrow> mUpnpSubscriber \<Rightarrow> bool" where
  "event_accepted E service statVar sub =
     (case mupnp_event_notify_request_setpropertysetnode (server_name E) mupnp_event_notify_request_new sub service statVar of
        None \<Rightarrow> False
      | Some event \<Rightarrow>
          let deliver = (\<lambda>q. network E q (host (deliveryURL sub)) (port (deliveryURL sub)));
              answered = deliver (soapHttpReq event);
              answered = (if statusCode (httpRes answered) = 405 then deliver (soap_mpost answered) else answered)
          in 200 \<le> statusCode (httpRes answered) \<and> statusCode (httpRes answered) < 300)"

lemma post_response:
  "mupnp_soap_request_post expat post req ip pt = Some req' \<Longrightarrow>
   soapHttpRes (soapRes req') = httpRes (let q = post (soapHttpReq req) ip pt in
     if statusCode (httpRes q) = 405 then post (soap_mpost q) ip pt else q)"
  by (auto simp: mupnp_soap_request_post_def Let_def mupnp_soap_response_sethttpresponse_def bind_eq_Some_conv
      mupnp_http_response_getstatuscode_def MUPNP_HTTP_STATUS_METHOD_NOT_ALLOWED_def split: option.splits if_splits prod.splits)

lemma notifymain_answer:
  assumes "mupnp_subscriber_notifymain E sub service statVar = Some (ok, sub')"
  shows "ok = event_accepted E service statVar sub"
    and "sub' = (if event_accepted E service statVar sub then mupnp_subscriber_incrementnotifycount sub else sub)"
proof -
  obtain event answered where post: "mupnp_event_notify_request_setpropertysetnode (server_name E) mupnp_event_notify_request_new
        sub service statVar = Some event"
      "mupnp_soap_request_post (xml_parser E) (network E) event (host (deliveryURL sub)) (port (deliveryURL sub)) = Some answered"
      "(if mupnp_http_response_issuccessful (soapHttpRes (soapRes answered)) = False then Some (False, sub)
        else Some (True, mupnp_subscriber_incrementnotifycount sub)) = Some (ok, sub')"
    using assms by (auto simp: mupnp_subscriber_notifymain_def Let_def bind_eq_Some_conv)
  have "mupnp_http_response_issuccessful (soapHttpRes (soapRes answered)) = event_accepted E service statVar sub"
    using post(1) by (simp add: post_response [OF post(2)] event_accepted_def mupnp_http_response_issuccessful_def
        mupnp_http_response_getstatuscode_def Let_def)
  with post(3) show "ok = event_accepted E service statVar sub"
    and "sub' = (if event_accepted E service statVar sub then mupnp_subscriber_incrementnotifycount sub else sub)"
    by (simp_all split: if_splits)
qed

text \<open>A notification keeps the subscribers that accept it, in their order, each with the next sequence number.\<close>

lemma notify_kept:
  "notify_subscribers E service statVar subs = Some subs' \<Longrightarrow>
   subs' = map mupnp_subscriber_incrementnotifycount
     (filter (event_accepted E (if statVar = None then Some service else None) statVar) subs)"
proof (induction subs arbitrary: subs')
  case (Cons sub subs)
  obtain ok sub' ys where *: "mupnp_subscriber_notifymain E sub (if statVar = None then Some service else None) statVar = Some (ok, sub')"
      "notify_subscribers E service statVar subs = Some ys" "subs' = (if ok = False then ys else sub' # ys)"
    using Cons.prems
    by (auto simp: bind_eq_Some_conv mupnp_subscriber_notify_def mupnp_subscriber_notifyall_def split: option.splits)
  with notifymain_answer [OF *(1)] Cons.IH [OF *(2)] show ?case by auto
qed simp

lemma notifymain_spec:
  assumes "mupnp_service_notifymain E t service statVar = Some service'"
  obtains s where "s = service\<lparr>subscriberList := filter (\<lambda>sub. \<not> mupnp_subscriber_isexpired sub t) (subscriberList service)\<rparr>"
    and "service' = service\<lparr>subscriberList := map mupnp_subscriber_incrementnotifycount
      (filter (event_accepted E (if statVar = None then Some s else None) statVar) (subscriberList s))\<rparr>"
proof -
  let ?s = "service\<lparr>subscriberList := filter (\<lambda>sub. \<not> mupnp_subscriber_isexpired sub t) (subscriberList service)\<rparr>"
  obtain ys where ys: "notify_subscribers E ?s statVar (subscriberList ?s) = Some ys"
      "service' = service\<lparr>subscriberList := ys\<rparr>"
    using assms by (auto simp: mupnp_service_notifymain_def Let_def bind_eq_Some_conv)
  with notify_kept [OF ys(1)] show thesis by (intro that [OF refl]) simp
qed

text \<open>The first event of a subscriber tells the evented variables, whoever else is subscribed.\<close>

lemma event_accepted_table:
  "event_accepted E (Some (service\<lparr>subscriberList := subs\<rparr>)) None = event_accepted E (Some service) None"
proof -
  have "mupnp_event_notify_request_createpropertysetnode (Some (service\<lparr>subscriberList := subs\<rparr>)) None =
      mupnp_event_notify_request_createpropertysetnode (Some service) None"
    by (simp add: mupnp_event_notify_request_createpropertysetnode_def)
  then show ?thesis
    by (intro ext) (simp only: event_accepted_def mupnp_event_notify_request_setpropertysetnode_def)
qed

lemma subseq_sub: "subseq xs ys \<Longrightarrow> set xs \<subseteq> set ys \<and> (distinct ys \<longrightarrow> distinct xs)"
  by (induction rule: list_emb.induct) auto

lemma notifymain_inv:
  assumes "mupnp_service_notifymain E t service statVar = Some service'" and "gena_inv t service"
  shows "gena_inv t service'"
proof -
  obtain s where s: "s = service\<lparr>subscriberList := filter (\<lambda>sub. \<not> mupnp_subscriber_isexpired sub t) (subscriberList service)\<rparr>"
      "service' = service\<lparr>subscriberList := map mupnp_subscriber_incrementnotifycount
        (filter (event_accepted E (if statVar = None then Some s else None) statVar) (subscriberList s))\<rparr>"
    by (rule notifymain_spec [OF assms(1)])
  define zs where "zs = filter (event_accepted E (if statVar = None then Some s else None) statVar) (subscriberList s)"
  have zs: "service' = service\<lparr>subscriberList := map mupnp_subscriber_incrementnotifycount zs\<rparr>"
    by (simp add: zs_def s(2))
  have "subseq zs (subscriberList s)" "subseq (subscriberList s) (subscriberList service)"
    unfolding zs_def s(1) by (rule subseq_filter_left, simp)
  then have "subseq zs (subscriberList service)" by (rule subseq_order.trans)
  then have "subseq (map sub_id zs) (map sub_id (subscriberList service))" "set zs \<subseteq> set (subscriberList service)"
    by (rule subseq_map, use \<open>subseq zs (subscriberList service)\<close> subseq_sub in blast)
  with assms(2) subseq_sub show ?thesis
    by (auto simp: gena_inv_def zs comp_def intro: increment_ok)
qed

lemma notify_each_inv: "notify_each E t service svs = Some service' \<Longrightarrow> gena_inv t service \<Longrightarrow> gena_inv t service'"
proof (induction svs arbitrary: service)
  case (Cons sv svs)
  obtain s1 where s1: "(if mupnp_statevariable_issendevents sv = True then mupnp_service_notify E t service sv else Some service) = Some s1"
      "notify_each E t s1 svs = Some service'"
    using Cons.prems(1) by (auto simp: bind_eq_Some_conv split: if_splits)
  then have "gena_inv t s1"
    using Cons.prems(2) notifymain_inv by (auto simp: mupnp_service_notify_def split: if_splits)
  with s1(2) show ?case by (rule Cons.IH)
qed simp

lemma notifyall_inv: "mupnp_service_notifyall E t service b = Some service' \<Longrightarrow> gena_inv t service \<Longrightarrow> gena_inv t service'"
  by (auto simp: mupnp_service_notifyall_def intro: notifymain_inv notify_each_inv split: if_splits)

lemma initial_event_inv:
  "mupnp_service_createnotifyallthread E t running service = Some service' \<Longrightarrow> gena_inv t service \<Longrightarrow> gena_inv t service'"
  by (auto simp: mupnp_service_createnotifyallthread_def intro: notifyall_inv split: if_splits)

lemma setvalue_inv:
  assumes "mupnp_statevariable_setvaluewithnotify E t service i data doNotify = Some service'" and "gena_inv t service"
  shows "gena_inv t service'"
proof -
  let ?sv = "mupnp_statevariable_setvaluewithoutnotify (serviceStateTable service ! i) data"
  let ?s = "service\<lparr>serviceStateTable := (serviceStateTable service)[i := ?sv]\<rparr>"
  have "mupnp_service_notify E t ?s ?sv = Some service' \<or> service' = ?s"
    using assms(1) by (auto simp: mupnp_statevariable_setvaluewithnotify_def Let_def split: if_splits)
  moreover have "gena_inv t ?s" using assms(2) by simp
  ultimately show ?thesis using notifymain_inv by (auto simp: mupnp_service_notify_def)
qed

subsection \<open>Requests\<close>

lemma limit_timeout_bound:
  "limit_timeout t \<le> 300 \<and> limit_timeout t \<noteq> MUPNP_SUBSCRIPTION_INFINITE_VALUE"
  by (simp add: limit_timeout_def MUPNP_SUBSCRIPTION_MAX_TIMEOUT_def MUPNP_SUBSCRIPTION_INFINITE_VALUE_def)

definition new_subscriber :: "int \<Rightarrow> cstring \<Rightarrow> mUpnpHttpRequest \<Rightarrow> cstring \<Rightarrow> mUpnpSubscriber" where
  "new_subscriber now uuid subReq callback =
     mupnp_subscriber_setsid (mupnp_subscriber_settimeout
       (mupnp_subscriber_setdeliveryurl (mupnp_subscriber_new now) (Some (mupnp_strrtrim (mupnp_strltrim callback ''<'' 1) ''>'' 1)))
       (limit_timeout (mupnp_event_subscription_request_gettimeout subReq))) (Some uuid)"

lemma new_subscriber_simps [simp]:
  "subSid (new_subscriber now uuid q c) = Some uuid" "subscriptionTime (new_subscriber now uuid q c) = now"
  "subTimeout (new_subscriber now uuid q c) = limit_timeout (mupnp_event_subscription_request_gettimeout q)"
  "notifyCount (new_subscriber now uuid q c) = 0"
  by (simp_all add: new_subscriber_def mupnp_subscriber_setsid_def mupnp_subscriber_settimeout_def
      mupnp_subscriber_setdeliveryurl_def mupnp_subscriber_new_def mupnp_subscriber_renew_def Let_def)

lemma uuid_fits: "sid_text (bare_sid uuid) \<Longrightarrow> c_snprintf MUPNP_SUBSCRIPTION_SID_SIZE uuid = uuid"
  by (auto simp: sid_text_def bare_sid_def c_snprintf_def MUPNP_SUBSCRIPTION_SID_SIZE_def split: if_splits)

lemma new_subscription:
  assumes "mupnp_device_newsubscriptionrecieved E t later running uuid service subReq = Some (service', replies)"
    and "sid_text (bare_sid uuid)"
  shows "(service', replies) = (service, []) \<or>
    (\<exists>c. mupnp_service_createnotifyallthread E later running
       (service\<lparr>subscriberList := subscriberList service @ [new_subscriber t uuid subReq c]\<rparr>) = Some service')"
proof (cases "mupnp_strdup (mupnp_event_subscription_request_getcallback subReq)")
  case None
  then show ?thesis using assms(1) by (simp add: mupnp_device_newsubscriptionrecieved_def)
next
  case (Some c)
  have "snd (mupnp_service_addsubscriber service (new_subscriber t uuid subReq c)) =
      service\<lparr>subscriberList := subscriberList service @ [new_subscriber t uuid subReq c]\<rparr>"
    by (simp add: mupnp_service_addsubscriber_def)
  with Some assms(1) uuid_fits [OF assms(2)] show ?thesis
    by (auto simp: mupnp_device_newsubscriptionrecieved_def new_subscriber_def Let_def bind_eq_Some_conv)
qed

lemma new_subscription_inv:
  assumes "mupnp_device_newsubscriptionrecieved E t later running uuid service subReq = Some (service', replies)"
    and "gena_inv t service" and "fresh_uuid uuid service" and "t \<le> later"
  shows "gena_inv later service'"
proof -
  have uuid: "sid_text (bare_sid uuid)" "prefix ''uuid:'' uuid" using assms(3) by (simp_all add: fresh_uuid_def)
  have "gena_inv later (service\<lparr>subscriberList := subscriberList service @ [new_subscriber t uuid subReq c]\<rparr>)" for c
    using gena_inv_later [OF assms(2,4)] assms(3,4) limit_timeout_bound uuid
    by (auto simp: gena_inv_def fresh_uuid_def subscriber_ok_def sub_id_def MUPNP_NOTIFY_COUNT_MAX_def)
  with new_subscription [OF assms(1) uuid(1)] gena_inv_later [OF assms(2,4)] show ?thesis
    by (auto dest: initial_event_inv)
qed

lemma find_less: "subscriber_find subs sid = Some (Some i) \<Longrightarrow> i < length subs"
proof (induction subs arbitrary: i)
  case (Cons sub subs)
  then show ?case by (auto simp: bind_eq_Some_conv split: if_splits)
qed simp

lemma getsubscriber_less:
  "mupnp_service_getsubscriberbysid service sid = Some (Some i) \<Longrightarrow> i < length (subscriberList service)"
  by (auto simp: mupnp_service_getsubscriberbysid_def bind_eq_Some_conv intro: find_less split: if_splits)

lemma renew_inv:
  assumes "mupnp_device_renewsubscriptionrecieved E t service subReq = Some (service', replies)" and "gena_inv t service"
  shows "gena_inv t service'"
proof -
  let ?sid = "mupnp_event_subscription_request_getsid subReq"
  obtain found where found: "mupnp_service_getsubscriberbysid service ?sid = Some found"
    using assms(1) by (auto simp: mupnp_device_renewsubscriptionrecieved_def Let_def bind_eq_Some_conv)
  show ?thesis
  proof (cases found)
    case None
    with found assms show ?thesis by (simp add: mupnp_device_renewsubscriptionrecieved_def)
  next
    case (Some i)
    let ?subs = "subscriberList service"
    let ?to = "limit_timeout (mupnp_event_subscription_request_gettimeout subReq)"
    let ?sub = "mupnp_subscriber_renew (mupnp_subscriber_settimeout (?subs ! i) ?to) t"
    have i: "i < length ?subs" using found Some getsubscriber_less by simp
    have s': "service' = service\<lparr>subscriberList := ?subs[i := ?sub]\<rparr>"
      using found Some assms(1) by (simp add: mupnp_device_renewsubscriptionrecieved_def Let_def)
    have id: "sub_id ?sub = sub_id (?subs ! i)" "subSid ?sub = subSid (?subs ! i)" "notifyCount ?sub = notifyCount (?subs ! i)"
        "subTimeout ?sub = ?to" "subscriptionTime ?sub = t"
      by (simp_all add: sub_id_def mupnp_subscriber_renew_def mupnp_subscriber_settimeout_def)
    have "subscriber_ok t (?subs ! i)" using assms(2) i by (simp add: gena_inv_def)
    then have ok: "subscriber_ok t ?sub" using limit_timeout_bound by (simp only: subscriber_ok_def id) simp
    have "map sub_id (?subs[i := ?sub]) = map sub_id ?subs"
      using i id(1) by (simp add: map_update list_update_same_conv)
    then have "distinct (map sub_id (?subs[i := ?sub]))" using assms(2) by (simp add: gena_inv_def)
    moreover have "\<forall>sub \<in> set (?subs[i := ?sub]). subscriber_ok t sub"
      using assms(2) ok by (auto simp: gena_inv_def dest!: set_update_subset_insert [THEN subsetD])
    ultimately show ?thesis by (simp add: gena_inv_def s')
  qed
qed

lemma remove_subseq: "subseq (take i xs @ drop (i + 1) xs) xs"
proof -
  have "subseq (drop 1 (drop i xs)) (drop i xs)" by (intro suffix_imp_subseq suffix_drop)
  then have "subseq (take i xs @ drop (i + 1) xs) (take i xs @ drop i xs)"
    by (intro list_emb_append_mono) simp_all
  then show ?thesis by simp
qed

lemma unsubscribe_inv:
  assumes "mupnp_device_unsubscriptionrecieved E service subReq = Some (service', replies)" and "gena_inv t service"
  shows "gena_inv t service'"
proof -
  let ?sid = "mupnp_event_subscription_request_getsid subReq" and ?subs = "subscriberList service"
  have "service' = service \<or> (\<exists>i. service' = service\<lparr>subscriberList := take i ?subs @ drop (i + 1) ?subs\<rparr>)"
    using assms(1) by (auto simp: mupnp_device_unsubscriptionrecieved_def mupnp_service_removesubscriber_def Let_def
        bind_eq_Some_conv split: option.splits)
  moreover have "distinct (map sub_id (take i ?subs @ drop (i + 1) ?subs))" for i
    using assms(2) subseq_sub [OF subseq_map [OF remove_subseq [of i ?subs]], of sub_id] by (simp add: gena_inv_def)
  moreover have "set (take i ?subs @ drop (i + 1) ?subs) \<subseteq> set ?subs" for i
    using subseq_sub [OF remove_subseq [of i ?subs]] by blast
  ultimately show ?thesis using assms(2) unfolding gena_inv_def by (metis (no_types, lifting) subsetD
      mUpnpService.select_convs(5) mUpnpService.surjective mUpnpService.update_convs(5))
qed

lemma request_inv:
  assumes "service_subscriptionrecieved E t later running uuid service subReq = Some (service', replies)"
    and "gena_inv t service" and "fresh_uuid uuid service" and "t \<le> later"
  shows "gena_inv later service'"
  using assms gena_inv_later [OF _ assms(4)] new_subscription_inv renew_inv unsubscribe_inv
  by (auto simp: service_subscriptionrecieved_def split: option.splits if_splits)

lemma step_inv: "gena_step (now, service) (t, service') \<Longrightarrow> gena_inv now service \<Longrightarrow> gena_inv t service'"
  by (erule gena_stepE) (auto dest: request_inv setvalue_inv notifyall_inv intro: gena_inv_later)

lemma reachable_inv: "gena_reachable (now, service) \<Longrightarrow> gena_inv now service"
proof (induction "(now, service)" arbitrary: now service rule: gena_reachable.induct)
  case (start service now)
  then show ?case by (simp add: gena_inv_def)
next
  case (step c now service)
  obtain t s where "c = (t, s)" by (cases c)
  with step show ?case using step_inv by blast
qed

subsection \<open>Looking up a subscription\<close>

lemma skip_uuid_bare:
  assumes "sid_text (bare_sid sid)"
  shows "skip_uuid (Some sid) = Some (Some (bare_sid sid))"
proof (cases rule: bare_sid_cases [OF assms])
  case 1
  have "skip_uuid (Some (''uuid:'' @ bare_sid sid)) = Some (Some (bare_sid sid))"
    by (simp add: skip_uuid_def MUPNP_ST_UUID_DEVICE_def offset_def)
  with 1 show ?thesis by simp
next
  case 2
  have "mupnp_strstr (Some (bare_sid sid)) (Some MUPNP_ST_UUID_DEVICE) = - 1"
    by (rule sid_text_absent [OF assms, of "CHR ''u''"]) (simp_all add: MUPNP_ST_UUID_DEVICE_def)
  then have "skip_uuid (Some (bare_sid sid)) = Some (Some (bare_sid sid))"
    by (simp add: skip_uuid_def del: strstr_simps)
  with 2 show ?thesis by simp
qed

lemma sid_text_nul_free: "sid_text u \<Longrightarrow> nul_free u"
  by (simp add: sid_text_def nul_free_def)

lemma find_spec:
  assumes "\<forall>sub \<in> set subs. subscriber_ok t sub" and "nul_free u"
  shows "subscriber_find subs (Some u) = Some (index_where (\<lambda>sub. sub_id sub = u) subs)"
  using assms(1)
proof (induction subs)
  case (Cons sub subs)
  have ok: "sid_text (sub_id sub)" "prefix ''uuid:'' (str_bytes (subSid sub))"
    using Cons.prems by (simp_all add: subscriber_ok_def)
  then obtain v where v: "subSid sub = Some v" by (cases "subSid sub") auto
  then have "skip_uuid (subSid sub) = Some (Some (sub_id sub))"
    using skip_uuid_bare ok(1) by (simp add: sub_id_def)
  moreover have "c_strcmp u (sub_id sub) = 0 \<longleftrightarrow> sub_id sub = u"
    using c_strcmp_eq_0 [OF assms(2) sid_text_nul_free [OF ok(1)]] by auto
  ultimately show ?case using Cons by simp
qed simp

lemma getsubscriber_spec:
  assumes "gena_inv t service" and "sid_text (bare_sid sid)"
  shows "mupnp_service_getsubscriberbysid service (Some sid) =
    Some (index_where (\<lambda>sub. sub_id sub = bare_sid sid) (subscriberList service))"
proof -
  have "sid \<noteq> []" using assms(2) by (auto simp: bare_sid_def sid_text_def split: if_splits)
  then show ?thesis
    using find_spec [of "subscriberList service" t "bare_sid sid"] assms skip_uuid_bare [OF assms(2)]
    by (simp add: mupnp_service_getsubscriberbysid_def gena_inv_def sid_text_nul_free mupnp_strlen_def)
qed


subsection \<open>Answers\<close>

lemma sid_header_bare:
  assumes "sid_text (bare_sid sid)"
  shows "sid_header (Some sid) = Some (''uuid:'' @ bare_sid sid)"
proof (cases rule: bare_sid_cases [OF assms])
  case 1
  have "sid_header (Some (''uuid:'' @ bare_sid sid)) = Some (''uuid:'' @ bare_sid sid)"
    by (simp add: sid_header_def MUPNP_ST_UUID_DEVICE_def str_add_def)
  with 1 show ?thesis by simp
next
  case 2
  have "mupnp_strstr (Some (bare_sid sid)) (Some MUPNP_ST_UUID_DEVICE) = - 1"
    by (rule sid_text_absent [OF assms, of "CHR ''u''"]) (simp_all add: MUPNP_ST_UUID_DEVICE_def)
  then have "sid_header (Some (bare_sid sid)) = Some (''uuid:'' @ bare_sid sid)"
    using assms by (simp add: sid_header_def MUPNP_ST_UUID_DEVICE_def str_add_def sid_text_def del: strstr_simps)
  with 2 show ?thesis by simp
qed

lemma status_simps [simp]:
  "statusCode (mupnp_http_response_setstatuscode res code) = code"
  "statusCode (mupnp_http_packet_setheadervalue res k v) = statusCode (res :: mUpnpHttpResponse)"
  "fields_ok (mupnp_http_response_setstatuscode res code) = fields_ok res"
  by (simp_all add: mupnp_http_response_setstatuscode_def mupnp_http_packet_setheadervalue_def mupnp_http_response_setreasonphrase_def
      fields_ok_def)

definition accepted :: "gena_env \<Rightarrow> charptr \<Rightarrow> int \<Rightarrow> mUpnpHttpResponse" where
  "accepted E sid timeout =
     mupnp_event_subscription_response_settimeout (mupnp_event_subscription_response_setsid
       (mupnp_event_subscription_subscriberesponse_setresponse (server_name E) mupnp_http_response_new MUPNP_HTTP_STATUS_OK) sid) timeout"

lemma accepted_fields:
  assumes "field_text (server_name E)" and "length (server_name E) \<le> 64" and "sid_text (bare_sid sid)"
    and "timeout \<noteq> MUPNP_SUBSCRIPTION_INFINITE_VALUE" and "long_range timeout"
  shows "statusCode (accepted E (Some sid) timeout) = 200"
    and "field (accepted E (Some sid) timeout) ''SID'' = Some (''uuid:'' @ bare_sid sid)"
    and "field (accepted E (Some sid) timeout) ''TIMEOUT'' = Some (''Second-'' @ show_int timeout)"
proof -
  have t: "mupnp_event_subscription_totimeoutheaderstring timeout None = Some (''Second-'' @ show_int timeout)"
    using assms(4,5) by (simp add: mupnp_event_subscription_totimeoutheaderstring_def str_add_def long2str_buflen
        MUPNP_SUBSCRIPTION_TIMEOUT_HEADER_def show_int_def)
  have s: "length (bare_sid sid) \<le> 128" using assms(3) by (simp add: sid_text_def)
  define r where "r = mupnp_http_packet_setheadervalue (mupnp_http_packet_setheadervalue
      (mupnp_http_response_setstatuscode mupnp_http_response_new 200) (Some ''Server'') (Some (server_name E)))
      (Some ''Content-Length'') (Some (show_nat 10 0))"
  have z: "length (show_nat 10 0) \<le> 20" by (rule length_show_nat_long) (simp add: LONG_MAX_def)
  have r: "fields_ok r" "statusCode r = 200" using assms(1,2) z by (simp_all add: r_def)
  have cl: "mupnp_http_packet_setcontentlength p 0 =
      mupnp_http_packet_setheadervalue p (Some ''Content-Length'') (Some (show_nat 10 0))" for p :: mUpnpHttpResponse
    using contentlength_field [of 0 p] by (simp add: LONG_MAX_def)
  have a: "accepted E (Some sid) timeout = mupnp_http_packet_setheadervalue
      (mupnp_http_packet_setheadervalue r (Some ''SID'') (Some (''uuid:'' @ bare_sid sid)))
      (Some ''TIMEOUT'') (Some (''Second-'' @ show_int timeout))"
    by (simp add: accepted_def cl mupnp_event_subscription_response_settimeout_def
        mupnp_event_subscription_response_setsid_def sid_header_bare [OF assms(3)] t r_def
        mupnp_event_subscription_subscriberesponse_setresponse_def Let_def MUPNP_HTTP_STATUS_OK_def)
  show "statusCode (accepted E (Some sid) timeout) = 200" "field (accepted E (Some sid) timeout) ''TIMEOUT'' = Some (''Second-'' @ show_int timeout)"
    by (simp_all add: a r)
  show "field (accepted E (Some sid) timeout) ''SID'' = Some (''uuid:'' @ bare_sid sid)"
    using r s sidheader(3) [OF assms(3)] by (simp add: a lower nul_free_def)
qed

text \<open>The three kinds of requests.\<close>

definition subscribe_request :: "mUpnpHttpRequest \<Rightarrow> bool" where
  "subscribe_request q \<longleftrightarrow> reqMethod q = Some ''SUBSCRIBE'' \<and> str_bytes (field q ''CALLBACK'') \<noteq> [] \<and>
     field q ''NT'' = Some MUPNP_NT_EVENT \<and> \<not> mupnp_http_packet_hasheader q (Some ''SID'')"

definition sid_request :: "cstring \<Rightarrow> cstring \<Rightarrow> mUpnpHttpRequest \<Rightarrow> bool" where
  "sid_request method sid q \<longleftrightarrow> reqMethod q = Some method \<and> field q ''SID'' = Some sid \<and>
     \<not> mupnp_http_packet_hasheader q (Some ''CALLBACK'') \<and> \<not> mupnp_http_packet_hasheader q (Some ''NT'')"

lemma subscribe_handler:
  assumes "subscribe_request q"
  shows "service_subscriptionrecieved E t later running uuid service q =
    mupnp_device_newsubscriptionrecieved E t later running uuid service q"
proof -
  obtain c where c: "field q ''CALLBACK'' = Some c" "c \<noteq> []"
    using assms by (cases "field q ''CALLBACK''") (auto simp: subscribe_request_def)
  then show ?thesis
    using assms hasheader_field [OF c(1)] hasheader_field [of q "''NT''" MUPNP_NT_EVENT]
    by (simp add: service_subscriptionrecieved_def subscription_error_def subscribe_request_def
        mupnp_event_subscription_request_hascallback_def mupnp_event_subscription_request_hassid_def
        mupnp_event_subscription_request_hasnt_def mupnp_event_subscription_request_getcallback_def
        mupnp_event_subscription_request_getnt_def field_def mupnp_http_request_isunsubscriberequest_def
        mupnp_http_request_getmethod_def mupnp_strlen_def)
qed

lemma sid_handler:
  assumes "sid_request m sid q" and "m = ''SUBSCRIBE'' \<or> m = ''UNSUBSCRIBE''"
  shows "service_subscriptionrecieved E t later running uuid service q =
    (if m = ''SUBSCRIBE'' then mupnp_device_renewsubscriptionrecieved E t service q
     else mupnp_device_unsubscriptionrecieved E service q)"
    and "mupnp_event_subscription_request_getsid q = mupnp_event_subscription_getsid (Some sid)"
  using assms hasheader_field [of q "''SID''" sid]
  by (auto simp: service_subscriptionrecieved_def subscription_error_def sid_request_def
      mupnp_event_subscription_request_hascallback_def mupnp_event_subscription_request_hassid_def
      mupnp_event_subscription_request_hasnt_def mupnp_event_subscription_request_getsid_def field_def
      mupnp_http_request_isunsubscriberequest_def mupnp_http_request_getmethod_def)

lemma gettimeout_range: "long_range (mupnp_event_subscription_gettimeout v)"
proof -
  have "long_range (c_strtol10 s)" for s
    by (auto simp: c_strtol10_def long_range_def LONG_MAX_def LONG_MIN_def Let_def split: prod.split)
  then have *: "long_range (mupnp_str2long s)" for s
    by (cases s) (simp_all add: mupnp_str2long_def c_atol_def long_range_def LONG_MAX_def LONG_MIN_def)
  have **: "long_range (to_int64 i)" for i
    using pos_mod_bound [of "2 ^ 64" "i + 2 ^ 63"] pos_mod_sign [of "2 ^ 64" "i + 2 ^ 63"]
    by (simp add: to_int64_def long_range_def LONG_MAX_def LONG_MIN_def)
  show ?thesis using * **
    by (simp add: mupnp_event_subscription_gettimeout_def Let_def MUPNP_SUBSCRIPTION_INFINITE_VALUE_def long_range_def
        LONG_MAX_def LONG_MIN_def)
qed

lemma limited_range: "long_range (limit_timeout (mupnp_event_subscription_request_gettimeout q))"
  using gettimeout_range [of "mupnp_http_packet_getheadervalue q (Some ''TIMEOUT'')"]
  by (auto simp: limit_timeout_def mupnp_event_subscription_request_gettimeout_def long_range_def LONG_MAX_def LONG_MIN_def
      MUPNP_SUBSCRIPTION_MAX_TIMEOUT_def)

text \<open>The three handlers in a state with distinct subscriptions.\<close>

lemma subscribe_reply:
  assumes "subscribe_request q" and "sid_text (bare_sid uuid)"
  obtains c where "field q ''CALLBACK'' = Some c"
    and "service_subscriptionrecieved E t later running uuid service q = map_option
      (\<lambda>s. (s, [accepted E (Some uuid) (limit_timeout (mupnp_event_subscription_request_gettimeout q))]))
      (mupnp_service_createnotifyallthread E later running
        (service\<lparr>subscriberList := subscriberList service @ [new_subscriber t uuid q c]\<rparr>))"
proof -
  obtain c where c: "mupnp_event_subscription_request_getcallback q = Some c"
    using assms(1) by (cases "field q ''CALLBACK''") (auto simp: subscribe_request_def field_def
        mupnp_event_subscription_request_getcallback_def)
  then have "field q ''CALLBACK'' = Some c" by (simp add: field_def mupnp_event_subscription_request_getcallback_def)
  then show thesis
    by (rule that) (simp add: subscribe_handler [OF assms(1)] mupnp_device_newsubscriptionrecieved_def mupnp_strdup_def c
        uuid_fits [OF assms(2)] accepted_def new_subscriber_def mupnp_service_addsubscriber_def Let_def map_conv_bind_option comp_def)
qed

lemma new_reply:
  assumes "subscribe_request q" and "sid_text (bare_sid uuid)"
  obtains c where "service_subscriptionrecieved E t later False uuid service q =
    Some (service\<lparr>subscriberList := subscriberList service @ [new_subscriber t uuid q c]\<rparr>,
      [accepted E (Some uuid) (limit_timeout (mupnp_event_subscription_request_gettimeout q))])"
proof -
  obtain c where "service_subscriptionrecieved E t later False uuid service q = map_option
      (\<lambda>s. (s, [accepted E (Some uuid) (limit_timeout (mupnp_event_subscription_request_gettimeout q))]))
      (mupnp_service_createnotifyallthread E later False
        (service\<lparr>subscriberList := subscriberList service @ [new_subscriber t uuid q c]\<rparr>))"
    by (rule subscribe_reply [OF assms])
  then show thesis by (intro that [of c]) (simp add: mupnp_service_createnotifyallthread_def)
qed

text \<open>What the first event of a new subscriber leaves of the subscribers, unless the worker is being stopped.\<close>

definition after_initial_event :: "gena_env \<Rightarrow> int \<Rightarrow> bool \<Rightarrow> mUpnpService \<Rightarrow> mUpnpSubscriber list \<Rightarrow> mUpnpSubscriber list" where
  "after_initial_event E later running service subs =
     (if running
      then map mupnp_subscriber_incrementnotifycount
        (filter (\<lambda>sub. \<not> mupnp_subscriber_isexpired sub later \<and> event_accepted E (Some service) None sub) subs)
      else subs)"

lemma initial_event:
  assumes "mupnp_service_createnotifyallthread E later running (service\<lparr>subscriberList := subs\<rparr>) = Some service'"
  shows "service' = service\<lparr>subscriberList := after_initial_event E later running service subs\<rparr>"
proof (cases running)
  case True
  then have main: "mupnp_service_notifymain E later (service\<lparr>subscriberList := subs\<rparr>) None = Some service'"
    using assms by (simp add: mupnp_service_createnotifyallthread_def mupnp_service_notifyall_def)
  show ?thesis
    by (rule notifymain_spec [OF main]) (simp add: True after_initial_event_def event_accepted_table conj_commute)
qed (use assms in \<open>simp add: mupnp_service_createnotifyallthread_def after_initial_event_def\<close>)

lemma after_append:
  "after_initial_event E later running service (xs @ ys) =
     after_initial_event E later running service xs @ after_initial_event E later running service ys"
  by (simp add: after_initial_event_def)

lemma after_ids: "sub_id ` set (after_initial_event E later running service subs) \<subseteq> sub_id ` set subs"
  by (auto simp: after_initial_event_def)

lemma after_new:
  "after_initial_event E later running service [sub] \<in> {[], [sub], [mupnp_subscriber_incrementnotifycount sub]}"
  by (simp add: after_initial_event_def)

lemma sid_lookup:
  assumes "gena_inv t service" and "sid_text (bare_sid uuid)" and "prefix ''uuid:'' uuid"
  shows "mupnp_service_getsubscriberbysid service (mupnp_event_subscription_getsid (Some uuid)) =
    Some (index_where (\<lambda>sub. sub_id sub = bare_sid uuid) (subscriberList service))"
proof -
  have u: "uuid = ''uuid:'' @ bare_sid uuid" using assms(3) by (auto simp: bare_sid_def prefix_def)
  then have "mupnp_event_subscription_getsid (Some uuid) = Some (bare_sid uuid)"
    using sidheader(2) [OF assms(2)] by simp
  moreover have "bare_sid (bare_sid uuid) = bare_sid uuid"
    using assms(2) by (auto simp: bare_sid_def sid_text_def prefix_def)
  ultimately show ?thesis using getsubscriber_spec [OF assms(1), of "bare_sid uuid"] assms(2) by simp
qed

section \<open>Properties\<close>

text \<open>C33: whatever requests a service gets and whatever is notified, no two of its subscribers have the
  same SID, every subscription ends at most 300 seconds after it was made or renewed, and no
  sequence number leaves the range of 32 bits.\<close>

theorem gena_invariant:
  assumes "gena_reachable (now, service)"
  shows "distinct (map sub_id (subscriberList service)) \<and>
    list_all (\<lambda>sub. prefix ''uuid:'' (str_bytes (subSid sub)) \<and> subscriptionTime sub \<le> now \<and>
      mupnp_subscriber_isexpired sub (subscriptionTime sub + 301) \<and> 0 \<le> notifyCount sub \<and> notifyCount sub < 2 ^ 32)
      (subscriberList service)"
  using reachable_inv [OF assms]
  by (auto simp: gena_inv_def list_all_iff subscriber_ok_def mupnp_subscriber_isexpired_def MUPNP_NOTIFY_COUNT_MAX_def)

definition ex_env :: gena_env where
  "ex_env = \<lparr>server_name = ''x'', xml_parser = ref_expat,
     network = \<lambda>q a i. q\<lparr>httpRes := mupnp_http_response_new\<lparr>statusCode := 200\<rparr>\<rparr>\<rparr>"

definition ex_subscribe :: mUpnpHttpRequest where
  "ex_subscribe = mupnp_http_request_new\<lparr>reqMethod := Some ''SUBSCRIBE'',
     headerList := [\<lparr>hname = Some ''CALLBACK'', hvalue = Some ''<http://10.0.0.2:8058/evt>''\<rparr>, \<lparr>hname = Some ''NT'', hvalue = Some MUPNP_NT_EVENT\<rparr>]\<rparr>"

lemma ex_subscribe_ok: "subscribe_request ex_subscribe" "sid_text (bare_sid ''uuid:a-1'')"
  "fresh_uuid ''uuid:a-1'' ex_evented"
proof -
  have hd: "mupnp_http_headerlist_get (headerList ex_subscribe) (Some ''SID'') = None"
    "mupnp_http_headerlist_get (headerList ex_subscribe) (Some ''NT'') = Some 1"
    "mupnp_http_headerlist_get (headerList ex_subscribe) (Some ''CALLBACK'') = Some 0"
    by code_simp+
  then show "subscribe_request ex_subscribe"
    by (simp add: subscribe_request_def field_def mupnp_http_packet_getheadervalue_def mupnp_http_headerlist_getvalue_def
        mupnp_http_packet_hasheader_def) (simp add: ex_subscribe_def mupnp_http_header_getvalue_def)
  show "sid_text (bare_sid ''uuid:a-1'')" "fresh_uuid ''uuid:a-1'' ex_evented"
    by (simp_all add: fresh_uuid_def sid_text_def bare_sid_def ex_evented_def mupnp_service_new_def)
qed

lemma ex_subscribed:
  obtains c where "gena_reachable (5, ex_evented\<lparr>subscriberList := [new_subscriber 5 ''uuid:a-1'' ex_subscribe c]\<rparr>)"
proof -
  have none: "subscriberList ex_evented = []" by (simp add: ex_evented_def mupnp_service_new_def)
  obtain c where c: "service_subscriptionrecieved ex_env 5 5 False ''uuid:a-1'' ex_evented ex_subscribe =
    Some (ex_evented\<lparr>subscriberList := [new_subscriber 5 ''uuid:a-1'' ex_subscribe c]\<rparr>,
      [accepted ex_env (Some ''uuid:a-1'') (limit_timeout (mupnp_event_subscription_request_gettimeout ex_subscribe))])"
    using new_reply [OF ex_subscribe_ok(1,2), of ex_env 5 5 ex_evented] none by auto
  show thesis
    by (rule that [of c], rule gena_reachable.step [OF gena_reachable.start [OF none, of 0]],
        rule gena_step.request [OF c]) (simp_all add: ex_subscribe_ok(3))
qed

theorem gena_invariant_witness:
  "\<exists>service. gena_reachable (5, service) \<and> map subSid (subscriberList service) = [Some ''uuid:a-1''] \<and>
     mupnp_subscriber_isexpired (hd (subscriberList service)) (5 + 301)"
proof -
  obtain c where r: "gena_reachable (5, ex_evented\<lparr>subscriberList := [new_subscriber 5 ''uuid:a-1'' ex_subscribe c]\<rparr>)"
    by (rule ex_subscribed)
  from gena_invariant [OF r] r show ?thesis
    by (intro exI [of _ "ex_evented\<lparr>subscriberList := [new_subscriber 5 ''uuid:a-1'' ex_subscribe c]\<rparr>"]) simp
qed

text \<open>C34: notifying a new value of an evented variable keeps exactly the subscribers that are not expired
  and whose control point answers the event, posted to their delivery URL, with a status of 200 to
  299, in their order and each with the next sequence number; each of them has subscribed or renewed within the last 300 seconds.\<close>

theorem notify_keeps_live:
  assumes "gena_reachable (now, service)" and "now \<le> t"
    and "mupnp_statevariable_setvaluewithnotify E t service i data True = Some service'"
    and "statVar = mupnp_statevariable_setvaluewithoutnotify (serviceStateTable service ! i) data"
    and "mupnp_statevariable_issendevents statVar"
  shows "subscriberList service' = map mupnp_subscriber_incrementnotifycount
      (filter (\<lambda>sub. \<not> mupnp_subscriber_isexpired sub t \<and> event_accepted E None (Some statVar) sub)
        (subscriberList service)) \<and>
    list_all (\<lambda>sub. t \<le> subscriptionTime sub + 300) (subscriberList service')"
proof -
  let ?s = "service\<lparr>serviceStateTable := (serviceStateTable service)[i := statVar]\<rparr>"
  have main: "mupnp_service_notifymain E t ?s (Some statVar) = Some service'"
    using assms(3,5) by (simp add: mupnp_statevariable_setvaluewithnotify_def Let_def mupnp_service_notify_def flip: assms(4))
  have kept: "subscriberList service' = map mupnp_subscriber_incrementnotifycount
      (filter (\<lambda>sub. \<not> mupnp_subscriber_isexpired sub t \<and>
          event_accepted E None (Some statVar) sub) (subscriberList service))"
    by (rule notifymain_spec [OF main]) simp
  have "t \<le> subscriptionTime sub + 300" if "sub \<in> set (subscriberList service)" "\<not> mupnp_subscriber_isexpired sub t" for sub
    using that reachable_inv [OF assms(1)] by (auto simp: gena_inv_def subscriber_ok_def mupnp_subscriber_isexpired_def Let_def split: if_splits)
  then have "list_all (\<lambda>sub. t \<le> subscriptionTime sub + 300) (subscriberList service')"
    unfolding kept by (auto simp: list_all_iff)
  with kept show ?thesis by blast
qed


theorem notify_keeps_live_witness:
  "\<exists>service service'. gena_reachable (5, service) \<and>
     mupnp_statevariable_setvaluewithnotify ex_env 10 service 0 (Some ''on'') True = Some service' \<and>
     map notifyCount (subscriberList service') = [1]"
proof -
  obtain c where r: "gena_reachable (5, ex_evented\<lparr>subscriberList := [new_subscriber 5 ''uuid:a-1'' ex_subscribe c]\<rparr>)"
    by (rule ex_subscribed)
  let ?sub = "new_subscriber 5 ''uuid:a-1'' ex_subscribe c"
  let ?s = "ex_evented\<lparr>subscriberList := [?sub]\<rparr>"
  define sv where "sv = mupnp_statevariable_setvaluewithoutnotify (serviceStateTable ?s ! 0) (Some ''on'')"
  have ev: "mupnp_statevariable_issendevents sv"
    unfolding sv_def by (simp add: ex_evented_def mupnp_statevariable_setvaluewithoutnotify_def) code_simp
  have "mupnp_event_subscription_request_gettimeout ex_subscribe = - 1" by code_simp
  then have live: "\<not> mupnp_subscriber_isexpired ?sub 10"
    by (simp add: mupnp_subscriber_isexpired_def limit_timeout_def MUPNP_SUBSCRIPTION_MAX_TIMEOUT_def
        MUPNP_SUBSCRIPTION_INFINITE_VALUE_def)
  have ok: "mupnp_subscriber_notify ex_env ?sub sv = Some (True, mupnp_subscriber_incrementnotifycount ?sub)"
    by (simp add: mupnp_subscriber_notify_def mupnp_subscriber_notifymain_def
        mupnp_event_notify_request_setpropertysetnode_def mupnp_soap_request_post_def ex_env_def Let_def
        mupnp_http_response_getstatuscode_def MUPNP_HTTP_STATUS_METHOD_NOT_ALLOWED_def mupnp_http_response_issuccessful_def
        mupnp_soap_response_sethttpresponse_def content_new)
  obtain service' where s': "mupnp_statevariable_setvaluewithnotify ex_env 10 ?s 0 (Some ''on'') True = Some service'"
    using ev live ok by (simp add: mupnp_statevariable_setvaluewithnotify_def mupnp_service_notify_def
        mupnp_service_notifymain_def Let_def sv_def)
  have "event_accepted ex_env None (Some sv) ?sub"
    using notifymain_answer(1) [of ex_env ?sub None "Some sv" True] ok by (simp add: mupnp_subscriber_notify_def)
  then have "subscriberList service' = map mupnp_subscriber_incrementnotifycount [?sub]"
    using notify_keeps_live [OF r _ s' sv_def ev] live by simp
  then have "map notifyCount (subscriberList service') = [1]"
    by (simp add: mupnp_subscriber_incrementnotifycount_def MUPNP_NOTIFY_COUNT_MAX_def)
  with r s' show ?thesis by (intro exI [of _ ?s] exI [of _ service'] conjI)
qed

text \<open>The answers to a renewal and to the end of the subscription that is the last one, and to a SID that is not known.\<close>

lemma sid_accepted:
  assumes "gena_inv now (service\<lparr>subscriberList := others @ [sub]\<rparr>)" and "sid_text (bare_sid uuid)" and "prefix ''uuid:'' uuid"
    and "bare_sid uuid \<notin> sub_id ` set others" and "sub_id sub = bare_sid uuid"
  shows "sid_request ''SUBSCRIBE'' uuid w \<Longrightarrow>
      service_subscriptionrecieved E t later running any (service\<lparr>subscriberList := others @ [sub]\<rparr>) w =
      Some (service\<lparr>subscriberList := others @ [sub\<lparr>subTimeout := limit_timeout (mupnp_event_subscription_request_gettimeout w),
          subscriptionTime := t\<rparr>]\<rparr>,
        [accepted E (Some (bare_sid uuid)) (limit_timeout (mupnp_event_subscription_request_gettimeout w))])"
    and "sid_request ''UNSUBSCRIBE'' uuid u \<Longrightarrow>
      service_subscriptionrecieved E t later running any (service\<lparr>subscriberList := others @ [sub]\<rparr>) u =
      Some (service\<lparr>subscriberList := others\<rparr>, [mupnp_event_subscription_subscriberesponse_setresponse (server_name E)
        mupnp_http_response_new MUPNP_HTTP_STATUS_OK])"
proof -
  have "index_where (\<lambda>s. sub_id s = bare_sid uuid) others = None"
    using assms(4) unfolding index_where_None by (metis imageI)
  then have there: "index_where (\<lambda>s. sub_id s = bare_sid uuid) (others @ [sub]) = Some (length others)"
    by (simp add: index_where_append assms(5))
  note lookup = sid_lookup [OF assms(1-3)]
  have getsid: "mupnp_event_subscription_getsid (Some uuid) = Some (bare_sid uuid)"
    using sidheader(2) [OF assms(2)] assms(3) by (auto simp: prefix_def bare_sid_def)
  show "service_subscriptionrecieved E t later running any (service\<lparr>subscriberList := others @ [sub]\<rparr>) w =
      Some (service\<lparr>subscriberList := others @ [sub\<lparr>subTimeout := limit_timeout (mupnp_event_subscription_request_gettimeout w),
          subscriptionTime := t\<rparr>]\<rparr>,
        [accepted E (Some (bare_sid uuid)) (limit_timeout (mupnp_event_subscription_request_gettimeout w))])"
    if "sid_request ''SUBSCRIBE'' uuid w"
    using lookup there sid_handler [OF that]
    by (simp add: mupnp_device_renewsubscriptionrecieved_def getsid accepted_def Let_def mupnp_subscriber_renew_def
        mupnp_subscriber_settimeout_def)
  show "service_subscriptionrecieved E t later running any (service\<lparr>subscriberList := others @ [sub]\<rparr>) u =
      Some (service\<lparr>subscriberList := others\<rparr>, [mupnp_event_subscription_subscriberesponse_setresponse (server_name E)
        mupnp_http_response_new MUPNP_HTTP_STATUS_OK])"
    if "sid_request ''UNSUBSCRIBE'' uuid u"
    using lookup there sid_handler [OF that]
    by (simp add: mupnp_device_unsubscriptionrecieved_def getsid mupnp_service_removesubscriber_def Let_def)
qed

lemma sid_refused:
  assumes "gena_inv now service" and "sid_text (bare_sid uuid)" and "prefix ''uuid:'' uuid"
    and "bare_sid uuid \<notin> sub_id ` set (subscriberList service)" and "sid_request m uuid q" and "m = ''SUBSCRIBE'' \<or> m = ''UNSUBSCRIBE''"
  shows "service_subscriptionrecieved E t later running any service q = Some (service, [mupnp_device_badsubscriptionrecieved 412])"
proof -
  have none: "index_where (\<lambda>s. sub_id s = bare_sid uuid) (subscriberList service) = None"
    using assms(4) unfolding index_where_None by (metis imageI)
  have getsid: "mupnp_event_subscription_getsid (Some uuid) = Some (bare_sid uuid)"
    using sidheader(2) [OF assms(2)] assms(3) by (auto simp: prefix_def bare_sid_def)
  show ?thesis
    using sid_lookup [OF assms(1-3)] none sid_handler [OF assms(5,6)] assms(6)
    by (auto simp: mupnp_device_renewsubscriptionrecieved_def mupnp_device_unsubscriptionrecieved_def getsid
        MUPNP_HTTP_STATUS_PRECONDITION_FAILED_def)
qed

text \<open>C35: a subscription is accepted with a SID and a timeout of at most 300 seconds, and its subscriber is
  sent events to the URL of the CALLBACK.  Unless the worker of the request is being stopped, all
  subscribers are then sent a first event, which removes those that are expired or do not answer
  it with success.  If the new one is still there, the control point renews exactly this
  subscription with the SID of the answer and no other data, or ends it and leaves the other
  subscribers as they were; if it is not, or once it has ended, both are refused with 412 and
  nothing changes.\<close>

theorem subscription_lifecycle:
  assumes "gena_reachable (now, service)" and "now \<le> t" and "t \<le> later" and "fresh_uuid uuid service"
    and "field_text (server_name E)" and "length (server_name E) \<le> 64" and "subscribe_request q"
    and "service_subscriptionrecieved E t later running uuid service q = Some (service1, replies)"
  shows "\<exists>res sub callback. replies = [res] \<and> statusCode res = 200 \<and> field res ''SID'' = Some uuid \<and>
    field res ''TIMEOUT'' = Some (''Second-'' @ show_int (subTimeout sub)) \<and>
    subTimeout sub = limit_timeout (mupnp_event_subscription_request_gettimeout q) \<and>
    subSid sub = Some uuid \<and> subscriptionTime sub = t \<and> notifyCount sub = 0 \<and> field q ''CALLBACK'' = Some callback \<and>
    deliveryURL sub = mupnp_net_url_set mupnp_net_uri_new (Some (mupnp_strrtrim (mupnp_strltrim callback ''<'' 1) ''>'' 1)) \<and>
    (let others = after_initial_event E later running service (subscriberList service);
         new = after_initial_event E later running service [sub];
         handle = service_subscriptionrecieved E t' later' running' uuid'
     in service1 = service\<lparr>subscriberList := others @ new\<rparr> \<and>
        new = (if running then
                 if \<not> mupnp_subscriber_isexpired sub later \<and> event_accepted E (Some service) None sub
                 then [mupnp_subscriber_incrementnotifycount sub] else []
               else [sub]) \<and>
        (sid_request ''SUBSCRIBE'' uuid w \<longrightarrow>
           (if new \<noteq> [] then \<exists>res'. statusCode res' = 200 \<and> field res' ''SID'' = Some uuid \<and>
              handle service1 w = Some (service\<lparr>subscriberList := others @
                [(hd new)\<lparr>subTimeout := limit_timeout (mupnp_event_subscription_request_gettimeout w), subscriptionTime := t'\<rparr>]\<rparr>, [res'])
            else \<exists>res'. statusCode res' = 412 \<and> handle service1 w = Some (service1, [res']))) \<and>
        (sid_request ''UNSUBSCRIBE'' uuid u \<longrightarrow>
           (\<exists>res'. statusCode res' = (if new \<noteq> [] then 200 else 412) \<and>
              handle service1 u = Some (service\<lparr>subscriberList := others\<rparr>, [res']))) \<and>
        (sid_request ''SUBSCRIBE'' uuid w \<longrightarrow> (\<exists>res'. statusCode res' = 412 \<and>
           handle (service\<lparr>subscriberList := others\<rparr>) w = Some (service\<lparr>subscriberList := others\<rparr>, [res']))))"
proof -
  have inv: "gena_inv t service" using gena_inv_later [OF reachable_inv [OF assms(1)] assms(2)] .
  have uuid: "sid_text (bare_sid uuid)" "prefix ''uuid:'' uuid" "uuid = ''uuid:'' @ bare_sid uuid"
    using assms(4) by (auto simp: fresh_uuid_def bare_sid_def prefix_def)
  have inv1: "gena_inv later service1" using request_inv [OF assms(8) inv assms(4,3)] .
  obtain c where c: "field q ''CALLBACK'' = Some c"
      and reply: "service_subscriptionrecieved E t later running uuid service q = map_option
        (\<lambda>s. (s, [accepted E (Some uuid) (limit_timeout (mupnp_event_subscription_request_gettimeout q))]))
        (mupnp_service_createnotifyallthread E later running
          (service\<lparr>subscriberList := subscriberList service @ [new_subscriber t uuid q c]\<rparr>))"
    by (rule subscribe_reply [OF assms(7) uuid(1)])
  with assms(8) have event: "mupnp_service_createnotifyallthread E later running
        (service\<lparr>subscriberList := subscriberList service @ [new_subscriber t uuid q c]\<rparr>) = Some service1"
      and replies: "replies = [accepted E (Some uuid) (limit_timeout (mupnp_event_subscription_request_gettimeout q))]"
    by auto
  define sub where "sub = new_subscriber t uuid q c"
  define others where "others = after_initial_event E later running service (subscriberList service)"
  define new where "new = after_initial_event E later running service [sub]"
  have s1: "service1 = service\<lparr>subscriberList := others @ new\<rparr>"
    using initial_event [OF event] by (simp add: after_append others_def new_def sub_def)
  have id: "sub_id sub = bare_sid uuid" by (simp add: sub_id_def sub_def)
  have fresh: "bare_sid uuid \<notin> sub_id ` set others"
    using assms(4) after_ids [of E later running service "subscriberList service"] unfolding fresh_uuid_def others_def by blast
  have inv2: "gena_inv later (service\<lparr>subscriberList := others\<rparr>)"
    using inv1 by (auto simp: s1 gena_inv_def)
  note refused = sid_refused [OF inv2 uuid(1,2)]
  note acc = accepted_fields [OF assms(5,6) _ conjunct2 [OF limit_timeout_bound] limited_range]
  have bare: "bare_sid (bare_sid uuid) = bare_sid uuid"
    using uuid(1) by (auto simp: bare_sid_def sid_text_def prefix_def)
  have bad: "statusCode (mupnp_device_badsubscriptionrecieved n) = n" for n by (simp add: mupnp_device_badsubscriptionrecieved_def)
  have okst: "statusCode (mupnp_event_subscription_subscriberesponse_setresponse (server_name E) mupnp_http_response_new MUPNP_HTTP_STATUS_OK) = 200"
    by (simp add: mupnp_event_subscription_subscriberesponse_setresponse_def Let_def MUPNP_HTTP_STATUS_OK_def
        mupnp_http_packet_setcontentlength_def mupnp_http_packet_setheaderssizet_def)
  have known: "sub_id n = bare_sid uuid \<and> gena_inv later (service\<lparr>subscriberList := others @ [n]\<rparr>)" if "new = [n]" for n
    using after_new [of E later running service sub] inv1 id that by (auto simp: s1 new_def)
  have new_cases: "new = [] \<or> (\<exists>n. new = [n])"
    using after_new [of E later running service sub] by (auto simp: new_def)
  have renew: "if new \<noteq> [] then \<exists>res'. statusCode res' = 200 \<and> field res' ''SID'' = Some uuid \<and>
        service_subscriptionrecieved E t' later' running' uuid' service1 w = Some (service\<lparr>subscriberList := others @
          [(hd new)\<lparr>subTimeout := limit_timeout (mupnp_event_subscription_request_gettimeout w), subscriptionTime := t'\<rparr>]\<rparr>, [res'])
      else \<exists>res'. statusCode res' = 412 \<and> service_subscriptionrecieved E t' later' running' uuid' service1 w = Some (service1, [res'])"
    if "sid_request ''SUBSCRIBE'' uuid w"
    using new_cases sid_accepted(1) [OF conjunct2 [OF known] uuid(1,2) fresh conjunct1 [OF known] that]
      refused [OF _ that] fresh acc(1,2) [of "bare_sid uuid" w] uuid bare bad by (auto simp: s1)
  have unsub: "\<exists>res'. statusCode res' = (if new \<noteq> [] then 200 else 412) \<and>
      service_subscriptionrecieved E t' later' running' uuid' service1 u = Some (service\<lparr>subscriberList := others\<rparr>, [res'])"
    if "sid_request ''UNSUBSCRIBE'' uuid u"
    using new_cases sid_accepted(2) [OF conjunct2 [OF known] uuid(1,2) fresh conjunct1 [OF known] that]
      refused [OF _ that] fresh okst bad by (auto simp: s1)
  have gone: "\<exists>res'. statusCode res' = 412 \<and> service_subscriptionrecieved E t' later' running' uuid'
      (service\<lparr>subscriberList := others\<rparr>) w = Some (service\<lparr>subscriberList := others\<rparr>, [res'])"
    if "sid_request ''SUBSCRIBE'' uuid w" using refused [OF _ that] fresh bad by auto
  have shape: "new = (if running then
      if \<not> mupnp_subscriber_isexpired sub later \<and> event_accepted E (Some service) None sub
      then [mupnp_subscriber_incrementnotifycount sub] else [] else [sub])"
    by (simp add: new_def after_initial_event_def)
  have url: "deliveryURL sub = mupnp_net_url_set mupnp_net_uri_new (Some (mupnp_strrtrim (mupnp_strltrim c ''<'' 1) ''>'' 1))"
    by (simp add: sub_def new_subscriber_def mupnp_subscriber_setsid_def mupnp_subscriber_settimeout_def
        mupnp_subscriber_setdeliveryurl_def mupnp_subscriber_new_def mupnp_subscriber_renew_def Let_def)
  note answer = acc [OF uuid(1), of q]
  have fields: "subTimeout sub = limit_timeout (mupnp_event_subscription_request_gettimeout q)" "subSid sub = Some uuid"
    "subscriptionTime sub = t" "notifyCount sub = 0" by (simp_all add: sub_def)
  have told: "field (accepted E (Some uuid) (limit_timeout (mupnp_event_subscription_request_gettimeout q))) ''TIMEOUT'' =
      Some (''Second-'' @ show_int (subTimeout sub))" using answer(3) by (simp add: fields(1))
  show ?thesis
  proof (rule exI [of _ "accepted E (Some uuid) (limit_timeout (mupnp_event_subscription_request_gettimeout q))"],
      rule exI [of _ sub], rule exI [of _ c], unfold Let_def new_def [symmetric] others_def [symmetric], intro conjI impI)
  qed (fact replies answer(1) answer(2) [folded uuid(3)] told fields c url s1 shape renew unsub gone)+
qed


theorem subscription_lifecycle_witness:
  "\<exists>res service1. service_subscriptionrecieved ex_env 5 6 True ''uuid:a-1'' ex_evented ex_subscribe = Some (service1, [res]) \<and>
     field res ''SID'' = Some ''uuid:a-1'' \<and> field res ''TIMEOUT'' = Some ''Second-300'' \<and>
     map notifyCount (subscriberList service1) = [1]"
proof -
  have r: "gena_reachable (0, ex_evented)" by (rule gena_reachable.start) (simp add: ex_evented_def mupnp_service_new_def)
  have none: "subscriberList ex_evented = []" by (simp add: ex_evented_def mupnp_service_new_def)
  have to: "mupnp_event_subscription_request_gettimeout ex_subscribe = - 1" by code_simp
  obtain c where c: "service_subscriptionrecieved ex_env 5 6 True ''uuid:a-1'' ex_evented ex_subscribe = map_option
      (\<lambda>s. (s, [accepted ex_env (Some ''uuid:a-1'') (limit_timeout (mupnp_event_subscription_request_gettimeout ex_subscribe))]))
      (mupnp_service_createnotifyallthread ex_env 6 True
        (ex_evented\<lparr>subscriberList := subscriberList ex_evented @ [new_subscriber 5 ''uuid:a-1'' ex_subscribe c]\<rparr>))"
    by (rule subscribe_reply [OF ex_subscribe_ok(1,2)])
  have e: "field_text (server_name ex_env)" "length (server_name ex_env) \<le> 64"
    by (simp_all add: ex_env_def field_text_def rest_text_def nul_free_def set_headerline_delim)
  have ok: "mupnp_subscriber_notifymain ex_env sub (Some s) None = Some (True, mupnp_subscriber_incrementnotifycount sub)"
    if "subSid sub = Some sid" for sub s sid
    by (simp add: mupnp_subscriber_notifymain_def that
        mupnp_event_notify_request_setpropertysetnode_def mupnp_soap_request_post_def ex_env_def Let_def
        mupnp_http_response_getstatuscode_def MUPNP_HTTP_STATUS_METHOD_NOT_ALLOWED_def mupnp_http_response_issuccessful_def
        mupnp_soap_response_sethttpresponse_def content_new)
  obtain service1 replies where s1: "service_subscriptionrecieved ex_env 5 6 True ''uuid:a-1'' ex_evented ex_subscribe = Some (service1, replies)"
    unfolding c using to none
    by (simp add: mupnp_service_createnotifyallthread_def mupnp_service_notifyall_def mupnp_service_notifymain_def
        mupnp_subscriber_notifyall_def ok Let_def mupnp_subscriber_isexpired_def limit_timeout_def
        MUPNP_SUBSCRIPTION_MAX_TIMEOUT_def MUPNP_SUBSCRIPTION_INFINITE_VALUE_def)
  have timeout: "limit_timeout (mupnp_event_subscription_request_gettimeout ex_subscribe) = 300"
    by (simp add: to limit_timeout_def MUPNP_SUBSCRIPTION_MAX_TIMEOUT_def MUPNP_SUBSCRIPTION_INFINITE_VALUE_def)
  have shown: "''Second-'' @ show_int 300 = ''Second-300''" by code_simp
  have eval_le: "5 \<le> (6 :: int)" by simp
  obtain res sub where *: "replies = [res]" "field res ''SID'' = Some ''uuid:a-1''" "field res ''TIMEOUT'' = Some (''Second-'' @ show_int (subTimeout sub))"
      "subTimeout sub = 300" "subSid sub = Some ''uuid:a-1''" "subscriptionTime sub = 5" "notifyCount sub = 0"
      "service1 = ex_evented\<lparr>subscriberList := after_initial_event ex_env 6 True ex_evented [] @ after_initial_event ex_env 6 True ex_evented [sub]\<rparr>"
    using subscription_lifecycle [OF r _ _ ex_subscribe_ok(3) e ex_subscribe_ok(1) s1, of 7 7 True "''uuid:a-2''" ex_subscribe ex_subscribe,
      OF zero_le_numeral eval_le]
    unfolding Let_def none timeout by (elim exE conjE) (rule that)
  have "event_accepted ex_env (Some ex_evented) None sub"
    using notifymain_answer(1) [OF ok [OF *(5)]] by simp
  then have "map notifyCount (subscriberList service1) = [1]"
    using *(4,6,7,8) by (simp add: after_initial_event_def mupnp_subscriber_isexpired_def mupnp_subscriber_incrementnotifycount_def
        MUPNP_NOTIFY_COUNT_MAX_def MUPNP_SUBSCRIPTION_INFINITE_VALUE_def)
  with s1 *(1-4) shown show ?thesis by auto
qed

end
