(* ===== verification/Device.thy ===== *)
theory Device
  imports Service SsdpPacket Gena
begin

section \<open>Devices (src/mupnp/device.c, include/mupnp/device.h)\<close>

text \<open>
  A device is its own state and its embedded devices; the parent pointers of the code are the
  positions in this tree.  An embedded device has no root node list.  The device node is a copy of
  the node in the root node list it points to: the setters here write both, for a root device.
  A device found by a search is a path of positions, a service a path and a position.  The
  clock, the UUID made for a device without one and the memory of a new packet are in
  \<open>device_env\<close>; \<open>None\<close> is a crash.  Servers, threads, interfaces and mutexes are left out.
\<close>

record device_env =
  gena :: gena_env
  clock :: int
  new_uuid :: cstring
  memory :: "int list"

record mUpnpIcon = iconNode :: "mUpnpXmlNode option"

record device_state =
  rootNodeList :: "mUpnpXmlNode list option"
  deviceNode :: "mUpnpXmlNode option"
  serviceList :: "mUpnpService list"
  iconList :: "mUpnpIcon list"
  presentationListener :: "nat option"
  descriptionURI :: charptr
  leaseTime :: int
  httpPort :: int
  ssdpPkt :: mUpnpSSDPPacket
  bootId :: int

datatype mUpnpDevice = Device (own: device_state) (deviceList: "mUpnpDevice list")

definition MUPNP_DEVICE_DEFAULT_LEASE_TIME :: int where "MUPNP_DEVICE_DEFAULT_LEASE_TIME = 30 * 60"
definition MUPNP_DEVICE_HTTP_DEFAULT_PORT :: int where "MUPNP_DEVICE_HTTP_DEFAULT_PORT = 38400"
definition MUPNP_DEVICE_DEFAULT_DESCRIPTION_URI :: cstring where
  "MUPNP_DEVICE_DEFAULT_DESCRIPTION_URI = ''/description.xml''"
definition MUPNP_DEVICE_DEFAULT_PRESENTATION_URI :: cstring where
  "MUPNP_DEVICE_DEFAULT_PRESENTATION_URI = ''/presentation''"
definition MUPNP_DEVICE_SSDP_CONFIGID :: cstring where "MUPNP_DEVICE_SSDP_CONFIGID = ''CONFIGID.UPNP.ORG''"

definition mupnp_createbootid :: "int \<Rightarrow> int" where
  "mupnp_createbootid currentTime = sgn currentTime * (\<bar>currentTime\<bar> mod INT_MAX)"

definition mupnp_device_new :: "device_env \<Rightarrow> device_state" where
  "mupnp_device_new D =
     \<lparr>rootNodeList = None, deviceNode = None, serviceList = [], iconList = [], presentationListener = None,
      descriptionURI = Some MUPNP_DEVICE_DEFAULT_DESCRIPTION_URI, leaseTime = MUPNP_DEVICE_DEFAULT_LEASE_TIME,
      httpPort = MUPNP_DEVICE_HTTP_DEFAULT_PORT, ssdpPkt = mupnp_ssdp_packet_new (memory D) (clock D),
      bootId = mupnp_createbootid (clock D)\<rparr>"

definition mupnp_device_clear :: "device_state \<Rightarrow> device_state" where
  "mupnp_device_clear dev = dev\<lparr>rootNodeList := None, deviceNode := None, serviceList := [], iconList := []\<rparr>"

definition mupnp_device_isdevicenode :: "mUpnpXmlNode \<Rightarrow> bool" where
  "mupnp_device_isdevicenode node = mupnp_xml_node_isname node (Some ''device'')"

definition mupnp_device_isrootdevice :: "device_state \<Rightarrow> bool" where
  "mupnp_device_isrootdevice dev = (if rootNodeList dev \<noteq> None then True else False)"

definition mupnp_device_getrootnode :: "device_state \<Rightarrow> mUpnpXmlNode option" where
  "mupnp_device_getrootnode dev = (case rootNodeList dev of Some (n # ns) \<Rightarrow> Some n | _ \<Rightarrow> None)"

definition mupnp_device_getdevicetype :: "device_state \<Rightarrow> charptr" where
  "mupnp_device_getdevicetype dev = mupnp_xml_node_getchildnodevalue (deviceNode dev) (Some ''deviceType'')"

definition mupnp_device_getudn :: "device_state \<Rightarrow> charptr" where
  "mupnp_device_getudn dev = mupnp_xml_node_getchildnodevalue (deviceNode dev) (Some ''UDN'')"

definition mupnp_device_hasudn :: "device_state \<Rightarrow> bool" where
  "mupnp_device_hasudn dev = (if 0 < mupnp_strlen (mupnp_device_getudn dev) then True else False)"

definition mupnp_device_getpresentationurl :: "device_state \<Rightarrow> charptr" where
  "mupnp_device_getpresentationurl dev = mupnp_xml_node_getchildnodevalue (deviceNode dev) (Some ''presentationURL'')"

definition mupnp_device_geturlbase :: "device_state \<Rightarrow> charptr" where
  "mupnp_device_geturlbase rootDev = mupnp_xml_node_getchildnodevalue (mupnp_device_getrootnode rootDev) (Some ''URLBase'')"

definition mupnp_device_getlocationfromssdppacket :: "device_state \<Rightarrow> charptr" where
  "mupnp_device_getlocationfromssdppacket dev = ssdp_header ''Location'' (ssdpPkt dev)"

definition mupnp_device_isdescriptionuri :: "device_state \<Rightarrow> charptr \<Rightarrow> bool" where
  "mupnp_device_isdescriptionuri dev url = mupnp_streq (descriptionURI dev) url"

text \<open>A write into the device node of a root device.\<close>

definition device_write :: "(mUpnpXmlNode \<Rightarrow> mUpnpXmlNode) \<Rightarrow> device_state \<Rightarrow> device_state" where
  "device_write f dev =
     (case deviceNode dev of
        None \<Rightarrow> dev
      | Some node \<Rightarrow>
          dev\<lparr>deviceNode := Some (f node),
              rootNodeList := (case rootNodeList dev of
                Some (root # roots) \<Rightarrow>
                  (case mupnp_xml_node_getchildnodebyname (Some root) (Some ''device'') of
                     Some i \<Rightarrow> Some (xml_replace_child root i (f node) # roots)
                   | None \<Rightarrow> Some (root # roots))
              | roots \<Rightarrow> roots)\<rparr>)"

definition mupnp_device_setudn :: "device_state \<Rightarrow> charptr \<Rightarrow> device_state" where
  "mupnp_device_setudn dev v = device_write (\<lambda>node. mupnp_xml_node_setchildnode node (Some ''UDN'') v) dev"

definition mupnp_device_updateudn :: "device_env \<Rightarrow> device_state \<Rightarrow> device_state" where
  "mupnp_device_updateudn D dev = mupnp_device_setudn dev (Some (new_uuid D))"

definition mupnp_device_setpresentationlistener :: "device_state \<Rightarrow> nat option \<Rightarrow> device_state" where
  "mupnp_device_setpresentationlistener dev func =
     (let dev = device_write (\<lambda>node. snd (mupnp_xml_node_removechildnode node (Some ''presentationURL''))) dev;
          dev = (if func \<noteq> None
                 then device_write (\<lambda>node. mupnp_xml_node_setchildnode node (Some ''presentationURL'')
                        (Some MUPNP_DEVICE_DEFAULT_PRESENTATION_URI)) dev
                 else dev)
      in dev\<lparr>presentationListener := func\<rparr>)"

subsection \<open>The description\<close>

definition mupnp_device_initservicelist :: "device_state \<Rightarrow> device_state" where
  "mupnp_device_initservicelist dev =
     (let dev = dev\<lparr>serviceList := []\<rparr> in
      case deviceNode dev of None \<Rightarrow> dev
      | Some devNode \<Rightarrow>
          (case xml_child (Some devNode) (Some ''serviceList'') of None \<Rightarrow> dev
           | Some serviceListNode \<Rightarrow>
               foldl (\<lambda>dev childNode.
                   if \<not> mupnp_service_isservicenode childNode then dev
                   else let childService = mupnp_service_setservicenode mupnp_service_new (Some childNode)
                        in dev\<lparr>serviceList := serviceList dev @ [childService]\<rparr>)
                 dev (mupnp_xml_node_getchildnodes (Some serviceListNode))))"

definition mupnp_device_initiconlist :: "device_state \<Rightarrow> device_state" where
  "mupnp_device_initiconlist dev =
     (let dev = dev\<lparr>iconList := []\<rparr> in
      case deviceNode dev of None \<Rightarrow> dev
      | Some devNode \<Rightarrow>
          (case xml_child (Some devNode) (Some ''iconList'') of None \<Rightarrow> dev
           | Some iconListNode \<Rightarrow>
               foldl (\<lambda>dev childNode.
                   if \<not> mupnp_xml_node_isname childNode (Some ''icon'') then dev
                   else dev\<lparr>iconList := iconList dev @ [\<lparr>iconNode = Some childNode\<rparr>]\<rparr>)
                 dev (mupnp_xml_node_getchildnodes (Some iconListNode))))"

text \<open>The new state of an embedded device before its child nodes are read.\<close>

definition embedded_device :: "device_env \<Rightarrow> device_state \<Rightarrow> mUpnpXmlNode \<Rightarrow> device_state" where
  "embedded_device D dev childNode =
     (let childDev = mupnp_device_new D;
          childDev = childDev\<lparr>leaseTime := leaseTime dev\<rparr>;
          childDev = childDev\<lparr>descriptionURI := str_set (descriptionURI childDev) (descriptionURI dev)\<rparr>;
          childDev = childDev\<lparr>httpPort := httpPort dev\<rparr>
      in childDev\<lparr>deviceNode := Some childNode\<rparr>)"

lemma size_xml_child: "xml_child (Some node) n = Some c \<Longrightarrow> size c < size node"
proof -
  assume "xml_child (Some node) n = Some c"
  then have "c \<in> set (xnodes node)"
    using nth_mem nodelist_find_less
    by (auto simp: xml_child_def mupnp_xml_node_getchildnodebyname_def mupnp_xml_nodelist_getbyname_def
        mupnp_xml_node_getchildnodes_def split: if_splits)
  then show ?thesis by (cases node) (auto dest!: size_list_estimation' [of _ _ "size c" size])
qed

lemma size_childnodes: "c \<in> set (mupnp_xml_node_getchildnodes (Some node)) \<Longrightarrow> size c < size node"
  by (cases node) (auto simp: mupnp_xml_node_getchildnodes_def dest!: size_list_estimation' [of _ _ "size c" size])

function mupnp_device_initdevicelist :: "device_env \<Rightarrow> device_state \<Rightarrow> mUpnpDevice list" where
  "mupnp_device_initdevicelist D dev =
     (case deviceNode dev of None \<Rightarrow> []
      | Some devNode \<Rightarrow>
          (case xml_child (Some devNode) (Some ''deviceList'') of None \<Rightarrow> []
           | Some devListNode \<Rightarrow>
               map (\<lambda>childNode. let childDev = embedded_device D dev childNode
                      in Device (mupnp_device_initiconlist (mupnp_device_initservicelist childDev))
                                (mupnp_device_initdevicelist D childDev))
                 (filter mupnp_device_isdevicenode (mupnp_xml_node_getchildnodes (Some devListNode)))))"
  by pat_completeness auto
termination
  by (relation "measure (\<lambda>(D, dev). case deviceNode dev of None \<Rightarrow> 0 | Some node \<Rightarrow> size node)")
    (auto simp: embedded_device_def Let_def dest!: size_xml_child size_childnodes)

definition mupnp_device_initchildnodes :: "device_env \<Rightarrow> device_state \<Rightarrow> mUpnpDevice" where
  "mupnp_device_initchildnodes D dev =
     Device (mupnp_device_initiconlist (mupnp_device_initservicelist dev)) (mupnp_device_initdevicelist D dev)"

definition mupnp_device_setdevicenode :: "device_env \<Rightarrow> device_state \<Rightarrow> mUpnpXmlNode option \<Rightarrow> mUpnpDevice" where
  "mupnp_device_setdevicenode D dev node = mupnp_device_initchildnodes D (dev\<lparr>deviceNode := node\<rparr>)"

definition mupnp_device_parsedescription ::
    "device_env \<Rightarrow> mUpnpDevice \<Rightarrow> buffer option \<Rightarrow> (bool \<times> mUpnpDevice) option" where
  "mupnp_device_parsedescription D dev description = do {
     let dev = (mupnp_device_clear (own dev))\<lparr>rootNodeList := Some []\<rparr>;
     (ok, nodes) \<leftarrow> mupnp_xml_parse (xml_parser (gena D)) [] description;
     let dev = dev\<lparr>rootNodeList := Some nodes\<rparr>;
     if \<not> ok then Some (False, Device dev [])
     else if length nodes \<le> 0 then Some (False, Device (mupnp_device_clear dev) [])
     else case mupnp_device_getrootnode dev of
       None \<Rightarrow> Some (False, Device (mupnp_device_clear dev) [])
     | Some root \<Rightarrow>
         let dev = dev\<lparr>deviceNode := xml_child (Some root) (Some ''device'')\<rparr> in
         if deviceNode dev = None then Some (False, Device (mupnp_device_clear dev) [])
         else
           let dev = (if mupnp_device_hasudn dev = False then mupnp_device_setudn dev (Some (new_uuid D)) else dev)
           in Some (True, mupnp_device_initchildnodes D dev) }"

text \<open>
  The content is passed with the length the response announces; \<open>http_content\<close> is \<open>None\<close> when
  that reads behind the end of the content and its terminating null.  The parser refuses a length
  above \<open>INT_MAX\<close> like no content.
\<close>

definition http_content :: "mUpnpHttpResponse \<Rightarrow> buffer option option" where
  "http_content r =
     (let n = unat (word_of_int (mupnp_http_packet_getcontentlength r) :: 64 word) in
      case content r of
        None \<Rightarrow> Some None
      | Some c \<Rightarrow>
          if int n > INT_MAX then Some None
          else if length c + 1 < n then None else Some (Some (take n (c @ [NUL]))))"

definition description_request :: "charptr \<Rightarrow> mUpnpHttpRequest" where
  "description_request req =
     (let httpReq = mupnp_http_request_setmethod mupnp_http_request_new (Some ''GET'');
          httpReq = mupnp_http_request_seturi httpReq req
      in mupnp_http_packet_setcontentlength httpReq 0)"

definition mupnp_net_url_ishttpprotocol :: "mUpnpNetURI \<Rightarrow> bool" where
  "mupnp_net_url_ishttpprotocol u = mupnp_streq (protocol u) (Some ''http'')"

definition mupnp_device_parsedescriptionurl ::
    "device_env \<Rightarrow> mUpnpDevice \<Rightarrow> mUpnpNetURI \<Rightarrow> (bool \<times> mUpnpDevice) option" where
  "mupnp_device_parsedescriptionurl D dev url =
     (if mupnp_net_url_ishttpprotocol url = False then Some (False, dev)
      else do {
        let portNo = (if port url \<le> 0 then MUPNP_HTTP_DEFAULT_PORT else port url);
        let httpReq = network (gena D) (description_request (snd (mupnp_net_uri_getrequest url))) (host url) portNo;
        if \<not> mupnp_http_response_issuccessful (httpRes httpReq) then Some (False, dev)
        else do {
          description \<leftarrow> http_content (httpRes httpReq);
          mupnp_device_parsedescription D dev description } })"

definition mupnp_service_parsedescriptionurl ::
    "gena_env \<Rightarrow> mUpnpService \<Rightarrow> mUpnpNetURI \<Rightarrow> (bool \<times> mUpnpService) option" where
  "mupnp_service_parsedescriptionurl E service url =
     (if mupnp_net_url_ishttpprotocol url = False then Some (False, service)
      else do {
        let portNo = (if port url \<le> 0 then MUPNP_HTTP_DEFAULT_PORT else port url);
        let req = snd (mupnp_net_uri_getrequest url);
        let req = (if mupnp_strlen req \<le> 0 then Some ''/'' else req);
        let httpReq = network E (description_request req) (host url) portNo;
        if \<not> mupnp_http_response_issuccessful (httpRes httpReq) then Some (False, service)
        else do {
          description \<leftarrow> http_content (httpRes httpReq);
          mupnp_service_parsedescription (xml_parser E) service description } })"


subsection \<open>Searches\<close>

text \<open>
  The searches of the code have two shapes: the services of a device before those of its embedded
  devices, and the embedded devices, each before its own.  \<open>None\<close> of the outer option is a crash
  of the test.
\<close>

type_synonym service_place = "nat list \<times> nat"

fun find_where :: "('a \<Rightarrow> bool option) \<Rightarrow> 'a list \<Rightarrow> nat option option" where
  "find_where P [] = Some None"
| "find_where P (x # xs) = do {
     b \<leftarrow> P x;
     if b = True then Some (Some 0) else map_option (map_option Suc) (find_where P xs) }"

fun device_find_service :: "(mUpnpService \<Rightarrow> bool option) \<Rightarrow> mUpnpDevice \<Rightarrow> service_place option option"
  and devices_find_service :: "(mUpnpService \<Rightarrow> bool option) \<Rightarrow> nat \<Rightarrow> mUpnpDevice list \<Rightarrow> service_place option option" where
  "device_find_service P (Device dev childDevs) = do {
     service \<leftarrow> find_where P (serviceList dev);
     case service of Some i \<Rightarrow> Some (Some ([], i)) | None \<Rightarrow> devices_find_service P 0 childDevs }"
| "devices_find_service P k [] = Some None"
| "devices_find_service P k (childDev # childDevs) = do {
     service \<leftarrow> device_find_service P childDev;
     case service of Some (p, i) \<Rightarrow> Some (Some (k # p, i)) | None \<Rightarrow> devices_find_service P (k + 1) childDevs }"

fun devices_find :: "(device_state \<Rightarrow> bool) \<Rightarrow> nat \<Rightarrow> mUpnpDevice list \<Rightarrow> nat list option" where
  "devices_find P k [] = None"
| "devices_find P k (Device dev embedded # childDevs) =
     (if P dev then Some [k]
      else case devices_find P 0 embedded of
             Some p \<Rightarrow> Some (k # p)
           | None \<Rightarrow> devices_find P (k + 1) childDevs)"

fun device_at :: "mUpnpDevice \<Rightarrow> nat list \<Rightarrow> mUpnpDevice" where
  "device_at dev [] = dev"
| "device_at dev (k # p) = device_at (deviceList dev ! k) p"

fun device_put :: "mUpnpDevice \<Rightarrow> nat list \<Rightarrow> mUpnpDevice \<Rightarrow> mUpnpDevice" where
  "device_put dev [] x = x"
| "device_put (Device d cs) (k # p) x = Device d (cs[k := device_put (cs ! k) p x])"

definition service_at :: "mUpnpDevice \<Rightarrow> service_place \<Rightarrow> mUpnpService" where
  "service_at dev = (\<lambda>(p, i). serviceList (own (device_at dev p)) ! i)"

definition service_put :: "mUpnpDevice \<Rightarrow> service_place \<Rightarrow> mUpnpService \<Rightarrow> mUpnpDevice" where
  "service_put dev = (\<lambda>(p, i) service. device_put dev p
     (case device_at dev p of Device d cs \<Rightarrow> Device (d\<lparr>serviceList := (serviceList d)[i := service]\<rparr>) cs))"

definition mupnp_device_getdevicebytype :: "mUpnpDevice \<Rightarrow> charptr \<Rightarrow> nat list option" where
  "mupnp_device_getdevicebytype dev type =
     (if mupnp_strlen type \<le> 0 then None
      else devices_find (\<lambda>childDev.
             case mupnp_device_getdevicetype childDev of
               None \<Rightarrow> False
             | Some typeString \<Rightarrow> mupnp_strcmp (mupnp_devicetype_getschematype (Some typeString)) type = 0)
           0 (deviceList dev))"

definition mupnp_device_getdevicebyexacttype :: "mUpnpDevice \<Rightarrow> charptr \<Rightarrow> nat list option" where
  "mupnp_device_getdevicebyexacttype dev exacttype =
     (if mupnp_strlen exacttype \<le> 0 then None
      else devices_find (\<lambda>childDev. mupnp_strcmp (mupnp_device_getdevicetype childDev) exacttype = 0) 0 (deviceList dev))"

definition mupnp_device_getdevicebyudn :: "mUpnpDevice \<Rightarrow> charptr \<Rightarrow> nat list option" where
  "mupnp_device_getdevicebyudn dev udn =
     (if mupnp_strlen udn \<le> 0 then None
      else devices_find (\<lambda>childDev. mupnp_strcmp (mupnp_device_getudn childDev) udn = 0) 0 (deviceList dev))"

text \<open>This search tests and returns the device it was called with, once for each embedded device.\<close>

fun mupnp_device_getdevicebydescriptionuri :: "mUpnpDevice \<Rightarrow> charptr \<Rightarrow> nat list option"
  and description_devices :: "device_state \<Rightarrow> nat \<Rightarrow> mUpnpDevice list \<Rightarrow> charptr \<Rightarrow> nat list option" where
  "mupnp_device_getdevicebydescriptionuri (Device dev childDevs) url =
     (if mupnp_strlen url \<le> 0 then None else description_devices dev 0 childDevs url)"
| "description_devices dev k [] url = None"
| "description_devices dev k (childDev # childDevs) url =
     (if mupnp_device_isdescriptionuri dev url = True then Some []
      else case mupnp_device_getdevicebydescriptionuri childDev url of
             Some p \<Rightarrow> Some (k # p)
           | None \<Rightarrow> description_devices dev (k + 1) childDevs url)"

definition mupnp_device_getownedservicebyserviceid :: "device_state \<Rightarrow> charptr \<Rightarrow> nat option" where
  "mupnp_device_getownedservicebyserviceid dev serviceId =
     (if mupnp_strlen serviceId \<le> 0 then None
      else index_where (\<lambda>service. mupnp_streq (mupnp_service_getserviceid service) serviceId) (serviceList dev))"

definition mupnp_device_getservicebyownerudn :: "mUpnpDevice \<Rightarrow> charptr \<Rightarrow> charptr \<Rightarrow> service_place option" where
  "mupnp_device_getservicebyownerudn dev ownerUdn serviceId =
     (if mupnp_strlen ownerUdn \<le> 0 then None
      else case (if mupnp_streq (mupnp_device_getudn (own dev)) ownerUdn then Some []
                 else mupnp_device_getdevicebyudn dev ownerUdn) of
             None \<Rightarrow> None
           | Some p \<Rightarrow> map_option (Pair p) (mupnp_device_getownedservicebyserviceid (own (device_at dev p)) serviceId))"

definition mupnp_device_getservicebyserviceid :: "mUpnpDevice \<Rightarrow> charptr \<Rightarrow> service_place option option" where
  "mupnp_device_getservicebyserviceid dev serviceId =
     (if mupnp_strlen serviceId \<le> 0 then Some None
      else device_find_service (\<lambda>service. Some (mupnp_strcmp (mupnp_service_getserviceid service) serviceId = 0)) dev)"

definition mupnp_device_getservicebyexacttype :: "mUpnpDevice \<Rightarrow> charptr \<Rightarrow> service_place option option" where
  "mupnp_device_getservicebyexacttype dev type =
     (if mupnp_strlen type \<le> 0 then Some None
      else device_find_service (\<lambda>service. Some (mupnp_strcmp (mupnp_service_getservicetype service) type = 0)) dev)"

definition mupnp_device_getservicebytype :: "mUpnpDevice \<Rightarrow> charptr \<Rightarrow> service_place option option" where
  "mupnp_device_getservicebytype dev type =
     (if mupnp_strlen type \<le> 0 then Some None
      else device_find_service (\<lambda>service. Some
        (case mupnp_service_getservicetype service of
           None \<Rightarrow> False
         | Some typeString \<Rightarrow>
             mupnp_strcmp (Some typeString) type = 0 \<or>
             mupnp_strcmp (mupnp_servicetype_getschematype (Some typeString)) type = 0)) dev)"

definition mupnp_device_getservicebyscpdurl :: "mUpnpDevice \<Rightarrow> charptr \<Rightarrow> service_place option option" where
  "mupnp_device_getservicebyscpdurl dev url =
     (if mupnp_strlen url \<le> 0 then Some None
      else device_find_service (\<lambda>service. mupnp_service_isscpdurl service url) dev)"

text \<open>The URLs of a service depend on its root device, an argument here.\<close>

definition mupnp_service_mangleurl :: "device_state \<Rightarrow> mUpnpService \<Rightarrow> cstring \<Rightarrow> mUpnpNetURI option" where
  "mupnp_service_mangleurl rootDev service type =
     mupnp_service_mangleabsoluteurl (mupnp_xml_node_getchildnodevalue (serviceNode service) (Some type))
       (mupnp_device_geturlbase rootDev) (mupnp_device_getlocationfromssdppacket rootDev)"

definition mupnp_service_geteventsuburl :: "device_state \<Rightarrow> mUpnpService \<Rightarrow> mUpnpNetURI option" where
  "mupnp_service_geteventsuburl rootDev service = mupnp_service_mangleurl rootDev service ''eventSubURL''"

definition mupnp_service_getcontrolurl :: "device_state \<Rightarrow> mUpnpService \<Rightarrow> mUpnpNetURI option" where
  "mupnp_service_getcontrolurl rootDev service = mupnp_service_mangleurl rootDev service ''controlURL''"

definition mupnp_service_getscpdurl :: "device_state \<Rightarrow> mUpnpService \<Rightarrow> mUpnpNetURI option" where
  "mupnp_service_getscpdurl rootDev service = mupnp_service_mangleurl rootDev service ''SCPDURL''"

definition mupnp_device_getservicebycontrolurl :: "device_state \<Rightarrow> mUpnpDevice \<Rightarrow> charptr \<Rightarrow> service_place option option" where
  "mupnp_device_getservicebycontrolurl rootDev dev url =
     (if mupnp_strlen url \<le> 0 then Some None
      else device_find_service (\<lambda>service. Some
        (case mupnp_service_getcontrolurl rootDev service of
           None \<Rightarrow> False
         | Some serviceUrl \<Rightarrow> mupnp_strstr (snd (mupnp_net_uri_getrequest serviceUrl)) url \<noteq> - 1)) dev)"

definition mupnp_device_getservicebyeventsuburl :: "device_state \<Rightarrow> mUpnpDevice \<Rightarrow> charptr \<Rightarrow> service_place option option" where
  "mupnp_device_getservicebyeventsuburl rootDev dev url =
     (if mupnp_strlen url \<le> 0 then Some None
      else device_find_service (\<lambda>service. Some
        (case mupnp_service_geteventsuburl rootDev service of
           None \<Rightarrow> False
         | Some eventSubURL \<Rightarrow> mupnp_streq (path eventSubURL) url = True)) dev)"

definition mupnp_device_getservicebysid :: "mUpnpDevice \<Rightarrow> charptr \<Rightarrow> service_place option option" where
  "mupnp_device_getservicebysid dev sid =
     (if mupnp_strlen sid \<le> 0 then Some None
      else device_find_service (\<lambda>service. do {
        subscriber \<leftarrow> mupnp_service_getsubscriberbysid service sid;
        Some (subscriber \<noteq> None \<or>
              mupnp_service_issubscribed service = True \<and> mupnp_strcmp (subscriptionSid service) sid = 0) }) dev)"

definition mupnp_device_getactionbyname :: "mUpnpDevice \<Rightarrow> charptr \<Rightarrow> (service_place \<times> nat) option option" where
  "mupnp_device_getactionbyname dev name =
     (if mupnp_strlen name \<le> 0 then Some None
      else do {
        found \<leftarrow> device_find_service (\<lambda>service. Some (mupnp_service_getactionbyname service name \<noteq> None)) dev;
        Some (case found of None \<Rightarrow> None
              | Some s \<Rightarrow> map_option (Pair s) (mupnp_service_getactionbyname (service_at dev s) name)) })"

definition mupnp_device_getstatevariablebyname :: "mUpnpDevice \<Rightarrow> charptr \<Rightarrow> (service_place \<times> nat) option option" where
  "mupnp_device_getstatevariablebyname dev name =
     (if mupnp_strlen name \<le> 0 then Some None
      else do {
        found \<leftarrow> device_find_service (\<lambda>service. Some (mupnp_service_getstatevariablebyname service name \<noteq> None)) dev;
        Some (case found of None \<Rightarrow> None
              | Some s \<Rightarrow> map_option (Pair s) (mupnp_service_getstatevariablebyname (service_at dev s) name)) })"

fun device_map_services :: "(mUpnpService \<Rightarrow> mUpnpService) \<Rightarrow> mUpnpDevice \<Rightarrow> mUpnpDevice" where
  "device_map_services f (Device dev childDevs) =
     Device (dev\<lparr>serviceList := map f (serviceList dev)\<rparr>) (map (device_map_services f) childDevs)"

definition mupnp_device_setactionlistener :: "mUpnpDevice \<Rightarrow> nat option \<Rightarrow> mUpnpDevice" where
  "mupnp_device_setactionlistener dev listener =
     device_map_services (\<lambda>service. mupnp_service_setactionlistener service listener) dev"

definition mupnp_device_setquerylistener :: "mUpnpDevice \<Rightarrow> nat option \<Rightarrow> mUpnpDevice" where
  "mupnp_device_setquerylistener dev listener =
     device_map_services (\<lambda>service. mupnp_service_setquerylistener service listener) dev"


subsection \<open>Service descriptions, as a control point reads them (src/mupnp/controlpoint.c)\<close>

definition mupnp_controlpoint_parsescservicescpd ::
    "gena_env \<Rightarrow> device_state \<Rightarrow> mUpnpService \<Rightarrow> (bool \<times> mUpnpService) option" where
  "mupnp_controlpoint_parsescservicescpd E rootDev service =
     (case mupnp_service_getscpdurl rootDev service of
        None \<Rightarrow> Some (False, service)
      | Some scpdURL \<Rightarrow> mupnp_service_parsedescriptionurl E service scpdURL)"

fun parse_services :: "gena_env \<Rightarrow> device_state \<Rightarrow> mUpnpService list \<Rightarrow> (bool \<times> mUpnpService list) option" where
  "parse_services E rootDev [] = Some (True, [])"
| "parse_services E rootDev (service # services) = do {
     (ok, service) \<leftarrow> mupnp_controlpoint_parsescservicescpd E rootDev service;
     if ok = False then Some (False, service # services)
     else do {
       (ok, services) \<leftarrow> parse_services E rootDev services;
       Some (ok, service # services) } }"

text \<open>The device is the root device, or one embedded in it.\<close>

fun mupnp_controlpoint_parseservicesfordevice ::
    "gena_env \<Rightarrow> device_state \<Rightarrow> mUpnpDevice \<Rightarrow> (bool \<times> mUpnpDevice) option"
  and parse_embedded :: "gena_env \<Rightarrow> device_state \<Rightarrow> mUpnpDevice list \<Rightarrow> (bool \<times> mUpnpDevice list) option" where
  "mupnp_controlpoint_parseservicesfordevice E rootDev (Device dev childDevs) = do {
     (ok, services) \<leftarrow> parse_services E rootDev (serviceList dev);
     let dev = dev\<lparr>serviceList := services\<rparr>;
     if ok = False then Some (False, Device dev childDevs)
     else do {
       (ok, childDevs) \<leftarrow> parse_embedded E rootDev childDevs;
       Some (ok, Device dev childDevs) } }"
| "parse_embedded E rootDev [] = Some (True, [])"
| "parse_embedded E rootDev (childDev # childDevs) = do {
     (ok, childDev) \<leftarrow> mupnp_controlpoint_parseservicesfordevice E rootDev childDev;
     if ok = False then Some (False, childDev # childDevs)
     else do {
       (ok, childDevs) \<leftarrow> parse_embedded E rootDev childDevs;
       Some (ok, childDev # childDevs) } }"

subsection \<open>The update of a known device\<close>

definition mupnp_device_optstreq :: "charptr \<Rightarrow> charptr \<Rightarrow> bool" where
  "mupnp_device_optstreq a b =
     (if mupnp_strlen a \<le> 0 \<or> mupnp_strlen b \<le> 0
      then (if mupnp_strlen a \<le> 0 \<and> mupnp_strlen b \<le> 0 then True else False)
      else mupnp_streq a b)"

definition mupnp_device_nodevalueequals :: "mUpnpXmlNode option \<Rightarrow> mUpnpXmlNode option \<Rightarrow> cstring \<Rightarrow> bool" where
  "mupnp_device_nodevalueequals a b name =
     mupnp_device_optstreq (mupnp_xml_node_getchildnodevalue a (Some name)) (mupnp_xml_node_getchildnodevalue b (Some name))"

definition same_service :: "mUpnpService \<Rightarrow> mUpnpService \<Rightarrow> bool" where
  "same_service sa sb \<longleftrightarrow>
     (let na = serviceNode sa; nb = serviceNode sb in
      mupnp_device_nodevalueequals na nb ''serviceType'' \<and>
      mupnp_device_nodevalueequals na nb ''serviceId'' \<and>
      mupnp_device_nodevalueequals na nb ''SCPDURL'' \<and>
      mupnp_device_nodevalueequals na nb ''controlURL'' \<and>
      mupnp_device_nodevalueequals na nb ''eventSubURL'')"

fun mupnp_device_hassamestructure :: "mUpnpDevice \<Rightarrow> mUpnpDevice \<Rightarrow> bool" where
  "mupnp_device_hassamestructure (Device a as) (Device b bs) \<longleftrightarrow>
     mupnp_device_optstreq (mupnp_device_getudn a) (mupnp_device_getudn b) \<and>
     mupnp_device_optstreq (mupnp_device_getdevicetype a) (mupnp_device_getdevicetype b) \<and>
     list_all2 same_service (serviceList a) (serviceList b) \<and>
     list_all2 mupnp_device_hassamestructure as bs"

definition mupnp_device_findbyudnintree :: "mUpnpDevice \<Rightarrow> charptr \<Rightarrow> nat list option" where
  "mupnp_device_findbyudnintree dev udn =
     (if mupnp_strlen udn \<le> 0 then None
      else if mupnp_streq (mupnp_device_getudn (own dev)) udn then Some []
      else devices_find (\<lambda>childDev. mupnp_streq (mupnp_device_getudn childDev) udn) 0 (deviceList dev))"

fun copy_subscription :: "mUpnpService list \<Rightarrow> mUpnpService \<Rightarrow> mUpnpService" where
  "copy_subscription [] newService = newService"
| "copy_subscription (oldService # oldServices) newService =
     (if \<not> mupnp_streq (mupnp_service_getserviceid oldService) (mupnp_service_getserviceid newService)
      then copy_subscription oldServices newService
      else if mupnp_service_issubscribed oldService
      then (mupnp_service_setsubscriptionsid newService (subscriptionSid oldService))
             \<lparr>subscriptionTimeout := subscriptionTimeout oldService,
              subscriptionTimestamp := subscriptionTimestamp oldService,
              eventKey := eventKey oldService\<rparr>
      else newService)"

fun mupnp_device_copysubscriptions :: "mUpnpDevice \<Rightarrow> mUpnpDevice \<Rightarrow> mUpnpDevice" where
  "mupnp_device_copysubscriptions oldRoot (Device newDev childDevs) =
     Device
       (case mupnp_device_findbyudnintree oldRoot (mupnp_device_getudn newDev) of
          None \<Rightarrow> newDev
        | Some p \<Rightarrow> newDev\<lparr>serviceList := map (copy_subscription (serviceList (own (device_at oldRoot p)))) (serviceList newDev)\<rparr>)
       (map (mupnp_device_copysubscriptions oldRoot) childDevs)"

text \<open>The pair is the two devices after the exchange.\<close>

fun mupnp_device_swapdescription :: "mUpnpDevice \<Rightarrow> mUpnpDevice \<Rightarrow> mUpnpDevice \<times> mUpnpDevice" where
  "mupnp_device_swapdescription (Device dst dsts) (Device src srcs) =
     (Device (dst\<lparr>rootNodeList := rootNodeList src, deviceNode := deviceNode src, serviceList := serviceList src,
                  iconList := iconList src\<rparr>) srcs,
      Device (src\<lparr>rootNodeList := rootNodeList dst, deviceNode := deviceNode dst, serviceList := serviceList dst,
                  iconList := iconList dst\<rparr>) dsts)"

fun device_own :: "(device_state \<Rightarrow> device_state) \<Rightarrow> mUpnpDevice \<Rightarrow> mUpnpDevice" where
  "device_own f (Device d cs) = Device (f d) cs"

definition mupnp_device_setssdppacket :: "int \<Rightarrow> mUpnpDevice \<Rightarrow> mUpnpSSDPPacket \<Rightarrow> mUpnpDevice" where
  "mupnp_device_setssdppacket now dev srcSsdpPkt =
     device_own (\<lambda>d. d\<lparr>ssdpPkt := mupnp_ssdp_packet_copy (ssdpPkt d) srcSsdpPkt now\<rparr>) dev"

definition mupnp_device_sethttpport :: "mUpnpDevice \<Rightarrow> int \<Rightarrow> mUpnpDevice" where
  "mupnp_device_sethttpport dev v = device_own (\<lambda>d. d\<lparr>httpPort := v\<rparr>) dev"

definition mupnp_device_updatefromdevice ::
    "int \<Rightarrow> mUpnpDevice \<Rightarrow> mUpnpDevice \<Rightarrow> mUpnpSSDPPacket \<Rightarrow> bool \<times> mUpnpDevice" where
  "mupnp_device_updatefromdevice now dev newDev pkt =
     (if \<not> mupnp_streq (mupnp_device_getudn (own newDev)) (mupnp_device_getudn (own dev)) then (False, dev)
      else
        let oldConfigId = ssdp_header MUPNP_DEVICE_SSDP_CONFIGID (ssdpPkt (own dev));
            newConfigId = ssdp_header MUPNP_DEVICE_SSDP_CONFIGID pkt;
            dev = (if \<not> mupnp_device_optstreq oldConfigId newConfigId \<or> \<not> mupnp_device_hassamestructure dev newDev
                   then fst (mupnp_device_swapdescription dev (mupnp_device_copysubscriptions dev newDev))
                   else dev);
            dev = mupnp_device_setssdppacket now dev pkt
        in (True, mupnp_device_sethttpport dev (httpPort (own newDev))))"

definition mupnp_device_updatefromssdppacket ::
    "device_env \<Rightarrow> mUpnpDevice \<Rightarrow> mUpnpSSDPPacket \<Rightarrow> (bool \<times> mUpnpDevice) option" where
  "mupnp_device_updatefromssdppacket D dev pkt =
     (let oldLocation = mupnp_ssdp_packet_getlocation (ssdpPkt (own dev));
          newLocation = mupnp_ssdp_packet_getlocation pkt
      in if mupnp_streq oldLocation newLocation = True then Some (True, mupnp_device_setssdppacket (clock D) dev pkt)
         else if mupnp_strlen newLocation \<le> 0 then Some (True, dev)
         else do {
           let url = mupnp_net_url_set mupnp_net_uri_new newLocation;
           (parseSuccess, newDev) \<leftarrow> mupnp_device_parsedescriptionurl D (Device (mupnp_device_new D) []) url;
           let newHttpPort = port url;
           if parseSuccess = False \<or> \<not> mupnp_streq (mupnp_device_getudn (own newDev)) (mupnp_device_getudn (own dev))
           then Some (True, dev)
           else if mupnp_device_optstreq (ssdp_header MUPNP_DEVICE_SSDP_CONFIGID (ssdpPkt (own dev)))
                     (ssdp_header MUPNP_DEVICE_SSDP_CONFIGID pkt) \<and> mupnp_device_hassamestructure dev newDev
           then Some (True, mupnp_device_sethttpport (mupnp_device_setssdppacket (clock D) dev pkt) newHttpPort)
           else do {
             let newDev = mupnp_device_sethttpport (mupnp_device_setssdppacket (clock D) newDev pkt) newHttpPort;
             (ok, newDev) \<leftarrow> mupnp_controlpoint_parseservicesfordevice (gena D) (own newDev) newDev;
             if ok = False then Some (True, dev)
             else
               let newDev = mupnp_device_copysubscriptions dev newDev;
                   dev = fst (mupnp_device_swapdescription dev newDev);
                   dev = mupnp_device_setssdppacket (clock D) dev pkt
               in Some (True, mupnp_device_sethttpport dev newHttpPort) } })"

end
