(* ===== verification/Control.thy ===== *)
theory Control
  imports Gena
begin

section \<open>Control (src/mupnp/control, soap/soap.c, device_http_server.c)\<close>

text \<open>
  Actions and queries: the requests a control point builds, what the device makes of them and the
  results the control point reads.  An action does not hold its service here; the operations
  that follow that pointer take the service as an argument, and those that need its control URL
  take the URL.  A listener of the application is a function that may change the object it is
  called with and says whether it succeeded.  \<open>None\<close> is a crash.
\<close>

type_synonym action_listeners = "nat \<Rightarrow> mUpnpAction \<Rightarrow> bool \<times> mUpnpAction"
type_synonym query_listeners = "nat \<Rightarrow> mUpnpStateVariable \<Rightarrow> bool \<times> mUpnpStateVariable"

definition MUPNP_HTTP_STATUS_INTERNAL_SERVER_ERROR :: int where "MUPNP_HTTP_STATUS_INTERNAL_SERVER_ERROR = 500"
definition MUPNP_SOAP_ENCSTYLE_URL :: cstring where "MUPNP_SOAP_ENCSTYLE_URL = ''http://schemas.xmlsoap.org/soap/encoding/''"
definition MUPNP_CONTROL_XMLNS :: cstring where "MUPNP_CONTROL_XMLNS = ''urn:schemas-upnp-org:control-1-0''"
definition MUPNP_CONTROL_QUERY_SOAPACTION :: cstring where
  "MUPNP_CONTROL_QUERY_SOAPACTION = [CHR 0x22] @ ''urn:schemas-upnp-org:control-1-0#QueryStateVariable'' @ [CHR 0x22]"
definition MUPNP_ACTOINNAME_LEN_MAX :: nat where "MUPNP_ACTOINNAME_LEN_MAX = 128"

definition xml_leaf :: "charptr \<Rightarrow> charptr \<Rightarrow> mUpnpXmlNode" where
  "xml_leaf name v = mupnp_xml_node_setvalue (mupnp_xml_node_setname mupnp_xml_node_new name) v"

definition xml_setattribute :: "mUpnpXmlNode \<Rightarrow> charptr \<Rightarrow> charptr \<Rightarrow> mUpnpXmlNode" where
  "xml_setattribute node name v = snd (mupnp_xml_node_setattribute node name v)"

definition mupnp_action_setstatuscode :: "mUpnpAction \<Rightarrow> int \<Rightarrow> mUpnpAction" where
  "mupnp_action_setstatuscode action code = action\<lparr>actionStatus := (actionStatus action)\<lparr>stCode := code\<rparr>\<rparr>"

definition mupnp_action_setstatusdescription :: "mUpnpAction \<Rightarrow> charptr \<Rightarrow> mUpnpAction" where
  "mupnp_action_setstatusdescription action v =
     action\<lparr>actionStatus := (actionStatus action)\<lparr>stDescription := str_set (stDescription (actionStatus action)) v\<rparr>\<rparr>"

definition mupnp_statevariable_setstatuscode :: "mUpnpStateVariable \<Rightarrow> int \<Rightarrow> mUpnpStateVariable" where
  "mupnp_statevariable_setstatuscode statVar code = statVar\<lparr>svStatus := (svStatus statVar)\<lparr>stCode := code\<rparr>\<rparr>"

definition mupnp_statevariable_setstatusdescription :: "mUpnpStateVariable \<Rightarrow> charptr \<Rightarrow> mUpnpStateVariable" where
  "mupnp_statevariable_setstatusdescription statVar v =
     statVar\<lparr>svStatus := (svStatus statVar)\<lparr>stDescription := str_set (stDescription (svStatus statVar)) v\<rparr>\<rparr>"

subsection \<open>Envelopes\<close>

definition mupnp_soap_createenvelopebodynode :: mUpnpXmlNode where
  "mupnp_soap_createenvelopebodynode =
     (let envNode = mupnp_xml_node_setname mupnp_xml_node_new (Some ''s:Envelope'');
          envNode = xml_setattribute envNode (Some ''xmlns:s'') (Some MUPNP_SOAP_XMLNS_URL);
          envNode = xml_setattribute envNode (Some ''s:encodingStyle'') (Some MUPNP_SOAP_ENCSTYLE_URL);
          bodyNode = mupnp_xml_node_setname mupnp_xml_node_new (Some ''s:Body'')
      in mupnp_xml_node_addchildnode envNode bodyNode)"

definition mupnp_control_soap_response_initializeenvelopenode :: "mUpnpSoapResponse \<Rightarrow> mUpnpSoapResponse" where
  "mupnp_control_soap_response_initializeenvelopenode res =
     (let res = res\<lparr>resRootNodeList := resRootNodeList res @ [mupnp_soap_createenvelopebodynode]\<rparr>
      in res\<lparr>soapHttpRes := mupnp_http_packet_setheadervalue (soapHttpRes res) (Some ''Content-Type'') (Some MUPNP_SOAP_CONTENT_TYPE)\<rparr>)"

definition mupnp_control_soap_request_initializeenvelopenode :: "'u mUpnpSoapRequest \<Rightarrow> 'u mUpnpSoapRequest" where
  "mupnp_control_soap_request_initializeenvelopenode req =
     (let req = req\<lparr>reqRootNodeList := reqRootNodeList req @ [mupnp_soap_createenvelopebodynode]\<rparr>
      in req\<lparr>soapHttpReq := mupnp_http_packet_setheadervalue (soapHttpReq req) (Some ''Content-Type'') (Some MUPNP_SOAP_CONTENT_TYPE)\<rparr>)"

text \<open>
  Adding a node to the body of the first tree: the body of a request is found by its namespace,
  that of a response is the first child.  \<open>None\<close> is the crash when there is no body.
\<close>

definition add_to_child :: "mUpnpXmlNode list \<Rightarrow> nat option \<Rightarrow> mUpnpXmlNode \<Rightarrow> mUpnpXmlNode list option" where
  "add_to_child nodes i cnode =
     (case (nodes, i) of
        (env # rest, Some i) \<Rightarrow> Some (xml_replace_child env i (mupnp_xml_node_addchildnode (xnodes env ! i) cnode) # rest)
      | _ \<Rightarrow> None)"

definition soap_request_addbody :: "'u mUpnpSoapRequest \<Rightarrow> mUpnpXmlNode \<Rightarrow> 'u mUpnpSoapRequest option" where
  "soap_request_addbody req cnode =
     map_option (\<lambda>nodes. req\<lparr>reqRootNodeList := nodes\<rparr>)
       (add_to_child (reqRootNodeList req) (Option.bind (mupnp_soap_request_getenvelopenode req) soap_body_index) cnode)"

definition soap_response_addbody :: "mUpnpSoapResponse \<Rightarrow> mUpnpXmlNode \<Rightarrow> mUpnpSoapResponse option" where
  "soap_response_addbody res cnode =
     map_option (\<lambda>nodes. res\<lparr>resRootNodeList := nodes\<rparr>)
       (add_to_child (resRootNodeList res) (if mupnp_soap_response_getbodynode res = None then None else Some 0) cnode)"

definition mupnp_soap_request_createcontent :: "'u mUpnpSoapRequest \<Rightarrow> 'u mUpnpSoapRequest option" where
  "mupnp_soap_request_createcontent req =
     map_option (mupnp_soap_request_setcontent req) (mupnp_soap_request_getenvelopenode req)"

definition soap_response_createcontent :: "mUpnpSoapResponse \<Rightarrow> mUpnpSoapResponse option" where
  "soap_response_createcontent res =
     map_option (mupnp_soap_response_setcontent res) (mupnp_soap_response_getenvelopenode res)"

subsection \<open>Faults\<close>

definition mupnp_control_soap_response_createfaultresponsenode :: "int \<Rightarrow> charptr \<Rightarrow> mUpnpXmlNode" where
  "mupnp_control_soap_response_createfaultresponsenode errCode errDescr =
     (let faultNode = mupnp_xml_node_setname mupnp_xml_node_new (Some ''s:Fault'');
          faultNode = mupnp_xml_node_addchildnode faultNode (xml_leaf (Some ''faultcode'') (Some ''s:Client''));
          faultNode = mupnp_xml_node_addchildnode faultNode (xml_leaf (Some ''faultstring'') (Some ''UPnPError''));
          upnpErrorNode = mupnp_xml_node_setname mupnp_xml_node_new (Some ''UPnPError'');
          upnpErrorNode = xml_setattribute upnpErrorNode (Some ''xmlns'') (Some MUPNP_CONTROL_XMLNS);
          upnpErrorNode = mupnp_xml_node_addchildnode upnpErrorNode
            (xml_leaf (Some ''errorCode'') (Some (mupnp_int2str errCode MUPNP_STRING_INTEGER_BUFLEN)));
          upnpErrorNode = mupnp_xml_node_addchildnode upnpErrorNode (xml_leaf (Some ''errorDescription'') errDescr);
          detailNode = mupnp_xml_node_addchildnode (mupnp_xml_node_setname mupnp_xml_node_new (Some ''detail'')) upnpErrorNode
      in mupnp_xml_node_addchildnode faultNode detailNode)"

definition mupnp_control_soap_response_setfaultresponse :: "mUpnpSoapResponse \<Rightarrow> int \<Rightarrow> charptr \<Rightarrow> mUpnpSoapResponse option" where
  "mupnp_control_soap_response_setfaultresponse res errCode errDescr = do {
     let res = res\<lparr>soapHttpRes := mupnp_http_response_setstatuscode (soapHttpRes res) MUPNP_HTTP_STATUS_INTERNAL_SERVER_ERROR\<rparr>;
     let res = mupnp_control_soap_response_initializeenvelopenode res;
     res \<leftarrow> soap_response_addbody res (mupnp_control_soap_response_createfaultresponsenode errCode errDescr);
     soap_response_createcontent res }"

subsection \<open>Action requests\<close>

record mUpnpActionResponse =
  actResSoapRes :: mUpnpSoapResponse
  isSoapResCreated :: bool
  actResArgList :: "mUpnpArgument list"

record 'u mUpnpActionRequest =
  actSoapReq :: "'u mUpnpSoapRequest"
  isSoapReqCreated :: bool
  actReqArgList :: "mUpnpArgument list"
  actionRes :: mUpnpActionResponse

definition mupnp_control_action_response_new :: mUpnpActionResponse where
  "mupnp_control_action_response_new =
     \<lparr>actResSoapRes = mupnp_soap_response_new, isSoapResCreated = True, actResArgList = []\<rparr>"

definition mupnp_control_action_response_clear :: "mUpnpActionResponse \<Rightarrow> mUpnpActionResponse" where
  "mupnp_control_action_response_clear actRes =
     actRes\<lparr>actResSoapRes := mupnp_soap_response_new, isSoapResCreated := True, actResArgList := []\<rparr>"

definition mupnp_control_action_response_setsoapresponse :: "mUpnpActionResponse \<Rightarrow> mUpnpSoapResponse \<Rightarrow> mUpnpActionResponse" where
  "mupnp_control_action_response_setsoapresponse actRes res = actRes\<lparr>actResSoapRes := res, isSoapResCreated := False\<rparr>"

definition mupnp_control_action_request_new :: "'u mUpnpActionRequest" where
  "mupnp_control_action_request_new =
     \<lparr>actSoapReq = mupnp_soap_request_new, isSoapReqCreated = True, actReqArgList = [],
      actionRes = mupnp_control_action_response_new\<rparr>"

definition mupnp_control_action_request_clear :: "'u mUpnpActionRequest \<Rightarrow> 'u mUpnpActionRequest" where
  "mupnp_control_action_request_clear actReq =
     actReq\<lparr>actSoapReq := mupnp_soap_request_new, isSoapReqCreated := True, actReqArgList := []\<rparr>"

text \<open>The first child of the body, for requests and responses.\<close>

definition body_content :: "mUpnpXmlNode option \<Rightarrow> mUpnpXmlNode option" where
  "body_content bodyNode =
     (if bodyNode = None then None
      else if mupnp_xml_node_haschildnodes bodyNode = False then None
      else first_of (mupnp_xml_node_getchildnodes bodyNode))"

definition mupnp_control_action_request_getactionnode :: "'u mUpnpActionRequest \<Rightarrow> mUpnpXmlNode option" where
  "mupnp_control_action_request_getactionnode actReq = body_content (mupnp_soap_request_getbodynode (actSoapReq actReq))"

definition mupnp_control_action_request_getactionname :: "'u mUpnpActionRequest \<Rightarrow> charptr" where
  "mupnp_control_action_request_getactionname actReq =
     (case mupnp_control_action_request_getactionnode actReq of
        None \<Rightarrow> Some []
      | Some node \<Rightarrow>
          (case xname node of
             None \<Rightarrow> Some []
           | Some name \<Rightarrow>
               let urnDelimIdx = mupnp_strstr (Some name) (Some '':'')
               in if urnDelimIdx < 0 then Some [] else Some (drop (nat urnDelimIdx + 1) name)))"

text \<open>
  The argument nodes are those of the tree of the request: naming an argument adds a child to
  its node.  \<open>set_body_content\<close> puts the changed node back.
\<close>

definition set_body_content :: "'u mUpnpSoapRequest \<Rightarrow> mUpnpXmlNode \<Rightarrow> 'u mUpnpSoapRequest" where
  "set_body_content req node =
     (case reqRootNodeList req of [] \<Rightarrow> req
      | env # rest \<Rightarrow>
          (case soap_body_index env of None \<Rightarrow> req
           | Some i \<Rightarrow> req\<lparr>reqRootNodeList := xml_replace_child env i (xml_replace_child (xnodes env ! i) 0 node) # rest\<rparr>))"

definition named_argument_node :: "mUpnpXmlNode \<Rightarrow> mUpnpXmlNode" where
  "named_argument_node argNode = mupnp_xml_node_setchildnode argNode (Some ''name'') (xname argNode)"

definition request_argument :: "mUpnpXmlNode \<Rightarrow> mUpnpArgument" where
  "request_argument argNode =
     (let arg = mupnp_argument_setargumentnode mupnp_argument_new (named_argument_node argNode)
      in mupnp_argument_setvalue arg (xvalue argNode))"

definition mupnp_control_action_request_setsoaprequest ::
    "'u mUpnpActionRequest \<Rightarrow> 'u mUpnpSoapRequest \<Rightarrow> 'u mUpnpActionRequest option" where
  "mupnp_control_action_request_setsoaprequest actReq soapReq =
     (let actReq = actReq\<lparr>actSoapReq := soapReq, isSoapReqCreated := False, actReqArgList := []\<rparr> in
      case mupnp_control_action_request_getactionnode actReq of
        None \<Rightarrow> Some actReq
      | Some anode \<Rightarrow> do {
          let actReq = actReq\<lparr>actReqArgList := map request_argument (xnodes anode)\<rparr>;
          let anode = XmlNode (xname anode) (xvalue anode) (xattrs anode)
                             (map named_argument_node (xnodes anode));
          soapReq \<leftarrow> mupnp_soap_request_createcontent (set_body_content soapReq anode);
          Some (actReq\<lparr>actSoapReq := soapReq\<rparr>) })"

definition argument_nodes :: "(mUpnpArgument \<Rightarrow> bool) \<Rightarrow> mUpnpArgument list \<Rightarrow> mUpnpXmlNode \<Rightarrow> mUpnpXmlNode" where
  "argument_nodes dir args anode =
     foldl (\<lambda>anode arg.
         if dir arg = False then anode
         else mupnp_xml_node_addchildnode anode (xml_leaf (mupnp_argument_getname arg) (mupnp_argument_getvalue arg)))
       anode args"

definition mupnp_control_action_request_createactionnode :: "mUpnpService \<Rightarrow> mUpnpAction \<Rightarrow> mUpnpXmlNode" where
  "mupnp_control_action_request_createactionnode service action =
     (let nameWithNamespace = str_add (str_add None (Some ''u:'')) (mupnp_action_getname action);
          anode = mupnp_xml_node_setname mupnp_xml_node_new nameWithNamespace;
          anode = mupnp_xml_node_setnamespace anode ''u'' (mupnp_service_getservicetype service)
      in argument_nodes mupnp_argument_isindirection (argumentList action) anode)"

text \<open>The request goes to the control URL of the service, an argument.\<close>

definition mupnp_control_request_sethostfromservice :: "'u mUpnpSoapRequest \<Rightarrow> mUpnpNetURI \<Rightarrow> 'u mUpnpSoapRequest" where
  "mupnp_control_request_sethostfromservice req ctrlURL =
     (case mupnp_net_uri_getrequest ctrlURL of (ctrlURL, r) \<Rightarrow>
        req\<lparr>soapHttpReq := (mupnp_http_request_seturi (soapHttpReq req) r)\<lparr>postURL := ctrlURL\<rparr>\<rparr>)"

definition mupnp_control_action_request_setaction ::
    "'u mUpnpActionRequest \<Rightarrow> mUpnpService \<Rightarrow> mUpnpNetURI \<Rightarrow> mUpnpAction \<Rightarrow> 'u mUpnpActionRequest option" where
  "mupnp_control_action_request_setaction actReq service ctrlURL action = do {
     let soapAction = foldl str_add None [Some [CHR 0x22], mupnp_service_getservicetype service, Some ''#'',
                                          mupnp_action_getname action, Some [CHR 0x22]];
     let soapReq = actSoapReq actReq;
     let soapReq = soapReq\<lparr>soapHttpReq := mupnp_http_packet_setheadervalue (soapHttpReq soapReq) (Some ''SOAPACTION'') soapAction\<rparr>;
     let soapReq = mupnp_control_request_sethostfromservice soapReq ctrlURL;
     let soapReq = mupnp_control_soap_request_initializeenvelopenode soapReq;
     soapReq \<leftarrow> soap_request_addbody soapReq (mupnp_control_action_request_createactionnode service action);
     soapReq \<leftarrow> mupnp_soap_request_createcontent soapReq;
     Some (actReq\<lparr>actSoapReq := soapReq\<rparr>) }"

definition mupnp_control_action_request_post ::
    "expat \<Rightarrow> transport \<Rightarrow> 'u mUpnpActionRequest \<Rightarrow> 'u mUpnpActionRequest option" where
  "mupnp_control_action_request_post expat post actReq = do {
     let url = postURL (soapHttpReq (actSoapReq actReq));
     soapReq \<leftarrow> mupnp_soap_request_post expat post (actSoapReq actReq) (host url) (port url);
     Some (actReq\<lparr>actSoapReq := soapReq,
       actionRes := mupnp_control_action_response_setsoapresponse (actionRes actReq) (soapRes soapReq)\<rparr>) }"

subsection \<open>Action responses\<close>

text \<open>
  The name is put together in a buffer that \<open>strncat\<close> does not terminate for 128 characters or
  more; \<open>None\<close> is the read of what the stack held there, or of the NULL name.
\<close>

definition mupnp_control_action_response_createresponsenode :: "mUpnpService \<Rightarrow> mUpnpAction \<Rightarrow> mUpnpXmlNode option" where
  "mupnp_control_action_response_createresponsenode service action =
     (case mupnp_action_getname action of
        None \<Rightarrow> None
      | Some actionName \<Rightarrow>
          if MUPNP_ACTOINNAME_LEN_MAX \<le> length actionName then None
          else
            let resNode = mupnp_xml_node_setname mupnp_xml_node_new (Some (''u:'' @ actionName @ ''Response''));
                resNode = (if serviceNode service = None then resNode
                           else xml_setattribute resNode (Some ''xmlns:u'')
                             (mupnp_service_getservicetype (mupnp_service_setservicenode mupnp_service_new (serviceNode service))))
            in Some (argument_nodes mupnp_argument_isoutdirection (argumentList action) resNode))"

definition mupnp_control_action_response_setresponse ::
    "mUpnpActionResponse \<Rightarrow> mUpnpService \<Rightarrow> mUpnpAction \<Rightarrow> mUpnpActionResponse option" where
  "mupnp_control_action_response_setresponse actRes service action = do {
     let res = actResSoapRes actRes;
     let res = res\<lparr>soapHttpRes := mupnp_http_response_setstatuscode (soapHttpRes res) MUPNP_HTTP_STATUS_OK\<rparr>;
     let res = mupnp_control_soap_response_initializeenvelopenode res;
     resNode \<leftarrow> mupnp_control_action_response_createresponsenode service action;
     res \<leftarrow> soap_response_addbody res resNode;
     res \<leftarrow> soap_response_createcontent res;
     Some (actRes\<lparr>actResSoapRes := res\<rparr>) }"

definition mupnp_control_action_response_getactionresponsenode :: "mUpnpActionResponse \<Rightarrow> mUpnpXmlNode option" where
  "mupnp_control_action_response_getactionresponsenode actRes = body_content (mupnp_soap_response_getbodynode (actResSoapRes actRes))"

definition mupnp_control_action_response_getresult :: "mUpnpActionResponse \<Rightarrow> mUpnpAction \<Rightarrow> bool \<times> mUpnpAction" where
  "mupnp_control_action_response_getresult actRes action =
     (case mupnp_control_action_response_getactionresponsenode actRes of
        None \<Rightarrow> (False, action)
      | Some resNode \<Rightarrow>
          (True, foldl (\<lambda>action argNode.
              case mupnp_action_getargumentbyname action (xname argNode) of
                None \<Rightarrow> action
              | Some i \<Rightarrow> action\<lparr>argumentList := (argumentList action)[i := mupnp_argument_setvalue (argumentList action ! i) (xvalue argNode)]\<rparr>)
            action (mupnp_xml_node_getchildnodes (Some resNode))))"

definition xml_child_local :: "mUpnpXmlNode option \<Rightarrow> charptr \<Rightarrow> mUpnpXmlNode option" where
  "xml_child_local node name =
     map_option (\<lambda>i. mupnp_xml_node_getchildnodes node ! i) (mupnp_xml_node_getchildnodewithnamespace node name None True)"

definition mupnp_control_action_response_geterror :: "mUpnpActionResponse \<Rightarrow> mUpnpAction \<Rightarrow> bool \<times> mUpnpAction" where
  "mupnp_control_action_response_geterror actRes action =
     (let resNode = mupnp_control_action_response_getactionresponsenode actRes in
      if resNode = None then (False, action)
      else let upnpErrorNode = xml_child_local resNode (Some ''detail'') in
      if upnpErrorNode = None then (False, action)
      else let upnpErrorNode = xml_child_local upnpErrorNode (Some ''UPnPError'') in
      if upnpErrorNode = None then (False, action)
      else let errDesc = Option.bind (xml_child_local upnpErrorNode (Some ''errorDescription'')) xvalue;
               errCode = Option.bind (xml_child_local upnpErrorNode (Some ''errorCode'')) xvalue in
      if errCode = None then (False, action)
      else (True, mupnp_action_setstatuscode (mupnp_action_setstatusdescription action errDesc) (mupnp_str2int errCode)))"

subsection \<open>Performing and posting actions\<close>

definition mupnp_action_clearoutputargumentvalues :: "mUpnpAction \<Rightarrow> mUpnpAction" where
  "mupnp_action_clearoutputargumentvalues action =
     action\<lparr>argumentList := map (\<lambda>arg. if mupnp_argument_isoutdirection arg = True then mupnp_argument_setvalue arg (Some []) else arg)
                             (argumentList action)\<rparr>"

definition mupnp_action_performlistner ::
    "action_listeners \<Rightarrow> mUpnpService \<Rightarrow> mUpnpAction \<Rightarrow> (bool \<times> mUpnpAction \<times> mUpnpHttpResponse list) option" where
  "mupnp_action_performlistner listeners service action =
     (case actionListener action of
        None \<Rightarrow> Some (False, action, [])
      | Some listener \<Rightarrow> do {
          let actRes = mupnp_control_action_response_new;
          let action = mupnp_action_setstatuscode action MUPNP_STATUS_INVALID_ACTION;
          let action = mupnp_action_setstatusdescription action (Some (mupnp_status_code2string MUPNP_STATUS_INVALID_ACTION));
          let action = mupnp_action_clearoutputargumentvalues action;
          let (ok, action) = listeners listener action;
          actRes \<leftarrow> (if ok = True then mupnp_control_action_response_setresponse actRes service action
                     else map_option (\<lambda>res. actRes\<lparr>actResSoapRes := res\<rparr>)
                       (mupnp_control_soap_response_setfaultresponse (actResSoapRes actRes)
                         (stCode (actionStatus action)) (stDescription (actionStatus action))));
          Some (True, action, [soapHttpRes (actResSoapRes actRes)]) })"

definition mupnp_action_post ::
    "expat \<Rightarrow> transport \<Rightarrow> mUpnpService \<Rightarrow> mUpnpNetURI \<Rightarrow> mUpnpAction \<Rightarrow> (bool \<times> mUpnpAction) option" where
  "mupnp_action_post expat post service ctrlURL action = do {
     actReq \<leftarrow> mupnp_control_action_request_setaction (mupnp_control_action_request_new :: unit mUpnpActionRequest) service ctrlURL action;
     actReq \<leftarrow> mupnp_control_action_request_post expat post actReq;
     let actRes = actionRes actReq;
     let actionSuccess = mupnp_http_response_issuccessful (soapHttpRes (actResSoapRes actRes));
     if actionSuccess = True
     then (case mupnp_control_action_response_getresult actRes (mupnp_action_setstatuscode action 0) of
             (ok, action) \<Rightarrow> Some (if ok = False then (False, action) else (True, action)))
     else Some (actionSuccess, snd (mupnp_control_action_response_geterror actRes action)) }"

subsection \<open>Queries\<close>

record mUpnpQueryResponse =
  queryResSoapRes :: mUpnpSoapResponse
  isQuerySoapResCreated :: bool

record 'u mUpnpQueryRequest =
  querySoapReq :: "'u mUpnpSoapRequest"
  isQuerySoapReqCreated :: bool
  queryRes :: mUpnpQueryResponse

definition mupnp_control_query_response_new :: mUpnpQueryResponse where
  "mupnp_control_query_response_new = \<lparr>queryResSoapRes = mupnp_soap_response_new, isQuerySoapResCreated = True\<rparr>"

definition mupnp_control_query_response_clear :: "mUpnpQueryResponse \<Rightarrow> mUpnpQueryResponse" where
  "mupnp_control_query_response_clear res = res\<lparr>queryResSoapRes := mupnp_soap_response_new, isQuerySoapResCreated := True\<rparr>"

definition mupnp_control_query_response_setsoapresponse :: "mUpnpQueryResponse \<Rightarrow> mUpnpSoapResponse \<Rightarrow> mUpnpQueryResponse" where
  "mupnp_control_query_response_setsoapresponse res soap = res\<lparr>queryResSoapRes := soap, isQuerySoapResCreated := False\<rparr>"

definition mupnp_control_query_request_new :: "'u mUpnpQueryRequest" where
  "mupnp_control_query_request_new =
     \<lparr>querySoapReq = mupnp_soap_request_new, isQuerySoapReqCreated = True, queryRes = mupnp_control_query_response_new\<rparr>"

definition mupnp_control_query_request_clear :: "'u mUpnpQueryRequest \<Rightarrow> 'u mUpnpQueryRequest" where
  "mupnp_control_query_request_clear queryReq = queryReq\<lparr>querySoapReq := mupnp_soap_request_new, isQuerySoapReqCreated := True\<rparr>"

definition mupnp_control_query_request_setsoaprequest :: "'u mUpnpQueryRequest \<Rightarrow> 'u mUpnpSoapRequest \<Rightarrow> 'u mUpnpQueryRequest" where
  "mupnp_control_query_request_setsoaprequest queryReq soapReq = queryReq\<lparr>querySoapReq := soapReq, isQuerySoapReqCreated := False\<rparr>"

definition mupnp_control_query_request_getvarnamenode :: "'u mUpnpQueryRequest \<Rightarrow> mUpnpXmlNode option" where
  "mupnp_control_query_request_getvarnamenode queryReq =
     body_content (body_content (mupnp_soap_request_getbodynode (querySoapReq queryReq)))"

definition mupnp_control_query_request_getvarname :: "'u mUpnpQueryRequest \<Rightarrow> charptr" where
  "mupnp_control_query_request_getvarname queryReq =
     (case mupnp_control_query_request_getvarnamenode queryReq of None \<Rightarrow> Some [] | Some node \<Rightarrow> xvalue node)"

definition mupnp_control_query_request_cratestatevariablenode :: "mUpnpStateVariable \<Rightarrow> mUpnpXmlNode" where
  "mupnp_control_query_request_cratestatevariablenode statVar =
     (let queryVarNode = mupnp_xml_node_setname mupnp_xml_node_new (Some ''u:QueryStateVariable'');
          queryVarNode = mupnp_xml_node_setnamespace queryVarNode ''u'' (Some MUPNP_CONTROL_XMLNS)
      in mupnp_xml_node_addchildnode queryVarNode (xml_leaf (Some ''u:varName'') (mupnp_statevariable_getname statVar)))"

definition mupnp_control_query_request_setstatevariable ::
    "'u mUpnpQueryRequest \<Rightarrow> mUpnpNetURI \<Rightarrow> mUpnpStateVariable \<Rightarrow> 'u mUpnpQueryRequest option" where
  "mupnp_control_query_request_setstatevariable queryReq ctrlURL statVar = do {
     let soapReq = querySoapReq queryReq;
     let soapReq = soapReq\<lparr>soapHttpReq := mupnp_http_packet_setheadervalue (soapHttpReq soapReq) (Some ''SOAPACTION'')
                                             (Some MUPNP_CONTROL_QUERY_SOAPACTION)\<rparr>;
     let soapReq = mupnp_control_request_sethostfromservice soapReq ctrlURL;
     let soapReq = mupnp_control_soap_request_initializeenvelopenode soapReq;
     soapReq \<leftarrow> soap_request_addbody soapReq (mupnp_control_query_request_cratestatevariablenode statVar);
     soapReq \<leftarrow> mupnp_soap_request_createcontent soapReq;
     Some (queryReq\<lparr>querySoapReq := soapReq\<rparr>) }"

definition mupnp_control_query_request_post :: "expat \<Rightarrow> transport \<Rightarrow> 'u mUpnpQueryRequest \<Rightarrow> 'u mUpnpQueryRequest option" where
  "mupnp_control_query_request_post expat post queryReq = do {
     let url = postURL (soapHttpReq (querySoapReq queryReq));
     soapReq \<leftarrow> mupnp_soap_request_post expat post (querySoapReq queryReq) (host url) (port url);
     Some (queryReq\<lparr>querySoapReq := soapReq,
       queryRes := mupnp_control_query_response_setsoapresponse (queryRes queryReq) (soapRes soapReq)\<rparr>) }"

definition mupnp_control_query_response_createresponsenode :: "mUpnpStateVariable \<Rightarrow> mUpnpXmlNode" where
  "mupnp_control_query_response_createresponsenode statVar =
     (let queryResNode = mupnp_xml_node_setname mupnp_xml_node_new (Some ''u:QueryStateVariableResponse'');
          queryResNode = mupnp_xml_node_setnamespace queryResNode ''u'' (Some MUPNP_CONTROL_XMLNS)
      in mupnp_xml_node_addchildnode queryResNode (xml_leaf (Some ''return'') (mupnp_statevariable_getvalue statVar)))"

definition mupnp_control_query_response_setresponse :: "mUpnpQueryResponse \<Rightarrow> mUpnpStateVariable \<Rightarrow> mUpnpQueryResponse option" where
  "mupnp_control_query_response_setresponse qres statVar = do {
     let res = queryResSoapRes qres;
     let res = res\<lparr>soapHttpRes := mupnp_http_response_setstatuscode (soapHttpRes res) MUPNP_HTTP_STATUS_OK\<rparr>;
     let res = mupnp_control_soap_response_initializeenvelopenode res;
     res \<leftarrow> soap_response_addbody res (mupnp_control_query_response_createresponsenode statVar);
     res \<leftarrow> soap_response_createcontent res;
     Some (qres\<lparr>queryResSoapRes := res\<rparr>) }"

definition mupnp_control_query_response_getreturnnode :: "mUpnpQueryResponse \<Rightarrow> mUpnpXmlNode option" where
  "mupnp_control_query_response_getreturnnode qres =
     body_content (body_content (mupnp_soap_response_getbodynode (queryResSoapRes qres)))"

definition mupnp_control_query_response_getreturnvalue :: "mUpnpQueryResponse \<Rightarrow> charptr" where
  "mupnp_control_query_response_getreturnvalue qres =
     (case mupnp_control_query_response_getreturnnode qres of None \<Rightarrow> Some [] | Some returnNode \<Rightarrow> xvalue returnNode)"

text \<open>
  \<open>mupnp_statevariable_setvalue\<close> is \<open>mupnp_statevariable_setvaluewithnotify\<close> with notification; it
  works on the variable number \<open>i\<close> of the service.
\<close>

definition mupnp_statevariable_performlistner ::
    "gena_env \<Rightarrow> int \<Rightarrow> query_listeners \<Rightarrow> mUpnpService \<Rightarrow> nat \<Rightarrow> (bool \<times> mUpnpService \<times> mUpnpHttpResponse list) option" where
  "mupnp_statevariable_performlistner E now listeners service i =
     (let statVar = serviceStateTable service ! i in
      case svListener statVar of
        None \<Rightarrow> Some (False, service, [])
      | Some listener \<Rightarrow> do {
          let res = mupnp_control_query_response_new;
          let statVar = mupnp_statevariable_setstatuscode statVar MUPNP_STATUS_INVALID_ACTION;
          let statVar = mupnp_statevariable_setstatusdescription statVar (Some (mupnp_status_code2string MUPNP_STATUS_INVALID_ACTION));
          let service = service\<lparr>serviceStateTable := (serviceStateTable service)[i := statVar]\<rparr>;
          service \<leftarrow> mupnp_statevariable_setvaluewithnotify E now service i (Some []) True;
          let (ok, statVar) = listeners listener (serviceStateTable service ! i);
          let service = service\<lparr>serviceStateTable := (serviceStateTable service)[i := statVar]\<rparr>;
          res \<leftarrow> (if ok = True then mupnp_control_query_response_setresponse res statVar
                  else map_option (\<lambda>soap. res\<lparr>queryResSoapRes := soap\<rparr>)
                    (mupnp_control_soap_response_setfaultresponse (queryResSoapRes res)
                      (stCode (svStatus statVar)) (stDescription (svStatus statVar))));
          Some (True, service, [soapHttpRes (queryResSoapRes res)]) })"

definition mupnp_statevariable_post ::
    "gena_env \<Rightarrow> int \<Rightarrow> transport \<Rightarrow> mUpnpNetURI \<Rightarrow> mUpnpService \<Rightarrow> nat \<Rightarrow> (bool \<times> mUpnpService) option" where
  "mupnp_statevariable_post E now post ctrlURL service i = do {
     queryReq \<leftarrow> mupnp_control_query_request_setstatevariable (mupnp_control_query_request_new :: unit mUpnpQueryRequest)
                   ctrlURL (serviceStateTable service ! i);
     queryReq \<leftarrow> mupnp_control_query_request_post (xml_parser E) post queryReq;
     let querySuccess = mupnp_http_response_issuccessful (soapHttpRes (queryResSoapRes (queryRes queryReq)));
     service \<leftarrow> mupnp_statevariable_setvaluewithnotify E now service i
       (if querySuccess = True then mupnp_control_query_response_getreturnvalue (queryRes queryReq) else Some []) True;
     Some (querySuccess, service) }"

subsection \<open>The control requests of a service on the device\<close>

definition mupnp_control_isqueryrequest :: "mUpnpHttpRequest \<Rightarrow> bool" where
  "mupnp_control_isqueryrequest httpReq \<longleftrightarrow>
     0 \<le> mupnp_strstr (mupnp_http_packet_getheadervalue httpReq (Some ''SOAPACTION'')) (Some MUPNP_CONTROL_QUERY_SOAPACTION) \<or>
     0 \<le> mupnp_strstr (mupnp_http_packet_getheadervalue httpReq (Some ''01-SOAPACTION'')) (Some MUPNP_CONTROL_QUERY_SOAPACTION)"

definition mupnp_control_isactionrequest :: "mUpnpHttpRequest \<Rightarrow> bool" where
  "mupnp_control_isactionrequest httpReq = (if mupnp_control_isqueryrequest httpReq = True then False else True)"

definition mupnp_device_invalidcontrolrecieved :: "int \<Rightarrow> mUpnpHttpResponse option" where
  "mupnp_device_invalidcontrolrecieved code =
     map_option soapHttpRes (mupnp_control_soap_response_setfaultresponse mupnp_soap_response_new code (Some (mupnp_status_code2string code)))"

definition mupnp_device_actioncontrolrequestrecieved ::
    "action_listeners \<Rightarrow> mUpnpService \<Rightarrow> 'u mUpnpActionRequest \<Rightarrow> (mUpnpService \<times> mUpnpHttpResponse list) option" where
  "mupnp_device_actioncontrolrequestrecieved listeners service actReq =
     (case mupnp_service_getactionbyname service (mupnp_control_action_request_getactionname actReq) of
        None \<Rightarrow> map_option (\<lambda>res. (service, [res])) (mupnp_device_invalidcontrolrecieved MUPNP_STATUS_INVALID_ACTION)
      | Some i \<Rightarrow> do {
          let action = actionList service ! i;
          let action = action\<lparr>argumentList := mupnp_argumentlist_set (argumentList action) (actReqArgList actReq)\<rparr>;
          (ok, action, posted) \<leftarrow> mupnp_action_performlistner listeners service action;
          let service = service\<lparr>actionList := (actionList service)[i := action]\<rparr>;
          if ok = False
          then map_option (\<lambda>res. (service, posted @ [res])) (mupnp_device_invalidcontrolrecieved MUPNP_STATUS_INVALID_ACTION)
          else Some (service, posted) })"

definition mupnp_device_querycontrolrequestrecieved ::
    "gena_env \<Rightarrow> int \<Rightarrow> query_listeners \<Rightarrow> mUpnpService \<Rightarrow> 'u mUpnpQueryRequest \<Rightarrow> (mUpnpService \<times> mUpnpHttpResponse list) option" where
  "mupnp_device_querycontrolrequestrecieved E now listeners service queryReq =
     (case mupnp_service_getstatevariablebyname service (mupnp_control_query_request_getvarname queryReq) of
        None \<Rightarrow> map_option (\<lambda>res. (service, [res])) (mupnp_device_invalidcontrolrecieved MUPNP_STATUS_INVALID_VAR)
      | Some i \<Rightarrow> do {
          (ok, service, posted) \<leftarrow> mupnp_statevariable_performlistner E now listeners service i;
          if ok = False
          then map_option (\<lambda>res. (service, posted @ [res])) (mupnp_device_invalidcontrolrecieved MUPNP_STATUS_INVALID_VAR)
          else Some (service, posted) })"

definition mupnp_device_controlrequestrecieved ::
    "gena_env \<Rightarrow> int \<Rightarrow> action_listeners \<Rightarrow> query_listeners \<Rightarrow> mUpnpService \<Rightarrow> 'u mUpnpSoapRequest \<Rightarrow>
     (mUpnpService \<times> mUpnpHttpResponse list) option" where
  "mupnp_device_controlrequestrecieved E now listeners queries service soapReq =
     (if mupnp_control_isqueryrequest (soapHttpReq soapReq) = True
      then mupnp_device_querycontrolrequestrecieved E now queries service
             (mupnp_control_query_request_setsoaprequest mupnp_control_query_request_new soapReq)
      else Option.bind (mupnp_control_action_request_setsoaprequest mupnp_control_action_request_new soapReq)
             (mupnp_device_actioncontrolrequestrecieved listeners service))"

end
