(* ===== verification/Replies.thy ===== *)
theory Replies
  imports Control
begin

section \<open>The answers of a service\<close>

text \<open>
  What the handlers of a service answer to the requests a device passes on to them: the status
  lines and lengths of their responses, the service they leave behind, and when they come to an
  end at all.
\<close>

subsection \<open>Well-formed responses\<close>

text \<open>A version, the reason of the status, and a Content-Length that is the length of the content.\<close>

definition reply_ok :: "int set \<Rightarrow> mUpnpHttpResponse \<Rightarrow> bool" where
  "reply_ok codes res \<longleftrightarrow>
     statusCode res \<in> codes \<and> resVersion res = Some MUPNP_HTTP_VER11 \<and>
     reasonPhrase res = Some (mupnp_http_statuscode2reasonphrase (statusCode res)) \<and>
     (int (length (str_bytes (content res))) < LONG_MAX \<longrightarrow>
        mupnp_http_packet_getcontentlength res = int (length (str_bytes (content res))))"

text \<open>The same while a response is built: nothing but the length is open.\<close>

definition reply_base :: "int \<Rightarrow> mUpnpHttpResponse \<Rightarrow> bool" where
  "reply_base code res \<longleftrightarrow>
     headers_inv (headerList res) \<and> statusCode res = code \<and> resVersion res = Some MUPNP_HTTP_VER11 \<and>
     reasonPhrase res = Some (mupnp_http_statuscode2reasonphrase code)"

lemma headerlist_set_inv: "headers_inv hs \<Longrightarrow> nul_free k \<Longrightarrow> headers_inv (mupnp_http_headerlist_set hs (Some k) (Some v))"
  using http_headers.inv_store [of hs k v] by (simp add: header_store_def)

lemma base_status [simp]: "reply_base code (mupnp_http_response_setstatuscode mupnp_http_response_new code)"
  by (simp add: reply_base_def mupnp_http_response_setstatuscode_def mupnp_http_response_setreasonphrase_def
      mupnp_http_response_new_def mupnp_http_response_setversion_def mupnp_http_headerlist_new_def)

lemma base_header [simp]:
  "reply_base code res \<Longrightarrow> nul_free k \<Longrightarrow> reply_base code (mupnp_http_packet_setheadervalue res (Some k) (Some v))"
  by (simp add: reply_base_def mupnp_http_packet_setheadervalue_def headerlist_set_inv)

lemma base_content [simp]: "reply_base code (res\<lparr>content := c\<rparr>) = reply_base code res"
  "reply_base code (mupnp_http_packet_appendncontent res b) = reply_base code res"
  by (simp_all add: reply_base_def mupnp_http_packet_appendncontent_def)

text \<open>The length comes last, or before fields of other names.\<close>

lemma length_set:
  assumes "int n < LONG_MAX"
  shows "mupnp_http_packet_getcontentlength (mupnp_http_packet_setcontentlength p (int n)) = int n"
  using assms by (intro contentlength_shown) (simp_all add: contentlength_field)

lemma setcontentlength_value:
  obtains v where "mupnp_http_packet_setcontentlength p n = mupnp_http_packet_setheadervalue p (Some ''Content-Length'') (Some v)"
  by (simp add: mupnp_http_packet_setcontentlength_def mupnp_http_packet_setheaderssizet_def)

lemma reply_set:
  assumes "reply_base code res" and "code \<in> codes" and "n = int (length (str_bytes (content res)))"
  shows "reply_ok codes (mupnp_http_packet_setcontentlength res n)"
    and "reply_base code (mupnp_http_packet_setcontentlength res n)"
    and "content (mupnp_http_packet_setcontentlength res n) = content res"
proof -
  obtain v where v: "mupnp_http_packet_setcontentlength res n = mupnp_http_packet_setheadervalue res (Some ''Content-Length'') (Some v)"
    by (rule setcontentlength_value)
  show base: "reply_base code (mupnp_http_packet_setcontentlength res n)"
    and "content (mupnp_http_packet_setcontentlength res n) = content res" using assms(1) by (simp_all add: v nul_free_def)
  then show "reply_ok codes (mupnp_http_packet_setcontentlength res n)"
    using length_set [of "length (str_bytes (content res))" res] assms(2,3) by (simp add: reply_ok_def reply_base_def)
qed

lemma reply_header:
  assumes "reply_ok codes res" and "reply_base code res" and "nul_free k" and "map c_tolower k \<noteq> map c_tolower ''Content-Length''"
  shows "reply_ok codes (mupnp_http_packet_setheadervalue res (Some k) (Some v))"
proof -
  have "mupnp_http_packet_getcontentlength (mupnp_http_packet_setheadervalue res (Some k) (Some v)) =
      mupnp_http_packet_getcontentlength res"
    using getvalue_set_other [OF _ assms(3) _ assms(4), of "headerList res" v] assms(2)
    by (simp add: mupnp_http_packet_getcontentlength_def mupnp_http_packet_getheaderssizet_def
        mupnp_http_packet_getheadervalue_def mupnp_http_packet_setheadervalue_def reply_base_def nul_free_def)
  with assms(1) show ?thesis
    by (simp add: reply_ok_def mupnp_http_packet_setheadervalue_def)
qed

lemma reply_mono: "reply_ok codes res \<Longrightarrow> codes \<subseteq> codes' \<Longrightarrow> reply_ok codes' res"
  by (auto simp: reply_ok_def)


subsection \<open>The responses of the handlers\<close>

lemma bad_subscription_ok: "reply_ok {code} (mupnp_device_badsubscriptionrecieved code)"
proof -
  have "mupnp_http_packet_getcontentlength (mupnp_device_badsubscriptionrecieved code) = 0"
    by (simp add: mupnp_device_badsubscriptionrecieved_def mupnp_http_packet_getcontentlength_def mupnp_http_packet_getheaderssizet_def
        mupnp_http_packet_getheadervalue_def mupnp_http_headerlist_getvalue_def mupnp_http_headerlist_get_def
        mupnp_http_response_setstatuscode_def mupnp_http_response_setreasonphrase_def mupnp_http_response_new_def
        mupnp_http_response_setversion_def mupnp_http_headerlist_new_def)
  moreover have "content (mupnp_device_badsubscriptionrecieved code) = None"
    by (simp add: mupnp_device_badsubscriptionrecieved_def mupnp_http_response_setstatuscode_def mupnp_http_response_setreasonphrase_def)
  ultimately show ?thesis
    using base_status [of code] by (simp add: reply_ok_def reply_base_def mupnp_device_badsubscriptionrecieved_def)
qed

lemma content_status [simp]: "content (mupnp_http_response_setstatuscode res code) = content res"
  by (simp add: mupnp_http_response_setstatuscode_def mupnp_http_response_setreasonphrase_def)

lemma setresponse_ok:
  "reply_ok {code} (mupnp_event_subscription_subscriberesponse_setresponse server mupnp_http_response_new code)"
  "reply_base code (mupnp_event_subscription_subscriberesponse_setresponse server mupnp_http_response_new code)"
  using reply_set(1,2) [of code "mupnp_http_packet_setheadervalue (mupnp_http_response_setstatuscode mupnp_http_response_new code)
      (Some ''Server'') (Some server)" "{code}" 0]
  by (simp_all add: mupnp_event_subscription_subscriberesponse_setresponse_def Let_def nul_free_def)

lemma str_add_text: "str_bytes v \<noteq> [] \<or> s \<noteq> None \<Longrightarrow> \<exists>t. str_add s v = Some t"
  by (auto simp: str_add_def)

lemma sid_header_text: obtains v where "sid_header sid = Some v"
proof (cases "str_bytes sid")
  case Nil
  have "c_strstr [] MUPNP_ST_UUID_DEVICE = None" by code_simp
  with Nil that show thesis by (cases sid) (simp_all add: sid_header_def str_add_def Let_def)
next
  case (Cons c cs)
  then show thesis using that str_add_text [of sid] by (auto simp: sid_header_def Let_def)
qed

lemma accepted_ok: "reply_ok {200} (accepted E sid timeout)"
proof -
  obtain v where v: "sid_header sid = Some v" by (rule sid_header_text)
  obtain t where t: "mupnp_event_subscription_totimeoutheaderstring timeout None = Some t"
    using str_add_text [of "Some (mupnp_long2str timeout MUPNP_STRING_LONG_BUFLEN)" "Some MUPNP_SUBSCRIPTION_TIMEOUT_HEADER"]
    by (cases "timeout = MUPNP_SUBSCRIPTION_INFINITE_VALUE") (auto simp: mupnp_event_subscription_totimeoutheaderstring_def)
  define r where "r = mupnp_event_subscription_subscriberesponse_setresponse (server_name E) mupnp_http_response_new 200"
  have r: "reply_ok {200} r" "reply_base 200 r" by (simp_all add: r_def setresponse_ok)
  have "reply_ok {200} (mupnp_http_packet_setheadervalue r (Some ''SID'') (Some v))"
    by (rule reply_header [OF r]) (simp_all add: nul_free_def lower)
  moreover have "reply_base 200 (mupnp_http_packet_setheadervalue r (Some ''SID'') (Some v))"
    by (rule base_header [OF r(2)]) (simp add: nul_free_def)
  ultimately have "reply_ok {200} (mupnp_http_packet_setheadervalue
      (mupnp_http_packet_setheadervalue r (Some ''SID'') (Some v)) (Some ''TIMEOUT'') (Some t))"
    by (rule reply_header) (simp_all add: nul_free_def lower)
  then show ?thesis
    by (simp add: accepted_def mupnp_event_subscription_response_settimeout_def mupnp_event_subscription_response_setsid_def
        v t r_def MUPNP_HTTP_STATUS_OK_def)
qed

lemma setattribute_node: "xml_setattribute (XmlNode n v as cs) k w = XmlNode n v (snd (mupnp_xml_attributelist_set as k w)) cs"
  by (simp add: xml_setattribute_def split_beta)

text \<open>Every answer of control is an envelope with one node in its body.\<close>

lemma envelope_reply:
  "\<exists>res. Option.bind (soap_response_addbody (mupnp_control_soap_response_initializeenvelopenode
       (mupnp_soap_response_new\<lparr>soapHttpRes := mupnp_http_response_setstatuscode (soapHttpRes mupnp_soap_response_new) code\<rparr>)) node)
     soap_response_createcontent = Some res \<and> reply_ok {code} (soapHttpRes res)"
proof -
  have "reply_ok {code} (soap_content (mupnp_http_packet_setheadervalue
      (mupnp_http_response_setstatuscode mupnp_http_response_new code) (Some ''Content-Type'') (Some MUPNP_SOAP_CONTENT_TYPE)) n)" for n
    unfolding soap_content_def Let_def by (rule reply_set(1)) (simp_all add: nul_free_def)
  moreover obtain as where env: "mupnp_soap_createenvelopebodynode =
      XmlNode (Some ''s:Envelope'') None as [XmlNode (Some ''s:Body'') None [] []]"
    by (simp add: mupnp_soap_createenvelopebodynode_def setattribute_node mupnp_xml_node_new_def Let_def)
  ultimately show ?thesis
    by (simp add: soap_response_addbody_def soap_response_createcontent_def add_to_child_def mupnp_soap_response_getbodynode_def
        mupnp_soap_response_getenvelopenode_def mupnp_control_soap_response_initializeenvelopenode_def Let_def
        mupnp_soap_response_new_def mupnp_soap_response_setcontent_def mupnp_xml_node_haschildnodes_def
        mupnp_xml_node_getchildnodes_def env)
qed

lemma fault_reply:
  obtains res where "mupnp_control_soap_response_setfaultresponse mupnp_soap_response_new c d = Some res"
    and "reply_ok {500} (soapHttpRes res)"
  using envelope_reply [of 500 "mupnp_control_soap_response_createfaultresponsenode c d"]
  by (auto simp: mupnp_control_soap_response_setfaultresponse_def Let_def MUPNP_HTTP_STATUS_INTERNAL_SERVER_ERROR_def
      bind_eq_Some_conv)

lemma invalid_control_reply:
  obtains res where "mupnp_device_invalidcontrolrecieved code = Some res" and "reply_ok {500} res"
  by (rule fault_reply [of code "Some (mupnp_status_code2string code)"]) (simp add: mupnp_device_invalidcontrolrecieved_def)

lemma query_reply:
  obtains qres where "mupnp_control_query_response_setresponse mupnp_control_query_response_new statVar = Some qres"
    and "reply_ok {200} (soapHttpRes (queryResSoapRes qres))"
  using envelope_reply [of 200 "mupnp_control_query_response_createresponsenode statVar"]
  by (auto simp: mupnp_control_query_response_setresponse_def mupnp_control_query_response_new_def Let_def MUPNP_HTTP_STATUS_OK_def
      bind_eq_Some_conv)

lemma action_reply:
  assumes "mupnp_action_getname action = Some n" and "length n < MUPNP_ACTOINNAME_LEN_MAX"
  obtains actRes where "mupnp_control_action_response_setresponse mupnp_control_action_response_new service action = Some actRes"
    and "reply_ok {200} (soapHttpRes (actResSoapRes actRes))"
proof -
  obtain node where "mupnp_control_action_response_createresponsenode service action = Some node"
    using assms by (simp add: mupnp_control_action_response_createresponsenode_def Let_def)
  then show thesis
    using envelope_reply [of 200 node] that
    by (auto simp: mupnp_control_action_response_setresponse_def mupnp_control_action_response_new_def Let_def MUPNP_HTTP_STATUS_OK_def
        bind_eq_Some_conv)
qed

lemma action_reply_ok:
  assumes "mupnp_control_action_response_setresponse mupnp_control_action_response_new service action = Some actRes"
  shows "reply_ok {200} (soapHttpRes (actResSoapRes actRes))"
proof -
  obtain n where "mupnp_action_getname action = Some n" "length n < MUPNP_ACTOINNAME_LEN_MAX"
    using assms by (cases "mupnp_action_getname action")
      (auto simp: mupnp_control_action_response_setresponse_def mupnp_control_action_response_createresponsenode_def Let_def
        split: if_splits)
  then obtain a where "mupnp_control_action_response_setresponse mupnp_control_action_response_new service action = Some a"
    "reply_ok {200} (soapHttpRes (actResSoapRes a))"
    by (rule action_reply)
  with assms show ?thesis by simp
qed


subsection \<open>One answer, and the service it leaves\<close>

text \<open>
  A request changes the run-time state of a service, never its description, its actions or its
  variables as such.
\<close>

definition same_identity :: "mUpnpService \<Rightarrow> mUpnpService \<Rightarrow> bool" where
  "same_identity s t \<longleftrightarrow> serviceNode s = serviceNode t \<and> scpdNodeList s = scpdNodeList t \<and>
     length (actionList s) = length (actionList t) \<and> length (serviceStateTable s) = length (serviceStateTable t)"

lemma same_identity_refl [simp]: "same_identity s s"
  by (simp add: same_identity_def)

lemma same_identity_trans [trans]: "same_identity s t \<Longrightarrow> same_identity t u \<Longrightarrow> same_identity s u"
  by (simp add: same_identity_def)

definition answers :: "int set \<Rightarrow> mUpnpService \<Rightarrow> mUpnpService \<times> mUpnpHttpResponse list \<Rightarrow> bool" where
  "answers codes service = (\<lambda>(service', replies).
     same_identity service service' \<and> (\<exists>res. replies = [res] \<and> reply_ok codes res))"

lemma notifymain_identity: "mupnp_service_notifymain E now s v = Some s' \<Longrightarrow> same_identity s s'"
  by (auto simp: mupnp_service_notifymain_def same_identity_def Let_def bind_eq_Some_conv)

lemma notify_each_identity: "notify_each E now s svs = Some s' \<Longrightarrow> same_identity s s'"
proof (induction svs arbitrary: s)
  case (Cons sv svs)
  then show ?case
    by (auto simp: bind_eq_Some_conv mupnp_service_notify_def split: if_splits
        dest: notifymain_identity intro: same_identity_trans)
qed simp

lemma setvalue_identity:
  "mupnp_statevariable_setvaluewithnotify E now s i v b = Some s' \<Longrightarrow> same_identity s s'"
  by (auto simp: mupnp_statevariable_setvaluewithnotify_def mupnp_service_notify_def Let_def same_identity_def split: if_splits
      dest!: notifymain_identity)

lemma notifythread_identity: "mupnp_service_createnotifyallthread E later running s = Some s' \<Longrightarrow> same_identity s s'"
  by (auto simp: mupnp_service_createnotifyallthread_def mupnp_service_notifyall_def split: if_splits
      dest: notifymain_identity notify_each_identity)

lemma accepted_answer:
  fixes E :: gena_env
  shows "reply_ok {200, 400, 412} (mupnp_event_subscription_response_settimeout
    (mupnp_event_subscription_response_setsid (mupnp_event_subscription_subscriberesponse_setresponse (server_name E)
      mupnp_http_response_new MUPNP_HTTP_STATUS_OK) sid) timeout)"
  using reply_mono [OF accepted_ok, of "{200, 400, 412}"] by (simp add: accepted_def)

lemma plain_answers:
  "reply_ok {200, 400, 412} (mupnp_event_subscription_subscriberesponse_setresponse server mupnp_http_response_new MUPNP_HTTP_STATUS_OK)"
  "reply_ok {200, 400, 412} (mupnp_device_badsubscriptionrecieved MUPNP_HTTP_STATUS_PRECONDITION_FAILED)"
  "reply_ok {200, 400, 412} (mupnp_device_badsubscriptionrecieved MUPNP_HTTP_STATUS_BAD_REQUEST)"
  unfolding MUPNP_HTTP_STATUS_OK_def MUPNP_HTTP_STATUS_PRECONDITION_FAILED_def MUPNP_HTTP_STATUS_BAD_REQUEST_def
  by (rule reply_mono [OF setresponse_ok(1)] reply_mono [OF bad_subscription_ok], simp)+

lemma subscription_answers:
  assumes "service_subscriptionrecieved E now later running uuid service subReq = Some r"
  shows "answers {200, 400, 412} service r"
proof (cases "subscription_error subReq")
  case None
  have cb: "mupnp_event_subscription_request_hascallback subReq \<Longrightarrow>
      mupnp_strdup (mupnp_event_subscription_request_getcallback subReq) \<noteq> None"
    using None by (cases "mupnp_event_subscription_request_getcallback subReq")
      (auto simp: subscription_error_def mupnp_strdup_def mupnp_strlen_def split: if_splits)
  show ?thesis using assms None cb accepted_answer plain_answers
    by (auto simp: service_subscriptionrecieved_def mupnp_device_unsubscriptionrecieved_def
        mupnp_device_newsubscriptionrecieved_def mupnp_device_renewsubscriptionrecieved_def answers_def
        mupnp_service_removesubscriber_def mupnp_service_addsubscriber_def same_identity_def
        bind_eq_Some_conv Let_def dest!: notifythread_identity split: if_splits option.splits)
next
  case (Some code)
  then have "code = MUPNP_HTTP_STATUS_PRECONDITION_FAILED \<or> code = MUPNP_HTTP_STATUS_BAD_REQUEST"
    by (auto simp: subscription_error_def split: if_splits)
  then show ?thesis using assms Some plain_answers by (auto simp: service_subscriptionrecieved_def answers_def)
qed

lemma fault_answer: "mupnp_control_soap_response_setfaultresponse mupnp_soap_response_new c d = Some res \<Longrightarrow>
    reply_ok {200, 500} (soapHttpRes res)"
  using fault_reply [of c d] reply_mono [of "{500}" _ "{200, 500}"] by (metis insert_iff option.inject subsetI)

lemma invalid_answer: "mupnp_device_invalidcontrolrecieved code = Some res \<Longrightarrow> reply_ok {200, 500} res"
  by (auto simp: mupnp_device_invalidcontrolrecieved_def fault_answer)

lemma performaction_once:
  assumes "mupnp_action_performlistner listeners service action = Some (ok, action', posted)"
  shows "if ok then \<exists>res. posted = [res] \<and> reply_ok {200, 500} res else posted = []"
proof (cases "actionListener action")
  case (Some l)
  obtain ok' a where l: "listeners l (mupnp_action_clearoutputargumentvalues (mupnp_action_setstatusdescription
      (mupnp_action_setstatuscode action MUPNP_STATUS_INVALID_ACTION)
      (Some (mupnp_status_code2string MUPNP_STATUS_INVALID_ACTION)))) = (ok', a)" by fastforce
  have new: "actResSoapRes mupnp_control_action_response_new = mupnp_soap_response_new"
    by (simp add: mupnp_control_action_response_new_def)
  have *: "(if ok' = True then mupnp_control_action_response_setresponse mupnp_control_action_response_new service a
        else map_option (\<lambda>res. mupnp_control_action_response_new\<lparr>actResSoapRes := res\<rparr>)
          (mupnp_control_soap_response_setfaultresponse mupnp_soap_response_new
            (stCode (actionStatus a)) (stDescription (actionStatus a)))) \<bind> (\<lambda>actRes.
        Some (True, a, [soapHttpRes (actResSoapRes actRes)])) = Some (ok, action', posted)"
    using assms by (simp only: mupnp_action_performlistner_def Some Let_def l new option.case prod.case)
  show ?thesis
  proof (cases ok')
    case True
    with * reply_mono [OF action_reply_ok, of service a _ "{200, 500}"] show ?thesis by (auto simp: bind_eq_Some_conv)
  next
    case False
    with * fault_answer show ?thesis by (auto simp: bind_eq_Some_conv)
  qed
qed (use assms in \<open>simp add: mupnp_action_performlistner_def\<close>)

lemma query_answer:
  assumes "mupnp_control_query_response_setresponse mupnp_control_query_response_new v = Some qres"
  shows "reply_ok {200, 500} (soapHttpRes (queryResSoapRes qres))"
proof (rule query_reply [of v])
  fix q
  assume "mupnp_control_query_response_setresponse mupnp_control_query_response_new v = Some q"
    and "reply_ok {200} (soapHttpRes (queryResSoapRes q))"
  with assms show ?thesis by (auto intro: reply_mono)
qed

lemma performquery_once:
  assumes "mupnp_statevariable_performlistner E now listeners service i = Some (ok, service', posted)"
  shows "(if ok then \<exists>res. posted = [res] \<and> reply_ok {200, 500} res else posted = []) \<and> same_identity service service'"
proof (cases "svListener (serviceStateTable service ! i)")
  case (Some l)
  define s0 where "s0 = service\<lparr>serviceStateTable := (serviceStateTable service)[i := mupnp_statevariable_setstatusdescription
    (mupnp_statevariable_setstatuscode (serviceStateTable service ! i) MUPNP_STATUS_INVALID_ACTION)
    (Some (mupnp_status_code2string MUPNP_STATUS_INVALID_ACTION))]\<rparr>"
  obtain s1 where s1: "mupnp_statevariable_setvaluewithnotify E now s0 i (Some []) True = Some s1"
    using assms by (auto simp: mupnp_statevariable_performlistner_def Some Let_def bind_eq_Some_conv simp flip: s0_def)
  obtain ok' v where l: "listeners l (serviceStateTable s1 ! i) = (ok', v)" by fastforce
  have new: "queryResSoapRes mupnp_control_query_response_new = mupnp_soap_response_new"
    by (simp add: mupnp_control_query_response_new_def)
  have "(if ok' = True then mupnp_control_query_response_setresponse mupnp_control_query_response_new v
        else map_option (\<lambda>soap. mupnp_control_query_response_new\<lparr>queryResSoapRes := soap\<rparr>)
          (mupnp_control_soap_response_setfaultresponse mupnp_soap_response_new
            (stCode (svStatus v)) (stDescription (svStatus v)))) \<bind> (\<lambda>res.
        Some (True, s1\<lparr>serviceStateTable := (serviceStateTable s1)[i := v]\<rparr>, [soapHttpRes (queryResSoapRes res)])) =
      Some (ok, service', posted)"
    using assms by (simp only: mupnp_statevariable_performlistner_def Some Let_def l new option.case prod.case s0_def [symmetric] s1
        Option.bind.bind_lunit)
  then have *: "same_identity service s0" "mupnp_statevariable_setvaluewithnotify E now s0 i (Some []) True = Some s1"
      "service' = s1\<lparr>serviceStateTable := (serviceStateTable s1)[i := v]\<rparr>"
      "(if ok' = True then mupnp_control_query_response_setresponse mupnp_control_query_response_new v
        else map_option (\<lambda>soap. mupnp_control_query_response_new\<lparr>queryResSoapRes := soap\<rparr>)
          (mupnp_control_soap_response_setfaultresponse mupnp_soap_response_new
            (stCode (svStatus v)) (stDescription (svStatus v)))) \<bind> (\<lambda>res.
        Some (True, service', [soapHttpRes (queryResSoapRes res)])) = Some (ok, service', posted)"
    using s1 by (auto simp: s0_def same_identity_def bind_eq_Some_conv)
  have id: "same_identity service service'"
    using *(1) setvalue_identity [OF *(2)] *(3) by (simp add: same_identity_def)
  show ?thesis
  proof (cases ok')
    case True
    with *(4) query_answer [of v] id show ?thesis by (auto simp: bind_eq_Some_conv)
  next
    case False
    with *(4) fault_answer id show ?thesis by (auto simp: bind_eq_Some_conv)
  qed
qed (use assms in \<open>simp add: mupnp_statevariable_performlistner_def\<close>)

lemma control_answers:
  assumes "mupnp_device_controlrequestrecieved E now listeners queries service soapReq = Some r"
  shows "answers {200, 500} service r"
  using assms
  by (auto simp: mupnp_device_controlrequestrecieved_def mupnp_device_querycontrolrequestrecieved_def
      mupnp_device_actioncontrolrequestrecieved_def answers_def same_identity_def bind_eq_Some_conv Let_def
      split: if_splits option.splits dest!: performaction_once performquery_once invalid_answer)


subsection \<open>Requests that are answered\<close>

text \<open>
  What the code relies on: a document the parser takes without an error has a root, messages come
  with all of their content, and listeners leave the name of an action alone.
\<close>

definition parses_tree :: "expat \<Rightarrow> bool" where
  "parses_tree expat \<longleftrightarrow> (\<forall>doc events d. expat doc = (events, True) \<longrightarrow>
     expat_run \<lparr>rootNode = None, currNode = None, depth = 0\<rparr> events = Some d \<longrightarrow> rootNode d \<noteq> None)"

definition whole :: "'a mUpnpHttpPacket_scheme \<Rightarrow> bool" where
  "whole p \<longleftrightarrow> (case content p of None \<Rightarrow> True | Some c \<Rightarrow> mupnp_http_packet_getcontentlength p \<le> int (length c))"

definition peers_whole :: "gena_env \<Rightarrow> bool" where
  "peers_whole E \<longleftrightarrow> parses_tree (xml_parser E) \<and> (\<forall>q ip pt. whole (httpRes (network E q ip pt)))"

definition keep_names :: "action_listeners \<Rightarrow> bool" where
  "keep_names listeners \<longleftrightarrow> (\<forall>l action. mupnp_action_getname (snd (listeners l action)) = mupnp_action_getname action)"

text \<open>A service whose subscribers are those of \<open>Gena\<close> and whose actions have names the code can put together.\<close>

definition service_ready :: "mUpnpService \<Rightarrow> bool" where
  "service_ready service \<longleftrightarrow> (\<exists>now. gena_inv now service) \<and>
     (\<forall>action \<in> set (actionList service). length (str_bytes (mupnp_action_getname action)) < MUPNP_ACTOINNAME_LEN_MAX)"

lemma xml_parse_total: "parses_tree expat \<Longrightarrow> \<exists>r. mupnp_xml_parse expat nodes b = Some r"
  by (auto simp: mupnp_xml_parse_def parses_tree_def Let_def split: option.splits prod.splits)

lemma run_keeps_root: "expat_run d es = Some d' \<Longrightarrow> rootNode d \<noteq> None \<Longrightarrow> rootNode d' \<noteq> None"
  by (induction d es rule: expat_run.induct)
    (auto simp: mupnp_expat_element_start_def mupnp_expat_element_end_def mupnp_expat_character_data_def Let_def
      split: option.splits if_splits)

lemma parses_tree_ref_expat: "parses_tree ref_expat"
  unfolding parses_tree_def
proof (intro allI impI)
  fix doc events d
  assume e: "ref_expat doc = (events, True)" and run: "expat_run \<lparr>rootNode = None, currNode = None, depth = 0\<rparr> events = Some d"
  from e obtain m attrs es where "events = XStart m attrs # es"
    by (auto simp: ref_expat_def xml_doc_def split: option.splits list.splits xml_event.splits)
  with run show "rootNode d \<noteq> None"
    by (auto simp: mupnp_expat_element_start_def dest!: run_keeps_root split: option.splits if_splits)
qed

lemma post_total:
  assumes "parses_tree expat" and "\<And>q ip pt. whole (httpRes (post q ip pt))"
  shows "\<exists>r. mupnp_soap_request_post expat post req ip pt = Some r"
proof -
  define q where "q = (let q = post (soapHttpReq req) ip pt in
    if mupnp_http_response_getstatuscode (httpRes q) = MUPNP_HTTP_STATUS_METHOD_NOT_ALLOWED then post (soap_mpost q) ip pt else q)"
  have "whole (httpRes q)" using assms(2) by (simp add: q_def Let_def)
  then show ?thesis
    using xml_parse_total [OF assms(1)]
    by (auto simp: mupnp_soap_request_post_def whole_def q_def Let_def bind_eq_Some_conv split: option.splits if_splits)
qed

lemma subscriber_notify_total:
  assumes "peers_whole E" and "subSid sub \<noteq> None"
  shows "\<exists>r. mupnp_subscriber_notifymain E sub service statVar = Some r"
proof -
  obtain event where "mupnp_event_notify_request_setpropertysetnode (server_name E) mupnp_event_notify_request_new
      sub service statVar = Some event"
    using assms(2) by (auto simp: mupnp_event_notify_request_setpropertysetnode_def Let_def)
  moreover obtain r where "mupnp_soap_request_post (xml_parser E) (network E) event (host (deliveryURL sub)) (port (deliveryURL sub)) = Some r"
    using assms(1) post_total [of "xml_parser E" "network E" event "host (deliveryURL sub)" "port (deliveryURL sub)"]
    by (auto simp: peers_whole_def)
  ultimately show ?thesis by (auto simp: mupnp_subscriber_notifymain_def)
qed

lemma notify_subscribers_total:
  assumes "peers_whole E" and "\<forall>sub \<in> set subs. subSid sub \<noteq> None"
  shows "\<exists>r. notify_subscribers E service statVar subs = Some r"
  using assms(2)
proof (induction subs)
  case (Cons sub subs)
  obtain ok sub' ys where "mupnp_subscriber_notifymain E sub (if statVar = None then Some service else None) statVar = Some (ok, sub')"
      "notify_subscribers E service statVar subs = Some ys"
    using Cons subscriber_notify_total [OF assms(1)] by fastforce
  then show ?case
    by (cases statVar) (simp_all add: mupnp_subscriber_notify_def mupnp_subscriber_notifyall_def)
qed simp

lemma service_notify_total:
  assumes "peers_whole E" and "\<forall>sub \<in> set (subscriberList service). subSid sub \<noteq> None"
  shows "\<exists>r. mupnp_service_notifymain E now service statVar = Some r"
  using notify_subscribers_total [OF assms(1)] assms(2) by (simp add: mupnp_service_notifymain_def Let_def bind_eq_Some_conv)

lemma inv_sids: "gena_inv now service \<Longrightarrow> \<forall>sub \<in> set (subscriberList service). subSid sub \<noteq> None"
proof
  fix sub assume "gena_inv now service" "sub \<in> set (subscriberList service)"
  then have "subscriber_ok now sub" by (simp add: gena_inv_def)
  then show "subSid sub \<noteq> None" by (cases "subSid sub") (simp_all add: subscriber_ok_def)
qed

lemma setvalue_total:
  assumes "peers_whole E" and "\<forall>sub \<in> set (subscriberList service). subSid sub \<noteq> None"
  shows "\<exists>r. mupnp_statevariable_setvaluewithnotify E now service i v b = Some r"
  using service_notify_total [OF assms(1)] assms(2)
  by (simp add: mupnp_statevariable_setvaluewithnotify_def mupnp_service_notify_def Let_def)

text \<open>Only the SID \<open>uuid\<close> is read behind its end.\<close>

lemma skip_uuid_total:
  assumes "sid \<noteq> Some ''uuid''"
  shows "\<exists>s. skip_uuid sid = Some s"
proof (cases sid)
  case (Some s)
  have "5 \<le> length s" if i: "c_strstr s ''uuid'' = Some i" for i
  proof (rule ccontr)
    assume "\<not> 5 \<le> length s"
    with c_strstr_bound [OF i] have "i = 0" "length s = 4" by simp_all
    with c_strstr_at [OF i] have "s = ''uuid''" by simp
    with assms Some show False by simp
  qed
  with Some show ?thesis
    by (cases "c_strstr s ''uuid''") (auto simp: skip_uuid_def MUPNP_ST_UUID_DEVICE_def offset_def mupnp_strlen_def)
qed (simp add: skip_uuid_def)

lemma getsubscriber_total:
  assumes "gena_inv now service" and "sid \<noteq> Some ''uuid''"
  shows "\<exists>r. mupnp_service_getsubscriberbysid service sid = Some r"
proof -
  have "\<exists>r. subscriber_find subs s = Some r" if "\<forall>sub \<in> set subs. subscriber_ok now sub" for subs s
    using that
  proof (induction subs)
    case (Cons sub subs)
    obtain v where v: "subSid sub = Some v" "sid_text (bare_sid v)"
      using Cons.prems by (cases "subSid sub") (auto simp: subscriber_ok_def sub_id_def)
    with Cons skip_uuid_bare [OF v(2)] show ?case by fastforce
  qed simp
  moreover obtain s where "skip_uuid sid = Some s" using skip_uuid_total [OF assms(2)] by blast
  ultimately show ?thesis using assms(1) by (simp add: mupnp_service_getsubscriberbysid_def gena_inv_def)
qed

lemma subscription_total:
  assumes "peers_whole E" and "gena_inv t service" and "mupnp_event_subscription_request_getsid q \<noteq> Some ''uuid''"
  shows "\<exists>r. service_subscriptionrecieved E now later running uuid service q = Some r"
proof -
  obtain found where found: "mupnp_service_getsubscriberbysid service (mupnp_event_subscription_request_getsid q) = Some found"
    using getsubscriber_total [OF assms(2,3)] by blast
  have "\<exists>r. mupnp_service_createnotifyallthread E later running
      (snd (mupnp_service_addsubscriber service (mupnp_subscriber_setsid sub (Some sid)))) = Some r" for sub sid
    using service_notify_total [OF assms(1)] inv_sids [OF assms(2)]
    by (simp add: mupnp_service_createnotifyallthread_def mupnp_service_notifyall_def mupnp_service_addsubscriber_def
        mupnp_subscriber_setsid_def)
  with found show ?thesis
    by (auto simp: service_subscriptionrecieved_def mupnp_device_unsubscriptionrecieved_def
        mupnp_device_newsubscriptionrecieved_def mupnp_device_renewsubscriptionrecieved_def
        bind_eq_Some_conv Let_def split: option.splits)
qed


lemma setsoaprequest_total: "\<exists>r. mupnp_control_action_request_setsoaprequest actReq soapReq = Some r"
proof (cases "mupnp_control_action_request_getactionnode (actReq\<lparr>actSoapReq := soapReq, isSoapReqCreated := False, actReqArgList := []\<rparr>)")
  case (Some anode)
  then have "reqRootNodeList soapReq \<noteq> []"
    by (auto simp: mupnp_control_action_request_getactionnode_def body_content_def mupnp_soap_request_getbodynode_def
        mupnp_soap_request_getenvelopenode_def)
  then have "reqRootNodeList (set_body_content soapReq n) \<noteq> []" for n
    by (auto simp: set_body_content_def split: list.splits option.splits)
  then have "mupnp_soap_request_createcontent (set_body_content soapReq n) \<noteq> None" for n
    by (simp add: mupnp_soap_request_createcontent_def mupnp_soap_request_getenvelopenode_def first_of_def split: list.splits)
  with Some show ?thesis
    by (simp add: mupnp_control_action_request_setsoaprequest_def Let_def bind_eq_Some_conv)
qed (simp add: mupnp_control_action_request_setsoaprequest_def)

lemma named_action:
  assumes "mupnp_service_getactionbyname service name = Some i"
  shows "i < length (actionList service)" and "mupnp_action_getname (actionList service ! i) \<noteq> None"
proof -
  have i: "index_where (\<lambda>a. mupnp_action_isname a name) (actionList service) = Some i"
    using assms by (auto simp: mupnp_service_getactionbyname_def split: if_splits)
  from index_where_Some [OF i] show "i < length (actionList service)" by simp
  from index_where_Some [OF i] have "mupnp_streq (mupnp_action_getname (actionList service ! i)) name"
    by (simp add: mupnp_action_isname_def)
  then show "mupnp_action_getname (actionList service ! i) \<noteq> None"
    by (cases "mupnp_action_getname (actionList service ! i)") simp_all
qed

lemma performaction_total:
  assumes "mupnp_action_getname action = Some n" and "length n < MUPNP_ACTOINNAME_LEN_MAX" and "keep_names listeners"
  shows "\<exists>r. mupnp_action_performlistner listeners service action = Some r"
proof (cases "actionListener action")
  case (Some l)
  define a0 where "a0 = mupnp_action_clearoutputargumentvalues (mupnp_action_setstatusdescription
      (mupnp_action_setstatuscode action MUPNP_STATUS_INVALID_ACTION)
      (Some (mupnp_status_code2string MUPNP_STATUS_INVALID_ACTION)))"
  have name: "mupnp_action_getname (snd (listeners l a0)) = Some n"
    using assms(1,3)
    by (simp add: keep_names_def a0_def mupnp_action_getname_def mupnp_action_clearoutputargumentvalues_def
        mupnp_action_setstatusdescription_def mupnp_action_setstatuscode_def)
  obtain actRes where "mupnp_control_action_response_setresponse mupnp_control_action_response_new service (snd (listeners l a0)) = Some actRes"
    by (rule action_reply [OF name assms(2)])
  moreover obtain res where "mupnp_control_soap_response_setfaultresponse (actResSoapRes mupnp_control_action_response_new)
      (stCode (actionStatus (snd (listeners l a0)))) (stDescription (actionStatus (snd (listeners l a0)))) = Some res"
    by (rule fault_reply) (simp add: mupnp_control_action_response_new_def)
  ultimately show ?thesis
    by (auto simp: mupnp_action_performlistner_def Some Let_def split_beta simp flip: a0_def)
qed (auto simp: mupnp_action_performlistner_def)

lemma performquery_total:
  assumes "peers_whole E" and "gena_inv t service"
  shows "\<exists>r. mupnp_statevariable_performlistner E now listeners service i = Some r"
proof (cases "svListener (serviceStateTable service ! i)")
  case (Some l)
  define s0 where "s0 = service\<lparr>serviceStateTable := (serviceStateTable service)[i := mupnp_statevariable_setstatusdescription
    (mupnp_statevariable_setstatuscode (serviceStateTable service ! i) MUPNP_STATUS_INVALID_ACTION)
    (Some (mupnp_status_code2string MUPNP_STATUS_INVALID_ACTION))]\<rparr>"
  obtain s1 where s1: "mupnp_statevariable_setvaluewithnotify E now s0 i (Some []) True = Some s1"
    using setvalue_total [OF assms(1), of s0 now i "Some []" True] inv_sids [OF assms(2)] by (auto simp: s0_def)
  obtain ok v where l: "listeners l (serviceStateTable s1 ! i) = (ok, v)" by fastforce
  obtain qres where q: "mupnp_control_query_response_setresponse mupnp_control_query_response_new v = Some qres"
    by (rule query_reply)
  have new: "queryResSoapRes mupnp_control_query_response_new = mupnp_soap_response_new"
    by (simp add: mupnp_control_query_response_new_def)
  obtain res where f: "mupnp_control_soap_response_setfaultresponse mupnp_soap_response_new
      (stCode (svStatus v)) (stDescription (svStatus v)) = Some res"
    by (rule fault_reply)
  show ?thesis
    unfolding mupnp_statevariable_performlistner_def Some Let_def option.case s0_def [symmetric] s1 Option.bind.bind_lunit l prod.case
      new f q
    by (cases ok) auto
qed (auto simp: mupnp_statevariable_performlistner_def)

lemma control_total:
  assumes "peers_whole E" and "service_ready service" and "keep_names listeners"
  shows "\<exists>r. mupnp_device_controlrequestrecieved E now listeners queries service soapReq = Some r"
proof -
  obtain t where t: "gena_inv t service" using assms(2) by (auto simp: service_ready_def)
  have invalid: "\<exists>r. mupnp_device_invalidcontrolrecieved code = Some r" for code
    by (rule invalid_control_reply) blast
  have action: "\<exists>r. mupnp_device_actioncontrolrequestrecieved listeners service actReq = Some r" for actReq :: "'a mUpnpActionRequest"
  proof (cases "mupnp_service_getactionbyname service (mupnp_control_action_request_getactionname actReq)")
    case (Some i)
    define a where "a = (actionList service ! i)\<lparr>argumentList := mupnp_argumentlist_set (argumentList (actionList service ! i)) (actReqArgList actReq)\<rparr>"
    obtain n where "mupnp_action_getname a = Some n"
      using named_action(2) [OF Some] by (auto simp: a_def mupnp_action_getname_def)
    moreover have "length n < MUPNP_ACTOINNAME_LEN_MAX" if "mupnp_action_getname a = Some n" for n
    proof -
      have "mupnp_action_getname (actionList service ! i) = Some n" using that by (simp add: a_def mupnp_action_getname_def)
      with assms(2) named_action(1) [OF Some] show ?thesis by (auto simp: service_ready_def dest!: bspec [OF _ nth_mem])
    qed
    ultimately obtain r where "mupnp_action_performlistner listeners service a = Some r"
      using performaction_total [OF _ _ assms(3)] by blast
    with Some invalid show ?thesis
      by (auto simp: mupnp_device_actioncontrolrequestrecieved_def a_def Let_def split_beta)
  qed (use invalid in \<open>auto simp: mupnp_device_actioncontrolrequestrecieved_def\<close>)
  have query: "\<exists>r. mupnp_device_querycontrolrequestrecieved E now queries service queryReq = Some r" for queryReq :: "'a mUpnpQueryRequest"
  proof (cases "mupnp_service_getstatevariablebyname service (mupnp_control_query_request_getvarname queryReq)")
    case (Some i)
    obtain r where "mupnp_statevariable_performlistner E now queries service i = Some r"
      using performquery_total [OF assms(1) t] by blast
    with Some invalid show ?thesis by (auto simp: mupnp_device_querycontrolrequestrecieved_def split_beta)
  qed (use invalid in \<open>auto simp: mupnp_device_querycontrolrequestrecieved_def\<close>)
  show ?thesis
    using action query setsoaprequest_total [of mupnp_control_action_request_new soapReq]
    by (auto simp: mupnp_device_controlrequestrecieved_def)
qed

end
