(* ===== verification/DeviceHttp.thy ===== *)
theory DeviceHttp
  imports Device Replies
begin

section \<open>The HTTP server of a device (src/mupnp/device_http_server.c)\<close>

text \<open>
  The handler of every HTTP request a device receives.  It is given the device and the request,
  and yields the device it leaves behind and the responses it posts on the connection; \<open>None\<close> is a
  crash.  The clock, the notification thread of a new subscription, the UUID made for it, the
  listeners of the application and the address of the connection are in \<open>http_env\<close>.
\<close>

record http_env =
  http_gena :: gena_env
  received :: int
  notified :: int
  notify_running :: bool
  sid_uuid :: cstring
  action_calls :: action_listeners
  query_calls :: query_listeners
  presentation_calls :: "nat \<Rightarrow> mUpnpHttpRequest \<Rightarrow> mUpnpHttpResponse list"
  nmpr_mode :: bool
  local_address :: cstring

definition MUPNP_DEVICE_URLBASE_MAXLEN :: nat where "MUPNP_DEVICE_URLBASE_MAXLEN = 64"
definition MUPNP_HTTP_STATUS_NOT_FOUND :: int where "MUPNP_HTTP_STATUS_NOT_FOUND = 404"

text \<open>The response \<open>mupnp_http_request_poststatuscode\<close> posts.\<close>

definition status_response :: "int \<Rightarrow> mUpnpHttpResponse" where
  "status_response code = mupnp_http_packet_setcontentlength (mupnp_http_response_setstatuscode mupnp_http_response_new code) 0"

definition mupnp_device_ispresentationrequest :: "device_state \<Rightarrow> mUpnpHttpRequest \<Rightarrow> bool" where
  "mupnp_device_ispresentationrequest dev httpReq =
     (if \<not> mupnp_http_request_isgetrequest httpReq then False
      else if mupnp_device_getpresentationurl dev = None then False
      else if mupnp_http_request_geturi httpReq = None then False
      else if 0 < mupnp_strstr (mupnp_http_request_geturi httpReq) (mupnp_device_getpresentationurl dev) then True
      else False)"

subsection \<open>Descriptions\<close>

definition mupnp_device_seturlbase :: "device_state \<Rightarrow> cstring \<Rightarrow> device_state" where
  "mupnp_device_seturlbase dev v =
     (if mupnp_device_isrootdevice dev = False then dev
      else case rootNodeList dev of
        Some (root # roots) \<Rightarrow>
          (case mupnp_xml_node_getchildnodebyname (Some root) (Some ''URLBase'') of
             Some i \<Rightarrow> dev\<lparr>rootNodeList := Some (xml_replace_child root i
                         (mupnp_xml_node_setvalue (xnodes root ! i) (Some v)) # roots)\<rparr>
           | None \<Rightarrow> dev\<lparr>rootNodeList := Some (mupnp_xml_node_addchildnode root
                       (mupnp_xml_node_setvalue (mupnp_xml_node_setname mupnp_xml_node_new (Some ''URLBase'')) (Some v)) # roots)\<rparr>)
      | _ \<Rightarrow> dev)"

definition mupnp_device_updateurlbase :: "device_state \<Rightarrow> cstring \<Rightarrow> device_state" where
  "mupnp_device_updateurlbase dev ifAddr =
     mupnp_device_seturlbase dev (mupnp_net_gethosturl ifAddr (httpPort dev) '''' MUPNP_DEVICE_URLBASE_MAXLEN)"

definition mupnp_device_getdescription :: "bool \<Rightarrow> device_state \<Rightarrow> cstring \<Rightarrow> charptr \<Rightarrow> device_state \<times> charptr" where
  "mupnp_device_getdescription nmpr dev ifAddr descStr =
     (let dev = (if nmpr = False then mupnp_device_updateurlbase dev ifAddr else dev) in
      case mupnp_device_getrootnode dev of
        None \<Rightarrow> (dev, descStr)
      | Some root \<Rightarrow>
          (dev, mupnp_xml_node_tostring root True (str_add (str_add descStr (Some MUPNP_XML_DECLARATION)) (Some [CHR 0x0A]))))"

text \<open>Setting the content to NULL leaves it as it is, for a HEAD request too.\<close>

definition description_response :: "mUpnpHttpRequest \<Rightarrow> charptr \<Rightarrow> mUpnpHttpResponse" where
  "description_response httpReq descStr =
     (let res = mupnp_http_response_setstatuscode mupnp_http_response_new MUPNP_HTTP_STATUS_OK;
          res = mupnp_http_packet_setheadervalue res (Some ''Content-Type'') (Some MUPNP_XML_CONTENT_TYPE);
          res = res\<lparr>content := str_set (content res) descStr\<rparr>;
          res = mupnp_http_packet_setcontentlength res (int (length (str_bytes descStr)))
      in if mupnp_http_request_isheadrequest httpReq = True then res\<lparr>content := str_set (content res) None\<rparr> else res)"

definition mupnp_device_getrequestrecieved ::
    "http_env \<Rightarrow> mUpnpDevice \<Rightarrow> mUpnpHttpRequest \<Rightarrow> (mUpnpDevice \<times> mUpnpHttpResponse list) option" where
  "mupnp_device_getrequestrecieved H dev httpReq =
     (let url = mupnp_http_request_geturi httpReq in
      if mupnp_strlen url \<le> 0 then Some (dev, [status_response MUPNP_HTTP_STATUS_BAD_REQUEST])
      else if mupnp_device_isdescriptionuri (own dev) url = True then
        (case mupnp_device_getdescription (nmpr_mode H) (own dev) (local_address H) None of (d, descStr) \<Rightarrow>
           Some (Device d (deviceList dev), [description_response httpReq descStr]))
      else do {
        embService \<leftarrow> mupnp_device_getservicebyscpdurl dev url;
        case embService of
          Some place \<Rightarrow>
            Some (dev, [description_response httpReq (mupnp_service_getdescription (service_at dev place) None)])
        | None \<Rightarrow>
            (case mupnp_device_getdevicebydescriptionuri dev url of
               Some p \<Rightarrow>
                 let embDev = device_at dev p in
                 (case mupnp_device_getdescription (nmpr_mode H) (own embDev) (local_address H) None of (d, descStr) \<Rightarrow>
                    Some (device_put dev p (Device d (deviceList embDev)), [description_response httpReq descStr]))
             | None \<Rightarrow> Some (dev, [status_response MUPNP_HTTP_STATUS_NOT_FOUND])) })"

subsection \<open>Control requests\<close>

definition mupnp_device_soapactionrecieved ::
    "http_env \<Rightarrow> mUpnpDevice \<Rightarrow> unit mUpnpSoapRequest \<Rightarrow> (mUpnpDevice \<times> mUpnpHttpResponse list) option" where
  "mupnp_device_soapactionrecieved H dev soapReq = do {
     let url = mupnp_http_request_geturi (soapHttpReq soapReq);
     ctrlService \<leftarrow> mupnp_device_getservicebycontrolurl (own dev) dev url;
     case ctrlService of
       Some place \<Rightarrow> do {
         (service, posted) \<leftarrow> mupnp_device_controlrequestrecieved (http_gena H) (received H) (action_calls H) (query_calls H)
                               (service_at dev place) soapReq;
         Some (service_put dev place service, posted) }
     | None \<Rightarrow> Some (dev, [status_response MUPNP_HTTP_STATUS_BAD_REQUEST]) }"

definition mupnp_device_postrequestrecieved ::
    "http_env \<Rightarrow> mUpnpDevice \<Rightarrow> mUpnpHttpRequest \<Rightarrow> (mUpnpDevice \<times> mUpnpHttpResponse list) option" where
  "mupnp_device_postrequestrecieved H dev httpReq =
     (if mupnp_http_request_issoapaction httpReq = True then do {
        (ok, soapReq) \<leftarrow> mupnp_soap_request_sethttprequest (xml_parser (http_gena H)) mupnp_soap_request_new httpReq;
        mupnp_device_soapactionrecieved H dev soapReq }
      else Some (dev, [status_response MUPNP_HTTP_STATUS_BAD_REQUEST]))"

subsection \<open>Subscriptions and the handler of all requests\<close>

definition mupnp_device_subscriptionrecieved ::
    "http_env \<Rightarrow> mUpnpDevice \<Rightarrow> mUpnpHttpRequest \<Rightarrow> (mUpnpDevice \<times> mUpnpHttpResponse list) option" where
  "mupnp_device_subscriptionrecieved H dev subReq =
     (let uri = mupnp_http_request_geturi subReq in
      if mupnp_strlen uri \<le> 0 then Some (dev, [mupnp_device_badsubscriptionrecieved MUPNP_HTTP_STATUS_PRECONDITION_FAILED])
      else do {
        service \<leftarrow> mupnp_device_getservicebyeventsuburl (own dev) dev uri;
        case service of
          None \<Rightarrow> Some (dev, [mupnp_device_badsubscriptionrecieved MUPNP_HTTP_STATUS_PRECONDITION_FAILED])
        | Some place \<Rightarrow> do {
            (service, posted) \<leftarrow> service_subscriptionrecieved (http_gena H) (received H) (notified H) (notify_running H)
                                  (sid_uuid H) (service_at dev place) subReq;
            Some (service_put dev place service, posted) } })"

definition unescaped_request :: "mUpnpHttpRequest \<Rightarrow> mUpnpHttpRequest" where
  "unescaped_request httpReq =
     (let url = mupnp_http_request_geturi httpReq in
      if 0 < mupnp_strlen url then
        (let unescapedUrl = the (fst (mupnp_net_uri_unescapestring (str_bytes url) 0 (Some None))) in
         if 0 < length (str_bytes unescapedUrl) then mupnp_http_request_seturi httpReq (map_option cstr unescapedUrl) else httpReq)
      else httpReq)"

definition mupnp_device_httprequestrecieved ::
    "http_env \<Rightarrow> mUpnpDevice \<Rightarrow> mUpnpHttpRequest \<Rightarrow> (mUpnpDevice \<times> mUpnpHttpResponse list) option" where
  "mupnp_device_httprequestrecieved H dev httpReq =
     (let httpReq = unescaped_request httpReq in
      case (if mupnp_device_ispresentationrequest (own dev) httpReq = True then presentationListener (own dev) else None) of
        Some listener \<Rightarrow> Some (dev, presentation_calls H listener httpReq)
      | None \<Rightarrow>
          if mupnp_http_request_isgetrequest httpReq = True \<or> mupnp_http_request_isheadrequest httpReq = True
          then mupnp_device_getrequestrecieved H dev httpReq
          else if mupnp_http_request_ispostrequest httpReq = True
          then mupnp_device_postrequestrecieved H dev httpReq
          else if mupnp_http_request_issubscriberequest httpReq = True \<or> mupnp_http_request_isunsubscriberequest httpReq = True
          then mupnp_device_subscriptionrecieved H dev httpReq
          else Some (dev, [status_response MUPNP_HTTP_STATUS_BAD_REQUEST]))"


subsection \<open>What a request leaves of a device\<close>

text \<open>
  A request changes the run-time state of services and the URL base of the description, never the
  devices and services themselves.
\<close>

definition device_in_root :: "device_state \<Rightarrow> mUpnpXmlNode option" where
  "device_in_root dev = xml_child (mupnp_device_getrootnode dev) (Some ''device'')"

fun same_tree :: "mUpnpDevice \<Rightarrow> mUpnpDevice \<Rightarrow> bool" where
  "same_tree (Device a as) (Device b bs) \<longleftrightarrow>
     a\<lparr>rootNodeList := rootNodeList b, serviceList := serviceList b\<rparr> = b \<and>
     (rootNodeList a = None \<longleftrightarrow> rootNodeList b = None) \<and> device_in_root a = device_in_root b \<and>
     list_all2 same_identity (serviceList a) (serviceList b) \<and> list_all2 same_tree as bs"

lemma same_tree_refl [simp]: "same_tree dev dev"
  by (induction dev) (simp add: list_all2_same)

lemma list_all2_update: "R (xs ! i) y \<Longrightarrow> (\<And>x. x \<in> set xs \<Longrightarrow> R x x) \<Longrightarrow> list_all2 R xs (xs[i := y])"
  by (cases "i < length xs") (auto simp: list_all2_conv_all_nth nth_list_update)

lemma same_tree_put: "same_tree (device_at dev p) x \<Longrightarrow> same_tree dev (device_put dev p x)"
proof (induction p arbitrary: dev)
  case (Cons k p)
  then show ?case by (cases dev) (simp add: list_all2_update list_all2_same)
qed simp

lemma same_tree_service: "same_identity (service_at dev place) service \<Longrightarrow> same_tree dev (service_put dev place service)"
proof (cases place)
  case (Pair p i)
  have root: "device_in_root (d\<lparr>serviceList := ss\<rparr>) = device_in_root d" for d ss
    by (simp add: device_in_root_def mupnp_device_getrootnode_def)
  assume "same_identity (service_at dev place) service"
  then show ?thesis unfolding Pair service_put_def service_at_def prod.case
    by (intro same_tree_put) (cases "device_at dev p", simp add: list_all2_update list_all2_same root)
qed

lemma find_where_total: "(\<And>x. P x \<noteq> None) \<Longrightarrow> find_where P xs \<noteq> None"
  by (induction xs) (auto simp: bind_eq_None_conv)

lemma find_service_total:
  assumes P: "\<And>x. P x \<noteq> None"
  shows "device_find_service P dev \<noteq> None"
proof (induction dev)
  case (Device dev childDevs)
  then have "devices_find_service P k childDevs \<noteq> None" for k
    by (induction childDevs arbitrary: k) (auto simp: bind_eq_None_conv split: option.splits)
  then show ?case using find_where_total [of P "serviceList dev"] P
    by (auto simp: bind_eq_None_conv split: option.splits)
qed

lemma isscpdurl_total: "mupnp_service_isscpdurl service url \<noteq> None"
proof -
  obtain u where "mupnp_net_uri_setvalue mupnp_net_uri_new (mupnp_xml_node_getchildnodevalue (serviceNode service) (Some ''SCPDURL'')) = Some u"
    by (rule uri_setvalue_total)
  then show ?thesis by (simp add: mupnp_service_isscpdurl_def mupnp_net_uri_isequivalent_def)
qed

lemma getservicebyscpdurl_total: "mupnp_device_getservicebyscpdurl dev url \<noteq> None"
  using find_service_total(1) [of "\<lambda>service. mupnp_service_isscpdurl service url" dev] isscpdurl_total
  by (simp add: mupnp_device_getservicebyscpdurl_def)

lemma nodelist_find_snoc: "xname c \<noteq> None \<Longrightarrow> mupnp_strcasecmp (xname c) n \<noteq> 0 \<Longrightarrow> nodelist_find (cs @ [c]) n = nodelist_find cs n"
  by (induction cs) simp_all

lemma nodelist_find_update: "xname c = xname (cs ! i) \<Longrightarrow> nodelist_find (cs[i := c]) n = nodelist_find cs n"
  by (induction cs arbitrary: i) (simp_all split: nat.split)

lemma nodelist_find_hit: "nodelist_find cs n = Some i \<Longrightarrow> mupnp_strcasecmp (xname (cs ! i)) n = 0"
  by (induction cs arbitrary: i) (auto split: if_splits)

lemma xname_setvalue [simp]: "xname (mupnp_xml_node_setvalue c v) = xname c"
  by (cases c) simp

text \<open>The first child of a name stays when a node of another name is set or added.\<close>

lemma urlbase_not_device:
  "mupnp_strcasecmp (Some ''URLBase'') (Some ''device'') \<noteq> 0"
  "mupnp_strcasecmp x (Some ''URLBase'') = 0 \<Longrightarrow> mupnp_strcasecmp x (Some ''device'') \<noteq> 0"
proof -
  show "mupnp_strcasecmp (Some ''URLBase'') (Some ''device'') \<noteq> 0" by code_simp
  show "mupnp_strcasecmp x (Some ''device'') \<noteq> 0" if "mupnp_strcasecmp x (Some ''URLBase'') = 0"
  proof (cases x)
    case (Some s)
    with that show ?thesis
      by (cases s) (auto simp: c_strcasecmp_def lower split: if_splits)
  qed simp
qed

lemma seturlbase_device: "device_in_root (mupnp_device_seturlbase dev v) = device_in_root dev"
proof (cases "rootNodeList dev")
  case (Some roots)
  show ?thesis
  proof (cases roots)
    case (Cons root rest)
    obtain n v' as cs where root: "root = XmlNode n v' as cs" by (cases root)
    show ?thesis
    proof (cases "nodelist_find cs (Some ''URLBase'')")
      case None
      then show ?thesis
        using Some Cons root urlbase_not_device(1)
          nodelist_find_snoc [of "XmlNode (Some ''URLBase'') (Some v) [] []" "Some ''device''" cs]
        by (auto simp: mupnp_device_seturlbase_def mupnp_device_isrootdevice_def device_in_root_def mupnp_device_getrootnode_def
            xml_child_def mupnp_xml_node_getchildnodebyname_def mupnp_xml_nodelist_getbyname_def mupnp_xml_node_getchildnodes_def
            mupnp_xml_node_new_def nth_append dest: nodelist_find_less intro!: map_option_cong split: option.splits)
    next
      case (Some i)
      let ?c = "mupnp_xml_node_setvalue (cs ! i) (Some v)"
      have "i \<noteq> j" if "nodelist_find cs (Some ''device'') = Some j" for j
        using that Some urlbase_not_device(2) nodelist_find_hit by metis
      then show ?thesis
        using \<open>rootNodeList dev = Some roots\<close> Cons root Some nodelist_find_update [of ?c cs i "Some ''device''"]
        by (auto simp: mupnp_device_seturlbase_def mupnp_device_isrootdevice_def device_in_root_def mupnp_device_getrootnode_def
            xml_child_def mupnp_xml_node_getchildnodebyname_def mupnp_xml_nodelist_getbyname_def mupnp_xml_node_getchildnodes_def
            intro!: map_option_cong split: option.splits)
    qed
  qed (use Some in \<open>simp add: mupnp_device_seturlbase_def\<close>)
qed (simp add: mupnp_device_seturlbase_def mupnp_device_isrootdevice_def)

lemma seturlbase_rest:
  "(mupnp_device_seturlbase dev v)\<lparr>rootNodeList := rootNodeList dev\<rparr> = dev"
  "rootNodeList (mupnp_device_seturlbase dev v) = None \<longleftrightarrow> rootNodeList dev = None"
  by (auto simp: mupnp_device_seturlbase_def split: option.splits list.splits)

lemma getdescription_tree:
  assumes "mupnp_device_getdescription nmpr (own dev) a v = (d, doc)"
  shows "same_tree dev (Device d (deviceList dev))"
proof -
  have "d = own dev \<or> (\<exists>u. d = mupnp_device_seturlbase (own dev) u)"
    using assms by (auto simp: mupnp_device_getdescription_def mupnp_device_updateurlbase_def Let_def split: option.splits if_splits)
  moreover have "serviceList (mupnp_device_seturlbase e u) = serviceList e"
    "e\<lparr>rootNodeList := rootNodeList (mupnp_device_seturlbase e u)\<rparr> = mupnp_device_seturlbase e u" for e u
    by (auto simp: mupnp_device_seturlbase_def split: option.splits list.splits)
  ultimately show ?thesis using seturlbase_device seturlbase_rest(2)
    by (cases dev) (auto simp: list_all2_same)
qed

text \<open>The answers of the branches, with the devices they leave.\<close>

definition answered :: "int set \<Rightarrow> mUpnpDevice \<Rightarrow> mUpnpDevice \<times> mUpnpHttpResponse list \<Rightarrow> bool" where
  "answered codes dev = (\<lambda>(dev', replies). same_tree dev dev' \<and> (\<exists>res. replies = [res] \<and> reply_ok codes res))"

lemma status_response_ok: "code \<in> codes \<Longrightarrow> reply_ok codes (status_response code)"
  unfolding status_response_def by (rule reply_set(1) [OF base_status]) simp_all

lemma description_response_ok: "200 \<in> codes \<Longrightarrow> reply_ok codes (description_response q d)"
proof -
  let ?r = "(mupnp_http_packet_setheadervalue (mupnp_http_response_setstatuscode mupnp_http_response_new 200)
    (Some ''Content-Type'') (Some MUPNP_XML_CONTENT_TYPE))\<lparr>content := str_set None d\<rparr>"
  assume "200 \<in> codes"
  moreover have "reply_base 200 ?r" by (simp add: nul_free_def)
  moreover have "str_bytes (str_set None d) = str_bytes d" by (cases d) simp_all
  ultimately have "reply_ok codes (mupnp_http_packet_setcontentlength ?r (int (length (str_bytes d))))"
    by (intro reply_set(1)) simp_all
  then show ?thesis by (simp add: description_response_def Let_def MUPNP_HTTP_STATUS_OK_def)
qed

lemma get_answered:
  "\<exists>r. mupnp_device_getrequestrecieved H dev q = Some r \<and> answered {200, 400, 404} dev r"
  using getservicebyscpdurl_total [of dev "mupnp_http_request_geturi q"]
  by (auto simp: mupnp_device_getrequestrecieved_def answered_def Let_def status_response_ok description_response_ok
      MUPNP_HTTP_STATUS_BAD_REQUEST_def MUPNP_HTTP_STATUS_NOT_FOUND_def split: option.splits prod.splits
      intro!: getdescription_tree same_tree_put)

lemma control_codes: "reply_ok {200, 500} res \<Longrightarrow> reply_ok {200, 400, 500} res"
  by (erule reply_mono) simp

lemma post_answered: "mupnp_device_postrequestrecieved H dev q = Some r \<Longrightarrow> answered {200, 400, 500} dev r"
  by (auto simp: mupnp_device_postrequestrecieved_def mupnp_device_soapactionrecieved_def answered_def Let_def bind_eq_Some_conv
      status_response_ok MUPNP_HTTP_STATUS_BAD_REQUEST_def
      split: if_splits option.splits dest!: control_answers simp: answers_def intro!: same_tree_service control_codes)

lemma bad_subscription_412: "reply_ok {200, 400, 412} (mupnp_device_badsubscriptionrecieved MUPNP_HTTP_STATUS_PRECONDITION_FAILED)"
  by (rule plain_answers)

lemma subscription_answered: "mupnp_device_subscriptionrecieved H dev q = Some r \<Longrightarrow> answered {200, 400, 412} dev r"
  by (auto simp: mupnp_device_subscriptionrecieved_def answered_def Let_def bind_eq_Some_conv bad_subscription_412
      split: if_splits option.splits dest!: subscription_answers simp: answers_def intro!: same_tree_service)

subsection \<open>Requests that come to an end\<close>

fun all_services :: "mUpnpDevice \<Rightarrow> mUpnpService list" where
  "all_services (Device dev childDevs) = serviceList dev @ concat (map all_services childDevs)"

lemma find_where_less: "find_where P xs = Some (Some i) \<Longrightarrow> i < length xs"
  by (induction xs arbitrary: i) (auto simp: bind_eq_Some_conv split: if_splits)

lemma devices_find_place: "devices_find_service P k devs = Some (Some place) \<Longrightarrow> \<exists>j p i. place = (j # p, i)"
  by (induction devs arbitrary: k) (auto simp: bind_eq_Some_conv split: option.splits)

lemma found_service:
  "device_find_service P dev = Some (Some place) \<Longrightarrow> service_at dev place \<in> set (all_services dev)"
  "devices_find_service P k devs = Some (Some (j # p, i)) \<Longrightarrow>
     k \<le> j \<and> j - k < length devs \<and> service_at (devs ! (j - k)) (p, i) \<in> set (concat (map all_services devs))"
proof (induction P dev and P k devs arbitrary: place and j p i
    rule: device_find_service_devices_find_service.induct)
  case (1 P dev childDevs)
  show ?case
  proof (cases "find_where P (serviceList dev)")
    case (Some found)
    show ?thesis
    proof (cases found)
      case None
      with 1 Some obtain j p i where "place = (j # p, i)" "devices_find_service P 0 childDevs = Some (Some (j # p, i))"
        by (metis (no_types, lifting) devices_find_place device_find_service.simps Option.bind.bind_lunit option.simps(4))
      with 1(1) [OF Some None] show ?thesis by (auto simp: service_at_def)
    qed (use 1(2) Some find_where_less in \<open>auto simp: service_at_def intro!: nth_mem\<close>)
  qed (use 1(2) in simp)
next
  case (3 P k childDev childDevs)
  show ?case
  proof (cases "device_find_service P childDev")
    case (Some found)
    show ?thesis
    proof (cases found)
      case None
      with 3 Some show ?thesis by (fastforce simp: nth_Cons' Suc_diff_le)
    qed (use 3 Some in \<open>fastforce split: prod.splits\<close>)
  qed (use 3 in simp)
qed simp

text \<open>
  Requests for control and for subscriptions need the peers, the listeners and the services to be
  as described in \<open>Replies\<close>; the body of the request is complete, and its SID is not the text
  \<open>uuid\<close>, which the code reads behind its end.
\<close>

definition answerable :: "http_env \<Rightarrow> mUpnpDevice \<Rightarrow> mUpnpHttpRequest \<Rightarrow> bool" where
  "answerable H dev q \<longleftrightarrow>
     peers_whole (http_gena H) \<and> keep_names (action_calls H) \<and> list_all service_ready (all_services dev) \<and>
     whole q \<and> mupnp_event_subscription_request_getsid q \<noteq> Some ''uuid''"

lemma device_post_total:
  assumes "answerable H dev q"
  shows "\<exists>r. mupnp_device_postrequestrecieved H dev q = Some r"
proof -
  note ready = assms [unfolded answerable_def]
  have soap: "\<exists>r. mupnp_soap_request_sethttprequest (xml_parser (http_gena H)) (mupnp_soap_request_new :: unit mUpnpSoapRequest) q = Some r"
    using ready xml_parse_total [of "xml_parser (http_gena H)"]
    by (auto simp: mupnp_soap_request_sethttprequest_def mupnp_soap_request_parsemessage_def peers_whole_def whole_def Let_def
        bind_eq_Some_conv split: option.splits)
  have action: "\<exists>r. mupnp_device_soapactionrecieved H dev soapReq = Some r" for soapReq
  proof -
    have "mupnp_device_getservicebycontrolurl (own dev) dev (mupnp_http_request_geturi (soapHttpReq soapReq)) \<noteq> None"
      using find_service_total [of "\<lambda>service. Some (case mupnp_service_getcontrolurl (own dev) service of None \<Rightarrow> False
         | Some serviceUrl \<Rightarrow> mupnp_strstr (snd (mupnp_net_uri_getrequest serviceUrl)) (mupnp_http_request_geturi (soapHttpReq soapReq)) \<noteq> - 1)" dev]
      by (simp add: mupnp_device_getservicebycontrolurl_def)
    then obtain found where found: "mupnp_device_getservicebycontrolurl (own dev) dev
        (mupnp_http_request_geturi (soapHttpReq soapReq)) = Some found" by blast
    show ?thesis
    proof (cases found)
      case (Some place)
      then have "service_ready (service_at dev place)"
        using found found_service(1) ready
        by (auto simp: mupnp_device_getservicebycontrolurl_def list_all_iff split: if_splits)
      then obtain r where "mupnp_device_controlrequestrecieved (http_gena H) (received H) (action_calls H) (query_calls H)
          (service_at dev place) soapReq = Some r"
        using control_total ready by blast
      with Some found show ?thesis by (auto simp: mupnp_device_soapactionrecieved_def split_beta)
    qed (use found in \<open>simp add: mupnp_device_soapactionrecieved_def\<close>)
  qed
  show ?thesis using soap action by (auto simp: mupnp_device_postrequestrecieved_def split_beta)
qed

lemma device_subscription_total:
  assumes "answerable H dev q"
  shows "\<exists>r. mupnp_device_subscriptionrecieved H dev q = Some r"
proof -
  note ready = assms [unfolded answerable_def]
  have "mupnp_device_getservicebyeventsuburl (own dev) dev (mupnp_http_request_geturi q) \<noteq> None"
    using find_service_total [of "\<lambda>service. Some (case mupnp_service_geteventsuburl (own dev) service of None \<Rightarrow> False
       | Some eventSubURL \<Rightarrow> mupnp_streq (path eventSubURL) (mupnp_http_request_geturi q) = True)" dev]
    by (simp add: mupnp_device_getservicebyeventsuburl_def)
  then obtain found where found: "mupnp_device_getservicebyeventsuburl (own dev) dev (mupnp_http_request_geturi q) = Some found"
    by blast
  show ?thesis
  proof (cases found)
    case (Some place)
    then have "service_ready (service_at dev place)"
      using found found_service(1) ready
      by (auto simp: mupnp_device_getservicebyeventsuburl_def list_all_iff split: if_splits)
    then obtain t where "gena_inv t (service_at dev place)" by (auto simp: service_ready_def)
    then obtain r where "service_subscriptionrecieved (http_gena H) (received H) (notified H) (notify_running H) (sid_uuid H)
        (service_at dev place) q = Some r"
      using subscription_total ready by blast
    with Some found show ?thesis
      by (cases "mupnp_strlen (mupnp_http_request_geturi q)") (auto simp: mupnp_device_subscriptionrecieved_def Let_def split_beta)
  qed (use found in \<open>auto simp: mupnp_device_subscriptionrecieved_def Let_def\<close>)
qed

lemma unescaped_method [simp]: "mupnp_http_request_getmethod (unescaped_request q) = mupnp_http_request_getmethod q"
  by (simp add: unescaped_request_def mupnp_http_request_seturi_def mupnp_http_request_getmethod_def Let_def)

lemma unescaped_kind [simp]:
  "mupnp_http_request_ispostrequest (unescaped_request q) = mupnp_http_request_ispostrequest q"
  "mupnp_http_request_issubscriberequest (unescaped_request q) = mupnp_http_request_issubscriberequest q"
  "mupnp_http_request_isunsubscriberequest (unescaped_request q) = mupnp_http_request_isunsubscriberequest q"
  "mupnp_http_request_isgetrequest (unescaped_request q) = mupnp_http_request_isgetrequest q"
  "mupnp_http_request_isheadrequest (unescaped_request q) = mupnp_http_request_isheadrequest q"
  by (simp_all add: mupnp_http_request_ispostrequest_def mupnp_http_request_issubscriberequest_def
      mupnp_http_request_isunsubscriberequest_def mupnp_http_request_isgetrequest_def mupnp_http_request_isheadrequest_def)

lemma unescaped_answerable: "answerable H dev (unescaped_request q) = answerable H dev q"
proof -
  have "content (unescaped_request q) = content q" "headerList (unescaped_request q) = headerList q"
    by (simp_all add: unescaped_request_def mupnp_http_request_seturi_def Let_def)
  then show ?thesis
    by (cases "content q") (simp_all add: answerable_def whole_def mupnp_http_packet_getcontentlength_def
        mupnp_http_packet_getheaderssizet_def mupnp_http_packet_getheadervalue_def mupnp_event_subscription_request_getsid_def)
qed

text \<open>The status codes of the answers to each method.\<close>

definition answer_codes :: "mUpnpHttpRequest \<Rightarrow> int set" where
  "answer_codes q =
     (if mupnp_http_request_isgetrequest q \<or> mupnp_http_request_isheadrequest q then {200, 400, 404}
      else if mupnp_http_request_ispostrequest q then {200, 400, 500}
      else if mupnp_http_request_issubscriberequest q \<or> mupnp_http_request_isunsubscriberequest q then {200, 400, 412}
      else {400})"

section \<open>Properties\<close>



definition ex_http :: http_env where
  "ex_http = \<lparr>http_gena = ex_env, received = 5, notified = 6, notify_running = True, sid_uuid = ''uuid:a-1'',
     action_calls = (\<lambda>l action. (True, action)), query_calls = (\<lambda>l statVar. (True, statVar)),
     presentation_calls = (\<lambda>l q. []), nmpr_mode = False, local_address = ''10.0.0.1''\<rparr>"

definition ex_state :: device_state where
  "ex_state = \<lparr>rootNodeList = None, deviceNode = None, serviceList = [], iconList = [], presentationListener = None,
     descriptionURI = Some ''/d.xml'', leaseTime = 1800, httpPort = 38400, ssdpPkt = mupnp_ssdp_packet_new [] 0, bootId = 1\<rparr>"

definition ex_device :: mUpnpDevice where
  "ex_device = Device ex_state
     [Device (ex_state\<lparr>serviceList := [ex_evented\<lparr>serviceNode := Some (XmlNode (Some ''service'') None []
        [XmlNode (Some ''eventSubURL'') (Some ''/evt'') [] []])\<rparr>]\<rparr>) []]"


end
