(* ===== verification/Scpd.thy ===== *)
theory Scpd
  imports Service
begin

section \<open>Service descriptions between a device and a control point\<close>

text \<open>
  What a control point gets out of the description a device serves: the lists of actions and
  state variables are functions of the tree, and trees that differ only in the white space
  between their elements give the same lists.
\<close>

subsection \<open>The description a control point reads\<close>

definition argument_view :: "mUpnpArgument \<Rightarrow> string \<times> string \<times> string" where
  "argument_view arg = (str_bytes (mupnp_argument_getname arg), str_bytes (mupnp_argument_getdirection arg),
     str_bytes (mupnp_argument_getrelatedstatevariable arg))"

definition action_view :: "mUpnpAction \<Rightarrow> string \<times> (string \<times> string \<times> string) list" where
  "action_view action = (str_bytes (mupnp_action_getname action), map argument_view (argumentList action))"

definition variable_view :: "mUpnpStateVariable \<Rightarrow> string \<times> bool" where
  "variable_view statVar = (str_bytes (mupnp_statevariable_getname statVar), mupnp_statevariable_issendevents statVar)"

text \<open>The elements with the names and directions hold text only.\<close>

definition argument_flat :: "mUpnpArgument \<Rightarrow> bool" where
  "argument_flat arg \<longleftrightarrow> leaf_child (argumentNode arg) ''name'' \<and> leaf_child (argumentNode arg) ''direction'' \<and>
     leaf_child (argumentNode arg) ''relatedStateVariable''"

definition action_flat :: "mUpnpAction \<Rightarrow> bool" where
  "action_flat action \<longleftrightarrow> leaf_child (actionNode action) ''name'' \<and> list_all argument_flat (argumentList action)"

definition variable_flat :: "mUpnpStateVariable \<Rightarrow> bool" where
  "variable_flat statVar \<longleftrightarrow> leaf_child (stateVarNode statVar) ''name''"

definition made_of :: "(mUpnpXmlNode \<Rightarrow> bool) \<Rightarrow> (mUpnpXmlNode \<Rightarrow> 'a) \<Rightarrow> cstring \<Rightarrow> mUpnpXmlNode option \<Rightarrow> 'a list" where
  "made_of P f name node = map f (filter P (mupnp_xml_node_getchildnodes (xml_child node (Some name))))"

lemma getchildnodes_simps [simp]: "mupnp_xml_node_getchildnodes None = []" "mupnp_xml_node_getchildnodes (Some n) = xnodes n"
  by (simp_all add: mupnp_xml_node_getchildnodes_def)

lemma xml_child_None [simp]: "xml_child None n = None"
  by (simp add: xml_child_def mupnp_xml_node_getchildnodebyname_def)

lemma action_argumentlist:
  "argumentList (mupnp_action_setactionnode action node) =
     made_of mupnp_argument_isargumentnode (mupnp_argument_setargumentnode mupnp_argument_new) ''argumentList'' node"
  "actionNode (mupnp_action_setactionnode action node) = node"
proof -
  let ?step = "\<lambda>(action :: mUpnpAction) childNode. if \<not> mupnp_argument_isargumentnode childNode then action
      else let arg = mupnp_argument_setargumentnode mupnp_argument_new childNode
           in action\<lparr>argumentList := argumentList action @ [arg]\<rparr>"
  have *: "foldl ?step a ns = a\<lparr>argumentList := argumentList a @
      map (mupnp_argument_setargumentnode mupnp_argument_new) (filter mupnp_argument_isargumentnode ns)\<rparr>" for a ns
    by (induction ns arbitrary: a) (simp_all add: Let_def)
  have init: "mupnp_action_setactionnode action node = action\<lparr>actionNode := node, argumentList :=
      made_of mupnp_argument_isargumentnode (mupnp_argument_setargumentnode mupnp_argument_new) ''argumentList'' node\<rparr>"
  proof (cases "xml_child node (Some ''argumentList'')")
    case None
    then show ?thesis
      by (simp add: mupnp_action_setactionnode_def mupnp_action_initchildnodes_def mupnp_action_initargumentlist_def made_of_def)
  next
    case (Some x)
    then have "mupnp_action_setactionnode action node = foldl ?step (action\<lparr>actionNode := node, argumentList := []\<rparr>) (xnodes x)"
      by (simp add: mupnp_action_setactionnode_def mupnp_action_initchildnodes_def mupnp_action_initargumentlist_def)
    then show ?thesis using Some by (simp add: * made_of_def)
  qed
  show "argumentList (mupnp_action_setactionnode action node) =
      made_of mupnp_argument_isargumentnode (mupnp_argument_setargumentnode mupnp_argument_new) ''argumentList'' node"
    "actionNode (mupnp_action_setactionnode action node) = node"
    by (simp_all add: init)
qed

lemma initchildnodes_made:
  "mupnp_service_initchildnodes service = service
     \<lparr>actionList := made_of mupnp_action_isactionnode (\<lambda>n. mupnp_action_setactionnode mupnp_action_new (Some n)) ''actionList''
         (mupnp_service_getscpdnode service),
      serviceStateTable := made_of mupnp_statevariable_isstatevariablenode
         (\<lambda>n. mupnp_statevariable_setstatevariablenode mupnp_statevariable_new (Some n)) ''serviceStateTable''
         (mupnp_service_getscpdnode service)\<rparr>"
proof -
  let ?a = "\<lambda>n. mupnp_action_setactionnode mupnp_action_new (Some n)"
  let ?v = "\<lambda>n. mupnp_statevariable_setstatevariablenode mupnp_statevariable_new (Some n)"
  have a: "foldl (\<lambda>service childNode. if \<not> mupnp_action_isactionnode childNode then service
      else let action = ?a childNode in service\<lparr>actionList := actionList service @ [action]\<rparr>) s ns =
      s\<lparr>actionList := actionList s @ map ?a (filter mupnp_action_isactionnode ns)\<rparr>" for s ns
    by (induction ns arbitrary: s) (simp_all add: Let_def)
  have v: "foldl (\<lambda>service childNode. if \<not> mupnp_statevariable_isstatevariablenode childNode then service
      else let statVar = ?v childNode in service\<lparr>serviceStateTable := serviceStateTable service @ [statVar]\<rparr>) s ns =
      s\<lparr>serviceStateTable := serviceStateTable s @ map ?v (filter mupnp_statevariable_isstatevariablenode ns)\<rparr>" for s ns
    by (induction ns arbitrary: s) (simp_all add: Let_def)
  have node: "mupnp_service_getscpdnode (s\<lparr>actionList := as, serviceStateTable := vs\<rparr>) = mupnp_service_getscpdnode s"
    "mupnp_service_getscpdnode (s\<lparr>actionList := as\<rparr>) = mupnp_service_getscpdnode s"
    "mupnp_service_getscpdnode (s\<lparr>serviceStateTable := vs\<rparr>) = mupnp_service_getscpdnode s" for s as vs
    by (simp_all add: mupnp_service_getscpdnode_def)
  show ?thesis
    by (simp add: mupnp_service_initchildnodes_def mupnp_service_initactionlist_def
        mupnp_service_initservicestatetable_def Let_def [of "service\<lparr>actionList := []\<rparr>"] Let_def [of "_\<lparr>serviceStateTable := []\<rparr>"]
        made_of_def a v node split: option.splits)
qed

lemma made_of_similar:
  assumes "rel_option xml_similar a b" and "\<And>x y. xml_similar x y \<Longrightarrow> P y = P x"
    and "\<And>x y. xml_similar x y \<Longrightarrow> Q (f x) \<Longrightarrow> v (f y) = v (f x)" and "list_all Q (made_of P f name a)"
  shows "map v (made_of P f name b) = map v (made_of P f name a)"
proof -
  have "list_all2 xml_similar xs ys \<Longrightarrow> list_all Q (map f (filter P xs)) \<Longrightarrow>
      map v (map f (filter P ys)) = map v (map f (filter P xs))" for xs ys
    by (induction xs ys rule: list_all2_induct) (auto simp: assms(2,3))
  then show ?thesis using similar_childnodes [OF similar_child [OF assms(1), of "Some name"]] assms(4)
    by (simp add: made_of_def)
qed

lemma argument_view_similar:
  assumes "xml_similar x y" and "argument_flat (mupnp_argument_setargumentnode arg x)"
  shows "argument_view (mupnp_argument_setargumentnode arg y) = argument_view (mupnp_argument_setargumentnode arg x)"
  using assms similar_childvalue [of "Some x" "Some y"]
  by (simp add: argument_view_def argument_flat_def mupnp_argument_setargumentnode_def mupnp_argument_getname_def
      mupnp_argument_getdirection_def mupnp_argument_getrelatedstatevariable_def)

lemma action_view_similar:
  assumes "xml_similar x y" and flat: "action_flat (mupnp_action_setactionnode a (Some x))"
  shows "action_view (mupnp_action_setactionnode a (Some y)) = action_view (mupnp_action_setactionnode a (Some x))"
proof -
  have sim: "rel_option xml_similar (Some x) (Some y)" using assms(1) by simp
  have "map argument_view (argumentList (mupnp_action_setactionnode a (Some y))) =
      map argument_view (argumentList (mupnp_action_setactionnode a (Some x)))"
    unfolding action_argumentlist(1)
    by (rule made_of_similar [OF sim, where Q = argument_flat])
      (use flat in \<open>simp_all add: mupnp_argument_isargumentnode_def similar_isname argument_view_similar action_flat_def
        action_argumentlist\<close>)
  moreover have "str_bytes (mupnp_action_getname (mupnp_action_setactionnode a (Some y))) =
      str_bytes (mupnp_action_getname (mupnp_action_setactionnode a (Some x)))"
    using similar_childvalue [OF sim, of "''name''"] flat
    by (simp add: mupnp_action_getname_def action_argumentlist action_flat_def)
  ultimately show ?thesis by (simp add: action_view_def)
qed

lemma variable_view_similar:
  assumes "xml_similar x y" and "variable_flat (mupnp_statevariable_setstatevariablenode s (Some x))"
  shows "variable_view (mupnp_statevariable_setstatevariablenode s (Some y)) =
    variable_view (mupnp_statevariable_setstatevariablenode s (Some x))"
  using assms similar_childvalue [of "Some x" "Some y" "''name''"] similar_attrs [OF assms(1)]
  by (simp add: variable_view_def variable_flat_def mupnp_statevariable_setstatevariablenode_def mupnp_statevariable_getname_def
      mupnp_statevariable_issendevents_def mupnp_statevariable_getsendevents_def mupnp_xml_node_getattributevalue_def)

lemma getdescription_text:
  assumes "mupnp_service_getscpdnode service = Some root" and "xml_ok root"
  shows "mupnp_service_getdescription service None = Some (MUPNP_XML_DECLARATION @ [CHR 0x0A] @ xml_text 0 root)"
proof -
  have "str_bytes (mupnp_service_getdescription service None) = MUPNP_XML_DECLARATION @ [CHR 0x0A] @ xml_text 0 root"
    using assms tostring_text [OF assms(2), of 0]
    by (simp add: mupnp_service_getdescription_def mupnp_xml_node_tostring_def)
  then show ?thesis
    by (cases "mupnp_service_getdescription service None") (simp_all add: MUPNP_XML_DECLARATION_def)
qed

section \<open>Properties\<close>

text \<open>C31: the description a device serves for a service is read by a control point as the same
  actions, each with the same arguments, directions and related state variables in the same
  order, and the same evented state variables.\<close>

theorem scpd_roundtrip:
  assumes "reads_xml expat" and "mupnp_service_parsedescription expat0 service0 data = Some (True, service)"
    and "mupnp_service_getscpdnode service = Some root" "xml_ok root" "xml_height root \<le> 128"
    and "list_all action_flat (actionList service)" "list_all variable_flat (serviceStateTable service)"
    and "mupnp_service_getdescription service None = Some doc" and "int (length doc) \<le> INT_MAX"
  shows "\<exists>cp. mupnp_service_parsedescription expat client (Some doc) = Some (True, cp) \<and>
    map action_view (actionList cp) = map action_view (actionList service) \<and>
    map variable_view (serviceStateTable cp) = map variable_view (serviceStateTable service)"
proof -
  have doc: "doc = MUPNP_XML_DECLARATION @ [CHR 0x0A] @ xml_text 0 root"
    using getdescription_text [OF assms(3,4)] assms(8) by simp
  have decl: "MUPNP_XML_DECLARATION \<in> set xml_declarations" by (simp add: MUPNP_XML_DECLARATION_def xml_declarations_def)
  have read: "mupnp_xml_parse expat [] (Some doc) = Some (True, [xml_parsed 0 root])"
    using document_read [OF assms(1,4) assms(5) [folded MUPNP_XML_MAX_DEPTH_def] decl, of "[CHR 0x0A]" "[]"] assms(9)
    by (simp add: doc c_isspace_def)
  define cp where "cp = mupnp_service_initchildnodes ((mupnp_service_clear client)\<lparr>scpdNodeList := Some [xml_parsed 0 root]\<rparr>)"
  have cp: "mupnp_service_parsedescription expat client (Some doc) = Some (True, cp)"
    by (simp add: mupnp_service_parsedescription_def read mupnp_service_getscpdnode_def cp_def)
  have sim: "rel_option xml_similar (Some root) (mupnp_service_getscpdnode cp)"
    using xml_parsed_similar [of root 0] by (simp add: cp_def initchildnodes_made mupnp_service_getscpdnode_def)
  obtain s where s: "service = mupnp_service_initchildnodes s"
    using assms(2) by (auto simp: mupnp_service_parsedescription_def Let_def bind_eq_Some_conv split: if_splits prod.splits)
  then have node: "mupnp_service_getscpdnode s = Some root"
    using assms(3) by (simp add: initchildnodes_made mupnp_service_getscpdnode_def)
  have cpnode: "mupnp_service_getscpdnode cp = Some (xml_parsed 0 root)"
    "mupnp_service_getscpdnode ((mupnp_service_clear client)\<lparr>scpdNodeList := Some [xml_parsed 0 root]\<rparr>) = Some (xml_parsed 0 root)"
    by (simp_all add: cp_def initchildnodes_made mupnp_service_getscpdnode_def)
  have "map action_view (actionList cp) = map action_view (actionList service)"
    using made_of_similar [OF sim, of mupnp_action_isactionnode action_flat "\<lambda>n. mupnp_action_setactionnode mupnp_action_new (Some n)"
        action_view "''actionList''"] assms(6) node cpnode
    by (simp add: s cp_def initchildnodes_made mupnp_action_isactionnode_def similar_isname action_view_similar)
  moreover have "map variable_view (serviceStateTable cp) = map variable_view (serviceStateTable service)"
    using made_of_similar [OF sim, of mupnp_statevariable_isstatevariablenode variable_flat
        "\<lambda>n. mupnp_statevariable_setstatevariablenode mupnp_statevariable_new (Some n)" variable_view "''serviceStateTable''"]
      assms(7) node cpnode
    by (simp add: s cp_def initchildnodes_made mupnp_statevariable_isstatevariablenode_def similar_isname variable_view_similar)
  ultimately show ?thesis using cp by blast
qed

definition witness_root :: mUpnpXmlNode where
  "witness_root =
     (let leaf = (\<lambda>n v. XmlNode (Some n) (Some v) [] []); elem = (\<lambda>n cs. XmlNode (Some n) None [] cs) in
      elem ''scpd''
        [elem ''actionList''
           [elem ''action''
              [leaf ''name'' ''Set'',
               elem ''argumentList'' [elem ''argument'' [leaf ''name'' ''V'', leaf ''direction'' ''in'']]]],
         elem ''serviceStateTable'' []])"

theorem scpd_roundtrip_witness:
  "\<exists>data service doc cp. mupnp_service_parsedescription ref_expat mupnp_service_new (Some data) = Some (True, service) \<and>
     mupnp_service_getdescription service None = Some doc \<and>
     mupnp_service_parsedescription ref_expat mupnp_service_new (Some doc) = Some (True, cp) \<and>
     map action_view (actionList cp) = [(''Set'', [(''V'', ''in'', [])])]"
proof -
  define root where "root = xml_parsed 0 witness_root"
  define data where "data = MUPNP_XML_DECLARATION @ [CHR 0x0A] @ xml_text 0 witness_root"
  define service where "service = mupnp_service_initchildnodes (mupnp_service_new\<lparr>scpdNodeList := Some [root]\<rparr>)"
  have ok: "xml_ok witness_root" "xml_height witness_root \<le> MUPNP_XML_MAX_DEPTH" by code_simp+
  have decl: "MUPNP_XML_DECLARATION \<in> set xml_declarations" by (simp add: MUPNP_XML_DECLARATION_def xml_declarations_def)
  have size: "int (length data) \<le> INT_MAX" unfolding data_def by code_simp
  have parse: "mupnp_xml_parse ref_expat [] (Some data) = Some (True, [root])"
    using document_read [OF reads_xml_ref_expat ok decl, of "[CHR 0x0A]" "[]"] size
    by (simp add: data_def root_def c_isspace_def)
  have clear: "mupnp_service_clear mupnp_service_new = mupnp_service_new" by code_simp
  have 1: "mupnp_service_parsedescription ref_expat mupnp_service_new (Some data) = Some (True, service)"
    by (simp add: mupnp_service_parsedescription_def parse clear mupnp_service_getscpdnode_def service_def)
  have 2: "mupnp_service_getscpdnode service = Some root"
    by (simp add: service_def initchildnodes_made mupnp_service_getscpdnode_def)
  have 3: "xml_ok root" unfolding root_def by code_simp
  have 4: "xml_height root \<le> 128" unfolding root_def by code_simp
  have 5: "list_all action_flat (actionList service)" unfolding service_def root_def by code_simp
  have 6: "list_all variable_flat (serviceStateTable service)" unfolding service_def root_def by code_simp
  define doc where "doc = MUPNP_XML_DECLARATION @ [CHR 0x0A] @ xml_text 0 root"
  have 7: "mupnp_service_getdescription service None = Some doc" unfolding doc_def by (rule getdescription_text [OF 2 3])
  have 8: "int (length doc) \<le> INT_MAX" unfolding doc_def root_def by code_simp
  have 9: "map action_view (actionList service) = [(''Set'', [(''V'', ''in'', [])])]"
    unfolding service_def root_def by code_simp
  obtain cp where cp: "mupnp_service_parsedescription ref_expat mupnp_service_new (Some doc) = Some (True, cp)"
    "map action_view (actionList cp) = map action_view (actionList service)"
    using scpd_roundtrip [OF reads_xml_ref_expat 1 2 3 4 5 6 7 8, of mupnp_service_new] by blast
  show ?thesis
    by (rule exI [of _ data], rule exI [of _ service], rule exI [of _ doc], rule exI [of _ cp]) (simp only: 1 7 cp 9 simp_thms)
qed

end
