(* ===== verification/DeviceDescription.thy ===== *)
theory DeviceDescription
  imports DeviceHttp Scpd
begin

section \<open>Device descriptions between a device and a control point\<close>

text \<open>
  The devices and services a control point makes of a description are functions of its tree, and
  trees that differ only in the white space between their elements make devices of the same
  structure.
\<close>

declare mupnp_device_initdevicelist.simps [simp del, code del]

lemma servicelist_made:
  "mupnp_device_initservicelist dev = dev\<lparr>serviceList :=
     made_of mupnp_service_isservicenode (\<lambda>n. mupnp_service_setservicenode mupnp_service_new (Some n)) ''serviceList'' (deviceNode dev)\<rparr>"
proof -
  let ?f = "\<lambda>n. mupnp_service_setservicenode mupnp_service_new (Some n)"
  have *: "foldl (\<lambda>dev childNode. if \<not> mupnp_service_isservicenode childNode then dev
      else let childService = ?f childNode in dev\<lparr>serviceList := serviceList dev @ [childService]\<rparr>) d ns =
      d\<lparr>serviceList := serviceList d @ map ?f (filter mupnp_service_isservicenode ns)\<rparr>" for d ns
    by (induction ns arbitrary: d) (simp_all add: Let_def)
  show ?thesis
    by (simp add: mupnp_device_initservicelist_def Let_def [of "dev\<lparr>serviceList := []\<rparr>"] made_of_def * split: option.splits)
qed

lemma initiconlist_icons: "\<exists>icons. mupnp_device_initiconlist dev = dev\<lparr>iconList := icons\<rparr>"
proof -
  have "\<exists>icons. foldl (\<lambda>dev childNode. if \<not> mupnp_xml_node_isname childNode (Some ''icon'') then dev
      else dev\<lparr>iconList := iconList dev @ [\<lparr>iconNode = Some childNode\<rparr>]\<rparr>) d ns = d\<lparr>iconList := icons\<rparr>" for d ns
  proof (induction ns arbitrary: d)
    case Nil
    then show ?case by (auto intro: exI [of _ "iconList d"])
  next
    case (Cons n ns)
    have step: "\<exists>icons. (if \<not> mupnp_xml_node_isname n (Some ''icon'') then d
        else d\<lparr>iconList := iconList d @ [\<lparr>iconNode = Some n\<rparr>]\<rparr>) = d\<lparr>iconList := icons\<rparr>"
      by (auto intro: exI [of _ "iconList d"])
    then obtain icons where "(if \<not> mupnp_xml_node_isname n (Some ''icon'') then d
        else d\<lparr>iconList := iconList d @ [\<lparr>iconNode = Some n\<rparr>]\<rparr>) = d\<lparr>iconList := icons\<rparr>" by blast
    with Cons.IH [of "d\<lparr>iconList := icons\<rparr>"] show ?case by simp
  qed
  from this [of "dev\<lparr>iconList := []\<rparr>"] show ?thesis
    by (auto simp: mupnp_device_initiconlist_def Let_def split: option.splits)
qed

lemma init_simps [simp]:
  "deviceNode (mupnp_device_initiconlist (mupnp_device_initservicelist dev)) = deviceNode dev"
  "rootNodeList (mupnp_device_initiconlist (mupnp_device_initservicelist dev)) = rootNodeList dev"
  "serviceList (mupnp_device_initiconlist (mupnp_device_initservicelist dev)) =
     made_of mupnp_service_isservicenode (\<lambda>n. mupnp_service_setservicenode mupnp_service_new (Some n)) ''serviceList'' (deviceNode dev)"
  using initiconlist_icons [of "mupnp_device_initservicelist dev"] by (auto simp: servicelist_made)

definition embedded_made :: "device_env \<Rightarrow> device_state \<Rightarrow> mUpnpXmlNode \<Rightarrow> mUpnpDevice" where
  "embedded_made D dev node = mupnp_device_initchildnodes D (embedded_device D dev node)"

lemma devicelist_made [code]:
  "mupnp_device_initdevicelist D dev = made_of mupnp_device_isdevicenode (embedded_made D dev) ''deviceList'' (deviceNode dev)"
  by (subst mupnp_device_initdevicelist.simps)
    (auto simp: made_of_def embedded_made_def mupnp_device_initchildnodes_def Let_def split: option.splits)

text \<open>The elements of the description that name devices and services hold text only.\<close>

definition service_flat :: "mUpnpService \<Rightarrow> bool" where
  "service_flat service \<longleftrightarrow>
     list_all (leaf_child (serviceNode service)) [''serviceType'', ''serviceId'', ''SCPDURL'', ''controlURL'', ''eventSubURL'']"

definition state_flat :: "device_state \<Rightarrow> bool" where
  "state_flat dev \<longleftrightarrow> leaf_child (deviceNode dev) ''UDN'' \<and> leaf_child (deviceNode dev) ''deviceType'' \<and>
     list_all service_flat (serviceList dev)"

fun all_devices :: "mUpnpDevice \<Rightarrow> device_state list" where
  "all_devices (Device dev childDevs) = dev # concat (map all_devices childDevs)"

definition device_flat :: "mUpnpDevice \<Rightarrow> bool" where
  "device_flat dev \<longleftrightarrow> list_all state_flat (all_devices dev)"

lemma device_flat_simps [simp]:
  "device_flat (Device dev childDevs) \<longleftrightarrow>
     leaf_child (deviceNode dev) ''UDN'' \<and> leaf_child (deviceNode dev) ''deviceType'' \<and>
     list_all service_flat (serviceList dev) \<and> list_all device_flat childDevs"
  by (auto simp: device_flat_def state_flat_def list_all_iff)

lemma streq_refl [simp]: "mupnp_streq a a \<longleftrightarrow> a \<noteq> None"
  by (cases a) simp_all

lemma optstreq_bytes: "str_bytes a = str_bytes b \<Longrightarrow> mupnp_device_optstreq a b"
  by (cases a; cases b) (simp_all add: mupnp_device_optstreq_def)

lemma same_service_similar:
  assumes "xml_similar x y" and "service_flat (mupnp_service_setservicenode s (Some x))"
  shows "same_service (mupnp_service_setservicenode s (Some x)) (mupnp_service_setservicenode t (Some y))"
  using assms similar_childvalue [of "Some x" "Some y"]
  by (auto simp: same_service_def service_flat_def mupnp_service_setservicenode_def mupnp_device_nodevalueequals_def Let_def
      intro!: optstreq_bytes)

lemma made_of_related:
  assumes "rel_option xml_similar a b" and "\<And>x y. xml_similar x y \<Longrightarrow> P y = P x"
    and "\<And>x y. x \<in> set (mupnp_xml_node_getchildnodes (xml_child a (Some name))) \<Longrightarrow> xml_similar x y \<Longrightarrow> Q (f x) \<Longrightarrow> R (f x) (g y)"
    and "list_all Q (made_of P f name a)"
  shows "list_all2 R (made_of P f name a) (made_of P g name b)"
proof -
  have "list_all2 xml_similar xs ys \<Longrightarrow> list_all Q (map f (filter P xs)) \<Longrightarrow>
      set xs \<subseteq> set (mupnp_xml_node_getchildnodes (xml_child a (Some name))) \<Longrightarrow>
      list_all2 R (map f (filter P xs)) (map g (filter P ys))" for xs ys
    by (induction xs ys rule: list_all2_induct) (auto simp: assms(2,3))
  then show ?thesis using similar_childnodes [OF similar_child [OF assms(1), of "Some name"]] assms(4)
    by (simp add: made_of_def)
qed

lemma made_device_similar:
  "rel_option xml_similar (deviceNode d) (deviceNode e) \<Longrightarrow> device_flat (mupnp_device_initchildnodes D d) \<Longrightarrow>
   mupnp_device_hassamestructure (mupnp_device_initchildnodes D d) (mupnp_device_initchildnodes E e)"
proof (induction "case deviceNode d of None \<Rightarrow> 0 | Some n \<Rightarrow> size n" arbitrary: d e rule: less_induct)
  case less
  note sim = less.prems(1)
  have vals: "str_bytes (mupnp_device_getudn e) = str_bytes (mupnp_device_getudn d)"
    "str_bytes (mupnp_device_getdevicetype e) = str_bytes (mupnp_device_getdevicetype d)"
    using less.prems similar_childvalue [OF sim]
    by (simp_all add: mupnp_device_getudn_def mupnp_device_getdevicetype_def mupnp_device_initchildnodes_def)
  have "list_all2 same_service
      (made_of mupnp_service_isservicenode (\<lambda>n. mupnp_service_setservicenode mupnp_service_new (Some n)) ''serviceList'' (deviceNode d))
      (made_of mupnp_service_isservicenode (\<lambda>n. mupnp_service_setservicenode mupnp_service_new (Some n)) ''serviceList'' (deviceNode e))"
    by (rule made_of_related [OF sim, where Q = service_flat])
      (use less.prems(2) in \<open>simp_all add: mupnp_service_isservicenode_def similar_isname mupnp_device_initchildnodes_def same_service_similar\<close>)
  moreover have "list_all2 mupnp_device_hassamestructure
      (made_of mupnp_device_isdevicenode (embedded_made D d) ''deviceList'' (deviceNode d))
      (made_of mupnp_device_isdevicenode (embedded_made E e) ''deviceList'' (deviceNode e))"
  proof (rule made_of_related [OF sim, where Q = device_flat])
    fix x y
    assume x: "x \<in> set (mupnp_xml_node_getchildnodes (xml_child (deviceNode d) (Some ''deviceList'')))"
      and xy: "xml_similar x y" and flat: "device_flat (embedded_made D d x)"
    obtain n l where n: "deviceNode d = Some n" "xml_child (Some n) (Some ''deviceList'') = Some l"
      using x by (cases "deviceNode d"; cases "xml_child (deviceNode d) (Some ''deviceList'')") auto
    have "size x < size n" using size_xml_child [OF n(2)] size_childnodes [of x l] x n by simp
    then show "mupnp_device_hassamestructure (embedded_made D d x) (embedded_made E e y)"
      using less.hyps [of "embedded_device D d x" "embedded_device E e y"] xy flat n
      by (simp add: embedded_made_def embedded_device_def Let_def)
  qed (use less.prems(2) in \<open>simp_all add: mupnp_device_isdevicenode_def similar_isname mupnp_device_initchildnodes_def devicelist_made\<close>)
  ultimately show ?case using vals
    by (simp add: mupnp_device_initchildnodes_def devicelist_made optstreq_bytes mupnp_device_getudn_def mupnp_device_getdevicetype_def)
qed


lemma xname_setchildnode [simp]: "xname (mupnp_xml_node_setchildnode node n v) = xname node"
  by (cases node) (simp add: mupnp_xml_node_setchildnode_def split: option.split)

lemma no_child_of_null [simp]: "mupnp_xml_node_getchildnodebyname None n = None"
  by (simp add: mupnp_xml_node_getchildnodebyname_def)

lemma write_in_root:
  assumes "device_in_root d = deviceNode d" and "\<And>node. xname (f node) = xname node"
  shows "device_in_root (device_write f d) = deviceNode (device_write f d)"
proof (cases "deviceNode d")
  case (Some node)
  then obtain root rest i where root: "rootNodeList d = Some (root # rest)"
    "mupnp_xml_node_getchildnodebyname (Some root) (Some ''device'') = Some i" "node = xnodes root ! i"
    using assms(1) by (auto simp: device_in_root_def mupnp_device_getrootnode_def xml_child_def split: option.splits list.splits)
  obtain n v as cs where r: "root = XmlNode n v as cs" by (cases root)
  have "nodelist_find cs (Some ''device'') = Some i"
    using root(2) by (simp add: r mupnp_xml_node_getchildnodebyname_def mupnp_xml_nodelist_getbyname_def)
  then show ?thesis
    using Some root nodelist_find_update [of "f (cs ! i)" cs i "Some ''device''"] assms(2)
    by (simp add: device_write_def r device_in_root_def mupnp_device_getrootnode_def xml_child_def
        mupnp_xml_node_getchildnodebyname_def mupnp_xml_nodelist_getbyname_def nodelist_find_less)
qed (use assms in \<open>simp add: device_write_def\<close>)

lemma in_root_init [simp]: "device_in_root (mupnp_device_initiconlist (mupnp_device_initservicelist d)) = device_in_root d"
  by (simp add: device_in_root_def mupnp_device_getrootnode_def)

lemma parsed_device:
  assumes "mupnp_device_parsedescription D dev0 data = Some (True, dev)"
  obtains d where "dev = mupnp_device_initchildnodes D d" and "device_in_root d = deviceNode d"
proof -
  obtain ok nodes where parse: "mupnp_xml_parse (xml_parser (gena D)) [] data = Some (ok, nodes)"
    using assms by (auto simp: mupnp_device_parsedescription_def Let_def bind_eq_Some_conv)
  then obtain root roots where nodes: "ok" "nodes = root # roots"
    using assms by (cases nodes) (auto simp: mupnp_device_parsedescription_def Let_def split: if_splits)
  define d where "d = (mupnp_device_clear (own dev0))\<lparr>rootNodeList := Some nodes, deviceNode := xml_child (Some root) (Some ''device'')\<rparr>"
  have d: "device_in_root d = deviceNode d"
    by (simp add: d_def device_in_root_def mupnp_device_getrootnode_def nodes)
  have dev: "dev = mupnp_device_initchildnodes D
      (if mupnp_device_hasudn d = False then mupnp_device_setudn d (Some (new_uuid D)) else d)"
    using assms parse nodes
    by (simp add: mupnp_device_parsedescription_def Let_def mupnp_device_getrootnode_def d_def split: if_splits)
  show thesis
  proof (rule that [OF dev])
    show "device_in_root (if mupnp_device_hasudn d = False then mupnp_device_setudn d (Some (new_uuid D)) else d) =
      deviceNode (if mupnp_device_hasudn d = False then mupnp_device_setudn d (Some (new_uuid D)) else d)"
      using d write_in_root [OF d] by (simp add: mupnp_device_setudn_def)
  qed
qed

lemma same_tree_node:
  assumes "same_tree a b"
  shows "deviceNode (own b) = deviceNode (own a)" and "device_in_root (own b) = device_in_root (own a)"
proof -
  obtain d ds e es where a: "a = Device d ds" "b = Device e es" by (cases a, cases b) blast
  then have "d\<lparr>rootNodeList := rootNodeList e, serviceList := serviceList e\<rparr> = e" using assms by simp
  then have "deviceNode e = deviceNode (d\<lparr>rootNodeList := rootNodeList e, serviceList := serviceList e\<rparr>)" by simp
  then show "deviceNode (own b) = deviceNode (own a)" by (simp add: a)
  show "device_in_root (own b) = device_in_root (own a)" using assms by (simp add: a)
qed

lemma same_tree_structure:
  "same_tree a b \<Longrightarrow> mupnp_device_hassamestructure a c \<Longrightarrow> mupnp_device_hassamestructure b c"
proof (induction a b arbitrary: c rule: same_tree.induct)
  case (1 a as b bs)
  obtain d ds where c: "c = Device d ds" by (cases c)
  have node: "deviceNode b = deviceNode a" using same_tree_node(1) [OF 1(2)] by simp
  have "list_all2 same_identity (serviceList a) (serviceList b)" "list_all2 same_service (serviceList a) (serviceList d)"
    using 1(2,3) by (simp_all add: c)
  then have "list_all2 same_service (serviceList b) (serviceList d)"
    by (auto simp: list_all2_conv_all_nth same_identity_def same_service_def)
  moreover have "list_all2 mupnp_device_hassamestructure bs ds"
  proof (rule list_all2_all_nthI)
    have len: "length as = length bs" "length as = length ds" using 1(2,3) by (auto simp: c dest: list_all2_lengthD)
    then show "length bs = length ds" by simp
    fix i
    assume i: "i < length bs"
    have "same_tree (as ! i) (bs ! i)" "mupnp_device_hassamestructure (as ! i) (ds ! i)"
      using 1(2,3) len i by (simp_all add: c list_all2_conv_all_nth)
    then show "mupnp_device_hassamestructure (bs ! i) (ds ! i)"
      using len i by (intro 1(1) [of "as ! i" "bs ! i"]) simp_all
  qed
  ultimately show ?case using 1(3) node
    by (simp add: c mupnp_device_getudn_def mupnp_device_getdevicetype_def)
qed

lemma unescape_plain:
  "CHR ''%'' \<notin> set b \<Longrightarrow> n \<le> length b \<Longrightarrow>
   str_bytes (uri_unescape_loop b (length b) n r) = str_bytes r @ drop n b"
proof (induction "length b - n" arbitrary: n r)
  case 0
  then show ?case by (simp add: uri_unescape_loop.simps)
next
  case (Suc k)
  have n: "n < length b" "b ! n \<noteq> CHR ''%''"
    using Suc.hyps(2) Suc.prems(1) nth_mem [of n b] by (simp, metis zero_less_Suc zero_less_diff)
  have step: "uri_unescape_loop b (length b) n r = uri_unescape_loop b (length b) (n + 1) (str_add r (Some [b ! n]))"
    using n by (subst uri_unescape_loop.simps) simp
  have rest: "str_bytes (uri_unescape_loop b (length b) (n + 1) (str_add r (Some [b ! n]))) = str_bytes r @ b ! n # drop (n + 1) b"
    using Suc.hyps(1) [of "n + 1" "str_add r (Some [b ! n])"] Suc.hyps(2) Suc.prems(1) n by simp
  have "b ! n # drop (n + 1) b = drop n b" using Cons_nth_drop_Suc [OF n(1)] by simp
  then show ?case unfolding step rest by (rule arg_cong)
qed

lemma unescaped_plain:
  assumes "mupnp_http_request_geturi q = Some u" and "u \<noteq> []" "nul_free u" "CHR ''%'' \<notin> set u"
  shows "unescaped_request q = q"
proof -
  let ?r = "uri_unescape_loop (u @ [NUL]) (length (u @ [NUL])) 0 None"
  have "\<not> mupnp_net_uri_isescapedstring u 0"
    using assms(4) by (simp add: mupnp_net_uri_isescapedstring_def c_strstr_single)
  moreover have bytes: "str_bytes ?r = u @ [NUL]" using unescape_plain [of "u @ [NUL]" 0 None] assms(4) by simp
  then have "?r = Some (u @ [NUL])" by (cases ?r) simp_all
  ultimately have "unescaped_request q = mupnp_http_request_seturi q (Some u)"
    using assms by (simp add: unescaped_request_def mupnp_net_uri_unescapestring_def)
  then show ?thesis using assms(1) by (simp add: mupnp_http_request_seturi_def mupnp_http_request_geturi_def)
qed


lemma word_of_small: "int n \<le> INT_MAX \<Longrightarrow> unat (word_of_nat n :: 64 word) = n"
  by (simp add: unat_of_nat INT_MAX_def)

section \<open>Properties\<close>

text \<open>C39: the description a device serves is read by a control point as a device of the same
  structure: the same UDNs, types, services, identifiers and URLs, for the device and all its
  embedded devices, in the same order.  This holds after any number of requests and for every
  address the device is asked on.\<close>

theorem description_roundtrip:
  assumes "mupnp_device_parsedescription D0 dev0 data = Some (True, dev1)" and "same_tree dev1 dev"
    and "mupnp_device_hasudn (own dev)" "device_flat dev1" "presentationListener (own dev) = None"
    and "descriptionURI (own dev) = Some u" "u \<noteq> []" "nul_free u" "CHR ''%'' \<notin> set u"
    and "mupnp_http_request_isgetrequest q" "mupnp_http_request_geturi q = Some u"
    and "mupnp_device_getrootnode (fst (mupnp_device_getdescription (nmpr_mode H) (own dev) (local_address H) None)) = Some root"
    and "xml_ok root" "xml_height root \<le> 128" "int (length (xml_text 0 root)) \<le> 2000000000"
    and "reads_xml (xml_parser (gena D))"
  shows "\<exists>dev' res doc cp. mupnp_device_httprequestrecieved H dev q = Some (dev', [res]) \<and>
    mupnp_http_response_getstatuscode res = 200 \<and> http_content res = Some (Some doc) \<and>
    mupnp_device_parsedescription D (Device (mupnp_device_new D) []) (Some doc) = Some (True, cp) \<and>
    mupnp_device_hassamestructure dev cp"
proof -
  define doc where "doc = MUPNP_XML_DECLARATION @ [CHR 0x0A] @ xml_text 0 root"
  obtain d' descStr where desc: "mupnp_device_getdescription (nmpr_mode H) (own dev) (local_address H) None = (d', descStr)"
    by (cases "mupnp_device_getdescription (nmpr_mode H) (own dev) (local_address H) None")
  have root: "mupnp_device_getrootnode d' = Some root" using assms(12) desc by simp
  then have "descStr = mupnp_xml_node_tostring root True (str_add (str_add None (Some MUPNP_XML_DECLARATION)) (Some [CHR 0x0A]))"
    using desc by (auto simp: mupnp_device_getdescription_def Let_def split: option.splits)
  then have "str_bytes descStr = doc"
    using tostring_text [OF assms(13), of 0] by (simp add: mupnp_xml_node_tostring_def doc_def)
  then have descStr: "descStr = Some doc" by (cases descStr) (simp_all add: doc_def MUPNP_XML_DECLARATION_def)
  let ?res = "description_response q (Some doc)"
  have "mupnp_device_httprequestrecieved H dev q = mupnp_device_getrequestrecieved H dev q"
    using unescaped_plain [OF assms(11,7,8,9)] assms(5,10) by (simp add: mupnp_device_httprequestrecieved_def)
  also have "\<dots> = Some (Device d' (deviceList dev), [?res])"
    using assms(6,7,11) desc descStr
    by (simp add: mupnp_device_getrequestrecieved_def mupnp_device_isdescriptionuri_def mupnp_strlen_def)
  finally have answer: "mupnp_device_httprequestrecieved H dev q = Some (Device d' (deviceList dev), [?res])" .
  have size: "int (length doc) \<le> INT_MAX"
    using assms(15) by (simp add: doc_def MUPNP_XML_DECLARATION_def INT_MAX_def)
  have content: "content ?res = Some doc" and len: "field ?res ''Content-Length'' = Some (show_nat 10 (length doc))"
    using size by (simp_all add: description_response_def Let_def contentlength_field LONG_MAX_def INT_MAX_def)
  have status: "mupnp_http_response_getstatuscode ?res = 200"
    using size by (simp add: description_response_def Let_def contentlength_field LONG_MAX_def INT_MAX_def
        mupnp_http_response_getstatuscode_def mupnp_http_packet_setheadervalue_def mupnp_http_response_setstatuscode_def
        mupnp_http_response_setreasonphrase_def MUPNP_HTTP_STATUS_OK_def)
  have "mupnp_http_packet_getcontentlength ?res = int (length doc)"
    using contentlength_shown [OF len] size by (simp add: LONG_MAX_def INT_MAX_def)
  then have body: "http_content ?res = Some (Some doc)"
    using content size
    by (simp add: http_content_def Let_def word_of_small)
  obtain d where d: "dev1 = mupnp_device_initchildnodes D0 d" "device_in_root d = deviceNode d"
    by (rule parsed_device [OF assms(1)])
  have "same_tree dev (Device d' (deviceList dev))" by (rule getdescription_tree [OF desc])
  then have node: "deviceNode (own dev) = deviceNode d" "device_in_root d' = deviceNode d"
    using same_tree_node [of dev "Device d' (deviceList dev)"] same_tree_node [OF assms(2)] d
    by (simp_all add: mupnp_device_initchildnodes_def)
  let ?root = "xml_parsed 0 root"
  have "rel_option xml_similar (Some root) (Some ?root)" using xml_parsed_similar by simp
  then have "rel_option xml_similar (xml_child (Some root) (Some ''device'')) (xml_child (Some ?root) (Some ''device''))"
    by (rule similar_child)
  moreover have "xml_child (Some root) (Some ''device'') = deviceNode d"
    using node(2) root by (simp add: device_in_root_def)
  ultimately have sim: "rel_option xml_similar (deviceNode d) (xml_child (Some ?root) (Some ''device''))" by simp
  define e where "e = (mupnp_device_clear (mupnp_device_new D))\<lparr>rootNodeList := Some [?root],
    deviceNode := xml_child (Some ?root) (Some ''device'')\<rparr>"
  have udn: "mupnp_device_hasudn e" "deviceNode e \<noteq> None"
  proof -
    have leaf: "leaf_child (deviceNode d) ''UDN''" using assms(4) by (simp add: d mupnp_device_initchildnodes_def)
    then have "str_bytes (mupnp_device_getudn e) = str_bytes (mupnp_device_getudn (own dev))"
      using similar_childvalue [OF sim leaf] node by (simp add: mupnp_device_getudn_def e_def)
    with assms(3) show "mupnp_device_hasudn e"
      by (cases "mupnp_device_getudn e") (auto simp: mupnp_device_hasudn_def mupnp_strlen_def split: option.splits if_splits)
    then show "deviceNode e \<noteq> None"
      by (cases "deviceNode e") (auto simp: mupnp_device_hasudn_def mupnp_device_getudn_def mupnp_xml_node_getchildnodevalue_def mupnp_strlen_def)
  qed
  have "MUPNP_XML_DECLARATION \<in> set xml_declarations" by (simp add: MUPNP_XML_DECLARATION_def xml_declarations_def)
  from document_read [OF assms(16,13) assms(14) [folded MUPNP_XML_MAX_DEPTH_def] this, of "[CHR 0x0A]" "[]"] size
  have "mupnp_xml_parse (xml_parser (gena D)) [] (Some doc) = Some (True, [?root])"
    by (simp add: doc_def c_isspace_def)
  then have cp: "mupnp_device_parsedescription D (Device (mupnp_device_new D) []) (Some doc) = Some (True, mupnp_device_initchildnodes D e)"
    using udn by (simp add: mupnp_device_parsedescription_def Let_def mupnp_device_getrootnode_def e_def)
  have "mupnp_device_hassamestructure dev1 (mupnp_device_initchildnodes D e)"
    unfolding d(1) by (rule made_device_similar) (use sim assms(4) d(1) in \<open>simp_all add: e_def\<close>)
  then show ?thesis using answer status body cp same_tree_structure [OF assms(2)] by blast
qed


definition ex_root :: mUpnpXmlNode where
  "ex_root =
     (let leaf = (\<lambda>n v. XmlNode (Some n) (Some v) [] []); elem = (\<lambda>n cs. XmlNode (Some n) None [] cs);
          device = (\<lambda>u more. elem ''device'' ([leaf ''deviceType'' ''urn:x:device:D:1'', leaf ''UDN'' u] @ more));
          service = elem ''service'' [leaf ''serviceType'' ''urn:x:service:S:1'', leaf ''serviceId'' ''urn:x:serviceId:S'',
            leaf ''SCPDURL'' ''/s.xml'', leaf ''controlURL'' ''/c'', leaf ''eventSubURL'' ''/e'']
      in elem ''root'' [device ''uuid:1'' [elem ''serviceList'' [service],
           elem ''deviceList'' [device ''uuid:2'' []]]])"

definition ex_denv :: device_env where
  "ex_denv = \<lparr>gena = ex_env, clock = 100, new_uuid = ''uuid:0'', memory = []\<rparr>"

definition ex_http :: http_env where
  "ex_http = \<lparr>http_gena = ex_env, received = 100, notified = 100, notify_running = False, sid_uuid = ''uuid:9'',
     action_calls = (\<lambda>i a. (False, a)), query_calls = (\<lambda>i v. (False, v)), presentation_calls = (\<lambda>i q. []),
     nmpr_mode = False, local_address = ''10.0.0.2''\<rparr>"

definition ex_get :: mUpnpHttpRequest where
  "ex_get = description_request (Some ''/description.xml'')"

definition ex_parsed :: mUpnpXmlNode where "ex_parsed = xml_parsed 0 ex_root"

definition ex_state :: device_state where
  "ex_state = (mupnp_device_clear (mupnp_device_new ex_denv))\<lparr>rootNodeList := Some [ex_parsed],
     deviceNode := xml_child (Some ex_parsed) (Some ''device'')\<rparr>"

definition ex_device :: mUpnpDevice where "ex_device = mupnp_device_initchildnodes ex_denv ex_state"

definition ex_served :: mUpnpXmlNode where
  "ex_served = mupnp_xml_node_addchildnode ex_parsed (XmlNode (Some ''URLBase'') (Some ''http://10.0.0.2:38400'') [] [])"

theorem description_roundtrip_witness:
  "\<exists>data dev dev' res doc cp. mupnp_device_parsedescription ex_denv (Device (mupnp_device_new ex_denv) []) (Some data) = Some (True, dev) \<and>
     length (deviceList dev) = 1 \<and>
     mupnp_device_httprequestrecieved ex_http dev ex_get = Some (dev', [res]) \<and>
     mupnp_http_response_getstatuscode res = 200 \<and>
     mupnp_device_parsedescription ex_denv (Device (mupnp_device_new ex_denv) []) (Some doc) = Some (True, cp) \<and>
     mupnp_device_hassamestructure dev cp"
proof -
  define data where "data = MUPNP_XML_DECLARATION @ [CHR 0x0A] @ xml_text 0 ex_root"
  have env: "xml_parser (gena ex_denv) = ref_expat" by (simp add: ex_denv_def ex_env_def)
  have ok: "xml_ok ex_root" "xml_height ex_root \<le> MUPNP_XML_MAX_DEPTH" by code_simp+
  have decl: "MUPNP_XML_DECLARATION \<in> set xml_declarations" by (simp add: MUPNP_XML_DECLARATION_def xml_declarations_def)
  have size: "int (length data) \<le> INT_MAX" unfolding data_def by code_simp
  have read: "mupnp_xml_parse ref_expat [] (Some data) = Some (True, [ex_parsed])"
    using document_read [OF reads_xml_ref_expat ok decl, of "[CHR 0x0A]" "[]"] size
    by (simp add: data_def ex_parsed_def c_isspace_def)
  have d: "mupnp_device_hasudn ex_state" "deviceNode ex_state \<noteq> None" by code_simp+
  have parse: "mupnp_device_parsedescription ex_denv (Device (mupnp_device_new ex_denv) []) (Some data) = Some (True, ex_device)"
    using d unfolding ex_device_def ex_state_def
    by (simp add: mupnp_device_parsedescription_def env read Let_def mupnp_device_getrootnode_def)
  have "list_all (\<lambda>d. list_all service_flat (serviceList d)) (all_devices ex_device)" by code_simp
  moreover have "list_all (\<lambda>d. leaf_child (deviceNode d) ''UDN'' \<and> leaf_child (deviceNode d) ''deviceType'') (all_devices ex_device)" by code_simp
  ultimately have flat: "device_flat ex_device" by (auto simp: device_flat_def state_flat_def list_all_iff)
  have get: "mupnp_http_request_isgetrequest ex_get" "mupnp_http_request_geturi ex_get = Some ''/description.xml''" by code_simp+
  have base: "mupnp_xml_node_getchildnodebyname (Some ex_parsed) (Some ''URLBase'') = None" by code_simp
  have "show_int 38400 = ''38400''" by (simp add: show_int_def show_nat_def digit_char_def nat_digits.simps) code_simp
  then have url: "mupnp_net_gethosturl ''10.0.0.2'' 38400 '''' MUPNP_DEVICE_URLBASE_MAXLEN = ''http://10.0.0.2:38400''"
    by (simp add: mupnp_net_gethosturl_def mupnp_net_getmodifierhosturl_def isipv6_iff Let_def c_snprintf_def MUPNP_DEVICE_URLBASE_MAXLEN_def)
  have own: "own ex_device = mupnp_device_initiconlist (mupnp_device_initservicelist ex_state)"
    by (simp add: ex_device_def mupnp_device_initchildnodes_def)
  have icons: "mupnp_device_getudn (mupnp_device_initiconlist (mupnp_device_initservicelist ex_state)) = mupnp_device_getudn ex_state"
    using initiconlist_icons [of "mupnp_device_initservicelist ex_state"]
    by (auto simp: servicelist_made mupnp_device_getudn_def)
  have "mupnp_device_hasudn (own ex_device)" using d(1) by (simp add: own icons mupnp_device_hasudn_def)
  then have dev: "mupnp_device_hasudn (own ex_device)" "presentationListener (own ex_device) = None"
    "descriptionURI (own ex_device) = Some ''/description.xml''" "rootNodeList (own ex_device) = Some [ex_parsed]" "httpPort (own ex_device) = 38400"
    using initiconlist_icons [of "mupnp_device_initservicelist ex_state"]
    by (auto simp: own servicelist_made ex_state_def mupnp_device_clear_def mupnp_device_new_def MUPNP_DEVICE_HTTP_DEFAULT_PORT_def
        MUPNP_DEVICE_DEFAULT_DESCRIPTION_URI_def)
  have embedded: "length (deviceList ex_device) = 1" by code_simp
  have root: "mupnp_device_getrootnode (fst (mupnp_device_getdescription (nmpr_mode ex_http) (own ex_device) (local_address ex_http) None)) = Some ex_served"
    using dev base url by (simp add: mupnp_device_getdescription_def mupnp_device_updateurlbase_def mupnp_device_seturlbase_def
        mupnp_device_isrootdevice_def mupnp_device_getrootnode_def ex_http_def mupnp_xml_node_new_def Let_def ex_served_def)
  have served_ok: "xml_ok ex_served" by code_simp
  have served_height: "xml_height ex_served \<le> 128" by code_simp
  have served_size: "int (length (xml_text 0 ex_served)) \<le> 2000000000" by code_simp
  have uri: "''/description.xml'' \<noteq> []" "nul_free ''/description.xml''" "CHR ''%'' \<notin> set ''/description.xml''"
    by (simp_all add: nul_free_def)
  obtain dev' res doc cp where trip: "mupnp_device_httprequestrecieved ex_http ex_device ex_get = Some (dev', [res])"
    "mupnp_http_response_getstatuscode res = 200"
    "mupnp_device_parsedescription ex_denv (Device (mupnp_device_new ex_denv) []) (Some doc) = Some (True, cp)"
    "mupnp_device_hassamestructure ex_device cp"
    using description_roundtrip [OF parse same_tree_refl dev(1) flat dev(2,3) uri get root served_ok served_height served_size reads_xml_ref_expat [folded env]]
    by (elim exE conjE)
  show ?thesis by (intro exI conjI) (rule parse embedded trip)+
qed

end
