(* ===== verification/HttpPersistent.thy ===== *)
theory HttpPersistent
  imports StringFunction Interfaces
begin

section \<open>The cache of persistent connections (src/mupnp/http/http_persistent_connection.c)\<close>

text \<open>
  The cache is the sequence of its nodes, the least recently used one first; it is \<open>None\<close>
  before \<open>init\<close>.  A connection is an address, NULL is \<open>None\<close>.  Deleting a node closes its
  connection; the closed connections are recorded in the state, so that it can be said that a
  cached connection is never a closed one.  The clock is a parameter.
\<close>

record pc_node =
  pc_host :: charptr
  pc_port :: int
  pc_data :: "nat option"
  pc_time :: int

record pc_state =
  pc_cache :: "pc_node list option"
  pc_closed :: "nat option list"

definition MUPNP_HTTP_PERSISTENT_CACHE_SIZE :: nat where "MUPNP_HTTP_PERSISTENT_CACHE_SIZE = 5"
definition MUPNP_HTTP_PERSISTENT_TIMEOUT_PERIOD :: int where "MUPNP_HTTP_PERSISTENT_TIMEOUT_PERIOD = 60"

definition pc_initial :: pc_state where
  "pc_initial = \<lparr>pc_cache = None, pc_closed = []\<rparr>"

definition mupnp_http_persistentconnection_init :: "pc_state \<Rightarrow> bool \<times> pc_state" where
  "mupnp_http_persistentconnection_init st =
     (True, if pc_cache st = None then st\<lparr>pc_cache := Some []\<rparr> else st)"

definition mupnp_http_persistentconnection_new :: pc_node where
  "mupnp_http_persistentconnection_new = \<lparr>pc_host = None, pc_port = 0, pc_data = None, pc_time = 0\<rparr>"

definition mupnp_http_persistentconnection_delete :: "pc_state \<Rightarrow> pc_node \<Rightarrow> pc_state" where
  "mupnp_http_persistentconnection_delete st node = st\<lparr>pc_closed := pc_closed st @ [pc_data node]\<rparr>"

definition pc_expired :: "int \<Rightarrow> pc_node \<Rightarrow> bool" where
  "pc_expired sysTime node \<longleftrightarrow> sysTime > pc_time node + MUPNP_HTTP_PERSISTENT_TIMEOUT_PERIOD"

text \<open>One pass of the loop over the nodes: the first expired node and the others.\<close>

fun pc_first_expired :: "int \<Rightarrow> pc_node list \<Rightarrow> (pc_node \<times> pc_node list) option" where
  "pc_first_expired sysTime [] = None"
| "pc_first_expired sysTime (node # ns) =
     (if pc_expired sysTime node then Some (node, ns)
      else map_option (\<lambda>(m, ms). (m, node # ms)) (pc_first_expired sysTime ns))"

lemma pc_first_expired_less: "pc_first_expired t ns = Some (m, ms) \<Longrightarrow> length ms < length ns"
  by (induction ns arbitrary: m ms) (auto split: if_splits)

function pc_clear_expired :: "pc_state \<Rightarrow> pc_node list \<Rightarrow> int \<Rightarrow> pc_state \<times> pc_node list" where
  "pc_clear_expired st ns sysTime =
     (case pc_first_expired sysTime ns of
        None \<Rightarrow> (st, ns)
      | Some (node, ns') \<Rightarrow> pc_clear_expired (mupnp_http_persistentconnection_delete st node) ns' sysTime)"
  by pat_completeness auto
termination
  by (relation "measure (\<lambda>(st, ns, t). length ns)") (auto simp: pc_first_expired_less)

declare pc_clear_expired.simps [simp del]

definition pc_match :: "charptr \<Rightarrow> int \<Rightarrow> pc_node \<Rightarrow> bool" where
  "pc_match host port node \<longleftrightarrow> mupnp_strcmp (pc_host node) host = 0 \<and> pc_port node = port"

fun pc_find :: "charptr \<Rightarrow> int \<Rightarrow> pc_node list \<Rightarrow> nat option" where
  "pc_find host port [] = None"
| "pc_find host port (node # ns) = (if pc_match host port node then Some 0 else map_option Suc (pc_find host port ns))"

definition pc_remove :: "nat \<Rightarrow> pc_node list \<Rightarrow> pc_node list" where
  "pc_remove i ns = take i ns @ drop (i + 1) ns"

definition mupnp_http_persistentconnection_get ::
    "pc_state \<Rightarrow> charptr \<Rightarrow> int \<Rightarrow> int \<Rightarrow> nat option \<times> pc_state" where
  "mupnp_http_persistentconnection_get st host port sysTime =
     (case pc_cache st of None \<Rightarrow> (None, st)
      | Some ns \<Rightarrow>
          (case pc_clear_expired st ns sysTime of (st, ns) \<Rightarrow>
             (case pc_find host port ns of
                Some i \<Rightarrow> (pc_data (ns ! i),
                           st\<lparr>pc_cache := Some (pc_remove i ns @ [(ns ! i)\<lparr>pc_time := sysTime\<rparr>])\<rparr>)
              | None \<Rightarrow> (None, st\<lparr>pc_cache := Some ns\<rparr>))))"

text \<open>The node that is stored at the end of \<open>put\<close>.\<close>

definition pc_assign :: "pc_node \<Rightarrow> charptr \<Rightarrow> int \<Rightarrow> nat option \<Rightarrow> int \<Rightarrow> pc_node" where
  "pc_assign node host port data sysTime =
     node\<lparr>pc_host := str_set (pc_host node) host, pc_port := port, pc_data := data, pc_time := sysTime\<rparr>"

definition mupnp_http_persistentconnection_put ::
    "pc_state \<Rightarrow> charptr \<Rightarrow> int \<Rightarrow> nat option \<Rightarrow> int \<Rightarrow> bool \<times> pc_state" where
  "mupnp_http_persistentconnection_put st host port data sysTime =
     (case pc_cache st of None \<Rightarrow> (False, st)
      | Some ns \<Rightarrow>
          (case pc_find host port ns of
             Some i \<Rightarrow>
               if pc_data (ns ! i) = data
               then (True, st\<lparr>pc_cache := Some (ns[i := (ns ! i)\<lparr>pc_time := sysTime\<rparr>])\<rparr>)
               else
                 let newNode = ns ! i; ns = pc_remove i ns
                 in if data \<noteq> None
                    then (True, st\<lparr>pc_cache := Some (ns @ [pc_assign newNode host port data sysTime])\<rparr>)
                    else (True, mupnp_http_persistentconnection_delete (st\<lparr>pc_cache := Some ns\<rparr>) newNode)
           | None \<Rightarrow>
               let (st, ns) = (if length ns \<ge> MUPNP_HTTP_PERSISTENT_CACHE_SIZE
                               then (mupnp_http_persistentconnection_delete st (hd ns), tl ns) else (st, ns))
               in if data = None then (True, st\<lparr>pc_cache := Some ns\<rparr>)
                  else (True, st\<lparr>pc_cache := Some (ns @ [pc_assign mupnp_http_persistentconnection_new host port data sysTime])\<rparr>)))"

definition mupnp_http_persistentconnection_clear :: "pc_state \<Rightarrow> pc_state" where
  "mupnp_http_persistentconnection_clear st =
     (case pc_cache st of None \<Rightarrow> st
      | Some ns \<Rightarrow> (foldl mupnp_http_persistentconnection_delete st ns)\<lparr>pc_cache := None\<rparr>)"

section \<open>The nodes of the cache\<close>

lemma clear_expired_filter:
  "pc_clear_expired st ns t =
     (st\<lparr>pc_closed := pc_closed st @ map pc_data (filter (pc_expired t) ns)\<rparr>, filter (\<lambda>n. \<not> pc_expired t n) ns)"
proof (induction st ns t rule: pc_clear_expired.induct)
  case (1 st ns t)
  have none: "pc_first_expired t ns = None \<Longrightarrow> \<forall>n \<in> set ns. \<not> pc_expired t n"
    by (induction ns) (auto split: if_splits)
  have some: "pc_first_expired t ns = Some (m, ms) \<Longrightarrow>
      filter (pc_expired t) ns = m # filter (pc_expired t) ms \<and>
      filter (\<lambda>n. \<not> pc_expired t n) ns = filter (\<lambda>n. \<not> pc_expired t n) ms" for m ms
    by (induction ns arbitrary: m ms) (auto split: if_splits)
  show ?case
  proof (cases "pc_first_expired t ns")
    case None
    with none show ?thesis by (subst pc_clear_expired.simps) (simp add: filter_empty_conv)
  next
    case (Some x)
    obtain m ms where x: "x = (m, ms)" by fastforce
    from 1 [OF Some [unfolded x] refl] Some x some show ?thesis
      by (subst pc_clear_expired.simps) (simp add: mupnp_http_persistentconnection_delete_def)
  qed
qed

lemma pc_find_None: "pc_find h p ns = None \<longleftrightarrow> (\<forall>n \<in> set ns. \<not> pc_match h p n)"
  by (induction ns) auto

lemma pc_find_Some:
  "pc_find h p ns = Some i \<Longrightarrow>
   \<exists>a n b. ns = a @ n # b \<and> length a = i \<and> pc_match h p n \<and> (\<forall>m \<in> set a. \<not> pc_match h p m)"
proof (induction ns arbitrary: i)
  case (Cons n ns)
  show ?case
  proof (cases "pc_match h p n")
    case True
    with Cons.prems show ?thesis by (intro exI [of _ "[]"]) auto
  next
    case False
    with Cons.prems obtain j where "pc_find h p ns = Some j" "i = Suc j" by auto
    with Cons.IH [of j] False show ?thesis by (metis append_Cons length_Cons set_ConsD)
  qed
qed simp

lemma pc_find_at:
  "\<forall>m \<in> set a. \<not> pc_match h p m \<Longrightarrow> pc_match h p n \<Longrightarrow> pc_find h p (a @ n # b) = Some (length a)"
  by (induction a) auto

lemma pc_remove_at [simp]: "pc_remove (length a) (a @ n # b) = a @ b"
  by (simp add: pc_remove_def)

section \<open>Invariant\<close>

abbreviation pc_key :: "pc_node \<Rightarrow> charptr \<times> int" where
  "pc_key n \<equiv> (pc_host n, pc_port n)"

definition pc_node_ok :: "pc_node \<Rightarrow> bool" where
  "pc_node_ok n \<longleftrightarrow> pc_data n \<noteq> None \<and> pc_host n \<noteq> None \<and> nul_free (str_bytes (pc_host n))"

definition pc_inv :: "pc_state \<Rightarrow> bool" where
  "pc_inv st \<longleftrightarrow>
     (\<forall>ns. pc_cache st = Some ns \<longrightarrow>
        length ns \<le> MUPNP_HTTP_PERSISTENT_CACHE_SIZE \<and> (\<forall>n \<in> set ns. pc_node_ok n) \<and>
        distinct (map pc_key ns) \<and> distinct (map pc_data ns) \<and> set (map pc_data ns) \<inter> set (pc_closed st) = {})"

lemma pc_match_key: "pc_node_ok n \<Longrightarrow> nul_free h \<Longrightarrow> pc_match (Some h) p n \<longleftrightarrow> pc_key n = (Some h, p)"
  by (auto simp: pc_match_def pc_node_ok_def c_strcmp_eq_0)

text \<open>
  The operations of a client that puts a connection under one key at a time, and none that has
  been closed.
\<close>

inductive pc_step :: "pc_state \<Rightarrow> pc_state \<Rightarrow> bool" where
  init: "pc_step st (snd (mupnp_http_persistentconnection_init st))"
| get: "nul_free h \<Longrightarrow> pc_step st (snd (mupnp_http_persistentconnection_get st (Some h) p t))"
| put: "nul_free h \<Longrightarrow> d \<notin> set (pc_closed st) \<Longrightarrow>
     \<forall>ns n. pc_cache st = Some ns \<longrightarrow> n \<in> set ns \<longrightarrow> pc_data n = d \<longrightarrow> pc_key n = (Some h, p) \<Longrightarrow>
     pc_step st (snd (mupnp_http_persistentconnection_put st (Some h) p d t))"
| clear: "pc_step st (mupnp_http_persistentconnection_clear st)"

inductive_cases pc_stepE: "pc_step st st'"

text \<open>One node changed in its place, moved to the end or taken out.\<close>

lemma pc_inv_node:
  assumes "length (a @ n # b) \<le> MUPNP_HTTP_PERSISTENT_CACHE_SIZE" "\<forall>m \<in> set (a @ n # b). pc_node_ok m"
    and "distinct (map pc_key (a @ n # b))" "distinct (map pc_data (a @ n # b))"
    and "set (map pc_data (a @ n # b)) \<inter> set (pc_closed st) = {}"
    and m: "pc_node_ok m" "pc_key m = pc_key n" "pc_data m \<notin> pc_data ` (set a \<union> set b)" "pc_data m \<notin> set (pc_closed st)"
  shows "pc_inv (st\<lparr>pc_cache := Some (a @ m # b)\<rparr>)" "pc_inv (st\<lparr>pc_cache := Some (a @ b @ [m])\<rparr>)"
proof -
  have k: "pc_key m \<notin> pc_key ` set a" "pc_key m \<notin> pc_key ` set b" "distinct (map pc_key a)" "distinct (map pc_key b)"
    "pc_key ` set a \<inter> pc_key ` set b = {}"
    using assms(3) by (simp_all add: m(2))
  have d: "pc_data m \<notin> pc_data ` set a" "pc_data m \<notin> pc_data ` set b" "distinct (map pc_data a)" "distinct (map pc_data b)"
    "pc_data ` set a \<inter> pc_data ` set b = {}"
    using assms(4) m(3) by (simp_all add: image_Un)
  have c: "pc_data ` (set a \<union> set b) \<inter> set (pc_closed st) = {}"
    using assms(5) by (auto simp: image_Un)
  have ok: "\<forall>x \<in> set a. pc_node_ok x" "\<forall>x \<in> set b. pc_node_ok x" using assms(2) by simp_all
  show "pc_inv (st\<lparr>pc_cache := Some (a @ m # b)\<rparr>)" "pc_inv (st\<lparr>pc_cache := Some (a @ b @ [m])\<rparr>)"
    using assms(1) k d c ok m(1,4)
    by (simp_all add: pc_inv_def ball_Un)
qed

lemma pc_inv_get: "pc_inv st \<Longrightarrow> nul_free h \<Longrightarrow> pc_inv (snd (mupnp_http_persistentconnection_get st (Some h) p t))"
proof (cases "pc_cache st")
  case (Some ns)
  assume inv: "pc_inv st" and h: "nul_free h"
  let ?ms = "filter (\<lambda>n. \<not> pc_expired t n) ns"
  let ?cl = "pc_closed st @ map pc_data (filter (pc_expired t) ns)"
  have ns: "length ns \<le> MUPNP_HTTP_PERSISTENT_CACHE_SIZE" "\<forall>n \<in> set ns. pc_node_ok n" "distinct (map pc_key ns)"
    "distinct (map pc_data ns)" "set (map pc_data ns) \<inter> set (pc_closed st) = {}"
    using inv Some by (simp_all add: pc_inv_def)
  have ms: "length ?ms \<le> MUPNP_HTTP_PERSISTENT_CACHE_SIZE" "\<forall>n \<in> set ?ms. pc_node_ok n" "distinct (map pc_key ?ms)"
    "distinct (map pc_data ?ms)"
    using ns by (auto simp: distinct_map_filter intro: order_trans [OF length_filter_le])
  have cl: "set (map pc_data ?ms) \<inter> set ?cl = {}"
    using ns(4,5) by (auto simp: distinct_map dest: inj_onD)
  show ?thesis
  proof (cases "pc_find (Some h) p ?ms")
    case None
    with ms cl Some show ?thesis
      by (simp add: mupnp_http_persistentconnection_get_def clear_expired_filter pc_inv_def)
  next
    case found: (Some i)
    then obtain a n b where abn: "?ms = a @ n # b" "length a = i" using pc_find_Some by blast
    have eq: "snd (mupnp_http_persistentconnection_get st (Some h) p t) =
        st\<lparr>pc_closed := ?cl, pc_cache := Some (a @ b @ [n\<lparr>pc_time := t\<rparr>])\<rparr>"
      using Some found by (simp add: mupnp_http_persistentconnection_get_def clear_expired_filter)
        (simp add: abn flip: abn(2))
    have "pc_inv ((st\<lparr>pc_closed := ?cl\<rparr>)\<lparr>pc_cache := Some (a @ b @ [n\<lparr>pc_time := t\<rparr>])\<rparr>)"
    proof (rule pc_inv_node(2))
      show "pc_data (n\<lparr>pc_time := t\<rparr>) \<notin> pc_data ` (set a \<union> set b)" using ms(4) by (auto simp: abn(1))
      have "pc_data n \<in> set (map pc_data ?ms)" by (simp add: abn(1))
      then show "pc_data (n\<lparr>pc_time := t\<rparr>) \<notin> set (pc_closed (st\<lparr>pc_closed := ?cl\<rparr>))" using cl by auto
    qed (use ms cl abn(1) in \<open>simp_all add: pc_node_ok_def\<close>)
    then show ?thesis by (simp add: eq)
  qed
qed (simp add: mupnp_http_persistentconnection_get_def)

lemma pc_inv_put:
  assumes inv: "pc_inv st" and h: "nul_free h" and d: "d \<notin> set (pc_closed st)"
    and fresh: "\<forall>ns n. pc_cache st = Some ns \<longrightarrow> n \<in> set ns \<longrightarrow> pc_data n = d \<longrightarrow> pc_key n = (Some h, p)"
  shows "pc_inv (snd (mupnp_http_persistentconnection_put st (Some h) p d t))"
proof (cases "pc_cache st")
  case None
  with inv show ?thesis by (simp add: mupnp_http_persistentconnection_put_def)
next
  case (Some ns)
  have ns: "length ns \<le> MUPNP_HTTP_PERSISTENT_CACHE_SIZE" "\<forall>n \<in> set ns. pc_node_ok n" "distinct (map pc_key ns)"
    "distinct (map pc_data ns)" "set (map pc_data ns) \<inter> set (pc_closed st) = {}"
    using inv Some by (simp_all add: pc_inv_def)
  have match: "n \<in> set ns \<Longrightarrow> pc_match (Some h) p n \<longleftrightarrow> pc_key n = (Some h, p)" for n
    using ns(2) pc_match_key h by blast
  have ok: "pc_node_ok (pc_assign m (Some h) p d t)" if "d \<noteq> None" for m
    using that h by (simp add: pc_assign_def pc_node_ok_def)
  show ?thesis
  proof (cases "pc_find (Some h) p ns")
    case None
    then have new: "\<forall>n \<in> set ns. pc_key n \<noteq> (Some h, p)" using match by (simp add: pc_find_None)
    with fresh Some have dn: "\<forall>n \<in> set ns. pc_data n \<noteq> d" by blast
    define full where "full = (MUPNP_HTTP_PERSISTENT_CACHE_SIZE \<le> length ns)"
    define ms where "ms = (if full then tl ns else ns)"
    define cl where "cl = (if full then pc_closed st @ [pc_data (hd ns)] else pc_closed st)"
    have eq: "snd (mupnp_http_persistentconnection_put st (Some h) p d t) = st\<lparr>pc_closed := cl,
        pc_cache := Some (if d = None then ms
          else ms @ [pc_assign mupnp_http_persistentconnection_new (Some h) p d t])\<rparr>"
      using Some None by (simp add: mupnp_http_persistentconnection_put_def Let_def ms_def cl_def full_def
          mupnp_http_persistentconnection_delete_def)
    have "length ms < MUPNP_HTTP_PERSISTENT_CACHE_SIZE"
      using ns(1) by (auto simp: ms_def full_def MUPNP_HTTP_PERSISTENT_CACHE_SIZE_def)
    moreover have sub: "set ms \<subseteq> set ns" by (cases ns) (auto simp: ms_def)
    moreover have "distinct (map pc_key ms)" "distinct (map pc_data ms)"
      using ns(3,4) by (simp_all add: ms_def map_tl distinct_tl)
    moreover have "set (map pc_data ms) \<inter> set cl = {}"
    proof (cases "full")
      case True
      then obtain n ns' where "ns = n # ns'"
        by (cases ns) (simp_all add: full_def MUPNP_HTTP_PERSISTENT_CACHE_SIZE_def)
      with ns(4,5) True show ?thesis by (auto simp: ms_def cl_def)
    next
      case False
      with ns(5) show ?thesis by (simp add: ms_def cl_def)
    qed
    moreover have "d \<notin> set cl" if "d \<noteq> None"
      using d dn ns(1) by (cases ns) (auto simp: cl_def full_def MUPNP_HTTP_PERSISTENT_CACHE_SIZE_def)
    moreover have "pc_key (pc_assign m (Some h) p d t) = (Some h, p)" "pc_data (pc_assign m (Some h) p d t) = d" for m
      by (simp_all add: pc_assign_def)
    moreover have "(Some h, p) \<notin> pc_key ` set ms" "d \<notin> pc_data ` set ms" using sub new dn by (auto simp: image_iff)
    moreover have "\<forall>m \<in> set ms. pc_node_ok m" using sub ns(2) by blast
    ultimately show ?thesis unfolding eq pc_inv_def using ok by (cases "d = None") simp_all
  next
    case found: (Some i)
    then obtain a n b where abn: "ns = a @ n # b" "length a = i" "pc_match (Some h) p n" using pc_find_Some by blast
    then have n: "pc_host n = Some h" "pc_port n = p" using match by auto
    have nth: "ns ! i = n" "pc_remove i ns = a @ b" "ns[i := m] = a @ m # b" for m
      using abn by (auto simp: nth_append list_update_append)
    consider (same) "pc_data n = d" | (other) "pc_data n \<noteq> d" "d \<noteq> None" | (gone) "pc_data n \<noteq> d" "d = None" by blast
    then show ?thesis
    proof cases
      case same
      then have eq: "snd (mupnp_http_persistentconnection_put st (Some h) p d t) =
          st\<lparr>pc_cache := Some (a @ n\<lparr>pc_time := t\<rparr> # b)\<rparr>"
        using Some found nth by (simp add: mupnp_http_persistentconnection_put_def)
      have "pc_data n \<notin> pc_data ` (set a \<union> set b)" "pc_data n \<notin> set (pc_closed st)" using ns(4,5) by (auto simp: abn(1))
      then show ?thesis unfolding eq using ns unfolding abn(1)
        by (intro pc_inv_node(1) [of a n b]) (simp_all add: pc_node_ok_def)
    next
      case other
      then have eq: "snd (mupnp_http_persistentconnection_put st (Some h) p d t) =
          st\<lparr>pc_cache := Some (a @ b @ [pc_assign n (Some h) p d t])\<rparr>"
        using Some found nth by (simp add: mupnp_http_persistentconnection_put_def Let_def)
      have "\<forall>m \<in> set a \<union> set b. pc_data m \<noteq> d"
      proof
        fix m assume m: "m \<in> set a \<union> set b"
        have out: "pc_key n \<notin> pc_key ` (set a \<union> set b)" using ns(3) by (simp add: abn(1) image_Un)
        have "pc_key m \<noteq> (Some h, p)"
        proof
          assume "pc_key m = (Some h, p)"
          then have "pc_key m = pc_key n" using n by simp
          with imageI [OF m, of pc_key] out show False by (simp only: simp_thms)
        qed
        moreover have "m \<in> set ns" using m by (simp add: abn(1))
        ultimately show "pc_data m \<noteq> d" using fresh Some by blast
      qed
      then have "d \<notin> pc_data ` (set a \<union> set b)" by blast
      show ?thesis unfolding eq
      proof (rule pc_inv_node(2) [OF ns [unfolded abn(1)]])
        show "pc_node_ok (pc_assign n (Some h) p d t)" by (rule ok [OF other(2)])
        show "pc_key (pc_assign n (Some h) p d t) = pc_key n" using n by (simp add: pc_assign_def)
        show "pc_data (pc_assign n (Some h) p d t) \<notin> pc_data ` (set a \<union> set b)"
          using \<open>d \<notin> pc_data ` (set a \<union> set b)\<close> by (simp add: pc_assign_def)
        show "pc_data (pc_assign n (Some h) p d t) \<notin> set (pc_closed st)" using d by (simp add: pc_assign_def)
      qed
    next
      case gone
      then have eq: "snd (mupnp_http_persistentconnection_put st (Some h) p d t) =
          st\<lparr>pc_cache := Some (a @ b), pc_closed := pc_closed st @ [pc_data n]\<rparr>"
        using Some found nth by (simp add: mupnp_http_persistentconnection_put_def Let_def
            mupnp_http_persistentconnection_delete_def)
      show ?thesis using ns unfolding eq abn(1) pc_inv_def by auto
    qed
  qed
qed

lemma pc_inv_step: "pc_step st st' \<Longrightarrow> pc_inv st \<Longrightarrow> pc_inv st'"
proof (induction rule: pc_step.induct)
  case (init st)
  then show ?case by (auto simp: mupnp_http_persistentconnection_init_def pc_inv_def)
next
  case (clear st)
  then show ?case by (auto simp: mupnp_http_persistentconnection_clear_def pc_inv_def split: option.split)
qed (simp_all add: pc_inv_get pc_inv_put)

lemma pc_inv_reachable: "pc_step\<^sup>*\<^sup>* pc_initial st \<Longrightarrow> pc_inv st"
proof (induction rule: rtranclp_induct)
  case base
  show ?case by (simp add: pc_initial_def pc_inv_def)
qed (rule pc_inv_step)

section \<open>A used connection survives the next four\<close>

text \<open>Connections put one after the other, each fresh in the sense of \<open>pc_step\<close>.\<close>

fun pc_puts :: "pc_state \<Rightarrow> (cstring \<times> int \<times> nat \<times> int) list \<Rightarrow> pc_state" where
  "pc_puts st [] = st"
| "pc_puts st ((h, p, d, t) # xs) =
     pc_puts (snd (mupnp_http_persistentconnection_put st (Some h) p (Some d) t)) xs"

fun pc_fresh :: "pc_state \<Rightarrow> (cstring \<times> int \<times> nat \<times> int) list \<Rightarrow> bool" where
  "pc_fresh st [] = True"
| "pc_fresh st ((h, p, d, t) # xs) =
     (nul_free h \<and> Some d \<notin> set (pc_closed st) \<and>
      (case pc_cache st of None \<Rightarrow> True
       | Some ns \<Rightarrow> list_all (\<lambda>n. pc_data n = Some d \<longrightarrow> pc_key n = (Some h, p)) ns) \<and>
      pc_fresh (snd (mupnp_http_persistentconnection_put st (Some h) p (Some d) t)) xs)"

text \<open>The node is in the cache, with at most \<open>k\<close> nodes used after it.\<close>

definition pc_recent :: "pc_state \<Rightarrow> pc_node \<Rightarrow> nat \<Rightarrow> bool" where
  "pc_recent st n k \<longleftrightarrow> (\<exists>a b. pc_cache st = Some (a @ n # b) \<and> length b \<le> k)"

lemma pc_find_key:
  assumes "distinct (map pc_key ns)" and "n \<in> set ns" and "\<forall>m \<in> set ns. pc_node_ok m"
    and "pc_key n = (Some h, p)" and "nul_free h"
  shows "\<exists>i. pc_find (Some h) p ns = Some i \<and> ns ! i = n"
proof -
  obtain a b where ns: "ns = a @ n # b" using assms(2) by (meson split_list)
  have "\<forall>m \<in> set a. \<not> pc_match (Some h) p m"
    using assms ns by (auto simp: pc_match_key image_iff)
  moreover have "pc_match (Some h) p n" using assms by (simp add: pc_match_key)
  ultimately show ?thesis using ns by (auto simp: pc_find_at)
qed

lemma pc_recentI: "pc_cache st = Some (a @ n # b) \<Longrightarrow> length b \<le> k \<Longrightarrow> pc_recent st n k"
  by (auto simp: pc_recent_def)

lemma append_two_cases:
  assumes "a @ n # b = a' @ m # b'" and "n \<noteq> m"
  obtains a2 where "a' = a @ n # a2" "b = a2 @ m # b'" | b2 where "a = a' @ m # b2" "b' = b2 @ n # b"
proof -
  consider us where "a = a' @ us" "us @ n # b = m # b'" | us where "a @ us = a'" "n # b = us @ m # b'"
    using assms(1) by (auto simp: append_eq_append_conv2)
  then show thesis
  proof cases
    case (1 us)
    with assms(2) show thesis by (cases us) (auto intro: that(2))
  next
    case (2 us)
    with assms(2) show thesis by (cases us) (auto intro: that(1))
  qed
qed

lemma put_recent:
  assumes rec: "pc_recent st n k" and k: "k + 1 < MUPNP_HTTP_PERSISTENT_CACHE_SIZE"
    and other: "\<not> pc_match (Some h) p n"
  shows "pc_recent (snd (mupnp_http_persistentconnection_put st (Some h) p (Some d) t)) n (k + 1)"
proof -
  let ?st' = "snd (mupnp_http_persistentconnection_put st (Some h) p (Some d) t)"
  let ?new = "pc_assign mupnp_http_persistentconnection_new (Some h) p (Some d) t"
  obtain a b where c: "pc_cache st = Some (a @ n # b)" and b: "length b \<le> k" using rec by (auto simp: pc_recent_def)
  show ?thesis
  proof (cases "pc_find (Some h) p (a @ n # b)")
    case None
    show ?thesis
    proof (cases "MUPNP_HTTP_PERSISTENT_CACHE_SIZE \<le> length (a @ n # b)")
      case False
      with None c b have "pc_cache ?st' = Some (a @ n # (b @ [?new]))"
        by (simp add: mupnp_http_persistentconnection_put_def Let_def)
      with b show ?thesis by (intro pc_recentI) auto
    next
      case True
      with b k obtain x a' where a: "a = x # a'" by (cases a) auto
      with True None c have "pc_cache ?st' = Some (a' @ n # (b @ [?new]))"
        by (simp add: mupnp_http_persistentconnection_put_def Let_def mupnp_http_persistentconnection_delete_def)
      with b show ?thesis by (intro pc_recentI) auto
    qed
  next
    case (Some i)
    then obtain a' m b' where m: "a @ n # b = a' @ m # b'" "length a' = i" "pc_match (Some h) p m"
      using pc_find_Some by blast
    have nth: "(a' @ m # b') ! i = m" "pc_remove i (a' @ m # b') = a' @ b'"
      "(a' @ m # b')[i := x] = a' @ x # b'" for x
      using m(2) by (auto simp: nth_append list_update_append)
    have st': "pc_cache ?st' =
        Some (if pc_data m = Some d then a' @ m\<lparr>pc_time := t\<rparr> # b' else a' @ b' @ [pc_assign m (Some h) p (Some d) t])"
      using Some c unfolding m(1)
      by (simp add: mupnp_http_persistentconnection_put_def Let_def nth)
    have "n \<noteq> m" using m(3) other by blast
    with m(1) consider (right) a2 where "a' = a @ n # a2" "b = a2 @ m # b'"
      | (left) b2 where "a = a' @ m # b2" "b' = b2 @ n # b"
      by (rule append_two_cases)
    then show ?thesis
    proof cases
      case right
      show ?thesis
      proof (cases "pc_data m = Some d")
        case True
        with st' right have "pc_cache ?st' = Some (a @ n # (a2 @ m\<lparr>pc_time := t\<rparr> # b'))" by simp
        with b right show ?thesis by (intro pc_recentI) auto
      next
        case False
        with st' right have "pc_cache ?st' = Some (a @ n # (a2 @ b' @ [pc_assign m (Some h) p (Some d) t]))" by simp
        with b right show ?thesis by (intro pc_recentI) auto
      qed
    next
      case left
      show ?thesis
      proof (cases "pc_data m = Some d")
        case True
        with st' left have c2: "pc_cache ?st' = Some ((a' @ m\<lparr>pc_time := t\<rparr> # b2) @ n # b)" by simp
        show ?thesis by (rule pc_recentI [OF c2]) (use b in simp)
      next
        case False
        with st' left have c2: "pc_cache ?st' = Some ((a' @ b2) @ n # (b @ [pc_assign m (Some h) p (Some d) t]))" by simp
        show ?thesis by (rule pc_recentI [OF c2]) (use b in simp)
      qed
    qed
  qed
qed

lemma puts_recent:
  assumes "pc_recent st n k" and "k + length xs < MUPNP_HTTP_PERSISTENT_CACHE_SIZE" and "pc_inv st"
    and "pc_fresh st xs" and "pc_node_ok n" and "\<forall>(h, p, d, t) \<in> set xs. pc_key n \<noteq> (Some h, p)"
  shows "pc_recent (pc_puts st xs) n (k + length xs) \<and> pc_inv (pc_puts st xs)"
  using assms
proof (induction xs arbitrary: st k)
  case (Cons x xs)
  obtain h p d t where x: "x = (h, p, d, t)" by (cases x)
  define st' where "st' = snd (mupnp_http_persistentconnection_put st (Some h) p (Some d) t)"
  have f: "nul_free h" "Some d \<notin> set (pc_closed st)"
    "\<forall>ns m. pc_cache st = Some ns \<longrightarrow> m \<in> set ns \<longrightarrow> pc_data m = Some d \<longrightarrow> pc_key m = (Some h, p)"
    "pc_fresh st' xs"
    using Cons.prems(4) x by (auto simp: st'_def list_all_iff)
  have "pc_inv st'" unfolding st'_def by (rule pc_inv_put [OF Cons.prems(3) f(1,2,3)])
  moreover have "\<not> pc_match (Some h) p n"
    using Cons.prems(5,6) x f(1) by (auto simp: pc_match_key)
  then have "pc_recent st' n (k + 1)"
    using Cons.prems(1,2) unfolding st'_def by (intro put_recent) simp_all
  ultimately show ?case
    using Cons.IH [of st' "k + 1"] Cons.prems f(4) x by (simp add: st'_def)
qed simp

section \<open>Properties\<close>

text \<open>C6: Whatever a client does with the cache, it never holds more than five connections, never
  two for one host and port, and never one that has been closed.\<close>

theorem cache_invariant:
  assumes "pc_step\<^sup>*\<^sup>* pc_initial st" and "pc_cache st = Some ns"
  shows "length ns \<le> 5 \<and> distinct (map (\<lambda>n. (pc_host n, pc_port n)) ns) \<and>
    list_all (\<lambda>n. pc_data n \<noteq> None \<and> pc_data n \<notin> set (pc_closed st)) ns"
  using pc_inv_reachable [OF assms(1)] assms(2)
  by (auto simp: pc_inv_def MUPNP_HTTP_PERSISTENT_CACHE_SIZE_def list_all_iff pc_node_ok_def)

theorem cache_invariant_witness:
  "\<exists>ns. pc_cache (snd (mupnp_http_persistentconnection_put
      (snd (mupnp_http_persistentconnection_init pc_initial)) (Some ''h'') 80 (Some 7) 0)) = Some ns \<and> length ns \<le> 5"
proof -
  let ?s1 = "snd (mupnp_http_persistentconnection_init pc_initial)"
  let ?s2 = "snd (mupnp_http_persistentconnection_put ?s1 (Some ''h'') 80 (Some 7) 0)"
  have "pc_step ?s1 ?s2"
    by (rule pc_step.put) (auto simp: mupnp_http_persistentconnection_init_def pc_initial_def)
  with pc_step.init [of pc_initial] have "pc_step\<^sup>*\<^sup>* pc_initial ?s2" by (meson r_into_rtranclp rtranclp.rtrancl_into_rtrancl)
  moreover have "pc_cache ?s2 = Some [\<lparr>pc_host = Some ''h'', pc_port = 80, pc_data = Some 7, pc_time = 0\<rparr>]"
    by code_simp
  ultimately show ?thesis using cache_invariant by blast
qed

text \<open>C7: A connection that was just used is still there after up to four other connections have
  been put into the cache, as long as it is asked for within sixty seconds.\<close>

theorem used_connection_survives:
  assumes "pc_step\<^sup>*\<^sup>* pc_initial st" and "nul_free h"
    and "fst (mupnp_http_persistentconnection_get st (Some h) p t) = Some d"
    and "pc_fresh (snd (mupnp_http_persistentconnection_get st (Some h) p t)) xs"
    and "\<forall>(h', p', d', t') \<in> set xs. (h', p') \<noteq> (h, p)" and "length xs < 5" and "t' \<le> t + 60"
  shows "fst (mupnp_http_persistentconnection_get
      (pc_puts (snd (mupnp_http_persistentconnection_get st (Some h) p t)) xs) (Some h) p t') = Some d"
proof -
  let ?s1 = "snd (mupnp_http_persistentconnection_get st (Some h) p t)"
  have inv: "pc_inv st" using assms(1) by (rule pc_inv_reachable)
  obtain ns where ns: "pc_cache st = Some ns"
    using assms(3) by (cases "pc_cache st") (simp_all add: mupnp_http_persistentconnection_get_def)
  let ?ms = "filter (\<lambda>n. \<not> pc_expired t n) ns"
  obtain i where i: "pc_find (Some h) p ?ms = Some i"
    using assms(3) ns by (auto simp: mupnp_http_persistentconnection_get_def clear_expired_filter split: option.splits)
  then obtain a m b where m: "?ms = a @ m # b" "length a = i" "pc_match (Some h) p m" using pc_find_Some by blast
  define n where "n = m\<lparr>pc_time := t\<rparr>"
  have "m \<in> set ?ms" using m(1) by simp
  then have "pc_node_ok m" using inv ns by (simp add: pc_inv_def)
  then have n: "pc_node_ok n" "pc_key n = (Some h, p)" "pc_time n = t"
    using m(3) assms(2) by (auto simp: n_def pc_node_ok_def pc_match_def c_strcmp_eq_0)
  have nth: "?ms ! i = m" "pc_remove i ?ms = a @ b" by (simp_all add: m(1) flip: m(2))
  have d: "pc_data n = Some d"
    using assms(3) ns i nth(1) by (simp add: mupnp_http_persistentconnection_get_def clear_expired_filter n_def)
  have "pc_cache ?s1 = Some (a @ b @ [n])"
    using ns i nth by (simp add: mupnp_http_persistentconnection_get_def clear_expired_filter n_def)
  then have "pc_recent ?s1 n 0" by (fastforce simp: pc_recent_def)
  moreover have "0 + length xs < MUPNP_HTTP_PERSISTENT_CACHE_SIZE"
    using assms(6) by (simp add: MUPNP_HTTP_PERSISTENT_CACHE_SIZE_def)
  moreover have "\<forall>(h', p', d', t') \<in> set xs. pc_key n \<noteq> (Some h', p')" using assms(5) n(2) by auto
  ultimately have rec: "pc_recent (pc_puts ?s1 xs) n (length xs)" "pc_inv (pc_puts ?s1 xs)"
    using puts_recent [of ?s1 n 0 xs] pc_inv_get [OF inv assms(2)] assms(4) n(1) by simp_all
  then obtain ks where ks: "pc_cache (pc_puts ?s1 xs) = Some ks" "n \<in> set ks" by (auto simp: pc_recent_def)
  let ?ls = "filter (\<lambda>n. \<not> pc_expired t' n) ks"
  have "n \<in> set ?ls"
    using ks(2) n(3) assms(7) by (simp add: pc_expired_def MUPNP_HTTP_PERSISTENT_TIMEOUT_PERIOD_def)
  moreover have "distinct (map pc_key ?ls)" "\<forall>m \<in> set ?ls. pc_node_ok m"
    using rec(2) ks(1) by (simp_all add: pc_inv_def distinct_map_filter)
  ultimately obtain j where "pc_find (Some h) p ?ls = Some j" "?ls ! j = n"
    using pc_find_key [of ?ls n h p] n(2) assms(2) by blast
  with ks(1) d show ?thesis by (simp add: mupnp_http_persistentconnection_get_def clear_expired_filter)
qed

theorem used_connection_survives_witness:
  "fst (mupnp_http_persistentconnection_get
     (pc_puts (snd (mupnp_http_persistentconnection_get
        (snd (mupnp_http_persistentconnection_put (snd (mupnp_http_persistentconnection_init pc_initial))
           (Some ''h'') 80 (Some 7) 0)) (Some ''h'') 80 1)) [(''g'', 80, 8, 2)]) (Some ''h'') 80 61) = Some 7"
proof -
  let ?s1 = "snd (mupnp_http_persistentconnection_init pc_initial)"
  let ?s2 = "snd (mupnp_http_persistentconnection_put ?s1 (Some ''h'') 80 (Some 7) 0)"
  have "pc_step ?s1 ?s2"
    by (rule pc_step.put) (auto simp: mupnp_http_persistentconnection_init_def pc_initial_def)
  with pc_step.init [of pc_initial] have r: "pc_step\<^sup>*\<^sup>* pc_initial ?s2" by (meson r_into_rtranclp rtranclp.rtrancl_into_rtrancl)
  have g: "fst (mupnp_http_persistentconnection_get ?s2 (Some ''h'') 80 1) = Some 7" by code_simp
  have f: "pc_fresh (snd (mupnp_http_persistentconnection_get ?s2 (Some ''h'') 80 1)) [(''g'', 80, 8, 2)]" by code_simp
  have h: "nul_free ''h''" by code_simp
  show ?thesis using used_connection_survives [OF r h g f, of 61] by simp
qed

end
