(* ===== verification/HttpServer.thy ===== *)
theory HttpServer
  imports HttpMessage
begin

section \<open>HTTP connections of the server (src/mupnp/http/http_server.c)\<close>

text \<open>
  The loop that serves one client connection.  A listener is what it writes to the socket of a
  request; it reads nothing from it and does not change the request.  The answers of
  \<open>mupnp_thread_isrunnable\<close> are a parameter, since another thread may stop this one at any
  time: a list of answers, \<open>True\<close> once it is used up.  The result is the socket at the end,
  \<open>None\<close> for a crash.
\<close>

type_synonym http_listener = "mUpnpHttpRequest \<Rightarrow> buffer list"

definition mupnp_http_request_gethost :: "mUpnpHttpRequest \<Rightarrow> charptr" where
  "mupnp_http_request_gethost httpReq = mupnp_http_packet_getheadervalue httpReq (Some ''HOST'')"

definition mupnp_http_request_postbadrequest :: "mUpnpSocket \<Rightarrow> nat \<Rightarrow> (bool \<times> mUpnpSocket) option" where
  "mupnp_http_request_postbadrequest sock now = mupnp_http_request_poststatuscode sock 400 now"

definition call_listener :: "http_listener \<Rightarrow> mUpnpHttpRequest \<Rightarrow> mUpnpSocket \<Rightarrow> mUpnpSocket" where
  "call_listener f httpReq sock = foldl swrite sock (f httpReq)"

definition thread_isrunnable :: "bool list \<Rightarrow> bool \<times> bool list" where
  "thread_isrunnable run = (case run of [] \<Rightarrow> (True, []) | r # rs \<Rightarrow> (r, rs))"

subsection \<open>Every step consumes input\<close>

lemma instream_swrite [simp]: "instream (swrite s b) = instream s"
proof -
  have "instream (snd (write_loop s d t k)) = instream s" if "d \<noteq> []" for s d t k
    using that
  proof (induction s d t k rule: write_loop.induct)
    case (1 s d t k)
    obtain r s1 where send: "send_wait_loop s d = (r, s1)" by fastforce
    from send_wait_result [OF 1(3), of s k] have eq: "instream s1 = instream s"
      by (auto simp: send wrote_def split: option.splits if_splits)
    show ?case
    proof (cases r)
      case None
      with send eq show ?thesis by (subst write_loop.simps) simp
    next
      case (Some n)
      show ?thesis
      proof (cases "n \<le> 0")
        case True
        with 1(1) [OF send [symmetric] Some True] 1(3) Some send eq show ?thesis
          by (subst write_loop.simps) auto
      next
        case False
        with 1(2) [OF send [symmetric] Some False refl] Some send eq show ?thesis
          by (subst write_loop.simps) (auto simp: Let_def)
      qed
    qed
  qed
  then show ?thesis by (simp add: swrite_def mupnp_socket_write_def)
qed

lemma instream_call_listener [simp]: "instream (call_listener f q s) = instream s"
proof -
  have "instream (foldl swrite s bs) = instream s" for bs
    by (induction bs arbitrary: s) simp_all
  then show ?thesis by (simp add: call_listener_def)
qed

lemma readline_mono: "mupnp_socket_readline s n = (r, l, s') \<Longrightarrow> length (instream s') \<le> length (instream s)"
  by (auto simp: mupnp_socket_readline_def readline_loop_correct Let_def skipline_loop_correct
      length_takeWhile_le split: if_splits)

lemma read_headers_mono:
  "mupnp_http_packet_read_headers p s n = Some (p', s') \<Longrightarrow> length (instream s') \<le> length (instream s)"
proof (induction p s n rule: mupnp_http_packet_read_headers.induct)
  case (1 p s n)
  obtain r l s1 where line: "mupnp_socket_readline s n = (r, l, s1)" by (metis prod_cases3)
  note mono = readline_mono [OF line]
  show ?case
  proof (cases "r \<le> 2")
    case True
    with 1(2) line mono show ?thesis by (subst (asm) mupnp_http_packet_read_headers.simps) simp
  next
    case False
    with 1(2) line obtain nv where nv: "read_header_line l = Some nv"
        "mupnp_http_packet_read_headers (add_read_header p nv) s1 n = Some (p', s')"
      by (subst (asm) mupnp_http_packet_read_headers.simps) (auto split: option.splits)
    from 1(1) [OF line [symmetric] refl False nv] mono show ?thesis by simp
  qed
qed

lemma read_trailers_mono: "read_trailers s n = (r, s') \<Longrightarrow> length (instream s') \<le> length (instream s)"
proof (induction s n rule: read_trailers.induct)
  case (1 s n)
  obtain k l s1 where line: "mupnp_socket_readline s n = (k, l, s1)" by (metis prod_cases3)
  note mono = readline_mono [OF line]
  from 1 line mono show ?case
    by (subst (asm) (2) read_trailers.simps) (fastforce split: if_splits)
qed

lemma read_chunk_mono:
  assumes "mupnp_http_packet_read_chunk A p s n = (r, p', s')"
  shows "length (instream s') \<le> length (instream s)"
proof -
  obtain r1 line s1 where 1: "mupnp_socket_readline s n = (r1, line, s1)" by (metis prod_cases3)
  obtain v rest ov where num: "c_strtoull16 (cstr line) = (v, rest, ov)" by (metis prod_cases3)
  obtain c s2 where 2: "mupnp_http_packet_read_exact A s1 v = (c, s2)" by fastforce
  obtain r3 line3 s3 where 3: "mupnp_socket_readline s2 n = (r3, line3, s3)" by (metis prod_cases3)
  obtain r4 s4 where 4: "read_trailers s1 n = (r4, s4)" by fastforce
  have "length (instream s2) \<le> length (instream s1)" using read_exact_mono [of A s1 v] 2 by simp
  with readline_mono [OF 1] readline_mono [OF 3] read_trailers_mono [OF 4] assms 1 num 2 3 4 show ?thesis
    by (auto simp: mupnp_http_packet_read_chunk_def split: if_splits option.splits)
qed

lemma read_chunks_mono: "read_chunks A p s n c = (r, p', s') \<Longrightarrow> length (instream s') \<le> length (instream s)"
proof (induction A p s n c rule: read_chunks.induct)
  case (1 A p s n c)
  obtain k p1 s1 where ch: "mupnp_http_packet_read_chunk A p s n = (k, p1, s1)" by (metis prod_cases3)
  note mono = read_chunk_mono [OF ch]
  from 1 ch mono show ?case
    by (subst (asm) (2) read_chunks.simps) (fastforce split: if_splits)
qed

lemma read_until_close_mono: "read_until_close p s c = (r, p', s') \<Longrightarrow> length (instream s') \<le> length (instream s)"
proof (induction p s c rule: read_until_close.induct)
  case (1 p s c)
  obtain k b s1 where rd: "mupnp_socket_read s READBUF_LENGTH = (k, b, s1)" by (metis prod_cases3)
  note mono = socket_read_mono [OF rd]
  from 1 rd mono show ?case
    by (subst (asm) (2) read_until_close.simps) (fastforce split: if_splits)
qed

lemma read_body_mono:
  assumes "mupnp_http_packet_read_body A p s n = (r, p', s')"
  shows "length (instream s') \<le> length (instream s)"
proof -
  have ex: "length (instream s1) \<le> length (instream s)" if "mupnp_http_packet_read_exact A s len = (c, s1)" for len c s1
    using read_exact_mono [of A s len] that by simp
  show ?thesis using assms
    by (auto simp: mupnp_http_packet_read_body_def Let_def split: option.splits if_splits prod.splits
        dest: ex read_chunks_mono read_until_close_mono)
qed

lemma read_first_line_consumes:
  "read_first_line s = (r, l, s') \<Longrightarrow> 0 < r \<Longrightarrow> length (instream s') < length (instream s)"
proof (induction s rule: read_first_line.induct)
  case (1 s)
  obtain k b s1 where line: "mupnp_socket_readline s MUPNP_HTTP_READLINE_BUFSIZE = (k, b, s1)" by (metis prod_cases3)
  show ?case
  proof (cases "1 \<le> k \<and> k \<le> 2")
    case True
    with 1(2) line have "read_first_line s1 = (r, l, s')" by (subst (asm) read_first_line.simps) simp
    from 1(1) [OF line [symmetric] refl True this 1(3)] readline_mono [OF line] show ?thesis by simp
  next
    case False
    with 1(2) line have "k = r" "s1 = s'" by (subst (asm) read_first_line.simps, auto)+
    with readline_consumes(1) [OF line] 1(3) show ?thesis by simp
  qed
qed

lemma request_read_consumes:
  assumes "mupnp_http_request_read A q s = Some (True, q', s')"
  shows "length (instream s') < length (instream s)"
proof -
  obtain k b s1 where line: "read_first_line s = (k, b, s1)" by (metis prod_cases3)
  with assms have k: "0 < k" by (auto simp: mupnp_http_request_read_def Let_def split: if_splits)
  have "length (instream s') \<le> length (instream s1)"
    using assms line k
    by (auto simp: mupnp_http_request_read_def Let_def bind_eq_Some_conv split: if_splits prod.splits
        dest!: read_headers_mono read_body_mono)
  with read_first_line_consumes [OF line k] show ?thesis by simp
qed

lemma poststatuscode_instream:
  "mupnp_http_request_poststatuscode s c now = Some (b, s') \<Longrightarrow> instream s' = instream s"
proof -
  have hd: "instream (fold post_header hs s) = instream s" for hs s
    by (induction hs arbitrary: s) (simp_all add: post_header_def Let_def split: option.split)
  have "mupnp_http_packet_post p s = Some s' \<Longrightarrow> instream s' = instream s" for p :: mUpnpHttpResponse and s s'
    by (auto simp: mupnp_http_packet_post_def Let_def hd split: option.splits if_splits)
  then show "mupnp_http_request_poststatuscode s c now = Some (b, s') \<Longrightarrow> instream s' = instream s"
    by (auto simp: mupnp_http_request_poststatuscode_def mupnp_http_request_postresponse_def Let_def
        bind_eq_Some_conv split: option.splits)
qed

subsection \<open>The loop of a connection\<close>

function client_loop ::
    "allocator \<Rightarrow> http_listener option \<Rightarrow> nat \<Rightarrow> nat option \<Rightarrow> mUpnpHttpRequest \<Rightarrow> mUpnpSocket \<Rightarrow> bool list \<Rightarrow>
     mUpnpSocket option" where
  "client_loop A listener now userData httpReq clientSock run =
     (case mupnp_http_request_read A httpReq clientSock of
        None \<Rightarrow> None
      | Some (ok, httpReq', sock) \<Rightarrow>
          if \<not> ok then Some sock
          else (case thread_isrunnable run of (runnable, run') \<Rightarrow>
            if \<not> runnable then Some sock
            else
              let version = mupnp_http_request_getversion httpReq' in
              if mupnp_strcmp version (Some MUPNP_HTTP_VER11) = 0 \<and> mupnp_http_request_gethost httpReq' = None
              then (case mupnp_http_request_postbadrequest sock now of
                      None \<Rightarrow> None
                    | Some (posted, sock') \<Rightarrow> client_loop A listener now userData httpReq' sock' run')
              else
                (case (case listener of
                         None \<Rightarrow> (True, httpReq', sock, run')
                       | Some f \<Rightarrow>
                           let req = httpReq'\<lparr>reqUserData := userData\<rparr>;
                               s = call_listener f req sock;
                               (runnable, r) = thread_isrunnable run'
                           in (runnable, req, s, r)) of
                   (runnable, req, sock', run'') \<Rightarrow>
                     if \<not> runnable then Some sock'
                     else if mupnp_strcmp version (Some MUPNP_HTTP_VER10) = 0 then Some sock'
                     else if \<not> mupnp_http_packet_iskeepaliveconnection req then Some sock'
                     else client_loop A listener now userData req sock' run'')))"
  by pat_completeness auto
termination
  apply (relation "measure (\<lambda>(A, l, now, u, q, s, run). length (instream s))")
    apply simp
   apply (fastforce dest!: sym [of "Some _" "mupnp_http_request_read _ _ _"] sym [of "Some _"]
      request_read_consumes poststatuscode_instream simp: mupnp_http_request_postbadrequest_def)
  apply (fastforce dest!: request_read_consumes simp: Let_def split: option.splits prod.splits)
  done

declare client_loop.simps [simp del]

definition mupnp_http_server_clientthread ::
    "allocator \<Rightarrow> http_listener option \<Rightarrow> nat \<Rightarrow> nat option \<Rightarrow> mUpnpSocket \<Rightarrow> bool list \<Rightarrow> mUpnpSocket option" where
  "mupnp_http_server_clientthread A listener now userData clientSock run =
     client_loop A listener now userData mupnp_http_request_new clientSock run"

subsection \<open>What the loop does with well-formed requests\<close>

lemma getvalue_norm_bytes:
  "str_bytes (mupnp_http_headerlist_getvalue (map header_norm hs) k) = str_bytes (mupnp_http_headerlist_getvalue hs k)"
  by (auto simp: mupnp_http_headerlist_getvalue_def mupnp_http_headerlist_get_def headerlist_find_norm
      mupnp_http_header_getvalue_def header_norm_def dest!: headerlist_find_less split: option.splits if_splits)

lemma getvalue_norm_Some:
  assumes "mupnp_http_headerlist_get hs k \<noteq> None"
  shows "mupnp_http_headerlist_getvalue (map header_norm hs) k \<noteq> None"
proof -
  obtain i n where i: "k = Some n" "headerlist_find hs k 0 = Some i"
    using assms by (auto simp: mupnp_http_headerlist_get_def split: if_splits)
  then have "i < length hs" using headerlist_find_less by fastforce
  with i show ?thesis
    by (simp add: mupnp_http_headerlist_getvalue_def mupnp_http_headerlist_get_def headerlist_find_norm
        mupnp_http_header_getvalue_def header_norm_def)
qed

lemma strcaseeq_close: "mupnp_strcaseeq a (Some ''close'') = mupnp_strcaseeq (Some (str_bytes a)) (Some ''close'')"
  by (cases a) (simp_all add: c_strcasecmp_def c_tolower_def char_of_def bit_0)

lemma keepalive_norm:
  assumes "headerList q = map header_norm (headerList p)"
  shows "mupnp_http_packet_iskeepaliveconnection q = mupnp_http_packet_iskeepaliveconnection p"
  unfolding mupnp_http_packet_iskeepaliveconnection_def mupnp_http_packet_getheadervalue_def assms
  by (subst (1 2) strcaseeq_close) (simp only: getvalue_norm_bytes)

lemma sent_call_listener: "sent s a t \<Longrightarrow> sent s (a @ concat (f q)) (call_listener f q t)"
proof -
  have "sent s a t \<Longrightarrow> sent s (a @ concat bs) (foldl swrite t bs)" for bs
  proof (induction bs arbitrary: a t)
    case (Cons b bs)
    from Cons.IH [OF sent_swrite [OF Cons.prems, of b]] show ?case by simp
  qed simp
  then show "sent s a t \<Longrightarrow> sent s (a @ concat (f q)) (call_listener f q t)" by (simp add: call_listener_def)
qed

lemma request_read_closed:
  assumes "instream s = []"
  shows "\<exists>q' s'. mupnp_http_request_read A q s = Some (False, q', s') \<and> outstream s' = outstream s"
proof -
  obtain r l s1 where line: "mupnp_socket_readline s MUPNP_HTTP_READLINE_BUFSIZE = (r, l, s1)" by (metis prod_cases3)
  have "r = - 1"
    using readline_eof [of s MUPNP_HTTP_READLINE_BUFSIZE] assms line by (simp add: MUPNP_HTTP_READLINE_BUFSIZE_def)
  moreover have "outstream s1 = outstream s"
    using line by (auto simp: mupnp_socket_readline_def readline_loop_correct skipline_loop_correct Let_def split: if_splits)
  moreover have "read_first_line s = (r, l, s1)" if "r = - 1"
    using line that by (subst read_first_line.simps) simp
  ultimately show ?thesis by (auto simp: mupnp_http_request_read_def Let_def)
qed

definition servable :: "mUpnpHttpRequest \<Rightarrow> bool" where
  "servable r \<longleftrightarrow> request_ok r \<and> reqVersion r = Some MUPNP_HTTP_VER11 \<and>
     mupnp_http_packet_hasheader r (Some ''HOST'') \<and> mupnp_http_packet_iskeepaliveconnection r"

lemma client_loop_serves:
  "\<forall>r \<in> set rs. servable r \<Longrightarrow> instream s = concat (map request_text rs) \<Longrightarrow> total_allocator A \<Longrightarrow>
   writable s \<Longrightarrow>
   \<exists>s'. client_loop A (Some (\<lambda>q. g (request_view q))) now ud q s [] = Some s' \<and>
     outstream s' = outstream s @ concat (map (\<lambda>r. concat (g (request_view r))) rs)"
proof (induction rs arbitrary: q s)
  case Nil
  then obtain q' s' where "mupnp_http_request_read A q s = Some (False, q', s')" "outstream s' = outstream s"
    using request_read_closed [of s A q] by auto
  then show ?case by (subst client_loop.simps) simp
next
  case (Cons r rs)
  have r: "servable r" "request_ok r" using Cons.prems by (simp_all add: servable_def)
  obtain q' t where q': "mupnp_http_request_read A q s = Some (True, q', t)"
      "sock_after s t (concat (map request_text rs))" "request_view q' = request_view r"
      "headerList q' = map header_norm (headerList r)"
    using request_read_text [OF r(2) _ Cons.prems(3), of s "concat (map request_text rs)" q] Cons.prems(2) by auto
  let ?q = "q'\<lparr>reqUserData := ud\<rparr>" and ?f = "\<lambda>q. g (request_view q)"
  define t1 where "t1 = call_listener ?f ?q t"
  have host: "mupnp_http_request_gethost q' \<noteq> None"
    using r(1) q'(4) getvalue_norm_Some [of "headerList r" "Some ''HOST''"]
    by (auto simp: servable_def mupnp_http_request_gethost_def mupnp_http_packet_getheadervalue_def
        mupnp_http_packet_hasheader_def split: if_splits)
  have version: "mupnp_http_request_getversion q' = Some MUPNP_HTTP_VER11"
    using r(1) q'(3) by (simp add: servable_def request_view_def mupnp_http_request_getversion_def)
  then have v10: "mupnp_strcmp (mupnp_http_request_getversion q') (Some MUPNP_HTTP_VER10) \<noteq> 0"
    by (simp add: MUPNP_HTTP_VER10_def MUPNP_HTTP_VER11_def)
  have alive: "mupnp_http_packet_iskeepaliveconnection ?q"
    using r(1) keepalive_norm [of ?q r] q'(4) by (simp add: servable_def)
  have t: "writable t" "outstream t = outstream s"
    using Cons.prems(4) q'(2) by (simp_all add: sock_after_def writable_def)
  then have "sent t ([] @ concat (g (request_view r))) t1"
    using sent_call_listener [OF sent_refl [OF t(1)], of ?f ?q] q'(3) by (simp add: t1_def request_view_def)
  then have t1: "writable t1" "outstream t1 = outstream s @ concat (g (request_view r))"
    using t(2) by (simp_all add: sent_def wrote_def)
  have step: "client_loop A (Some ?f) now ud q s [] = client_loop A (Some ?f) now ud ?q t1 []"
    by (subst client_loop.simps)
      (simp add: q'(1) thread_isrunnable_def Let_def host v10 alive flip: t1_def)
  have "instream t1 = concat (map request_text rs)" using q'(2) by (simp add: t1_def sock_after_def)
  from Cons.IH [OF _ this Cons.prems(3) t1(1), of ?q] Cons.prems(1) step t1(2) show ?case by auto
qed

section \<open>Properties\<close>

text \<open>C4: The requests of one connection are answered in the order in which they arrive: for
  HTTP/1.1 requests with a host and without \<open>Connection: close\<close>, sent one after the other
  without waiting, what the server writes is the listener's answer to the first, then the
  answer to the second, and so on, until the client closes the connection; and the thread ends.\<close>

theorem requests_answered_in_order:
  assumes "\<forall>r \<in> set rs. servable r" and "instream s = concat (map request_text rs)"
    and "total_allocator A" and "writable s" and "outstream s = []"
  shows "\<exists>s'. mupnp_http_server_clientthread A (Some (\<lambda>q. g (request_view q))) now ud s [] = Some s' \<and>
    outstream s' = concat (map (\<lambda>r. concat (g (request_view r))) rs)"
  using client_loop_serves [OF assms(1-4), of g now ud mupnp_http_request_new] assms(5)
  by (simp add: mupnp_http_server_clientthread_def)

theorem requests_answered_in_order_witness:
  "\<exists>s'. mupnp_http_server_clientthread \<lparr>can_alloc = \<lambda>_. True, junk = CHR ''?''\<rparr>
       (Some (\<lambda>q. (\<lambda>(m, u, v, hs, c). [the u, '';'']) (request_view q))) 0 None
       \<lparr>instream = concat (map request_text
          [mupnp_http_request_new\<lparr>reqMethod := Some ''GET'', reqUri := Some ''/a'',
             headerList := [\<lparr>hname = Some ''HOST'', hvalue = Some ''h''\<rparr>]\<rparr>,
           mupnp_http_request_new\<lparr>reqMethod := Some ''GET'', reqUri := Some ''/b'',
             headerList := [\<lparr>hname = Some ''HOST'', hvalue = Some ''h''\<rparr>]\<rparr>]),
        recvSizes = [3, 1], recvFails = False, nonblocking = False, sendResults = [Sends 1], outstream = []\<rparr> [] = Some s' \<and>
     outstream s' = ''/a;/b;''"
proof -
  define mk where "mk u = mupnp_http_request_new\<lparr>reqMethod := Some ''GET'', reqUri := Some u,
    headerList := [\<lparr>hname = Some ''HOST'', hvalue = Some ''h''\<rparr>]\<rparr>" for u
  let ?A = "\<lparr>can_alloc = \<lambda>_. True, junk = CHR ''?''\<rparr>"
  let ?s = "\<lparr>instream = concat (map request_text [mk ''/a'', mk ''/b'']), recvSizes = [3, 1], recvFails = False,
    nonblocking = False, sendResults = [Sends 1], outstream = []\<rparr>"
  have get: "mupnp_http_headerlist_get [\<lparr>hname = Some ''HOST'', hvalue = Some ''h''\<rparr>] (Some ''Content-Length'') = None"
    "mupnp_http_headerlist_get [\<lparr>hname = Some ''HOST'', hvalue = Some ''h''\<rparr>] (Some ''Transfer-Encoding'') = None"
    "mupnp_http_headerlist_getvalue [\<lparr>hname = Some ''HOST'', hvalue = Some ''h''\<rparr>] (Some ''Connection'') = None"
    "mupnp_http_headerlist_get [\<lparr>hname = Some ''HOST'', hvalue = Some ''h''\<rparr>] (Some ''HOST'') = Some 0"
    by code_simp+
  have str: "mupnp_strstr (Some ''/a'') (Some ''://'') \<le> 0" "mupnp_strstr (Some ''/b'') (Some ''://'') \<le> 0" by code_simp+
  have "servable (mk u)" if "mupnp_strstr (Some u) (Some ''://'') \<le> 0" "line_word u" "length u = 2" for u
    using that get
    by (simp add: servable_def mk_def mupnp_http_request_new_def mupnp_http_request_setversion_def
        mupnp_http_request_setuseragent_def MUPNP_HTTP_VER11_def request_ok_def word_text_def rest_text_def
        header_ok_def set_headerline_delim set_statusline_delim MUPNP_HTTP_READLINE_BUFSIZE_def LONG_MAX_def
        mupnp_http_packet_hasheader_def mupnp_http_packet_iskeepaliveconnection_def
        mupnp_http_packet_getheadervalue_def)
  moreover have "line_word ''/a''" "line_word ''/b''" by (simp_all add: word_text_def set_statusline_delim)
  ultimately have "\<forall>r \<in> set [mk ''/a'', mk ''/b'']. servable r" using str by simp
  from requests_answered_in_order [OF this, of ?s ?A "\<lambda>(m, u, v, hs, c). [the u, '';'']" 0 None]
  show ?thesis
    by (simp add: total_allocator_def writable_def mk_def request_view_def)
qed

text \<open>C5: The listener never gets an HTTP/1.1 request without a Host header: two listeners that
  agree on all other requests are not told apart by the connection, whatever the client sends
  and whenever the thread is stopped.\<close>

theorem listener_needs_host:
  assumes "\<forall>q. mupnp_strcmp (mupnp_http_request_getversion q) (Some MUPNP_HTTP_VER11) \<noteq> 0 \<or>
      mupnp_http_request_gethost q \<noteq> None \<longrightarrow> f q = g q"
  shows "mupnp_http_server_clientthread A (Some f) now ud s run = mupnp_http_server_clientthread A (Some g) now ud s run"
proof -
  have "client_loop A (Some f) now ud q s run = client_loop A (Some g) now ud q s run" for q
  proof (induction A "Some f" now ud q s run rule: client_loop.induct)
    case (1 A now ud q s run)
    show ?case
    proof (cases "mupnp_http_request_read A q s")
      case None
      then show ?thesis by (subst (1 2) client_loop.simps) simp
    next
      case (Some x)
      obtain ok q' t where x: "x = (ok, q', t)" by (metis prod_cases3)
      obtain r1 run1 where run1: "thread_isrunnable run = (r1, run1)" by fastforce
      note read = Some [unfolded x]
      show ?thesis
      proof (cases "ok \<and> r1")
        case False
        with read run1 show ?thesis by (subst (1 2) client_loop.simps) auto
      next
        case True
        let ?bad = "mupnp_strcmp (mupnp_http_request_getversion q') (Some MUPNP_HTTP_VER11) = 0 \<and>
          mupnp_http_request_gethost q' = None"
        let ?q = "q'\<lparr>reqUserData := ud\<rparr>"
        show ?thesis
        proof (cases ?bad)
          case bad: True
          with read run1 True show ?thesis
            using 1(1) [OF read refl refl _ run1 [symmetric] _ refl bad]
            by (subst (1 2) client_loop.simps) (auto split: option.split)
        next
          case ok: False
          have "f ?q = g ?q"
            using ok assms by (simp add: mupnp_http_request_getversion_def mupnp_http_request_gethost_def
                mupnp_http_packet_getheadervalue_def)
          then have same: "call_listener g ?q t = call_listener f ?q t" by (simp add: call_listener_def)
          obtain r2 run2 where run2: "thread_isrunnable run1 = (r2, run2)" by fastforce
          show ?thesis
            using read run1 True ok run2 same
              1(2) [OF read refl refl _ run1 [symmetric] _ refl ok, of r2 "(?q, call_listener f ?q t, run2)" ?q]
            by (subst (1 2) client_loop.simps) (auto simp: Let_def)
        qed
      qed
    qed
  qed
  then show ?thesis by (simp add: mupnp_http_server_clientthread_def)
qed

theorem listener_needs_host_witness:
  "mupnp_http_server_clientthread \<lparr>can_alloc = \<lambda>_. True, junk = CHR ''?''\<rparr> (Some (\<lambda>_. [''x''])) 0 None
      \<lparr>instream = ''GET / HTTP/1.1'' @ [CR, LF, CR, LF], recvSizes = [], recvFails = False, nonblocking = False, sendResults = [], outstream = []\<rparr> []
   = mupnp_http_server_clientthread \<lparr>can_alloc = \<lambda>_. True, junk = CHR ''?''\<rparr>
      (Some (\<lambda>q. if mupnp_strcmp (mupnp_http_request_getversion q) (Some MUPNP_HTTP_VER11) \<noteq> 0
                then [''x''] else if mupnp_http_request_gethost q \<noteq> None then [''x''] else [])) 0 None
      \<lparr>instream = ''GET / HTTP/1.1'' @ [CR, LF, CR, LF], recvSizes = [], recvFails = False, nonblocking = False, sendResults = [], outstream = []\<rparr> []"
  by (rule listener_needs_host) auto

end
