(* ===== verification/Invoke.thy ===== *)
theory Invoke
  imports Control Dictionary
begin

section \<open>Strict invocations (src/mupnp/control/action_ctrl.c)\<close>

text \<open>
  \<open>mupnp_action_postwitharguments\<close> invokes an action with a dictionary of inputs, once, and
  decodes the response strictly, with the description of the action as a schema and without
  changing the action.  The allocations of the result and of the parser succeed.  A node that
  is compared with a namespace comes as the list of the node and the nodes above it.
\<close>

datatype mUpnpActionResultCode =
  MUPNP_ACTION_RESULT_SUCCESS | MUPNP_ACTION_RESULT_INVALID_ARGUMENTS | MUPNP_ACTION_RESULT_TRANSPORT_ERROR
| MUPNP_ACTION_RESULT_HTTP_ERROR | MUPNP_ACTION_RESULT_SOAP_FAULT | MUPNP_ACTION_RESULT_PARSE_ERROR
| MUPNP_ACTION_RESULT_INCOMPLETE

record mUpnpActionResult =
  resultCode :: mUpnpActionResultCode
  httpStatusCode :: int
  upnpErrorCode :: int
  outputs :: "mUpnpDictionary option"
  faultCode :: charptr
  faultString :: charptr
  errorDescription :: charptr

definition mupnp_action_result_new :: mUpnpActionResult where
  "mupnp_action_result_new =
     \<lparr>resultCode = MUPNP_ACTION_RESULT_PARSE_ERROR, httpStatusCode = 0, upnpErrorCode = 0, outputs = mupnp_dictionary_new,
      faultCode = None, faultString = None, errorDescription = None\<rparr>"

definition mupnp_action_result_getoutput :: "mUpnpActionResult \<Rightarrow> charptr \<Rightarrow> charptr" where
  "mupnp_action_result_getoutput result name = mupnp_dictionary_getvalue (outputs result) name"

subsection \<open>Names and namespaces\<close>

definition mupnp_action_localname :: "mUpnpXmlNode option \<Rightarrow> charptr" where
  "mupnp_action_localname node =
     (case node of None \<Rightarrow> None
      | Some x \<Rightarrow>
          (case xname x of None \<Rightarrow> None
           | Some name \<Rightarrow> Some (if CHR '':'' \<in> set name then tl (dropWhile (\<lambda>c. c \<noteq> CHR '':'') name) else name)))"

fun namespace_of :: "mUpnpXmlNode list \<Rightarrow> charptr \<Rightarrow> charptr" where
  "namespace_of [] attribute = None"
| "namespace_of (node # parents) attribute =
     (case mupnp_xml_node_getattributevalue node attribute of
        Some v \<Rightarrow> Some v | None \<Rightarrow> namespace_of parents attribute)"

text \<open>The name of the attribute is put together in a buffer of 256 bytes.\<close>

definition mupnp_action_node_is :: "mUpnpXmlNode list \<Rightarrow> cstring \<Rightarrow> charptr \<Rightarrow> bool" where
  "mupnp_action_node_is npath name ns =
     (let full = (case npath of [] \<Rightarrow> None | node # _ \<Rightarrow> xname node) in
      if \<not> mupnp_streq (mupnp_action_localname (first_of npath)) (Some name) then False
      else
        let nsPrefix = takeWhile (\<lambda>c. c \<noteq> CHR '':'') (str_bytes full) in
        if CHR '':'' \<in> set (str_bytes full) \<and> length nsPrefix > 256 - 7 then False
        else
          let attribute = (if CHR '':'' \<in> set (str_bytes full) then ''xmlns:'' @ nsPrefix else ''xmlns'')
          in (case namespace_of npath (Some attribute) of
                None \<Rightarrow> False | Some v \<Rightarrow> mupnp_streq (Some v) ns))"

subsection \<open>Checks before anything is sent\<close>

fun validschema_loop :: "mUpnpArgument list \<Rightarrow> mUpnpArgument list \<Rightarrow> bool" where
  "validschema_loop previous [] = True"
| "validschema_loop previous (arg # args) =
     (let name = mupnp_argument_getname arg in
      if mupnp_strlen name \<le> 0 \<or>
         \<not> mupnp_streq (mupnp_argument_getdirection arg) (Some ''in'') \<and> \<not> mupnp_streq (mupnp_argument_getdirection arg) (Some ''out'')
      then False
      else if list_ex (\<lambda>p. mupnp_streq (mupnp_argument_getname p) name) previous then False
      else validschema_loop (previous @ [arg]) args)"

text \<open>The action and its service are given: the checks for NULL pass.\<close>

definition mupnp_action_validschema :: "mUpnpAction \<Rightarrow> bool" where
  "mupnp_action_validschema action =
     (if mupnp_strlen (mupnp_action_getname action) \<le> 0 then False else validschema_loop [] (argumentList action))"

fun validinputs_loop :: "mUpnpAction \<Rightarrow> mUpnpDictionary \<Rightarrow> mUpnpDictionary \<Rightarrow> bool" where
  "validinputs_loop action previous [] = True"
| "validinputs_loop action previous (entry # entries) =
     (case mupnp_action_getargumentbyname action (dkey entry) of
        None \<Rightarrow> False
      | Some i \<Rightarrow>
          if \<not> mupnp_argument_isindirection (argumentList action ! i) \<or> dvalue entry = None then False
          else if list_ex (\<lambda>p. mupnp_streq (dkey p) (dkey entry)) previous then False
          else validinputs_loop action (previous @ [entry]) entries)"

definition mupnp_action_validinputs :: "mUpnpAction \<Rightarrow> mUpnpDictionary option \<Rightarrow> bool" where
  "mupnp_action_validinputs action inputs =
     (if \<not> mupnp_action_validschema action then False
      else if list_ex (\<lambda>arg. mupnp_argument_isindirection arg \<and>
                (inputs = None \<or> mupnp_dictionary_getvalue inputs (mupnp_argument_getname arg) = None)) (argumentList action)
      then False
      else validinputs_loop action [] (case inputs of None \<Rightarrow> [] | Some entries \<Rightarrow> entries))"

subsection \<open>Decoding a response\<close>

fun body_search :: "mUpnpXmlNode \<Rightarrow> mUpnpXmlNode option \<Rightarrow> mUpnpXmlNode list \<Rightarrow> mUpnpXmlNode option" where
  "body_search envelope body [] = body"
| "body_search envelope body (node # nodes) =
     (if mupnp_action_node_is [node, envelope] ''Body'' (Some MUPNP_SOAP_XMLNS_URL)
      then (if body \<noteq> None then None else body_search envelope (Some node) nodes)
      else body_search envelope body nodes)"

text \<open>The argument is the list of the trees of the document, of which the envelope is the first.\<close>

definition mupnp_action_responsecontent :: "mUpnpXmlNode list \<Rightarrow> mUpnpXmlNode list option" where
  "mupnp_action_responsecontent nodes =
     (case nodes of
        [envelope] \<Rightarrow>
          if \<not> mupnp_action_node_is [envelope] ''Envelope'' (Some MUPNP_SOAP_XMLNS_URL) then None
          else (case body_search envelope None (xnodes envelope) of
                  None \<Rightarrow> None
                | Some body \<Rightarrow> (case xnodes body of [response] \<Rightarrow> Some [response, body, envelope] | _ \<Rightarrow> None))
      | _ \<Rightarrow> None)"

text \<open>\<open>strtol\<close> must read a digit and everything; a value that overflows is above \<open>INT_MAX\<close> as well.\<close>

definition mupnp_action_parseerrorcode :: "mUpnpXmlNode option \<Rightarrow> int" where
  "mupnp_action_parseerrorcode node =
     (case Option.bind node xvalue of
        None \<Rightarrow> 0
      | Some v \<Rightarrow>
          let (neg, r) = strtol_sign (dropWhile c_isspace v); code = c_strtol10 v in
          if takeWhile c_isdigit r \<noteq> [] \<and> dropWhile c_isdigit r = [] \<and> code > 0 \<and> code \<le> INT_MAX then code else 0)"

definition mupnp_action_result_setfault :: "mUpnpActionResult \<Rightarrow> mUpnpXmlNode list \<Rightarrow> mUpnpActionResult" where
  "mupnp_action_result_setfault result npath =
     (let response = first_of npath;
          set = (\<lambda>s node. case node of None \<Rightarrow> s | Some x \<Rightarrow> str_set s (xvalue x));
          result = result\<lparr>resultCode := MUPNP_ACTION_RESULT_SOAP_FAULT\<rparr>;
          result = result\<lparr>faultCode := set (faultCode result) (xml_child_local response (Some ''faultcode''))\<rparr>;
          result = result\<lparr>faultString := set (faultString result) (xml_child_local response (Some ''faultstring''))\<rparr>;
          detail = xml_child_local response (Some ''detail'')
      in case (detail, xml_child_local detail (Some ''UPnPError'')) of
           (Some detail, Some err) \<Rightarrow>
             if \<not> mupnp_action_node_is ([err, detail] @ npath) ''UPnPError'' (Some MUPNP_CONTROL_XMLNS) then result
             else
               let result = result\<lparr>upnpErrorCode := mupnp_action_parseerrorcode (xml_child_local (Some err) (Some ''errorCode''))\<rparr>
               in result\<lparr>errorDescription := set (errorDescription result) (xml_child_local (Some err) (Some ''errorDescription''))\<rparr>
         | _ \<Rightarrow> result)"

text \<open>The outputs of the response; \<open>None\<close> is an output that is not in the schema, comes twice or has children.\<close>

fun collect_outputs :: "mUpnpAction \<Rightarrow> mUpnpXmlNode list \<Rightarrow> mUpnpDictionary option \<Rightarrow> mUpnpDictionary option option" where
  "collect_outputs action [] out = Some out"
| "collect_outputs action (node # nodes) out =
     (let name = mupnp_action_localname (Some node) in
      case mupnp_action_getargumentbyname action name of
        None \<Rightarrow> None
      | Some i \<Rightarrow>
          if \<not> mupnp_argument_isoutdirection (argumentList action ! i) \<or> mupnp_dictionary_getvalue out name \<noteq> None \<or>
             mupnp_xml_node_haschildnodes (Some node)
          then None
          else collect_outputs action nodes
                 (mupnp_dictionary_setvalue out name (Some (str_bytes (xvalue node)))))"

definition mupnp_action_result_setoutputs ::
    "mUpnpActionResult \<Rightarrow> mUpnpService \<Rightarrow> mUpnpAction \<Rightarrow> mUpnpXmlNode list \<Rightarrow> mUpnpActionResult" where
  "mupnp_action_result_setoutputs result service action npath =
     (let responseName = str_add (mupnp_action_getname action) (Some ''Response'') in
      if \<not> mupnp_action_node_is npath (str_bytes responseName) (mupnp_service_getservicetype service) then result
      else case collect_outputs action (mupnp_xml_node_getchildnodes (first_of npath)) (outputs result) of
             None \<Rightarrow> result\<lparr>outputs := Some []\<rparr>
           | Some out \<Rightarrow>
               result\<lparr>outputs := out, resultCode :=
                 (if list_ex (\<lambda>arg. mupnp_argument_isoutdirection arg \<and>
                       mupnp_dictionary_getvalue out (mupnp_argument_getname arg) = None) (argumentList action)
                  then MUPNP_ACTION_RESULT_INCOMPLETE else MUPNP_ACTION_RESULT_SUCCESS)\<rparr>)"

text \<open>\<open>None\<close> is a crash of the parser; the content is NULL or as long as \<open>length\<close> says.\<close>

definition mupnp_action_result_fromresponse ::
    "expat \<Rightarrow> mUpnpService \<Rightarrow> mUpnpAction \<Rightarrow> int \<Rightarrow> charptr \<Rightarrow> mUpnpActionResult option" where
  "mupnp_action_result_fromresponse expat service action code text = 
     (let result = mupnp_action_result_new\<lparr>httpStatusCode := code\<rparr> in
      if code = 0 then Some (result\<lparr>resultCode := MUPNP_ACTION_RESULT_TRANSPORT_ERROR\<rparr>)
      else
        let result = (if code < 200 \<or> code \<ge> 300 then result\<lparr>resultCode := MUPNP_ACTION_RESULT_HTTP_ERROR\<rparr> else result) in
        if str_bytes text = [] then Some result
        else do {
          (parsed, nodes) \<leftarrow> mupnp_xml_parse expat [] text;
          let response = (if parsed then mupnp_action_responsecontent nodes else None);
          Some (case response of
                  None \<Rightarrow> result
                | Some npath \<Rightarrow>
                    if mupnp_action_node_is npath ''Fault'' (Some MUPNP_SOAP_XMLNS_URL) then mupnp_action_result_setfault result npath
                    else if resultCode result \<noteq> MUPNP_ACTION_RESULT_HTTP_ERROR
                    then mupnp_action_result_setoutputs result service action npath
                    else result) })"

subsection \<open>Invoking\<close>

definition set_inputs :: "mUpnpDictionary option \<Rightarrow> mUpnpAction \<Rightarrow> mUpnpAction" where
  "set_inputs inputs invocation =
     invocation\<lparr>argumentList := map (\<lambda>arg.
       if mupnp_argument_isindirection arg
       then mupnp_argument_setvalue arg (mupnp_dictionary_getvalue inputs (mupnp_argument_getname arg)) else arg)
       (argumentList invocation)\<rparr>"

definition invocation_request :: "mUpnpService \<Rightarrow> mUpnpNetURI \<Rightarrow> mUpnpAction \<Rightarrow> mUpnpDictionary option \<Rightarrow> mUpnpHttpRequest option" where
  "invocation_request service ctrlURL action inputs =
     (let invocation = mupnp_action_setactionnode mupnp_action_new (actionNode action);
          invocation = set_inputs inputs invocation
      in map_option (\<lambda>r. soapHttpReq (actSoapReq r))
           (mupnp_control_action_request_setaction (mupnp_control_action_request_new :: unit mUpnpActionRequest) service ctrlURL invocation))"

text \<open>
  \<open>mupnp_http_request_postonce\<close> is a parameter: it gives the response and whether it was received.
  The result comes with the requests that were sent.
\<close>

definition mupnp_action_postwitharguments ::
    "expat \<Rightarrow> (mUpnpHttpRequest \<Rightarrow> charptr \<Rightarrow> int \<Rightarrow> mUpnpHttpResponse \<times> bool) \<Rightarrow> mUpnpService \<Rightarrow> mUpnpNetURI \<Rightarrow>
     mUpnpAction \<Rightarrow> mUpnpDictionary option \<Rightarrow> (mUpnpActionResult \<times> mUpnpHttpRequest list) option" where
  "mupnp_action_postwitharguments expat postonce service ctrlURL action inputs =
     (if \<not> mupnp_action_validinputs action inputs
      then Some (mupnp_action_result_new\<lparr>resultCode := MUPNP_ACTION_RESULT_INVALID_ARGUMENTS\<rparr>, [])
      else do {
        http \<leftarrow> invocation_request service ctrlURL action inputs;
        let url = postURL http;
        let (response, received) = postonce http (host url) (port url);
        result \<leftarrow> mupnp_action_result_fromresponse expat service action
                   (if received then mupnp_http_response_getstatuscode response else 0) (content response);
        Some (result, [http]) })"

end
