(* ===== verification/Invocation.thy ===== *)
theory Invocation
  imports Invoke
begin

section \<open>Actions end to end\<close>

text \<open>
  A strict invocation against the device of this program: the request the control point builds is
  read by the device, the listener is called with the inputs, and the result the control point
  decodes from the response holds the outputs the listener set.
\<close>

subsection \<open>The arguments of an action\<close>

definition arg_name :: "mUpnpArgument \<Rightarrow> cstring" where
  "arg_name arg = str_bytes (mupnp_argument_getname arg)"

definition arg_ok :: "mUpnpArgument \<Rightarrow> bool" where
  "arg_ok arg \<longleftrightarrow> (case mupnp_argument_getname arg of None \<Rightarrow> False | Some n \<Rightarrow> xml_name n \<and> CHR '':'' \<notin> set n) \<and>
     (mupnp_argument_getdirection arg = Some ''in'' \<or> mupnp_argument_getdirection arg = Some ''out'')"

text \<open>The device looks arguments up ignoring case: their names have to differ in more.\<close>

definition args_ok :: "mUpnpArgument list \<Rightarrow> bool" where
  "args_ok args \<longleftrightarrow> list_all arg_ok args \<and> distinct (map (\<lambda>arg. map c_tolower (arg_name arg)) args)"

definition signature :: "mUpnpArgument list \<Rightarrow> (charptr \<times> charptr) list" where
  "signature args = map (\<lambda>arg. (mupnp_argument_getname arg, mupnp_argument_getdirection arg)) args"

lemma arg_okD:
  assumes "arg_ok arg"
  shows "mupnp_argument_getname arg = Some (arg_name arg)" "xml_name (arg_name arg)" "CHR '':'' \<notin> set (arg_name arg)"
    "nul_free (arg_name arg)" "arg_name arg \<noteq> []" "mupnp_argument_isoutdirection arg \<longleftrightarrow> \<not> mupnp_argument_isindirection arg"
  using assms xml_name_nul_free
  by (auto simp: arg_ok_def arg_name_def xml_name_def mupnp_argument_isindirection_def mupnp_argument_isoutdirection_def
      split: option.splits)

lemma args_okD: "args_ok args \<Longrightarrow> arg \<in> set args \<Longrightarrow> arg_ok arg"
  by (simp add: args_ok_def list_all_iff)

lemma signature_cong:
  assumes "signature as = signature bs"
  shows "map arg_name as = map arg_name bs" "map mupnp_argument_isindirection as = map mupnp_argument_isindirection bs"
    "map mupnp_argument_isoutdirection as = map mupnp_argument_isoutdirection bs" "args_ok as = args_ok bs" "length as = length bs"
proof -
  have len: "length as = length bs" using assms by (metis length_map signature_def)
  have eq: "mupnp_argument_getname (as ! i) = mupnp_argument_getname (bs ! i)"
     "mupnp_argument_getdirection (as ! i) = mupnp_argument_getdirection (bs ! i)" if "i < length as" for i
    using that assms len by (auto simp: signature_def list_eq_iff_nth_eq)
  have names: "map arg_name as = map arg_name bs" using len eq by (simp add: list_eq_iff_nth_eq arg_name_def)
  have "map (\<lambda>arg. map c_tolower (arg_name arg)) as = map (\<lambda>arg. map c_tolower (arg_name arg)) bs"
    using len eq by (intro nth_equalityI) (simp_all add: arg_name_def)
  moreover have "list_all arg_ok as = list_all arg_ok bs"
    using len eq by (simp add: list_all_length arg_ok_def)
  ultimately show "args_ok as = args_ok bs" by (simp add: args_ok_def)
  show "map mupnp_argument_isindirection as = map mupnp_argument_isindirection bs"
    "map mupnp_argument_isoutdirection as = map mupnp_argument_isoutdirection bs"
    using len eq by (simp_all add: list_eq_iff_nth_eq mupnp_argument_isindirection_def mupnp_argument_isoutdirection_def)
  show "map arg_name as = map arg_name bs" by (rule names)
  show "length as = length bs" by (rule len)
qed

lemma args_distinct:
  assumes "args_ok args" and "i < length args" "j < length args"
    and "map c_tolower (arg_name (args ! i)) = map c_tolower (arg_name (args ! j))"
  shows "i = j"
  using assms by (auto simp: args_ok_def distinct_conv_nth)

lemma index_where_unique:
  assumes "i < length xs" and "P (xs ! i)" and "\<And>j. j < length xs \<Longrightarrow> P (xs ! j) \<Longrightarrow> j = i"
  shows "index_where P xs = Some i"
proof (cases "index_where P xs")
  case None
  then show ?thesis using assms(1,2) by (auto simp: index_where_None)
next
  case (Some k)
  then show ?thesis using index_where_Some [OF Some] assms(3) by blast
qed

lemma argumentlist_get_name:
  assumes "args_ok args" and "i < length args" and "arg_name (args ! i) = n"
  shows "mupnp_argumentlist_get args (Some n) = Some i"
proof -
  note ok = arg_okD [OF args_okD [OF assms(1) nth_mem]]
  have eq: "mupnp_argument_getname (args ! j) \<noteq> None \<and> mupnp_strcasecmp (mupnp_argument_getname (args ! j)) (Some n) = 0 \<longleftrightarrow> j = i"
    if j: "j < length args" for j
  proof -
    have "c_strcasecmp (arg_name (args ! j)) n = 0 \<longleftrightarrow> j = i"
      using c_strcasecmp_eq_0 [OF ok(4) [OF j] ok(4) [OF assms(2)]] args_distinct [OF assms(1) j assms(2)] assms(3) by auto
    then show ?thesis using ok(1) [OF j] by simp
  qed
  have "index_where (\<lambda>arg. mupnp_argument_getname arg \<noteq> None \<and> mupnp_strcasecmp (mupnp_argument_getname arg) (Some n) = 0) args = Some i"
    by (rule index_where_unique [OF assms(2)]) (use eq assms(2) in blast)+
  then show ?thesis by (simp only: mupnp_argumentlist_get_def option.simps if_False)
qed

lemma getargumentbyname_name:
  assumes "args_ok (argumentList action)" and "i < length (argumentList action)" and "arg_name (argumentList action ! i) = n"
  shows "mupnp_action_getargumentbyname action (Some n) = Some i"
proof -
  let ?args = "argumentList action"
  note ok = arg_okD [OF args_okD [OF assms(1) nth_mem]]
  have eq: "mupnp_argument_isname (?args ! j) (Some n) \<longleftrightarrow> j = i" if j: "j < length ?args" for j
  proof -
    have "c_strcmp (arg_name (?args ! j)) n = 0 \<longleftrightarrow> j = i"
      using c_strcmp_eq_0 [OF ok(4) [OF j] ok(4) [OF assms(2)]] args_distinct [OF assms(1) j assms(2)] assms(3) by auto
    then show ?thesis using ok(1) [OF j] by (simp add: mupnp_argument_isname_def)
  qed
  have "n \<noteq> []" using ok(5) [OF assms(2)] assms(3) by simp
  moreover have "index_where (\<lambda>arg. mupnp_argument_isname arg (Some n)) ?args = Some i"
    by (rule index_where_unique [OF assms(2)]) (use eq assms(2) in blast)+
  ultimately show ?thesis by (simp add: mupnp_action_getargumentbyname_def mupnp_strlen_def)
qed

subsection \<open>The device takes the arguments of the request\<close>

lemma setvalue_keeps [simp]:
  "argumentNode (mupnp_argument_setvalue arg v) = argumentNode arg"
  "mupnp_argument_getname (mupnp_argument_setvalue arg v) = mupnp_argument_getname arg"
  "mupnp_argument_getdirection (mupnp_argument_setvalue arg v) = mupnp_argument_getdirection arg"
  "arg_name (mupnp_argument_setvalue arg v) = arg_name arg"
  by (simp_all add: mupnp_argument_setvalue_def mupnp_argument_getname_def mupnp_argument_getdirection_def arg_name_def)

lemma signature_update:
  "mupnp_argument_getname a = mupnp_argument_getname (args ! i) \<Longrightarrow> mupnp_argument_getdirection a = mupnp_argument_getdirection (args ! i) \<Longrightarrow>
   signature (args[i := a]) = signature args"
  by (cases "i < length args") (simp_all add: signature_def map_update list_update_same_conv list_update_beyond)

definition assign :: "(cstring \<times> charptr) list \<Rightarrow> mUpnpArgument \<Rightarrow> mUpnpArgument" where
  "assign nvs arg = (case map_of nvs (arg_name arg) of None \<Rightarrow> arg | Some v \<Rightarrow> mupnp_argument_setvalue arg v)"

lemma argumentlist_set_assign:
  assumes "args_ok args" and "distinct (map fst nvs)" and "fst ` set nvs \<subseteq> arg_name ` set args"
    and "map (\<lambda>src. (mupnp_argument_getname src, argValue src)) srcs = map (\<lambda>(n, v). (Some n, v)) nvs"
  shows "mupnp_argumentlist_set args srcs = map (assign nvs) args"
  using assms
proof (induction nvs arbitrary: args srcs)
  case Nil
  then show ?case by (simp add: assign_def)
next
  case (Cons nv nvs)
  obtain n v where nv: "nv = (n, v)" by (cases nv)
  obtain src srcs' where srcs: "srcs = src # srcs'" "mupnp_argument_getname src = Some n" "argValue src = v"
      "map (\<lambda>src. (mupnp_argument_getname src, argValue src)) srcs' = map (\<lambda>(n, v). (Some n, v)) nvs"
    using Cons.prems(4) by (auto simp: nv)
  obtain i where i: "i < length args" "arg_name (args ! i) = n"
    using Cons.prems(3) by (auto simp: nv in_set_conv_nth)
  let ?args = "args[i := mupnp_argument_setvalue (args ! i) v]"
  have sig: "signature ?args = signature args" by (rule signature_update) simp_all
  have ok: "args_ok ?args" using signature_cong(4) [OF sig] Cons.prems(1) by simp
  have "arg_name ` set ?args = arg_name ` set args"
    using signature_cong(1) [OF sig] by (metis list.set_map)
  then have "mupnp_argumentlist_set ?args srcs' = map (assign nvs) ?args"
    using Cons.IH [OF ok _ _ srcs(4)] Cons.prems(2,3) by (auto simp: nv)
  moreover have "map (assign nvs) ?args = map (assign ((n, v) # nvs)) args"
  proof (rule nth_equalityI)
    fix j assume "j < length (map (assign nvs) ?args)"
    then have j: "j < length args" by simp
    have "map_of nvs n = None" using Cons.prems(2) by (auto simp: nv map_of_eq_None_iff)
    moreover have "arg_name (args ! j) = n \<longleftrightarrow> j = i"
      using args_distinct [OF Cons.prems(1) j i(1)] i(2) by auto
    ultimately show "map (assign nvs) ?args ! j = map (assign ((n, v) # nvs)) args ! j"
      using j i by (auto simp: assign_def nth_list_update)
  qed simp
  ultimately show ?case
    using argumentlist_get_name [OF Cons.prems(1) i] by (simp add: srcs nv mupnp_argument_getvalue_def)
qed

subsection \<open>Envelopes\<close>

definition soap_envelope :: "mUpnpXmlNode \<Rightarrow> mUpnpXmlNode" where
  "soap_envelope node =
     XmlNode (Some ''s:Envelope'') None
       [\<lparr>aname = Some ''xmlns:s'', avalue = Some MUPNP_SOAP_XMLNS_URL\<rparr>,
        \<lparr>aname = Some ''s:encodingStyle'', avalue = Some MUPNP_SOAP_ENCSTYLE_URL\<rparr>]
       [XmlNode (Some ''s:Body'') None [] [node]]"

definition message_node :: "cstring \<Rightarrow> cstring \<Rightarrow> (cstring \<times> cstring) list \<Rightarrow> mUpnpXmlNode" where
  "message_node name ns nvs =
     XmlNode (Some name) None [\<lparr>aname = Some ''xmlns:u'', avalue = Some ns\<rparr>]
       (map (\<lambda>(n, v). XmlNode (Some n) (Some v) [] []) nvs)"

lemma createenvelope_eq:
  "mupnp_soap_createenvelopebodynode = XmlNode (Some ''s:Envelope'') None
       [\<lparr>aname = Some ''xmlns:s'', avalue = Some MUPNP_SOAP_XMLNS_URL\<rparr>,
        \<lparr>aname = Some ''s:encodingStyle'', avalue = Some MUPNP_SOAP_ENCSTYLE_URL\<rparr>]
       [XmlNode (Some ''s:Body'') None [] []]"
  by code_simp

lemma body_name: "soap_body_name (\<lparr>aname = Some ''xmlns:s'', avalue = Some MUPNP_SOAP_XMLNS_URL\<rparr> # as) = Some ''s:Body''"
  by (simp add: mupnp_xml_attribute_getname_def mupnp_xml_attribute_getvalue_def) code_simp

lemma body_index:
  "soap_body_index (XmlNode n v (\<lparr>aname = Some ''xmlns:s'', avalue = Some MUPNP_SOAP_XMLNS_URL\<rparr> # as)
      (XmlNode (Some ''s:Body'') w bs cs # ds)) = Some 0"
  by (simp add: soap_body_index_def mupnp_xml_node_haschildnodes_def mupnp_xml_node_getchildnodes_def body_name
      mupnp_xml_node_getchildnodebyname_def mupnp_xml_nodelist_getbyname_def del: soap_body_name.simps)

lemma request_addbody:
  assumes "reqRootNodeList req = []"
  shows "soap_request_addbody (mupnp_control_soap_request_initializeenvelopenode req) node =
    Some ((mupnp_control_soap_request_initializeenvelopenode req)\<lparr>reqRootNodeList := [soap_envelope node]\<rparr>)"
  using assms
  by (simp add: soap_request_addbody_def mupnp_control_soap_request_initializeenvelopenode_def
      mupnp_soap_request_getenvelopenode_def createenvelope_eq body_index add_to_child_def soap_envelope_def Let_def)

lemma response_addbody:
  assumes "resRootNodeList res = []"
  shows "soap_response_addbody (mupnp_control_soap_response_initializeenvelopenode res) node =
    Some ((mupnp_control_soap_response_initializeenvelopenode res)\<lparr>resRootNodeList := [soap_envelope node]\<rparr>)"
  using assms
  by (simp add: soap_response_addbody_def mupnp_control_soap_response_initializeenvelopenode_def
      mupnp_soap_response_getbodynode_def mupnp_soap_response_getenvelopenode_def createenvelope_eq
      mupnp_xml_node_haschildnodes_def mupnp_xml_node_getchildnodes_def add_to_child_def soap_envelope_def Let_def)

lemma argument_nodes_eq:
  "argument_nodes dir args (XmlNode n v as cs) =
     XmlNode n v as (cs @ map (\<lambda>arg. XmlNode (mupnp_argument_getname arg) (argValue arg) [] []) (filter dir args))"
  unfolding argument_nodes_def
  by (induction args arbitrary: cs) (auto simp: xml_leaf_def mupnp_xml_node_new_def mupnp_argument_getvalue_def)

lemma message_nodes_eq:
  assumes "list_all arg_ok args" and "list_all (\<lambda>arg. argValue arg \<noteq> None) (filter dir args)"
  shows "map (\<lambda>arg. XmlNode (mupnp_argument_getname arg) (argValue arg) [] []) (filter dir args) =
    map (\<lambda>(n, v). XmlNode (Some n) (Some v) [] []) (map (\<lambda>arg. (arg_name arg, str_bytes (argValue arg))) (filter dir args))"
  using assms arg_okD(1) by (auto simp: list_all_iff)

definition values_ok :: "(cstring \<times> cstring) list \<Rightarrow> bool" where
  "values_ok nvs \<longleftrightarrow> list_all (\<lambda>(n, v). xml_name n \<and> list_all xml_char v) nvs"

lemma envelope_ok:
  assumes "xml_name name" and "list_all xml_attrchar ns" and "values_ok nvs"
  shows "xml_ok (soap_envelope (message_node name ns nvs))"
    and "xml_height (soap_envelope (message_node name ns nvs)) \<le> MUPNP_XML_MAX_DEPTH"
proof -
  have "list_all xml_ok (map (\<lambda>(n, v). XmlNode (Some n) (Some v) [] []) nvs)"
    using assms(3) by (auto simp: values_ok_def list_all_iff xml_name_ok_def attrs_ok_def)
  then show "xml_ok (soap_envelope (message_node name ns nvs))"
    using assms(1,2)
    by (simp add: soap_envelope_def message_node_def)
      (simp add: xml_name_ok_def attrs_ok_def xml_name_def xml_namechar_def c_isdigit_def MUPNP_SOAP_XMLNS_URL_def
        MUPNP_SOAP_ENCSTYLE_URL_def xml_attrchar_def)
  have "foldr (\<lambda>c m. max (xml_height c) m) (map (\<lambda>(n, v). XmlNode (Some n) (Some v) [] []) nvs) 0 \<le> 1"
    by (induction nvs) auto
  then show "xml_height (soap_envelope (message_node name ns nvs)) \<le> MUPNP_XML_MAX_DEPTH"
    by (simp add: soap_envelope_def message_node_def MUPNP_XML_MAX_DEPTH_def)
qed

text \<open>The tree a reader has.\<close>

definition read_leaves :: "(cstring \<times> cstring) list \<Rightarrow> mUpnpXmlNode list" where
  "read_leaves nvs = map (\<lambda>(n, v). XmlNode (Some n) (if v = [] then None else Some v) [] []) nvs"

lemma parsed_envelope:
  obtains u v w where "xml_parsed 0 (soap_envelope (message_node name ns nvs)) =
    XmlNode (Some ''s:Envelope'') u
       [\<lparr>aname = Some ''xmlns:s'', avalue = Some MUPNP_SOAP_XMLNS_URL\<rparr>,
        \<lparr>aname = Some ''s:encodingStyle'', avalue = Some MUPNP_SOAP_ENCSTYLE_URL\<rparr>]
       [XmlNode (Some ''s:Body'') v [] [XmlNode (Some name) w [\<lparr>aname = Some ''xmlns:u'', avalue = Some ns\<rparr>] (read_leaves nvs)]]"
proof -
  have "map (xml_parsed k) (map (\<lambda>(n, v). XmlNode (Some n) (Some v) [] []) nvs) = read_leaves nvs" for k
    by (induction nvs) (auto simp: read_leaves_def)
  then show thesis by (intro that) (simp add: soap_envelope_def message_node_def)
qed

subsection \<open>The request of the control point\<close>

definition input_of :: "mUpnpDictionary option \<Rightarrow> cstring \<Rightarrow> cstring" where
  "input_of inputs n = str_bytes (mupnp_dictionary_getvalue inputs (Some n))"

definition in_names :: "mUpnpArgument list \<Rightarrow> cstring list" where
  "in_names args = map arg_name (filter mupnp_argument_isindirection args)"

definition in_values :: "mUpnpDictionary option \<Rightarrow> mUpnpArgument list \<Rightarrow> (cstring \<times> cstring) list" where
  "in_values inputs args = map (\<lambda>n. (n, input_of inputs n)) (in_names args)"

text \<open>The arguments of an action are those of its description.\<close>

definition described :: "mUpnpAction \<Rightarrow> bool" where
  "described action \<longleftrightarrow>
     signature (argumentList (mupnp_action_setactionnode mupnp_action_new (actionNode action))) = signature (argumentList action)"

lemma setactionnode_simps:
  "actionNode (mupnp_action_setactionnode a node) = node"
  "list_all (\<lambda>arg. argValue arg = None) (argumentList (mupnp_action_setactionnode a node))"
proof -
  have step: "actionNode (foldl (\<lambda>action childNode.
      if \<not> mupnp_argument_isargumentnode childNode then action
      else action\<lparr>argumentList := argumentList action @ [mupnp_argument_setargumentnode mupnp_argument_new childNode]\<rparr>) act ns) = actionNode act"
    "list_all (\<lambda>arg. argValue arg = None) (argumentList act) \<Longrightarrow> list_all (\<lambda>arg. argValue arg = None) (argumentList (foldl (\<lambda>action childNode.
      if \<not> mupnp_argument_isargumentnode childNode then action
      else action\<lparr>argumentList := argumentList action @ [mupnp_argument_setargumentnode mupnp_argument_new childNode]\<rparr>) act ns))" for ns act
    by (induction ns arbitrary: act) (auto simp: mupnp_argument_setargumentnode_def mupnp_argument_new_def)
  show "actionNode (mupnp_action_setactionnode a node) = node"
    "list_all (\<lambda>arg. argValue arg = None) (argumentList (mupnp_action_setactionnode a node))"
    unfolding mupnp_action_setactionnode_def mupnp_action_initchildnodes_def mupnp_action_initargumentlist_def Let_def
    by (simp_all add: step split: option.split)
qed

lemma in_names_cong: "signature as = signature bs \<Longrightarrow> in_names as = in_names bs"
proof -
  assume "signature as = signature bs"
  moreover have "in_names args = map (str_bytes \<circ> fst) (filter (\<lambda>(n, d). mupnp_streq d (Some ''in'')) (signature args))" for args
    by (induction args) (simp_all add: in_names_def signature_def arg_name_def mupnp_argument_isindirection_def)
  ultimately show ?thesis by simp
qed

lemma signature_map:
  assumes "\<And>arg. mupnp_argument_getname (f arg) = mupnp_argument_getname arg"
    and "\<And>arg. mupnp_argument_getdirection (f arg) = mupnp_argument_getdirection arg"
  shows "signature (map f args) = signature args"
  using assms by (simp add: signature_def)

lemma in_values_named:
  assumes "list_all arg_ok args" and "list_all (\<lambda>arg. argValue arg = Some (input_of inputs (arg_name arg))) (filter mupnp_argument_isindirection args)"
  shows "map (\<lambda>arg. XmlNode (mupnp_argument_getname arg) (argValue arg) [] []) (filter mupnp_argument_isindirection args) =
    map (\<lambda>(n, v). XmlNode (Some n) (Some v) [] []) (in_values inputs args)"
  using assms arg_okD(1) by (auto simp: list_all_iff in_values_def in_names_def)

lemma action_request_text:
  assumes "described action" and "args_ok (argumentList action)" and "mupnp_action_validinputs action inputs"
    and "mupnp_action_getname action = Some n" and "mupnp_service_getservicetype service = Some t"
    and "xml_name (''u:'' @ n)" and "list_all xml_attrchar t" and "values_ok (in_values inputs (argumentList action))"
    and "env = soap_envelope (message_node (''u:'' @ n) t (in_values inputs (argumentList action)))"
    and "int (length (soap_text env)) < LONG_MAX"
  obtains q where "invocation_request service ctrlURL action inputs = Some q" and "content q = Some (soap_text env)"
    and "field q ''Content-Length'' = Some (show_nat 10 (length (soap_text env)))"
    and "length t + length n \<le> 400 \<Longrightarrow> field q ''SOAPACTION'' = Some ([CHR 0x22] @ t @ ''#'' @ n @ [CHR 0x22]) \<and> field q ''01-SOAPACTION'' = None"
proof -
  define made where "made = mupnp_action_setactionnode mupnp_action_new (actionNode action)"
  define inv where "inv = set_inputs inputs made"
  have sig: "signature (argumentList inv) = signature (argumentList action)"
    using assms(1) by (simp add: inv_def set_inputs_def signature_map described_def made_def)
  have ok: "list_all arg_ok (argumentList inv)"
    using signature_cong(4) [OF sig] assms(2) by (simp add: args_ok_def)
  have name: "mupnp_action_getname inv = Some n"
    using assms(4) by (simp add: inv_def set_inputs_def made_def mupnp_action_getname_def setactionnode_simps)
  have given: "mupnp_dictionary_getvalue inputs (Some m) \<noteq> None" if "m \<in> set (in_names (argumentList action))" for m
    using that assms(3) arg_okD(1) [OF args_okD [OF assms(2)]]
    by (auto simp: in_names_def mupnp_action_validinputs_def list_ex_iff split: if_splits)
  have "argValue arg = Some (input_of inputs (arg_name arg))"
    if a: "arg \<in> set (argumentList inv)" "mupnp_argument_isindirection arg" for arg
  proof -
    obtain old where old: "old \<in> set (argumentList made)" "arg = (if mupnp_argument_isindirection old
        then mupnp_argument_setvalue old (mupnp_dictionary_getvalue inputs (mupnp_argument_getname old)) else old)"
      using a(1) by (auto simp: inv_def set_inputs_def)
    have "mupnp_argument_isindirection old" using a(2) old(2) by (auto simp: mupnp_argument_isindirection_def split: if_splits)
    moreover have "argValue old = None" using old(1) setactionnode_simps(2) by (auto simp: made_def list_all_iff)
    moreover have "mupnp_argument_getname arg = Some (arg_name arg)" using ok a(1) by (simp add: list_all_iff arg_okD)
    moreover have "arg_name arg \<in> set (in_names (argumentList action))"
      using a in_names_cong [OF sig] by (auto simp: in_names_def [of "argumentList inv"] simp flip: in_names_cong [OF sig])
    then obtain v where "mupnp_dictionary_getvalue inputs (Some (arg_name arg)) = Some v" using given by blast
    ultimately show ?thesis using old(2) by (simp add: mupnp_argument_setvalue_def input_of_def mupnp_argument_getname_def)
  qed
  then have leaves: "map (\<lambda>arg. XmlNode (mupnp_argument_getname arg) (argValue arg) [] []) (filter mupnp_argument_isindirection (argumentList inv)) =
      map (\<lambda>(n, v). XmlNode (Some n) (Some v) [] []) (in_values inputs (argumentList inv))"
    using in_values_named [OF ok, of inputs] by (simp add: list_all_iff)
  have node: "mupnp_control_action_request_createactionnode service inv = message_node (''u:'' @ n) t (in_values inputs (argumentList action))"
    using in_names_cong [OF sig]
    by (simp add: mupnp_control_action_request_createactionnode_def name assms(5) mupnp_xml_node_new_def str_add_def Let_def
        mupnp_xml_node_setnamespace_def argument_nodes_eq leaves message_node_def in_values_def mupnp_xml_attributelist_set_def
        mupnp_xml_attributelist_get_def mupnp_xml_attribute_new_def mupnp_xml_attribute_setname_def mupnp_xml_attribute_setvalue_def)
  let ?soapAction = "foldl str_add None [Some [CHR 0x22], Some t, Some ''#'', Some n, Some [CHR 0x22]]"
  define r where "r = mupnp_control_request_sethostfromservice ((mupnp_soap_request_new :: unit mUpnpSoapRequest)
      \<lparr>soapHttpReq := mupnp_http_packet_setheadervalue soap_http_request (Some ''SOAPACTION'') ?soapAction\<rparr>) ctrlURL"
  have r: "reqRootNodeList r = []" "content (soapHttpReq r) = None"
    by (simp_all add: r_def mupnp_control_request_sethostfromservice_def mupnp_soap_request_new_def mupnp_http_request_seturi_def
        split: prod.split option.split)
  define r1 where "r1 = mupnp_control_soap_request_initializeenvelopenode r"
  have c1: "content (soapHttpReq r1) = None" using r(2) by (simp add: r1_def mupnp_control_soap_request_initializeenvelopenode_def)
  have "invocation_request service ctrlURL action inputs = Some (soap_content (soapHttpReq r1) env)"
    using request_addbody [OF r(1), of "message_node (''u:'' @ n) t (in_values inputs (argumentList action))"]
    by (simp add: invocation_request_def made_def [symmetric] inv_def [symmetric] mupnp_control_action_request_setaction_def
        name assms(5,9) node mupnp_control_action_request_new_def Let_def mupnp_soap_request_createcontent_def
        mupnp_soap_request_getenvelopenode_def mupnp_soap_request_setcontent_def r1_def r_def mupnp_soap_request_new_def)
  moreover have "xml_ok env" using envelope_ok(1) [OF assms(6-8)] assms(9) by simp
  note body_text = soap_content_text [OF this c1 assms(10)]
  moreover have "field (soap_content (soapHttpReq r1) env) ''SOAPACTION'' = Some ([CHR 0x22] @ t @ ''#'' @ n @ [CHR 0x22]) \<and>
      field (soap_content (soapHttpReq r1) env) ''01-SOAPACTION'' = None" if short: "length t + length n \<le> 400"
  proof -
    let ?v = "[CHR 0x22] @ t @ ''#'' @ n @ [CHR 0x22]"
    have n: "list_all xml_namechar n" using assms(6) by (simp add: xml_name_def)
    have t: "nul_free t" "LF \<notin> set t" using assms(7) by (auto simp: list_all_iff xml_attrchar_def nul_free_def)
    have "nul_free n" "LF \<notin> set n"
      using n by (auto simp: list_all_iff xml_namechar_def nul_free_def c_isdigit_def)
    with t have v: "field_text ?v" by (intro field_text_nonempty) (auto simp: nul_free_def)
    have act: "?soapAction = Some ?v" by (simp add: str_add_def)
    let ?set = "\<lambda>q k v. mupnp_http_packet_setheadervalue q (Some k) (Some v)"
    define q0 where "q0 = ?set soap_http_request ''SOAPACTION'' ?v"
    obtain w r0 where g: "mupnp_net_uri_getrequest ctrlURL = (w, r0)" by (cases "mupnp_net_uri_getrequest ctrlURL")
    have q1: "soapHttpReq r1 = ?set (q0\<lparr>reqUri := str_set (reqUri soap_http_request) r0, postURL := w\<rparr>) ''Content-Type'' MUPNP_SOAP_CONTENT_TYPE"
      by (simp add: r1_def r_def mupnp_control_soap_request_initializeenvelopenode_def mupnp_control_request_sethostfromservice_def
          mupnp_http_request_seturi_def mupnp_soap_request_new_def act [simplified] q0_def g)
    have "fields_ok q0" "field q0 ''SOAPACTION'' = Some ?v" "field q0 ''01-SOAPACTION'' = field soap_http_request ''01-SOAPACTION''"
      using v short by (simp_all add: q0_def lower nul_free_def)
    moreover have "field soap_http_request ''01-SOAPACTION'' = None" by code_simp
    ultimately show ?thesis unfolding body_text by (simp add: q1 lower nul_free_def)
  qed
  ultimately show thesis by (intro that [of "soap_content (soapHttpReq r1) env"]) simp_all
qed

subsection \<open>The device performs the action\<close>

text \<open>What the listener is called with: an empty input leaves the value of the invocation before.\<close>

definition called_with :: "mUpnpDictionary option \<Rightarrow> mUpnpAction \<Rightarrow> mUpnpAction" where
  "called_with inputs action =
     action\<lparr>argumentList := map (\<lambda>arg.
         if mupnp_argument_isoutdirection arg then arg\<lparr>argValue := Some []\<rparr>
         else if input_of inputs (arg_name arg) = [] then arg
         else arg\<lparr>argValue := Some (input_of inputs (arg_name arg))\<rparr>) (argumentList action),
       actionStatus := \<lparr>stCode = 401, stDescription = Some ''Invalid Action''\<rparr>\<rparr>"

definition read_values :: "(cstring \<times> cstring) list \<Rightarrow> (cstring \<times> charptr) list" where
  "read_values nvs = map (\<lambda>(n, v). (n, if v = [] then None else Some v)) nvs"

lemma request_arguments:
  "map (\<lambda>src. (mupnp_argument_getname src, argValue src)) (map request_argument (read_leaves nvs)) =
   map (\<lambda>(n, v). (Some n, v)) (read_values nvs)"
  by (induction nvs)
    (auto simp: read_leaves_def read_values_def request_argument_def named_argument_node_def mupnp_argument_getname_def
      mupnp_argument_setargumentnode_def mupnp_argument_new_def mupnp_argument_setvalue_def mupnp_xml_node_setchildnode_def
      mupnp_xml_node_getchildnodebyname_def mupnp_xml_nodelist_getbyname_def mupnp_xml_node_new_def
      mupnp_xml_node_getchildnodevalue_def xml_child_def mupnp_xml_node_getchildnodes_def Let_def)

lemma map_of_names: "map_of (map (\<lambda>n. (n, f n)) ns) n = (if n \<in> set ns then Some (f n) else None)"
  by (induction ns) auto

lemma assigned_arguments:
  assumes "args_ok args"
  shows "mupnp_argumentlist_set args (map request_argument (read_leaves (in_values inputs args))) =
    map (\<lambda>arg. if mupnp_argument_isoutdirection arg \<or> input_of inputs (arg_name arg) = [] then arg
      else arg\<lparr>argValue := Some (input_of inputs (arg_name arg))\<rparr>) args"
proof -
  let ?nvs = "read_values (in_values inputs args)"
  let ?f = "\<lambda>n. if input_of inputs n = [] then None else Some (input_of inputs n)"
  have nvs: "?nvs = map (\<lambda>n. (n, ?f n)) (in_names args)" by (simp add: read_values_def in_values_def)
  have names: "distinct (map arg_name args)"
    using assms distinct_map [of "map c_tolower" "map arg_name args"] by (simp add: args_ok_def comp_def)
  then have "distinct (in_names args)" by (simp add: in_names_def distinct_map_filter)
  then have "distinct (map fst ?nvs)" by (simp add: nvs comp_def)
  moreover have "fst ` set ?nvs \<subseteq> arg_name ` set args" by (auto simp: nvs in_names_def)
  ultimately have "mupnp_argumentlist_set args (map request_argument (read_leaves (in_values inputs args))) = map (assign ?nvs) args"
    using argumentlist_set_assign [OF assms _ _ request_arguments] by blast
  also have "\<dots> = map (\<lambda>arg. if mupnp_argument_isoutdirection arg \<or> input_of inputs (arg_name arg) = [] then arg
      else arg\<lparr>argValue := Some (input_of inputs (arg_name arg))\<rparr>) args"
  proof (rule map_cong [OF refl])
    fix arg assume a: "arg \<in> set args"
    have "arg_name arg \<in> set (in_names args) \<longleftrightarrow> mupnp_argument_isindirection arg"
      using a names by (auto simp: in_names_def distinct_map inj_on_def)
    then have "map_of ?nvs (arg_name arg) = (if mupnp_argument_isindirection arg then Some (?f (arg_name arg)) else None)"
      by (simp add: nvs map_of_names)
    then show "assign ?nvs arg = (if mupnp_argument_isoutdirection arg \<or> input_of inputs (arg_name arg) = [] then arg
      else arg\<lparr>argValue := Some (input_of inputs (arg_name arg))\<rparr>)"
      using arg_okD(6) [OF args_okD [OF assms a]] by (simp add: assign_def mupnp_argument_setvalue_def)
  qed
  finally show ?thesis .
qed

lemma dir_update [simp]:
  "mupnp_argument_isoutdirection (arg\<lparr>argValue := v\<rparr>) = mupnp_argument_isoutdirection arg"
  by (simp add: mupnp_argument_isoutdirection_def mupnp_argument_getdirection_def)

lemma listener_called:
  assumes "args_ok (argumentList action)"
  shows "mupnp_action_clearoutputargumentvalues (mupnp_action_setstatusdescription (mupnp_action_setstatuscode
      (action\<lparr>argumentList := mupnp_argumentlist_set (argumentList action)
          (map request_argument (read_leaves (in_values inputs (argumentList action))))\<rparr>) MUPNP_STATUS_INVALID_ACTION)
      (Some (mupnp_status_code2string MUPNP_STATUS_INVALID_ACTION))) = called_with inputs action"
  by (auto simp: assigned_arguments [OF assms] called_with_def mupnp_action_clearoutputargumentvalues_def
      mupnp_action_setstatusdescription_def mupnp_action_setstatuscode_def mupnp_argument_setvalue_def
      mupnp_status_code2string_def MUPNP_STATUS_INVALID_ACTION_def)

text \<open>The request as the device reads it.\<close>

lemma action_request_read:
  assumes "reqRootNodeList req = [xml_parsed 0 (soap_envelope (message_node m t nvs))]" and "m = ''u:'' @ n"
  obtains actReq where "mupnp_control_action_request_setsoaprequest mupnp_control_action_request_new req = Some actReq"
    and "mupnp_control_action_request_getactionname actReq = Some n"
    and "actReqArgList actReq = map request_argument (read_leaves nvs)"
proof -
  obtain u v w where tree: "xml_parsed 0 (soap_envelope (message_node m t nvs)) =
    XmlNode (Some ''s:Envelope'') u
       [\<lparr>aname = Some ''xmlns:s'', avalue = Some MUPNP_SOAP_XMLNS_URL\<rparr>,
        \<lparr>aname = Some ''s:encodingStyle'', avalue = Some MUPNP_SOAP_ENCSTYLE_URL\<rparr>]
       [XmlNode (Some ''s:Body'') v [] [XmlNode (Some m) w [\<lparr>aname = Some ''xmlns:u'', avalue = Some t\<rparr>] (read_leaves nvs)]]"
    by (rule parsed_envelope)
  have name: "mupnp_strstr (Some m) (Some '':'') = 1" "drop (Suc (Suc 0)) m = n" by (simp_all add: assms(2))
  define req' where "req' = (set_body_content req (XmlNode (Some m) w [\<lparr>aname = Some ''xmlns:u'', avalue = Some t\<rparr>]
      (map named_argument_node (read_leaves nvs))))"
  have env': "reqRootNodeList req' = [XmlNode (Some ''s:Envelope'') u
       [\<lparr>aname = Some ''xmlns:s'', avalue = Some MUPNP_SOAP_XMLNS_URL\<rparr>,
        \<lparr>aname = Some ''s:encodingStyle'', avalue = Some MUPNP_SOAP_ENCSTYLE_URL\<rparr>]
       [XmlNode (Some ''s:Body'') v [] [XmlNode (Some m) w [\<lparr>aname = Some ''xmlns:u'', avalue = Some t\<rparr>]
          (map named_argument_node (read_leaves nvs))]]]"
    by (simp add: req'_def set_body_content_def assms(1) tree body_index)
  obtain req'' where req'': "mupnp_soap_request_createcontent req' = Some req''" "reqRootNodeList req'' = reqRootNodeList req'"
    by (simp add: mupnp_soap_request_createcontent_def mupnp_soap_request_getenvelopenode_def env' mupnp_soap_request_setcontent_def)
  have "mupnp_control_action_request_setsoaprequest mupnp_control_action_request_new req =
      Some ((mupnp_control_action_request_new :: 'a mUpnpActionRequest)\<lparr>actSoapReq := req'', isSoapReqCreated := False,
        actReqArgList := map request_argument (read_leaves nvs)\<rparr>)"
    using req''(1)
    by (simp add: mupnp_control_action_request_setsoaprequest_def mupnp_control_action_request_getactionnode_def
      mupnp_soap_request_getbodynode_def mupnp_soap_request_getenvelopenode_def assms(1) tree body_index body_content_def
      mupnp_xml_node_haschildnodes_def mupnp_xml_node_getchildnodes_def Let_def req'_def)
  then show thesis
    by (rule that)
     (simp_all add: mupnp_control_action_request_getactionname_def mupnp_control_action_request_getactionnode_def
      mupnp_soap_request_getbodynode_def mupnp_soap_request_getenvelopenode_def req'' env' body_index body_content_def
      mupnp_xml_node_haschildnodes_def mupnp_xml_node_getchildnodes_def name Let_def del: strstr_simps)
qed

subsection \<open>The response\<close>

definition out_values :: "mUpnpArgument list \<Rightarrow> (cstring \<times> cstring) list" where
  "out_values args = map (\<lambda>arg. (arg_name arg, str_bytes (argValue arg))) (filter mupnp_argument_isoutdirection args)"

text \<open>A listener keeps the description of the action and gives every output a value.\<close>

definition answers :: "mUpnpAction \<Rightarrow> mUpnpAction \<Rightarrow> bool" where
  "answers action answered \<longleftrightarrow> actionNode answered = actionNode action \<and>
     signature (argumentList answered) = signature (argumentList action) \<and>
     list_all (\<lambda>arg. argValue arg \<noteq> None) (filter mupnp_argument_isoutdirection (argumentList answered))"

lemma response_made:
  assumes "args_ok (argumentList action)" and "list_all (\<lambda>arg. argValue arg \<noteq> None) (filter mupnp_argument_isoutdirection (argumentList action))"
    and "mupnp_action_getname action = Some n" and "length n < 128" and "mupnp_service_getservicetype service = Some t"
    and "xml_name (''u:'' @ n @ ''Response'')" and "list_all xml_attrchar t" and "values_ok (out_values (argumentList action))"
    and "env = soap_envelope (message_node (''u:'' @ n @ ''Response'') t (out_values (argumentList action)))"
    and "int (length (soap_text env)) < LONG_MAX"
  obtains actRes where "mupnp_control_action_response_setresponse mupnp_control_action_response_new service action = Some actRes"
    and "statusCode (soapHttpRes (actResSoapRes actRes)) = 200" and "content (soapHttpRes (actResSoapRes actRes)) = Some (soap_text env)"
proof -
  have "serviceNode service \<noteq> None"
    using assms(5) by (auto simp: mupnp_service_getservicetype_def mupnp_xml_node_getchildnodevalue_def xml_child_def
        mupnp_xml_node_getchildnodebyname_def split: option.splits)
  moreover have "mupnp_service_getservicetype (mupnp_service_setservicenode mupnp_service_new (serviceNode service)) = Some t"
    using assms(5) by (simp add: mupnp_service_getservicetype_def mupnp_service_setservicenode_def)
  moreover have "list_all arg_ok (argumentList action)" using assms(1) by (simp add: args_ok_def)
  note leaves = message_nodes_eq [OF this assms(2)]
  ultimately have node: "mupnp_control_action_response_createresponsenode service action =
      Some (message_node (''u:'' @ n @ ''Response'') t (out_values (argumentList action)))"
    using assms(3,4)
    by (simp add: mupnp_control_action_response_createresponsenode_def MUPNP_ACTOINNAME_LEN_MAX_def Let_def mupnp_xml_node_new_def
        xml_setattribute_def argument_nodes_eq leaves message_node_def out_values_def mupnp_xml_attributelist_set_def
        mupnp_xml_attributelist_get_def mupnp_xml_attribute_new_def mupnp_xml_attribute_setname_def mupnp_xml_attribute_setvalue_def)
  define res where "res = (actResSoapRes mupnp_control_action_response_new)
      \<lparr>soapHttpRes := mupnp_http_response_setstatuscode mupnp_http_response_new 200\<rparr>"
  have res: "resRootNodeList res = []"
    by (simp add: res_def mupnp_control_action_response_new_def mupnp_soap_response_new_def)
  define q where "q = soapHttpRes (mupnp_control_soap_response_initializeenvelopenode res)"
  have q: "content q = None" "statusCode q = 200"
    by (simp_all add: q_def res_def mupnp_control_soap_response_initializeenvelopenode_def mupnp_http_response_setstatuscode_def
        mupnp_http_response_setreasonphrase_def Let_def mupnp_http_packet_setheadervalue_def)
  have "xml_ok env" using envelope_ok(1) [OF assms(6-8)] assms(9) by simp
  note body_text = soap_content_text [OF this q(1) assms(10)]
  have "mupnp_control_action_response_setresponse mupnp_control_action_response_new service action =
      Some (mupnp_control_action_response_new\<lparr>actResSoapRes := (mupnp_control_soap_response_initializeenvelopenode res)
        \<lparr>resRootNodeList := [env], soapHttpRes := soap_content q env\<rparr>\<rparr>)"
    using response_addbody [OF res, of "message_node (''u:'' @ n @ ''Response'') t (out_values (argumentList action))"]
    by (simp add: mupnp_control_action_response_setresponse_def node Let_def MUPNP_HTTP_STATUS_OK_def assms(9)
        soap_response_createcontent_def mupnp_soap_response_getenvelopenode_def mupnp_soap_response_setcontent_def q_def
        res_def mupnp_control_action_response_new_def mupnp_soap_response_new_def)
  then show thesis
    by (rule that) (simp_all add: body_text q)
qed

subsection \<open>The control point decodes the response\<close>

lemma node_is_prefixed:
  assumes "CHR '':'' \<notin> set p" and "length p \<le> 249" and "namespace_of npath (Some (''xmlns:'' @ p)) = Some ns"
    and "first_of npath = Some node" and "xname node = Some (p @ '':'' @ l)"
  shows "mupnp_action_node_is npath l (Some ns)"
proof -
  have "takeWhile (\<lambda>c. c \<noteq> CHR '':'') (p @ '':'' @ l) = p" "dropWhile (\<lambda>c. c \<noteq> CHR '':'') (p @ '':'' @ l) = '':'' @ l"
    using assms(1) by (auto intro!: takeWhile_append2 [THEN trans] dropWhile_append2 [THEN trans])
  moreover obtain rest where "npath = node # rest" using assms(4) by (cases npath) auto
  ultimately show ?thesis using assms(2,3,5)
    by (simp add: mupnp_action_node_is_def mupnp_action_localname_def)
qed

lemma node_is_other:
  assumes "first_of npath = Some node" and "xname node = Some (p @ '':'' @ l)" and "CHR '':'' \<notin> set p" and "c_strcmp l m \<noteq> 0"
  shows "\<not> mupnp_action_node_is npath m ns"
proof -
  have "dropWhile (\<lambda>c. c \<noteq> CHR '':'') (p @ '':'' @ l) = '':'' @ l"
    using assms(3) by (auto intro!: dropWhile_append2 [THEN trans])
  then show ?thesis using assms(1,2,4) by (simp add: mupnp_action_node_is_def mupnp_action_localname_def)
qed

lemma response_found:
  assumes "env = XmlNode (Some ''s:Envelope'') u
       [\<lparr>aname = Some ''xmlns:s'', avalue = Some MUPNP_SOAP_XMLNS_URL\<rparr>,
        \<lparr>aname = Some ''s:encodingStyle'', avalue = Some MUPNP_SOAP_ENCSTYLE_URL\<rparr>] [body]"
    and "body = XmlNode (Some ''s:Body'') v [] [res]"
  shows "mupnp_action_responsecontent [env] = Some [res, body, env]"
proof -
  have attr: "mupnp_xml_node_getattributevalue env (Some ''xmlns:s'') = Some MUPNP_SOAP_XMLNS_URL"
    "mupnp_xml_node_getattributevalue body (Some ''xmlns:s'') = None"
    by (simp_all add: assms mupnp_xml_node_getattributevalue_def mupnp_xml_attributelist_getvalue_def mupnp_xml_attributelist_get_def
        mupnp_xml_attribute_isname_def mupnp_xml_attribute_getname_def mupnp_xml_attribute_getvalue_def)
  have "mupnp_action_node_is [env] ''Envelope'' (Some MUPNP_SOAP_XMLNS_URL)"
    by (rule node_is_prefixed [of "''s''"]) (use attr in \<open>simp add: assms(1)\<close>)+
  moreover have "mupnp_action_node_is [body, env] ''Body'' (Some MUPNP_SOAP_XMLNS_URL)"
    by (rule node_is_prefixed [of "''s''"]) (use attr in \<open>simp add: assms(2)\<close>)+
  ultimately show ?thesis using assms by (simp add: mupnp_action_responsecontent_def)
qed

definition output_elements :: "mUpnpArgument list \<Rightarrow> mUpnpDictionary" where
  "output_elements args = map (\<lambda>arg. \<lparr>dkey = Some (arg_name arg), dvalue = Some (str_bytes (argValue arg))\<rparr>)
     (filter mupnp_argument_isoutdirection args)"

lemma collect_outputs_append:
  assumes "args_ok (argumentList action)" and "list_all (\<lambda>(n, v). \<exists>i < length (argumentList action).
       arg_name (argumentList action ! i) = n \<and> mupnp_argument_isoutdirection (argumentList action ! i)) nvs"
    and "distinct (map (\<lambda>e. dkey e) es @ map (\<lambda>(n, v). Some n) nvs)" and "dict_inv es"
  shows "collect_outputs action (read_leaves nvs) (Some es) =
    Some (Some (es @ map (\<lambda>(n, v). \<lparr>dkey = Some n, dvalue = Some v\<rparr>) nvs))"
  using assms(2-4)
proof (induction nvs arbitrary: es)
  case Nil
  then show ?case by (simp add: read_leaves_def)
next
  case (Cons nv nvs)
  obtain n v where nv: "nv = (n, v)" by (cases nv)
  obtain i where i: "i < length (argumentList action)" "arg_name (argumentList action ! i) = n"
      "mupnp_argument_isoutdirection (argumentList action ! i)"
    using Cons.prems(1) by (auto simp: nv)
  note ok = arg_okD [OF args_okD [OF assms(1) nth_mem [OF i(1)]]]
  have key: "dict_key n" using ok(4,5) i(2) by (simp add: dict_key_def)
  have absent: "pos_of es n = None"
  proof (rule ccontr)
    assume "pos_of es n \<noteq> None"
    then obtain a where "pos_of es n = Some a" by blast
    from pos_of_Some [OF this Cons.prems(3) key] have "Some n \<in> dkey ` set es" by (metis imageI nth_mem)
    then show False using Cons.prems(2) by (auto simp: nv)
  qed
  have found: "mupnp_action_getargumentbyname action (Some n) = Some i"
    by (rule getargumentbyname_name [OF assms(1) i(1,2)])
  have "mupnp_dictionary_getvalue (Some es) (Some n) = None"
    using dict_lookup_pos [OF key, of es] absent by (simp add: dict_lookup_def)
  moreover have "mupnp_dictionary_setvalue (Some es) (Some n) (Some v) = Some (es @ [\<lparr>dkey = Some n, dvalue = Some v\<rparr>])"
  proof -
    have "mupnp_dictionary_setvalue (Some es) (Some n) (Some v) \<noteq> None"
      by (simp add: mupnp_dictionary_setvalue_def Let_def)
    then have "mupnp_dictionary_setvalue (Some es) (Some n) (Some v) = Some (dict_store es n v)"
      unfolding dict_store_def by force
    with absent show ?thesis by (simp add: dict_store_pos [OF Cons.prems(3) key])
  qed
  moreover have "mupnp_action_localname (Some (XmlNode (Some n) w [] [])) = Some n" for w
    using ok(3) i(2) by (simp add: mupnp_action_localname_def)
  moreover have "dict_inv (es @ [\<lparr>dkey = Some n, dvalue = Some v\<rparr>])"
    using Cons.prems(3) key by (auto simp: dict_inv_def dict_key_def)
  then have "collect_outputs action (read_leaves nvs) (Some (es @ [\<lparr>dkey = Some n, dvalue = Some v\<rparr>])) =
      Some (Some ((es @ [\<lparr>dkey = Some n, dvalue = Some v\<rparr>]) @ map (\<lambda>(n, v). \<lparr>dkey = Some n, dvalue = Some v\<rparr>) nvs))"
    using Cons.prems(1,2) by (intro Cons.IH) (auto simp: nv)
  ultimately show ?case
    using found i(3)
    by (cases "v = []") (simp_all add: nv read_leaves_def mupnp_xml_node_haschildnodes_def mupnp_xml_node_getchildnodes_def)
qed

lemma output_lookup:
  assumes "args_ok args" and "arg \<in> set args" and "mupnp_argument_isoutdirection arg"
  shows "mupnp_dictionary_getvalue (Some (output_elements args)) (mupnp_argument_getname arg) \<noteq> None"
proof -
  note ok = arg_okD [OF args_okD [OF assms(1,2)]]
  have inv: "dict_inv (output_elements args)"
    using arg_okD(4) [OF args_okD [OF assms(1)]] by (auto simp: dict_inv_def output_elements_def)
  have key: "dict_key (arg_name arg)" using ok(4,5) by (simp add: dict_key_def)
  have "pos_of es (arg_name arg) \<noteq> None" if "dict_inv es" "\<exists>e \<in> set es. dkey e = Some (arg_name arg)" for es
    using that by (induction es) (auto simp: dict_inv_def key)
  moreover have "\<exists>e \<in> set (output_elements args). dkey e = Some (arg_name arg)"
    using assms(2,3) by (auto simp: output_elements_def)
  ultimately obtain i where i: "pos_of (output_elements args) (arg_name arg) = Some i" using inv by blast
  have "dvalue (output_elements args ! i) \<noteq> None"
    using pos_of_Some [OF i inv key] by (auto simp: output_elements_def)
  then show ?thesis using dict_lookup_pos [OF key, of "output_elements args"] i ok(1) by (simp add: dict_lookup_def)
qed

lemma signature_nth:
  assumes "signature as = signature bs" and "i < length as"
  shows "mupnp_argument_getname (as ! i) = mupnp_argument_getname (bs ! i)"
    "mupnp_argument_getdirection (as ! i) = mupnp_argument_getdirection (bs ! i)"
  using assms signature_cong(5) [OF assms(1)] by (auto simp: signature_def list_eq_iff_nth_eq)

lemma outputs_collected:
  assumes "args_ok (argumentList action)" and "signature (argumentList answered) = signature (argumentList action)"
  shows "collect_outputs action (read_leaves (out_values (argumentList answered))) (Some []) =
      Some (Some (output_elements (argumentList answered)))"
    and "\<not> list_ex (\<lambda>arg. mupnp_argument_isoutdirection arg \<and>
        mupnp_dictionary_getvalue (Some (output_elements (argumentList answered))) (mupnp_argument_getname arg) = None) (argumentList action)"
proof -
  let ?as = "argumentList answered" and ?cs = "argumentList action"
  have ok: "args_ok ?as" using assms signature_cong(4) by blast
  have len: "length ?as = length ?cs" by (rule signature_cong(5) [OF assms(2)])
  note same = signature_nth [OF assms(2)]
  have "\<exists>i < length ?cs. arg_name (?cs ! i) = arg_name arg \<and> mupnp_argument_isoutdirection (?cs ! i)"
    if a: "arg \<in> set ?as" "mupnp_argument_isoutdirection arg" for arg
  proof -
    obtain i where i: "i < length ?as" "arg = ?as ! i" using a(1) by (auto simp: in_set_conv_nth)
    have "arg_name (?cs ! i) = arg_name arg" "mupnp_argument_isoutdirection (?cs ! i)" "i < length ?cs"
      using a(2) i(1) len
      by (simp_all only: i(2) arg_name_def mupnp_argument_isoutdirection_def same [OF i(1)])
    then show ?thesis by blast
  qed
  then have 1: "list_all (\<lambda>(n, v). \<exists>i < length ?cs. arg_name (?cs ! i) = n \<and> mupnp_argument_isoutdirection (?cs ! i)) (out_values ?as)"
    by (auto simp: out_values_def list_all_iff)
  have "distinct (map arg_name ?as)"
    using ok distinct_map [of "map c_tolower" "map arg_name ?as"] by (simp add: args_ok_def comp_def)
  then have "distinct (map (\<lambda>arg. Some (arg_name arg)) (filter mupnp_argument_isoutdirection ?as))"
    by (intro distinct_map_filter) (simp add: distinct_map inj_on_def)
  then have 2: "distinct (map dkey [] @ map (\<lambda>(n, v). Some n) (out_values ?as))"
    by (simp add: out_values_def comp_def)
  have "map (\<lambda>(n, v). \<lparr>dkey = Some n, dvalue = Some v\<rparr>) (out_values ?as) = output_elements ?as"
    by (simp add: out_values_def output_elements_def)
  with collect_outputs_append [OF assms(1) 1 2] show "collect_outputs action (read_leaves (out_values ?as)) (Some []) =
      Some (Some (output_elements ?as))" by (simp add: dict_inv_def)
  have "mupnp_dictionary_getvalue (Some (output_elements ?as)) (mupnp_argument_getname arg) \<noteq> None"
    if a: "arg \<in> set ?cs" "mupnp_argument_isoutdirection arg" for arg
  proof -
    obtain i where i: "i < length ?cs" "arg = ?cs ! i" using a(1) by (auto simp: in_set_conv_nth)
    have j: "i < length ?as" using i(1) len by simp
    have "?as ! i \<in> set ?as" "mupnp_argument_isoutdirection (?as ! i)"
      using a(2) same [OF j] j by (simp_all add: i(2) mupnp_argument_isoutdirection_def)
    from output_lookup [OF ok this] show ?thesis using same [OF j] by (simp add: i(2))
  qed
  then show "\<not> list_ex (\<lambda>arg. mupnp_argument_isoutdirection arg \<and>
        mupnp_dictionary_getvalue (Some (output_elements ?as)) (mupnp_argument_getname arg) = None) ?cs"
    by (auto simp: list_ex_iff)
qed

lemma not_fault:
  assumes "nul_free n"
  shows "c_strcmp (n @ ''Response'') ''Fault'' \<noteq> 0"
proof -
  have "nul_free (n @ ''Response'')" using assms by (simp add: nul_free_def)
  moreover have "n @ ''Response'' \<noteq> ''Fault''"
    using arg_cong [of "n @ ''Response''" "''Fault''" last] by auto
  ultimately show ?thesis by (simp add: c_strcmp_eq_0 nul_free_def)
qed

lemma response_decoded:
  assumes "reads_xml expat" and "args_ok (argumentList action)" and "signature (argumentList answered) = signature (argumentList action)"
    and "mupnp_action_getname action = Some n" and "nul_free n" and "mupnp_service_getservicetype service = Some t"
    and "xml_name m" and "m = ''u:'' @ n @ ''Response''" and "list_all xml_attrchar t" and "values_ok (out_values (argumentList answered))"
    and "env = soap_envelope (message_node m t (out_values (argumentList answered)))"
    and "int (length (soap_text env)) \<le> INT_MAX"
  shows "mupnp_action_result_fromresponse expat service action 200 (Some (soap_text env)) =
    Some (mupnp_action_result_new\<lparr>httpStatusCode := 200, outputs := Some (output_elements (argumentList answered)),
      resultCode := MUPNP_ACTION_RESULT_SUCCESS\<rparr>)"
proof -
  let ?nvs = "out_values (argumentList answered)"
  obtain u v w where tree: "xml_parsed 0 env = XmlNode (Some ''s:Envelope'') u
       [\<lparr>aname = Some ''xmlns:s'', avalue = Some MUPNP_SOAP_XMLNS_URL\<rparr>,
        \<lparr>aname = Some ''s:encodingStyle'', avalue = Some MUPNP_SOAP_ENCSTYLE_URL\<rparr>]
       [XmlNode (Some ''s:Body'') v [] [XmlNode (Some m) w [\<lparr>aname = Some ''xmlns:u'', avalue = Some t\<rparr>] (read_leaves ?nvs)]]"
    using parsed_envelope [of m t ?nvs] unfolding assms(11) by blast
  define res where "res = XmlNode (Some m) w [\<lparr>aname = Some ''xmlns:u'', avalue = Some t\<rparr>] (read_leaves ?nvs)"
  define body where "body = XmlNode (Some ''s:Body'') v [] [res]"
  have found: "mupnp_action_responsecontent [xml_parsed 0 env] = Some [res, body, xml_parsed 0 env]"
    by (rule response_found [of _ u body v]) (simp_all add: tree body_def res_def)
  have parse: "mupnp_xml_parse expat [] (Some (soap_text env)) = Some (True, [xml_parsed 0 env])"
    using soap_text_parsed [OF assms(1) envelope_ok [OF assms(7,9,10)], of "[]"] assms(11,12) by simp
  have "mupnp_xml_node_getattributevalue res (Some ''xmlns:u'') = Some t"
    by (simp add: res_def mupnp_xml_node_getattributevalue_def mupnp_xml_attributelist_getvalue_def mupnp_xml_attributelist_get_def
        mupnp_xml_attribute_getname_def mupnp_xml_attribute_getvalue_def)
  then have is_res: "mupnp_action_node_is [res, body, xml_parsed 0 env] (n @ ''Response'') (Some t)"
    by (intro node_is_prefixed [of "''u''" _ _ res]) (simp_all add: res_def assms(8))
  have fault: "\<not> mupnp_action_node_is [res, body, xml_parsed 0 env] ''Fault'' ns" for ns
    by (rule node_is_other [of _ res "''u''" "n @ ''Response''"]) (simp_all add: res_def assms(8) not_fault [OF assms(5)])
  note collected = outputs_collected [OF assms(2,3)]
  have kids: "mupnp_xml_node_getchildnodes (Some res) = read_leaves ?nvs"
    by (simp add: res_def mupnp_xml_node_getchildnodes_def)
  show ?thesis
    using soap_text_nonempty [of env] collected
    by (simp add: mupnp_action_result_fromresponse_def parse found fault is_res kids mupnp_action_result_setoutputs_def Let_def assms(4,6)
        str_add_def mupnp_action_result_new_def mupnp_dictionary_new_def)
qed

lemma prefixed_names:
  assumes "xml_name n"
  shows "xml_name (''u:'' @ n)" "xml_name (''u:'' @ n @ ''Response'')"
  using assms by (simp_all add: xml_name_def xml_namechar_def c_isdigit_def)

text \<open>The device on the other side: what it makes of a request that carries the invocation.\<close>

lemma device_performs:
  assumes "args_ok (argumentList dact)" and "mupnp_service_getactionbyname sd (Some n) = Some i" and "dact = actionList sd ! i"
    and "actionListener dact = Some l" and "listeners l (called_with inputs dact) = (True, answered)"
    and "mupnp_control_action_response_setresponse mupnp_control_action_response_new sd answered = Some actRes"
    and "reqRootNodeList req = [xml_parsed 0 (soap_envelope (message_node m t (in_values inputs (argumentList dact))))]"
    and "m = ''u:'' @ n" and "\<not> mupnp_control_isqueryrequest (soapHttpReq req)"
  shows "mupnp_device_controlrequestrecieved E now listeners queries sd req =
    Some (sd\<lparr>actionList := (actionList sd)[i := answered]\<rparr>, [soapHttpRes (actResSoapRes actRes)])"
proof -
  obtain actReq where a: "mupnp_control_action_request_setsoaprequest mupnp_control_action_request_new req = Some actReq"
      "mupnp_control_action_request_getactionname actReq = Some n"
      "actReqArgList actReq = map request_argument (read_leaves (in_values inputs (argumentList dact)))"
    by (rule action_request_read [OF assms(7,8)])
  let ?set = "dact\<lparr>argumentList := mupnp_argumentlist_set (argumentList dact) (actReqArgList actReq)\<rparr>"
  have called: "mupnp_action_clearoutputargumentvalues (mupnp_action_setstatusdescription
      (mupnp_action_setstatuscode ?set MUPNP_STATUS_INVALID_ACTION) (Some (mupnp_status_code2string MUPNP_STATUS_INVALID_ACTION))) =
      called_with inputs dact"
    using listener_called [OF assms(1)] by (simp only: a(3))
  have "mupnp_action_performlistner listeners sd ?set = Some (True, answered, [soapHttpRes (actResSoapRes actRes)])"
    using assms(4-6) by (simp add: mupnp_action_performlistner_def Let_def called)
  then show ?thesis
    using assms(2,9) by (simp add: mupnp_device_controlrequestrecieved_def a(1) mupnp_device_actioncontrolrequestrecieved_def
        a(2) assms(3) [symmetric])
qed

subsection \<open>Faults\<close>

definition fault_node :: "cstring \<Rightarrow> cstring \<Rightarrow> mUpnpXmlNode" where
  "fault_node code descr =
     XmlNode (Some ''s:Fault'') None []
       [XmlNode (Some ''faultcode'') (Some ''s:Client'') [] [], XmlNode (Some ''faultstring'') (Some ''UPnPError'') [] [],
        XmlNode (Some ''detail'') None []
          [XmlNode (Some ''UPnPError'') None [\<lparr>aname = Some ''xmlns'', avalue = Some MUPNP_CONTROL_XMLNS\<rparr>]
             [XmlNode (Some ''errorCode'') (Some code) [] [], XmlNode (Some ''errorDescription'') (Some descr) [] []]]]"

lemma fault_node_eq:
  "mupnp_control_soap_response_createfaultresponsenode code (Some descr) =
     fault_node (mupnp_int2str code MUPNP_STRING_INTEGER_BUFLEN) descr"
  by (simp add: mupnp_control_soap_response_createfaultresponsenode_def fault_node_def xml_leaf_def mupnp_xml_node_new_def Let_def
      xml_setattribute_def mupnp_xml_attributelist_set_def mupnp_xml_attributelist_get_def mupnp_xml_attribute_new_def
      mupnp_xml_attribute_setname_def mupnp_xml_attribute_setvalue_def)

lemma fault_ok:
  assumes "list_all xml_char code" and "list_all xml_char descr"
  shows "xml_ok (soap_envelope (fault_node code descr))" "xml_height (soap_envelope (fault_node code descr)) \<le> MUPNP_XML_MAX_DEPTH"
  using assms
  by (simp_all add: soap_envelope_def fault_node_def MUPNP_XML_MAX_DEPTH_def)
    (simp add: xml_name_ok_def attrs_ok_def xml_name_def xml_namechar_def c_isdigit_def MUPNP_SOAP_XMLNS_URL_def
      MUPNP_SOAP_ENCSTYLE_URL_def MUPNP_CONTROL_XMLNS_def xml_attrchar_def xml_char_def)

lemma int2str_positive: "0 < code \<Longrightarrow> code \<le> INT_MAX \<Longrightarrow> mupnp_int2str code MUPNP_STRING_INTEGER_BUFLEN = show_nat 10 (nat code)"
  using length_show_int32 [of code]
  by (simp add: mupnp_int2str_def c_snprintf_def int_range_def INT_MIN_def INT_MAX_def MUPNP_STRING_INTEGER_BUFLEN_def show_int_def)

lemma parseerrorcode_shown:
  assumes "0 < code" and "code \<le> INT_MAX" and "xvalue node = Some (show_nat 10 (nat code))"
  shows "mupnp_action_parseerrorcode (Some node) = code"
proof -
  let ?s = "show_nat 10 (nat code)"
  have digits: "\<forall>c \<in> set ?s. c_isdigit c" using show_nat_isdigit by blast
  have "c_isdigit (hd ?s)" using digits hd_in_set [OF show_nat_nonempty [of 10 "nat code"]] by blast
  then have "\<not> c_isspace (hd ?s)" by (auto simp: c_isspace_def c_isdigit_def)
  then have "dropWhile c_isspace ?s = ?s" by (cases ?s) auto
  moreover have "strtol_sign ?s = (False, ?s)" using strtol_sign_show [of "nat code" "[]"] by simp
  moreover have "c_strtol10 ?s = code"
    using c_strtol10_show_int [of code "[]"] assms(1,2) by (simp add: show_int_def long_range_def LONG_MIN_def LONG_MAX_def INT_MAX_def)
  moreover have "takeWhile c_isdigit ?s = ?s" "dropWhile c_isdigit ?s = []" using digits
    by (simp_all only: takeWhile_eq_all_conv dropWhile_eq_Nil_conv)
  ultimately show ?thesis using assms by (simp add: mupnp_action_parseerrorcode_def del: takeWhile_eq_all_conv)
qed

lemma fault_decoded:
  assumes "reads_xml expat" and "0 < code" and "code \<le> INT_MAX" and "list_all xml_char descr"
    and "int (length (soap_text (soap_envelope (fault_node (show_nat 10 (nat code)) descr)))) \<le> INT_MAX"
  obtains res where "mupnp_control_soap_response_setfaultresponse mupnp_soap_response_new code (Some descr) = Some res"
    and "statusCode (soapHttpRes res) = 500"
    and "mupnp_action_result_fromresponse expat service action 500 (content (soapHttpRes res)) =
      Some (mupnp_action_result_new\<lparr>httpStatusCode := 500, resultCode := MUPNP_ACTION_RESULT_SOAP_FAULT, upnpErrorCode := code,
        faultCode := Some ''s:Client'', faultString := Some ''UPnPError'',
        errorDescription := (if descr = [] then None else Some descr)\<rparr>)"
proof -
  let ?s = "show_nat 10 (nat code)"
  define env where "env = soap_envelope (fault_node ?s descr)"
  have "list_all xml_char ?s"
    using show_nat_isdigit [of _ "nat code"] by (fastforce simp: list_all_iff xml_char_def c_isdigit_def)
  note ok = fault_ok [OF this assms(4), folded env_def]
  define r where "r = mupnp_soap_response_new\<lparr>soapHttpRes := mupnp_http_response_setstatuscode mupnp_http_response_new 500\<rparr>"
  have r: "resRootNodeList r = []" by (simp add: r_def mupnp_soap_response_new_def)
  define q where "q = soapHttpRes (mupnp_control_soap_response_initializeenvelopenode r)"
  have q: "content q = None" "statusCode q = 500"
    by (simp_all add: q_def r_def mupnp_control_soap_response_initializeenvelopenode_def mupnp_http_response_setstatuscode_def
        mupnp_http_response_setreasonphrase_def Let_def mupnp_http_packet_setheadervalue_def)
  have len: "int (length (soap_text env)) < LONG_MAX" using assms(5) by (simp add: env_def INT_MAX_def LONG_MAX_def)
  note body_text = soap_content_text [OF ok(1) q(1) len]
  have set: "mupnp_control_soap_response_setfaultresponse mupnp_soap_response_new code (Some descr) =
      Some ((mupnp_control_soap_response_initializeenvelopenode r)\<lparr>resRootNodeList := [env], soapHttpRes := soap_content q env\<rparr>)"
    using response_addbody [OF r, of "fault_node ?s descr"]
    by (simp add: mupnp_control_soap_response_setfaultresponse_def fault_node_eq int2str_positive [OF assms(2,3)]
        MUPNP_HTTP_STATUS_INTERNAL_SERVER_ERROR_def Let_def soap_response_createcontent_def mupnp_soap_response_getenvelopenode_def
        mupnp_soap_response_setcontent_def q_def r_def env_def mupnp_soap_response_new_def)
  obtain u v w1 w2 w3 where tree: "xml_parsed 0 env = XmlNode (Some ''s:Envelope'') u
       [\<lparr>aname = Some ''xmlns:s'', avalue = Some MUPNP_SOAP_XMLNS_URL\<rparr>,
        \<lparr>aname = Some ''s:encodingStyle'', avalue = Some MUPNP_SOAP_ENCSTYLE_URL\<rparr>]
       [XmlNode (Some ''s:Body'') v [] [XmlNode (Some ''s:Fault'') w1 []
         [XmlNode (Some ''faultcode'') (Some ''s:Client'') [] [], XmlNode (Some ''faultstring'') (Some ''UPnPError'') [] [],
          XmlNode (Some ''detail'') w2 []
           [XmlNode (Some ''UPnPError'') w3 [\<lparr>aname = Some ''xmlns'', avalue = Some MUPNP_CONTROL_XMLNS\<rparr>]
             [XmlNode (Some ''errorCode'') (Some ?s) [] [],
              XmlNode (Some ''errorDescription'') (if descr = [] then None else Some descr) [] []]]]]]"
    by (simp add: env_def soap_envelope_def fault_node_def)
  define err where "err = XmlNode (Some ''UPnPError'') w3 [\<lparr>aname = Some ''xmlns'', avalue = Some MUPNP_CONTROL_XMLNS\<rparr>]
             [XmlNode (Some ''errorCode'') (Some ?s) [] [],
              XmlNode (Some ''errorDescription'') (if descr = [] then None else Some descr) [] []]"
  define detail where "detail = XmlNode (Some ''detail'') w2 [] [err]"
  define fault where "fault = XmlNode (Some ''s:Fault'') w1 []
         [XmlNode (Some ''faultcode'') (Some ''s:Client'') [] [], XmlNode (Some ''faultstring'') (Some ''UPnPError'') [] [], detail]"
  define body where "body = XmlNode (Some ''s:Body'') v [] [fault]"
  have found: "mupnp_action_responsecontent [xml_parsed 0 env] = Some [fault, body, xml_parsed 0 env]"
    by (rule response_found [of _ u body v]) (simp_all add: tree body_def fault_def detail_def err_def)
  have attr: "mupnp_xml_node_getattributevalue (xml_parsed 0 env) (Some ''xmlns:s'') = Some MUPNP_SOAP_XMLNS_URL"
    "mupnp_xml_node_getattributevalue body (Some ''xmlns:s'') = None" "mupnp_xml_node_getattributevalue fault (Some ''xmlns:s'') = None"
    "mupnp_xml_node_getattributevalue err (Some ''xmlns'') = Some MUPNP_CONTROL_XMLNS"
    by (simp_all add: tree body_def fault_def err_def mupnp_xml_node_getattributevalue_def mupnp_xml_attributelist_getvalue_def
        mupnp_xml_attributelist_get_def mupnp_xml_attribute_getname_def mupnp_xml_attribute_getvalue_def)
  have is_fault: "mupnp_action_node_is [fault, body, xml_parsed 0 env] ''Fault'' (Some MUPNP_SOAP_XMLNS_URL)"
    by (rule node_is_prefixed [of "''s''" _ _ fault]) (use attr in \<open>simp_all add: fault_def\<close>)
  have is_err: "mupnp_action_node_is [err, detail, fault, body, xml_parsed 0 env] ''UPnPError'' (Some MUPNP_CONTROL_XMLNS)"
    using attr(4) by (simp add: mupnp_action_node_is_def mupnp_action_localname_def) (simp add: err_def)
  note local = xml_child_local_def mupnp_xml_node_getchildnodewithnamespace_def mupnp_xml_node_getchildnodes_def xml_local_name_def Let_def
  have kids: "xml_child_local (Some fault) (Some ''faultcode'') = Some (XmlNode (Some ''faultcode'') (Some ''s:Client'') [] [])"
    "xml_child_local (Some fault) (Some ''faultstring'') = Some (XmlNode (Some ''faultstring'') (Some ''UPnPError'') [] [])"
    "xml_child_local (Some fault) (Some ''detail'') = Some detail"
    "xml_child_local (Some detail) (Some ''UPnPError'') = Some err"
    "xml_child_local (Some err) (Some ''errorCode'') = Some (XmlNode (Some ''errorCode'') (Some ?s) [] [])"
    "xml_child_local (Some err) (Some ''errorDescription'') =
      Some (XmlNode (Some ''errorDescription'') (if descr = [] then None else Some descr) [] [])"
    by (simp_all add: fault_def detail_def err_def local c_strcasecmp_def c_tolower_def)
  have parse: "mupnp_xml_parse expat [] (Some (soap_text env)) = Some (True, [xml_parsed 0 env])"
    using soap_text_parsed [OF assms(1) ok, of "[]"] assms(5) by (simp add: env_def)
  show thesis
  proof (rule that [OF set])
    show "mupnp_action_result_fromresponse expat service action 500 (content (soapHttpRes ((mupnp_control_soap_response_initializeenvelopenode r)
        \<lparr>resRootNodeList := [env], soapHttpRes := soap_content q env\<rparr>))) =
      Some (mupnp_action_result_new\<lparr>httpStatusCode := 500, resultCode := MUPNP_ACTION_RESULT_SOAP_FAULT, upnpErrorCode := code,
        faultCode := Some ''s:Client'', faultString := Some ''UPnPError'',
        errorDescription := (if descr = [] then None else Some descr)\<rparr>)"
      using soap_text_nonempty [of env]
      by (simp add: mupnp_action_result_fromresponse_def body_text parse found is_fault mupnp_action_result_setfault_def Let_def kids
          is_err parseerrorcode_shown [OF assms(2,3)] mupnp_action_result_new_def str_set_def)
  qed (simp add: body_text q)
qed

text \<open>What the caller is told of a fault.\<close>

definition fault_result :: "int \<Rightarrow> cstring \<Rightarrow> mUpnpActionResult" where
  "fault_result code descr =
     mupnp_action_result_new\<lparr>httpStatusCode := 500, resultCode := MUPNP_ACTION_RESULT_SOAP_FAULT, upnpErrorCode := code,
       faultCode := Some ''s:Client'', faultString := Some ''UPnPError'',
       errorDescription := (if descr = [] then None else Some descr)\<rparr>"

lemma invalid_action:
  assumes "reads_xml expat"
  obtains res where "mupnp_device_invalidcontrolrecieved MUPNP_STATUS_INVALID_ACTION = Some res"
    and "mupnp_action_result_fromresponse expat service action (statusCode res) (content res) = Some (fault_result 401 ''Invalid Action'')"
proof -
  have d: "list_all xml_char ''Invalid Action''" by (simp add: xml_char_def)
  have "int (length (soap_text (soap_envelope (fault_node (show_nat 10 (nat 401)) ''Invalid Action'')))) \<le> 1000" by code_simp
  then have len: "int (length (soap_text (soap_envelope (fault_node (show_nat 10 (nat 401)) ''Invalid Action'')))) \<le> INT_MAX"
    by (rule order_trans) (simp add: INT_MAX_def)
  have range: "0 < (401 :: int)" "401 \<le> INT_MAX" by (simp_all add: INT_MAX_def)
  obtain res where res: "mupnp_control_soap_response_setfaultresponse mupnp_soap_response_new 401 (Some ''Invalid Action'') = Some res"
    "statusCode (soapHttpRes res) = 500" "mupnp_action_result_fromresponse expat service action 500 (content (soapHttpRes res)) =
      Some (fault_result 401 ''Invalid Action'')"
    by (rule fault_decoded [OF assms range d len, of service action]) (auto simp: fault_result_def)
  show thesis
    by (rule that [of "soapHttpRes res"])
      (use res in \<open>simp_all add: mupnp_device_invalidcontrolrecieved_def mupnp_status_code2string_def MUPNP_STATUS_INVALID_ACTION_def\<close>)
qed

section \<open>Properties\<close>


text \<open>C37: an invocation the device cannot perform changes nothing but the action it names: for an action
  the service does not have, or one without a listener, the caller is told the UPnP error 401
  "Invalid Action", and for a listener that fails the error code and description the listener set;
  the HTTP status 500 does not hide them.\<close>

theorem fault_reported:
  assumes "reads_xml expat" and "listeners l (mupnp_action_clearoutputargumentvalues (mupnp_action_setstatusdescription
      (mupnp_action_setstatuscode dact MUPNP_STATUS_INVALID_ACTION) (Some (mupnp_status_code2string MUPNP_STATUS_INVALID_ACTION)))) = (False, failed)"
    and "dact = (actionList sd ! i)\<lparr>argumentList := mupnp_argumentlist_set (argumentList (actionList sd ! i)) (actReqArgList actReq)\<rparr>"
    and "actionStatus failed = \<lparr>stCode = code, stDescription = Some descr\<rparr>"
    and "0 < code" and "code \<le> INT_MAX" and "list_all xml_char descr"
    and "int (length (soap_text (soap_envelope (fault_node (show_nat 10 (nat code)) descr)))) \<le> INT_MAX"
    and "found = mupnp_service_getactionbyname sd (mupnp_control_action_request_getactionname actReq)"
  shows "\<exists>res. (found = None \<longrightarrow> mupnp_device_actioncontrolrequestrecieved listeners sd actReq = Some (sd, [res]) \<and>
      mupnp_action_result_fromresponse expat service action (statusCode res) (content res) = Some (fault_result 401 ''Invalid Action'')) \<and>
    (found = Some i \<and> actionListener dact = None \<longrightarrow>
      mupnp_device_actioncontrolrequestrecieved listeners sd actReq = Some (sd\<lparr>actionList := (actionList sd)[i := dact]\<rparr>, [res]) \<and>
      mupnp_action_result_fromresponse expat service action (statusCode res) (content res) = Some (fault_result 401 ''Invalid Action'')) \<and>
    (found = Some i \<and> actionListener dact = Some l \<longrightarrow>
      mupnp_device_actioncontrolrequestrecieved listeners sd actReq = Some (sd\<lparr>actionList := (actionList sd)[i := failed]\<rparr>, [res]) \<and>
      mupnp_action_result_fromresponse expat service action (statusCode res) (content res) = Some (fault_result code descr))"
proof -
  obtain res0 where none: "mupnp_device_invalidcontrolrecieved MUPNP_STATUS_INVALID_ACTION = Some res0"
    "mupnp_action_result_fromresponse expat service action (statusCode res0) (content res0) = Some (fault_result 401 ''Invalid Action'')"
    by (rule invalid_action [OF assms(1), of service action])
  obtain res1 where failed: "mupnp_control_soap_response_setfaultresponse mupnp_soap_response_new code (Some descr) = Some res1"
    "statusCode (soapHttpRes res1) = 500" "mupnp_action_result_fromresponse expat service action 500 (content (soapHttpRes res1)) =
      Some (fault_result code descr)"
    by (rule fault_decoded [OF assms(1,5-8), of service action]) (auto simp: fault_result_def)
  have perform: "mupnp_action_performlistner listeners sd dact = Some (True, failed, [soapHttpRes res1])" if "actionListener dact = Some l"
    using that assms(2,4) failed(1) by (simp add: mupnp_action_performlistner_def Let_def mupnp_control_action_response_new_def)
  have "mupnp_action_performlistner listeners sd dact = Some (False, dact, [])" if "actionListener dact = None"
    using that by (simp add: mupnp_action_performlistner_def)
  with perform show ?thesis
    using none failed(2,3) assms(9)
    by (intro exI [of _ "if found = Some i \<and> actionListener dact = Some l then soapHttpRes res1 else res0"])
      (auto simp: mupnp_device_actioncontrolrequestrecieved_def Let_def simp flip: assms(3))
qed

definition ex_leaf :: "cstring \<Rightarrow> cstring \<Rightarrow> mUpnpXmlNode" where
  "ex_leaf n v = XmlNode (Some n) (Some v) [] []"

definition ex_argument :: "cstring \<Rightarrow> cstring \<Rightarrow> mUpnpXmlNode" where
  "ex_argument n d = XmlNode (Some ''argument'') None [] [ex_leaf ''name'' n, ex_leaf ''direction'' d]"

definition ex_action :: mUpnpAction where
  "ex_action = mupnp_action_setactionnode mupnp_action_new (Some (XmlNode (Some ''action'') None []
     [ex_leaf ''name'' ''Dim'', XmlNode (Some ''argumentList'') None [] [ex_argument ''Level'' ''in'', ex_argument ''Old'' ''out'']]))"

definition ex_service :: mUpnpService where
  "ex_service = mupnp_service_new\<lparr>serviceNode := Some (XmlNode (Some ''service'') None [] [ex_leaf ''serviceType'' ''urn:x:service:Dim:1'']),
     actionList := [ex_action\<lparr>actionListener := Some 0\<rparr>]\<rparr>"

definition ex_listeners :: action_listeners where
  "ex_listeners l action = (True, action\<lparr>argumentList := map (\<lambda>arg.
     if mupnp_argument_isoutdirection arg then mupnp_argument_setvalue arg (Some ''7 & up'') else arg) (argumentList action)\<rparr>)"

definition ex_inputs :: "mUpnpDictionary option" where
  "ex_inputs = Some [\<lparr>dkey = Some ''Level'', dvalue = Some ''42''\<rparr>]"

definition ex_url :: mUpnpNetURI where
  "ex_url = mupnp_net_uri_new\<lparr>host := Some ''10.0.0.1'', port := 4004, path := Some ''/dim''\<rparr>"

lemma ex_facts:
  "described ex_action" "args_ok (argumentList ex_action)" "mupnp_action_validinputs ex_action ex_inputs"
  "values_ok (in_values ex_inputs (argumentList ex_action))" "mupnp_action_getname ex_action = Some ''Dim''" "xml_name ''Dim''"
  "mupnp_service_getservicetype ex_service = Some ''urn:x:service:Dim:1''" "list_all xml_attrchar ''urn:x:service:Dim:1''"
  "mupnp_service_getactionbyname ex_service (Some ''Dim'') = Some 0"
  by code_simp+

lemma ex_lengths:
  "int (length (soap_text (soap_envelope (message_node (''u:'' @ ''Dim'') ''urn:x:service:Dim:1'' (in_values ex_inputs (argumentList ex_action)))))) \<le> 1000"
  "int (length (soap_text (soap_envelope (message_node (''u:'' @ ''Dim'' @ ''Response'') ''urn:x:service:Dim:1''
     (out_values (argumentList (snd (ex_listeners 0 (called_with ex_inputs (actionList ex_service ! 0)))))))))) \<le> 1000"
  by code_simp+

lemma ex_answers:
  "signature (argumentList (actionList ex_service ! 0)) = signature (argumentList ex_action)"
  "answers (actionList ex_service ! 0) (snd (ex_listeners 0 (called_with ex_inputs (actionList ex_service ! 0))))"
  "values_ok (out_values (argumentList (snd (ex_listeners 0 (called_with ex_inputs (actionList ex_service ! 0))))))"
  "mupnp_action_getname (actionList ex_service ! 0) = Some ''Dim''"
  "output_elements (argumentList (snd (ex_listeners 0 (called_with ex_inputs (actionList ex_service ! 0))))) =
     [\<lparr>dkey = Some ''Old'', dvalue = Some ''7 & up''\<rparr>]"
  by code_simp+


definition ex_unknown :: "unit mUpnpActionRequest" where
  "ex_unknown = mupnp_control_action_request_new\<lparr>actSoapReq := (mupnp_soap_request_new :: unit mUpnpSoapRequest)
     \<lparr>reqRootNodeList := [soap_envelope (message_node ''u:Fly'' ''urn:x:service:Dim:1'' [])]\<rparr>\<rparr>"

theorem fault_reported_witness:
  "\<exists>res. mupnp_device_actioncontrolrequestrecieved ex_listeners ex_service ex_unknown = Some (ex_service, [res]) \<and>
    mupnp_action_result_fromresponse ref_expat ex_service ex_action (statusCode res) (content res) = Some (fault_result 401 ''Invalid Action'')"
proof -
  let ?L = "\<lambda>l a. if l = 0 then ex_listeners 0 a else (False, a)" and ?i = 0
  let ?d = "(actionList ex_service ! ?i)\<lparr>argumentList := mupnp_argumentlist_set (argumentList (actionList ex_service ! ?i)) (actReqArgList ex_unknown)\<rparr>"
  let ?f = "mupnp_action_clearoutputargumentvalues (mupnp_action_setstatusdescription
      (mupnp_action_setstatuscode ?d MUPNP_STATUS_INVALID_ACTION) (Some (mupnp_status_code2string MUPNP_STATUS_INVALID_ACTION)))"
  have unknown: "None = mupnp_service_getactionbyname ex_service (mupnp_control_action_request_getactionname ex_unknown)" by code_simp
  have st: "actionStatus ?f = \<lparr>stCode = 401, stDescription = Some ''Invalid Action''\<rparr>" by code_simp
  have d: "list_all xml_char ''Invalid Action''" by (simp add: xml_char_def)
  have range: "0 < (401 :: int)" "401 \<le> INT_MAX" by (simp_all add: INT_MAX_def)
  have "int (length (soap_text (soap_envelope (fault_node (show_nat 10 (nat 401)) ''Invalid Action'')))) \<le> 1000" by code_simp
  then have len: "int (length (soap_text (soap_envelope (fault_node (show_nat 10 (nat 401)) ''Invalid Action'')))) \<le> INT_MAX"
    by (rule order_trans) (simp add: INT_MAX_def)
  have same: "mupnp_device_actioncontrolrequestrecieved listeners ex_service ex_unknown =
      map_option (\<lambda>res. (ex_service, [res])) (mupnp_device_invalidcontrolrecieved MUPNP_STATUS_INVALID_ACTION)" for listeners
    by (simp add: mupnp_device_actioncontrolrequestrecieved_def flip: unknown)
  show ?thesis
    using fault_reported [where listeners = ?L and l = 1 and i = ?i and sd = ex_service and actReq = ex_unknown and service = ex_service
        and action = ex_action and dact = ?d and failed = ?f, OF reads_xml_ref_expat _ refl st range d len unknown]
    by (auto simp: same)
qed

end
