(* ===== verification/LinkList.thy ===== *)
theory LinkList
  imports Prelude Interfaces
begin

section \<open>The intrusive doubly linked list (src/mupnp/util/list.c)\<close>

text \<open>
  Every object of the library that lives in a list starts with the three fields of
  \<open>mUpnpList\<close>.  The list is modelled on an explicit heap: an address holds a node or is not
  allocated, a pointer is an address or NULL, and each load or store through a pointer is a
  step in the option monad whose \<open>None\<close> is an invalid memory access.

  \<open>dll h l xs\<close> says that the header at \<open>l\<close> is the header of a circular list of the nodes
  \<open>xs\<close>.  The lemmas show that each operation succeeds on such a heap and performs the
  operation on \<open>xs\<close> its callers expect, and what it leaves alone.
\<close>

type_synonym addr = nat
type_synonym ptr = "addr option"

record lnode =
  headFlag :: bool
  lprev :: ptr
  lnext :: ptr

type_synonym heap = "addr \<rightharpoonup> lnode"

definition load :: "heap \<Rightarrow> ptr \<Rightarrow> lnode option" where
  "load h p = Option.bind p h"

definition modify :: "(lnode \<Rightarrow> lnode) \<Rightarrow> heap \<Rightarrow> ptr \<Rightarrow> heap option" where
  "modify f h p = do { a \<leftarrow> p; n \<leftarrow> h a; Some (h(a \<mapsto> f n)) }"

abbreviation set_prev :: "heap \<Rightarrow> ptr \<Rightarrow> ptr \<Rightarrow> heap option" where
  "set_prev h p v \<equiv> modify (\<lambda>n. n\<lparr>lprev := v\<rparr>) h p"

abbreviation set_next :: "heap \<Rightarrow> ptr \<Rightarrow> ptr \<Rightarrow> heap option" where
  "set_next h p v \<equiv> modify (\<lambda>n. n\<lparr>lnext := v\<rparr>) h p"

abbreviation set_flag :: "heap \<Rightarrow> ptr \<Rightarrow> bool \<Rightarrow> heap option" where
  "set_flag h p v \<equiv> modify (\<lambda>n. n\<lparr>headFlag := v\<rparr>) h p"

definition mupnp_list_header_init :: "heap \<Rightarrow> ptr \<Rightarrow> heap option" where
  "mupnp_list_header_init h list =
     (if list = None then Some h
      else do { h \<leftarrow> set_flag h list True; h \<leftarrow> set_next h list list; set_prev h list list })"

definition mupnp_list_node_init :: "heap \<Rightarrow> ptr \<Rightarrow> heap option" where
  "mupnp_list_node_init h list =
     (if list = None then Some h
      else do { h \<leftarrow> set_flag h list False; h \<leftarrow> set_next h list list; set_prev h list list })"

definition mupnp_list_next :: "heap \<Rightarrow> ptr \<Rightarrow> ptr option" where
  "mupnp_list_next h list =
     (if list = None then Some None
      else do { n \<leftarrow> load h list;
        if lnext n = None then Some None
        else do { m \<leftarrow> load h (lnext n);
          if headFlag m then Some None else Some (lnext n) } })"

definition mupnp_list_prev :: "heap \<Rightarrow> ptr \<Rightarrow> ptr option" where
  "mupnp_list_prev h list =
     (if list = None then Some None
      else do { n \<leftarrow> load h list;
        if lprev n = None then Some None
        else do { m \<leftarrow> load h (lprev n);
          if headFlag m then Some None else Some (lprev n) } })"

definition mupnp_list_next_circular :: "heap \<Rightarrow> ptr \<Rightarrow> ptr option" where
  "mupnp_list_next_circular h list =
     (if list = None then Some None
      else do { n \<leftarrow> load h list;
        if lnext n = None then Some None
        else do { m \<leftarrow> load h (lnext n);
          if headFlag m then Some (lnext m) else Some (lnext n) } })"

definition mupnp_list_prev_circular :: "heap \<Rightarrow> ptr \<Rightarrow> ptr option" where
  "mupnp_list_prev_circular h list =
     (if list = None then Some None
      else do { n \<leftarrow> load h list;
        if lprev n = None then Some None
        else do { m \<leftarrow> load h (lprev n);
          if headFlag m then Some (lprev m) else Some (lprev n) } })"

definition mupnp_list_size :: "heap \<Rightarrow> ptr \<Rightarrow> int option" where
  "mupnp_list_size h headList =
     (if headList = None then Some 0
      else do { x \<leftarrow> mupnp_list_next h headList;
                iter_count (\<lambda>a. mupnp_list_next h (Some a)) x 0 })"

fun list_get_loop :: "heap \<Rightarrow> nat \<Rightarrow> ptr \<Rightarrow> ptr option" where
  "list_get_loop h 0 list = Some list"
| "list_get_loop h (Suc n) list =
     (if list = None then Some None
      else do { list \<leftarrow> mupnp_list_next h list; list_get_loop h n list })"

definition mupnp_list_get :: "heap \<Rightarrow> ptr \<Rightarrow> int \<Rightarrow> ptr option" where
  "mupnp_list_get h headList index =
     (if headList = None then Some None
      else do { list \<leftarrow> mupnp_list_next h headList; list_get_loop h (nat index) list })"

definition mupnp_list_insert :: "heap \<Rightarrow> ptr \<Rightarrow> ptr \<Rightarrow> heap option" where
  "mupnp_list_insert h prevList list =
     (if prevList = None \<or> list = None then Some h
      else do {
        h \<leftarrow> set_prev h list prevList;
        p \<leftarrow> load h prevList;
        h \<leftarrow> set_next h list (lnext p);
        p \<leftarrow> load h prevList;
        h \<leftarrow> set_prev h (lnext p) list;
        set_next h prevList list })"

definition mupnp_list_add :: "heap \<Rightarrow> ptr \<Rightarrow> ptr \<Rightarrow> heap option" where
  "mupnp_list_add h headList list =
     (if headList = None \<or> list = None then Some h
      else do {
        n \<leftarrow> load h headList;
        if lprev n = None then Some h else mupnp_list_insert h (lprev n) list })"

definition mupnp_list_remove :: "heap \<Rightarrow> ptr \<Rightarrow> heap option" where
  "mupnp_list_remove h list =
     (if list = None then Some h
      else do {
        n \<leftarrow> load h list;
        if lprev n = None \<or> lnext n = None then Some h
        else do {
          h \<leftarrow> set_next h (lprev n) (lnext n);
          n \<leftarrow> load h list;
          h \<leftarrow> set_prev h (lnext n) (lprev n);
          h \<leftarrow> set_next h list list;
          set_prev h list list } })"

definition c_free :: "heap \<Rightarrow> ptr \<Rightarrow> heap option" where
  "c_free h p = do { a \<leftarrow> p; n \<leftarrow> h a; Some (h(a := None)) }"

text \<open>\<open>destr\<close> is the destructor function, or NULL: then the node itself is freed.\<close>

partial_function (option) list_clear_loop ::
    "(heap \<Rightarrow> ptr \<Rightarrow> heap option) option \<Rightarrow> heap \<Rightarrow> ptr \<Rightarrow> heap option" where
  "list_clear_loop destr h list =
     (if list = None then Some h
      else do {
        nextList \<leftarrow> mupnp_list_next h list;
        h \<leftarrow> mupnp_list_remove h list;
        h \<leftarrow> (case destr of None \<Rightarrow> c_free h list | Some d \<Rightarrow> d h list);
        list_clear_loop destr h nextList })"

definition mupnp_list_clear ::
    "heap \<Rightarrow> ptr \<Rightarrow> (heap \<Rightarrow> ptr \<Rightarrow> heap option) option \<Rightarrow> heap option" where
  "mupnp_list_clear h headList destr =
     (if headList = None then Some h
      else do { list \<leftarrow> mupnp_list_next h headList; list_clear_loop destr h list })"

section \<open>The represented sequence\<close>

definition lk :: "heap \<Rightarrow> addr \<Rightarrow> addr \<Rightarrow> bool" where
  "lk h a b \<longleftrightarrow> (\<exists>n m. h a = Some n \<and> h b = Some m \<and> lnext n = Some b \<and> lprev m = Some a)"

definition flag_of :: "heap \<Rightarrow> addr \<Rightarrow> bool option" where
  "flag_of h a = map_option headFlag (h a)"

definition dll :: "heap \<Rightarrow> addr \<Rightarrow> addr list \<Rightarrow> bool" where
  "dll h l xs \<longleftrightarrow>
     distinct (l # xs) \<and> flag_of h l = Some True \<and> list_all (\<lambda>x. flag_of h x = Some False) xs \<and>
     successively (lk h) (l # xs @ [l])"

lemma successively_frame:
  "successively P xs \<Longrightarrow> (\<And>a b. a \<in> set (butlast xs) \<Longrightarrow> b \<in> set (tl xs) \<Longrightarrow> P a b \<Longrightarrow> Q a b)
     \<Longrightarrow> successively Q xs"
proof (induction xs rule: induct_list012)
  case (3 x y zs)
  then have "successively Q (y # zs)"
    by (cases zs) (auto intro: "3.IH"(2))
  with 3 show ?case by auto
qed auto

lemma dll_split:
  "dll h l (as @ bs) \<longleftrightarrow>
     distinct (l # as @ bs) \<and> flag_of h l = Some True \<and>
     list_all (\<lambda>x. flag_of h x = Some False) (as @ bs) \<and>
     successively (lk h) (l # as) \<and> lk h (last (l # as)) (hd (bs @ [l])) \<and>
     successively (lk h) (bs @ [l])"
proof -
  have "successively (lk h) (l # (as @ bs) @ [l]) \<longleftrightarrow> successively (lk h) ((l # as) @ (bs @ [l]))"
    by simp
  also have "\<dots> \<longleftrightarrow> successively (lk h) (l # as) \<and> lk h (last (l # as)) (hd (bs @ [l])) \<and>
      successively (lk h) (bs @ [l])"
    by (subst successively_append_iff) auto
  finally show ?thesis by (auto simp: dll_def)
qed

lemma dll_flag: "dll h l xs \<Longrightarrow> a \<in> set (l # xs) \<Longrightarrow> flag_of h a = Some (a = l)"
  by (auto simp: dll_def list_all_iff)

lemma dll_link: "dll h l (as @ bs) \<Longrightarrow> lk h (last (l # as)) (hd (bs @ [l]))"
  by (simp add: dll_split)

lemma last_mem: "last (l # as) \<in> set (l # as)"
  by (rule last_in_set) simp

lemma hd_mem: "hd (bs @ [l]) \<in> set (l # bs)"
  by (cases bs) auto

lemma lk_next: "lk h a b \<Longrightarrow> \<exists>n m. h a = Some n \<and> lnext n = Some b \<and> h b = Some m \<and> lprev m = Some a"
  by (auto simp: lk_def)

subsection \<open>Neighbours\<close>

text \<open>
  A position in the list is a split \<open>as @ bs\<close>: the node before it is \<open>last (l # as)\<close>, the one
  behind it \<open>hd (bs @ [l])\<close>, where the header stands at both ends.
\<close>

lemma next_split [list_rep]:
  assumes "dll h l (as @ bs)"
  shows "mupnp_list_next h (Some (last (l # as))) = Some (first_of bs)"
proof -
  from assms have "lk h (last (l # as)) (hd (bs @ [l]))" by (rule dll_link)
  moreover have "flag_of h (hd (bs @ [l])) = Some (hd (bs @ [l]) = l)"
    using dll_flag [OF assms, of "hd (bs @ [l])"] hd_mem [of bs l] by auto
  moreover have "hd (bs @ [l]) = l \<longleftrightarrow> bs = []"
    using assms by (cases bs) (auto simp: dll_def)
  ultimately show ?thesis
    by (cases bs) (auto simp: lk_def mupnp_list_next_def load_def flag_of_def)
qed

lemma prev_split [list_rep]:
  assumes "dll h l (as @ bs)"
  shows "mupnp_list_prev h (Some (hd (bs @ [l]))) = Some (if as = [] then None else Some (last as))"
proof -
  from assms have "lk h (last (l # as)) (hd (bs @ [l]))" by (rule dll_link)
  moreover have "flag_of h (last (l # as)) = Some (last (l # as) = l)"
    using dll_flag [OF assms, of "last (l # as)"] last_mem [of l as] by auto
  moreover have "last (l # as) = l \<longleftrightarrow> as = []"
    using assms by (auto simp: dll_def dest: last_in_set)
  ultimately show ?thesis
    by (auto simp: lk_def mupnp_list_prev_def load_def flag_of_def split: if_splits)
qed

lemma next_circular_split [list_rep]:
  assumes "dll h l (as @ bs)"
  shows "mupnp_list_next_circular h (Some (last (l # as))) =
     Some (Some (if bs \<noteq> [] then hd bs else hd (as @ [l])))"
proof -
  from assms have "lk h (last (l # as)) (hd (bs @ [l]))" by (rule dll_link)
  moreover have "flag_of h (hd (bs @ [l])) = Some (hd (bs @ [l]) = l)"
    using dll_flag [OF assms, of "hd (bs @ [l])"] hd_mem [of bs l] by auto
  moreover have "hd (bs @ [l]) = l \<longleftrightarrow> bs = []"
    using assms by (cases bs) (auto simp: dll_def)
  moreover have "lk h l (hd ((as @ bs) @ [l]))"
    using dll_link [of h l "[]" "as @ bs"] assms by simp
  ultimately show ?thesis
    by (cases bs) (auto simp: lk_def mupnp_list_next_circular_def load_def flag_of_def)
qed

lemma prev_circular_split [list_rep]:
  assumes "dll h l (as @ bs)"
  shows "mupnp_list_prev_circular h (Some (hd (bs @ [l]))) =
     Some (Some (if as \<noteq> [] then last as else last (l # bs)))"
proof -
  from assms have "lk h (last (l # as)) (hd (bs @ [l]))" by (rule dll_link)
  moreover have "flag_of h (last (l # as)) = Some (last (l # as) = l)"
    using dll_flag [OF assms, of "last (l # as)"] last_mem [of l as] by auto
  moreover have "last (l # as) = l \<longleftrightarrow> as = []"
    using assms by (auto simp: dll_def dest: last_in_set)
  moreover have "lk h (last (l # as @ bs)) l"
    using dll_link [of h l "as @ bs" "[]"] assms by simp
  ultimately show ?thesis
    by (cases "as = []") (auto simp: lk_def mupnp_list_prev_circular_def load_def flag_of_def)
qed

subsection \<open>Insertion and removal\<close>

lemma insert_dll [list_rep]:
  assumes dll: "dll h l (as @ bs)" and x: "x \<notin> set (l # as @ bs)" and n: "h x = Some n" "\<not> headFlag n"
  obtains h' where "mupnp_list_insert h (Some (last (l # as))) (Some x) = Some h'"
    and "dll h' l (as @ x # bs)"
    and "\<forall>a. a \<notin> {x, last (l # as), hd (bs @ [l])} \<longrightarrow> h' a = h a"
proof -
  let ?p = "last (l # as)" and ?q = "hd (bs @ [l])"
  have mem: "?p \<in> set (l # as)" "?q \<in> set (l # bs)" by (rule last_mem, rule hd_mem)
  then have ne: "x \<noteq> ?p" "x \<noteq> ?q" using x by auto
  obtain np nq where pq: "h ?p = Some np" "h ?q = Some nq" "lnext np = Some ?q" "lprev nq = Some ?p"
    using dll_link [OF dll] by (auto simp: lk_def)
  define h1 where "h1 = h(x \<mapsto> n\<lparr>lprev := Some ?p, lnext := Some ?q\<rparr>)"
  define h2 where "h2 = h1(?q \<mapsto> nq\<lparr>lprev := Some x\<rparr>)"
  define h' where "h' = h2(?p \<mapsto> (the (h2 ?p))\<lparr>lnext := Some x\<rparr>)"
  have eq: "mupnp_list_insert h (Some ?p) (Some x) = Some h'"
    using ne pq n
    by (auto simp: mupnp_list_insert_def modify_def load_def h'_def h2_def h1_def fun_upd_twist)
  have flags: "flag_of h' a = (if a = x then Some False else flag_of h a)" for a
    using ne pq n by (auto simp: flag_of_def h'_def h2_def h1_def)
  have frame: "h' a = h a" if "a \<notin> {x, ?p, ?q}" for a
    using that by (simp add: h'_def h2_def h1_def)
  have keep: "lk h' a b" if "lk h a b" "a \<noteq> ?p" "b \<noteq> ?q" "a \<noteq> x" "b \<noteq> x" for a b
    using that ne pq by (auto simp: lk_def h'_def h2_def h1_def split: if_splits)
  have new: "lk h' ?p x" "lk h' x ?q"
    using ne pq n by (auto simp: lk_def h'_def h2_def h1_def)
  have dist: "?p \<notin> set (butlast (l # as))" "?q \<notin> set bs \<or> ?q = hd bs" "distinct (l # as @ bs)"
    "?q \<notin> set as" "?q \<notin> set (tl (bs @ [l]))" "?p \<notin> set bs"
    using dll by (cases as rule: rev_cases; cases bs; auto simp: dll_def)+
  have "successively (lk h') (l # as)"
  proof (rule successively_frame [of "lk h"])
    show "successively (lk h) (l # as)" using dll by (simp add: dll_split)
    show "lk h' a b" if "a \<in> set (butlast (l # as))" "b \<in> set (tl (l # as))" "lk h a b" for a b
      using that dist x in_set_butlastD [OF that(1)] by (intro keep) auto
  qed
  moreover have "successively (lk h') (bs @ [l])"
  proof (rule successively_frame [of "lk h"])
    show "successively (lk h) (bs @ [l])" using dll by (simp add: dll_split)
    show "lk h' a b" if "a \<in> set (butlast (bs @ [l]))" "b \<in> set (tl (bs @ [l]))" "lk h a b" for a b
    proof -
      have "a \<in> set bs" "b \<in> set (l # bs)" using that by (cases bs; auto)+
      then show ?thesis using that dist x by (intro keep) auto
    qed
  qed
  ultimately have "dll h' l (as @ x # bs)"
    using dll x new flags by (auto simp: dll_split list_all_iff successively_Cons)
  with eq frame show thesis by (intro that [of h']) auto
qed

lemma remove_dll [list_rep]:
  assumes dll: "dll h l (as @ x # bs)"
  obtains h' where "mupnp_list_remove h (Some x) = Some h'"
    and "dll h' l (as @ bs)"
    and "h' x = Some \<lparr>headFlag = False, lprev = Some x, lnext = Some x\<rparr>"
    and "\<forall>a. a \<notin> {x, last (l # as), hd (bs @ [l])} \<longrightarrow> h' a = h a"
proof -
  let ?p = "last (l # as)" and ?q = "hd (bs @ [l])"
  have mem: "?p \<in> set (l # as)" "?q \<in> set (l # bs)" by (rule last_mem, rule hd_mem)
  have xnew: "x \<notin> set (l # as @ bs)" using dll by (auto simp: dll_def)
  with mem have ne: "x \<noteq> ?p" "x \<noteq> ?q" by auto
  have l1: "lk h ?p x" using dll_link [of h l as "x # bs"] dll by simp
  have l2: "lk h x ?q" using dll_link [of h l "as @ [x]" bs] dll by simp
  from l1 l2 obtain np n nq where pq: "h ?p = Some np" "h ?q = Some nq" "h x = Some n"
      "lnext np = Some x" "lprev nq = Some x" "lprev n = Some ?p" "lnext n = Some ?q"
    by (auto simp: lk_def)
  have nf: "\<not> headFlag n" using dll pq by (auto simp: dll_def flag_of_def)
  define h1 where "h1 = h(?p \<mapsto> np\<lparr>lnext := Some ?q\<rparr>)"
  define h2 where "h2 = h1(?q \<mapsto> (the (h1 ?q))\<lparr>lprev := Some ?p\<rparr>)"
  define h' where "h' = h2(x \<mapsto> n\<lparr>lprev := Some x, lnext := Some x\<rparr>)"
  have eq: "mupnp_list_remove h (Some x) = Some h'"
    using ne pq by (auto simp: mupnp_list_remove_def modify_def load_def h'_def h2_def h1_def)
  have flags: "flag_of h' a = flag_of h a" for a
    using ne pq by (auto simp: flag_of_def h'_def h2_def h1_def)
  have hx: "h' x = Some \<lparr>headFlag = False, lprev = Some x, lnext = Some x\<rparr>"
    using nf by (simp add: h'_def)
  have frame: "h' a = h a" if "a \<notin> {x, ?p, ?q}" for a
    using that by (simp add: h'_def h2_def h1_def)
  have keep: "lk h' a b" if "lk h a b" "a \<noteq> ?p" "b \<noteq> ?q" "a \<noteq> x" "b \<noteq> x" for a b
    using that ne pq by (auto simp: lk_def h'_def h2_def h1_def split: if_splits)
  have new: "lk h' ?p ?q"
    using ne pq by (auto simp: lk_def h'_def h2_def h1_def)
  have dist: "?p \<notin> set (butlast (l # as))" "distinct (l # as @ bs)"
    "?q \<notin> set as" "?q \<notin> set (tl (bs @ [l]))" "?p \<notin> set bs"
    using dll by (cases as rule: rev_cases; cases bs; auto simp: dll_def)+
  have "successively (lk h') (l # as)"
  proof (rule successively_frame [of "lk h"])
    show "successively (lk h) (l # as)" using dll by (simp add: dll_split)
    show "lk h' a b" if "a \<in> set (butlast (l # as))" "b \<in> set (tl (l # as))" "lk h a b" for a b
      using that dist xnew in_set_butlastD [OF that(1)] by (intro keep) auto
  qed
  moreover have "successively (lk h') (bs @ [l])"
  proof (rule successively_frame [of "lk h"])
    show "successively (lk h) (bs @ [l])" using dll by (auto simp: dll_split successively_Cons)
    show "lk h' a b" if "a \<in> set (butlast (bs @ [l]))" "b \<in> set (tl (bs @ [l]))" "lk h a b" for a b
    proof -
      have "a \<in> set bs" "b \<in> set (l # bs)" using that by (cases bs; auto)+
      then show ?thesis using that dist xnew by (intro keep) auto
    qed
  qed
  ultimately have "dll h' l (as @ bs)"
    using dll new flags by (auto simp: dll_split list_all_iff)
  with eq hx frame show thesis by (intro that [of h']) auto
qed

lemma header_init_dll [list_rep]:
  assumes "h l = Some n"
  obtains h' where "mupnp_list_header_init h (Some l) = Some h'" and "dll h' l []"
    and "\<forall>a. a \<noteq> l \<longrightarrow> h' a = h a"
  using that [of "h(l \<mapsto> n\<lparr>headFlag := True, lnext := Some l, lprev := Some l\<rparr>)"] assms
  by (auto simp: mupnp_list_header_init_def modify_def dll_def flag_of_def lk_def)

lemma node_init_node:
  assumes "h x = Some n"
  obtains h' where "mupnp_list_node_init h (Some x) = Some h'"
    and "h' x = Some (n\<lparr>headFlag := False, lprev := Some x, lnext := Some x\<rparr>)"
    and "\<forall>a. a \<noteq> x \<longrightarrow> h' a = h a"
  using that [of "h(x \<mapsto> n\<lparr>headFlag := False, lnext := Some x, lprev := Some x\<rparr>)"] assms
  by (cases n) (auto simp: mupnp_list_node_init_def modify_def)

lemma add_dll [list_rep]:
  assumes dll: "dll h l xs" and x: "x \<notin> set (l # xs)" and n: "h x = Some n" "\<not> headFlag n"
  obtains h' where "mupnp_list_add h (Some l) (Some x) = Some h'"
    and "dll h' l (xs @ [x])"
    and "\<forall>a. a \<notin> {x, last (l # xs), l} \<longrightarrow> h' a = h a"
proof -
  have "lk h (last (l # xs)) l" using dll_link [of h l xs "[]"] dll by simp
  then have "mupnp_list_add h (Some l) (Some x) = mupnp_list_insert h (Some (last (l # xs))) (Some x)"
    by (auto simp: mupnp_list_add_def load_def lk_def)
  with insert_dll [of h l xs "[]" x n] dll x n that show thesis by auto
qed

text \<open>A node that is in no list is left as it is by \<open>remove\<close>: the destructors call it again.\<close>

lemma remove_single:
  assumes "h x = Some n" and "lprev n = Some x" and "lnext n = Some x"
  shows "mupnp_list_remove h (Some x) = Some h"
  using assms by (cases n) (auto simp: mupnp_list_remove_def modify_def load_def fun_upd_idem)

subsection \<open>Size, access by index and clearing\<close>

definition list_rep :: "heap \<times> addr \<Rightarrow> addr list \<Rightarrow> bool" where
  "list_rep hl xs = dll (fst hl) (snd hl) xs"

definition list_step :: "heap \<times> addr \<Rightarrow> addr \<Rightarrow> addr option option" where
  "list_step hl a = mupnp_list_next (fst hl) (Some a)"

interpretation llist: sequence list_rep list_step
proof
  fix hl xs x ys
  assume "list_rep hl (xs @ x # ys)"
  then show "list_step hl x = Some (first_of ys)"
    using next_split [of "fst hl" "snd hl" "xs @ [x]" ys] by (simp add: list_rep_def list_step_def)
qed

lemma next_header [list_rep]: "dll h l xs \<Longrightarrow> mupnp_list_next h (Some l) = Some (first_of xs)"
  using next_split [of h l "[]" xs] by simp

lemma size_dll [list_rep]:
  "dll h l xs \<Longrightarrow> int (length xs) \<le> INT_MAX \<Longrightarrow> mupnp_list_size h (Some l) = Some (int (length xs))"
  using llist.count_all [of "(h, l)" xs]
  by (simp add: mupnp_list_size_def next_header list_rep_def list_step_def [abs_def])

text \<open>Every search loop of the program over a list is a \<open>find\<close> on the represented sequence.\<close>

lemma search_dll:
  "dll h l xs \<Longrightarrow> Option.bind (mupnp_list_next h (Some l)) (iter_find (\<lambda>a. mupnp_list_next h (Some a)) P)
     = Some (find P xs)"
  using llist.find_all [of "(h, l)" xs P]
  by (simp add: next_header list_rep_def list_step_def [abs_def])

lemma list_get_loop_dll:
  "dll h l (as @ bs) \<Longrightarrow>
   list_get_loop h n (first_of bs) = Some (if n < length bs then Some (bs ! n) else None)"
proof (induction n arbitrary: as bs)
  case 0
  then show ?case by (cases bs) auto
next
  case (Suc n)
  show ?case
  proof (cases bs)
    case (Cons b bs')
    with Suc.prems have "mupnp_list_next h (Some b) = Some (first_of bs')"
      using next_split [of h l "as @ [b]" bs'] by simp
    with Cons Suc.IH [of "as @ [b]" bs'] Suc.prems show ?thesis by simp
  qed simp
qed

lemma get_dll [list_rep]:
  "dll h l xs \<Longrightarrow> mupnp_list_get h (Some l) i =
     Some (if nat i < length xs then Some (xs ! nat i) else None)"
  using list_get_loop_dll [of h l "[]" xs "nat i"] by (simp add: mupnp_list_get_def next_header)

definition destructor_ok :: "(heap \<Rightarrow> ptr \<Rightarrow> heap option) option \<Rightarrow> bool" where
  "destructor_ok destr \<longleftrightarrow>
     (case destr of None \<Rightarrow> True
      | Some d \<Rightarrow> \<forall>h x n. h x = Some n \<and> lprev n = Some x \<and> lnext n = Some x \<longrightarrow> d h (Some x) = Some (h(x := None)))"

lemma destr_step:
  assumes "destructor_ok destr" and "h x = Some n" and "lprev n = Some x" and "lnext n = Some x"
  shows "(case destr of None \<Rightarrow> c_free h (Some x) | Some d \<Rightarrow> d h (Some x)) = Some (h(x := None))"
  using assms by (auto simp: destructor_ok_def c_free_def split: option.splits)

lemma dll_drop:
  assumes "dll h l xs" and "x \<notin> set (l # xs)"
  shows "dll (h(x := None)) l xs"
proof -
  have "successively (lk (h(x := None))) (l # xs @ [l])"
  proof (rule successively_frame [of "lk h"])
    show "successively (lk h) (l # xs @ [l])" using assms by (simp add: dll_def)
    show "lk (h(x := None)) a b"
      if "a \<in> set (butlast (l # xs @ [l]))" "b \<in> set (tl (l # xs @ [l]))" "lk h a b" for a b
      using that assms(2) by (auto simp: lk_def butlast_append split: if_splits)
  qed
  then show ?thesis using assms by (auto simp: dll_def flag_of_def list_all_iff)
qed

lemma list_clear_loop_dll:
  assumes "destructor_ok destr"
  shows "dll h l xs \<Longrightarrow>
    \<exists>h'. list_clear_loop destr h (first_of xs) = Some h' \<and> dll h' l [] \<and>
      (\<forall>x \<in> set xs. h' x = None) \<and> (\<forall>a. a \<notin> set (l # xs) \<longrightarrow> h' a = h a)"
proof (induction xs arbitrary: h)
  case Nil
  then show ?case by (auto simp: list_clear_loop.simps)
next
  case (Cons x xs)
  have nx: "mupnp_list_next h (Some x) = Some (first_of xs)"
    using next_split [of h l "[x]" xs] Cons.prems by simp
  obtain h1 where h1: "mupnp_list_remove h (Some x) = Some h1" "dll h1 l xs"
      "h1 x = Some \<lparr>headFlag = False, lprev = Some x, lnext = Some x\<rparr>"
      "\<forall>a. a \<notin> {x, l, hd (xs @ [l])} \<longrightarrow> h1 a = h a"
    using remove_dll [of h l "[]" x xs] Cons.prems by auto
  let ?h2 = "h1(x := None)"
  have x: "x \<notin> set (l # xs)" using Cons.prems by (auto simp: dll_def)
  with h1 have "dll ?h2 l xs" by (intro dll_drop)
  from Cons.IH [OF this] obtain h' where h': "list_clear_loop destr ?h2 (first_of xs) = Some h'"
      "dll h' l []" "\<forall>x \<in> set xs. h' x = None" "\<forall>a. a \<notin> set (l # xs) \<longrightarrow> h' a = ?h2 a"
    by blast
  have "list_clear_loop destr h (Some x) = Some h'"
    using nx h1 h'(1) destr_step [OF assms, of h1 x, OF h1(3)] by (subst list_clear_loop.simps) simp
  moreover have "h' a = h a" if "a \<notin> set (l # x # xs)" for a
    using that h' h1(4) by (cases xs) auto
  ultimately show ?case using h' x by auto
qed

lemma clear_dll [list_rep]:
  assumes "destructor_ok destr" and "dll h l xs"
  obtains h' where "mupnp_list_clear h (Some l) destr = Some h'" and "dll h' l []"
    and "\<forall>x \<in> set xs. h' x = None" and "\<forall>a. a \<notin> set (l # xs) \<longrightarrow> h' a = h a"
  using list_clear_loop_dll [OF assms] assms(2)
  by (auto simp: mupnp_list_clear_def next_header)

subsection \<open>Building a list by adding nodes\<close>

fun list_add_all :: "heap \<Rightarrow> ptr \<Rightarrow> addr list \<Rightarrow> heap option" where
  "list_add_all h list [] = Some h"
| "list_add_all h list (x # xs) = do { h \<leftarrow> mupnp_list_add h list (Some x); list_add_all h list xs }"

lemma list_add_all_dll:
  "dll h l xs \<Longrightarrow> distinct ys \<Longrightarrow> set ys \<inter> set (l # xs) = {} \<Longrightarrow>
   list_all (\<lambda>y. flag_of h y = Some False) ys \<Longrightarrow>
   \<exists>h'. list_add_all h (Some l) ys = Some h' \<and> dll h' l (xs @ ys)"
proof (induction ys arbitrary: h xs)
  case (Cons y ys)
  then obtain n where n: "h y = Some n" "\<not> headFlag n" by (auto simp: flag_of_def)
  have "y \<notin> set (l # xs)" using Cons.prems by auto
  with Cons.prems(1) obtain h1 where h1: "mupnp_list_add h (Some l) (Some y) = Some h1"
      "dll h1 l (xs @ [y])" "\<forall>a. a \<notin> {y, last (l # xs), l} \<longrightarrow> h1 a = h a"
    using n by (rule add_dll)
  have "h1 z = h z" if "z \<in> set ys" for z
    using that Cons.prems last_mem [of l xs] h1(3) by auto
  then have "list_all (\<lambda>z. flag_of h1 z = Some False) ys"
    using Cons.prems by (auto simp: list_all_iff flag_of_def)
  with Cons.IH [OF h1(2)] Cons.prems h1(1) show ?case by auto
qed simp

section \<open>Properties\<close>

text \<open>C19: on an initialised header, adding any nodes one after another makes the list that has
  exactly those nodes in that order: \<open>size\<close> counts them, \<open>get\<close> returns the node of each index
  (the first for a negative index, NULL past the end), and every search loop over the list is
  a search in the sequence.  No operation accesses invalid memory.  The count is an \<open>int\<close>, so it is
  of lists of at most \<open>2 ^ 31 - 1\<close> nodes.\<close>

theorem list_build_and_read:
  assumes "h l \<noteq> None" and "distinct (l # ys)" and "\<forall>y \<in> set ys. flag_of h y = Some False"
  shows "\<exists>h0 h'. mupnp_list_header_init h (Some l) = Some h0 \<and> list_add_all h0 (Some l) ys = Some h' \<and>
      (int (length ys) \<le> INT_MAX \<longrightarrow> mupnp_list_size h' (Some l) = Some (int (length ys))) \<and>
      (\<forall>i. mupnp_list_get h' (Some l) i = Some (if nat i < length ys then Some (ys ! nat i) else None)) \<and>
      (\<forall>P. Option.bind (mupnp_list_next h' (Some l)) (iter_find (\<lambda>a. mupnp_list_next h' (Some a)) P)
           = Some (find P ys))"
proof -
  from assms(1) obtain n where "h l = Some n" by auto
  then obtain h0 where h0: "mupnp_list_header_init h (Some l) = Some h0" "dll h0 l []"
      "\<forall>a. a \<noteq> l \<longrightarrow> h0 a = h a"
    by (rule header_init_dll)
  have "list_all (\<lambda>y. flag_of h0 y = Some False) ys"
    using assms h0(3) by (auto simp: list_all_iff flag_of_def)
  with list_add_all_dll [OF h0(2), of ys] assms(2) obtain h' where
    h': "list_add_all h0 (Some l) ys = Some h'" "dll h' l ys" by auto
  with h0(1) show ?thesis
    by (auto simp: size_dll get_dll search_dll)
qed

definition ex_node :: "bool \<Rightarrow> lnode" where
  "ex_node b = \<lparr>headFlag = b, lprev = None, lnext = None\<rparr>"

definition ex_heap :: heap where
  "ex_heap = [0 \<mapsto> ex_node True, 5 \<mapsto> ex_node False, 7 \<mapsto> ex_node False]"

theorem list_build_and_read_witness:
  "\<exists>h0 h'. mupnp_list_header_init ex_heap (Some 0) = Some h0 \<and> list_add_all h0 (Some 0) [7, 5] = Some h' \<and>
      mupnp_list_size h' (Some 0) = Some 2 \<and>
      (\<forall>i. mupnp_list_get h' (Some 0) i
         = Some (if nat i < length [7, 5::addr] then Some ([7, 5] ! nat i) else None)) \<and>
      (\<forall>P. Option.bind (mupnp_list_next h' (Some 0)) (iter_find (\<lambda>a. mupnp_list_next h' (Some a)) P)
           = Some (find P [7, 5]))"
  using list_build_and_read [of ex_heap 0 "[7, 5]"]
  by (simp add: ex_heap_def ex_node_def flag_of_def INT_MAX_def)

text \<open>C20: removing a node from the middle of a list takes exactly that node out and leaves it
  linked to itself, touching only its two neighbours; inserting it again behind its old
  predecessor restores the sequence; the neighbours of every position, circular or not, are
  those of the sequence.\<close>

theorem list_remove_insert:
  assumes "dll h l (as @ x # bs)"
  shows "\<exists>h1 h2. mupnp_list_remove h (Some x) = Some h1 \<and> dll h1 l (as @ bs) \<and>
      mupnp_list_remove h1 (Some x) = Some h1 \<and>
      (\<forall>a. a \<notin> {x, last (l # as), hd (bs @ [l])} \<longrightarrow> h1 a = h a) \<and>
      mupnp_list_insert h1 (Some (last (l # as))) (Some x) = Some h2 \<and> dll h2 l (as @ x # bs) \<and>
      mupnp_list_next h2 (Some x) = Some (first_of bs) \<and>
      mupnp_list_prev h2 (Some x) = Some (if as = [] then None else Some (last as)) \<and>
      mupnp_list_next_circular h2 (Some x) = Some (Some (hd (bs @ as @ [x]))) \<and>
      mupnp_list_prev_circular h2 (Some x) = Some (Some (last (x # bs @ as)))"
proof -
  from assms obtain h1 where h1: "mupnp_list_remove h (Some x) = Some h1" "dll h1 l (as @ bs)"
      "h1 x = Some \<lparr>headFlag = False, lprev = Some x, lnext = Some x\<rparr>"
      "\<forall>a. a \<notin> {x, last (l # as), hd (bs @ [l])} \<longrightarrow> h1 a = h a"
    by (rule remove_dll)
  have "x \<notin> set (l # as @ bs)" using assms by (auto simp: dll_def)
  from insert_dll [OF h1(2) this h1(3)] obtain h2 where
    h2: "mupnp_list_insert h1 (Some (last (l # as))) (Some x) = Some h2" "dll h2 l (as @ x # bs)"
    by auto
  have "mupnp_list_remove h1 (Some x) = Some h1"
    using remove_single [of h1 x, OF h1(3)] by simp
  with h1 h2 show ?thesis
    using next_split [of h2 l "as @ [x]" bs] prev_split [of h2 l as "x # bs"]
      next_circular_split [of h2 l "as @ [x]" bs] prev_circular_split [of h2 l as "x # bs"]
    by (cases bs; cases as) auto
qed

definition ex_list :: heap where
  "ex_list =
     [0 \<mapsto> \<lparr>headFlag = True, lprev = Some 3, lnext = Some 1\<rparr>,
      1 \<mapsto> \<lparr>headFlag = False, lprev = Some 0, lnext = Some 2\<rparr>,
      2 \<mapsto> \<lparr>headFlag = False, lprev = Some 1, lnext = Some 3\<rparr>,
      3 \<mapsto> \<lparr>headFlag = False, lprev = Some 2, lnext = Some 0\<rparr>]"

lemma ex_list_dll: "dll ex_list 0 [1, 2, 3]"
  by (simp add: dll_def ex_list_def flag_of_def lk_def)

theorem list_remove_insert_witness:
  "\<exists>h1 h2. mupnp_list_remove ex_list (Some 2) = Some h1 \<and> dll h1 0 [1, 3] \<and>
      mupnp_list_insert h1 (Some 1) (Some 2) = Some h2 \<and> dll h2 0 [1, 2, 3] \<and>
      mupnp_list_next h2 (Some 2) = Some (Some 3) \<and> mupnp_list_prev h2 (Some 2) = Some (Some 1)"
proof -
  have "dll ex_list 0 ([1] @ 2 # [3])" using ex_list_dll by simp
  from list_remove_insert [OF this] show ?thesis by (elim exE conjE) (intro exI conjI; simp)
qed

text \<open>C21: \<open>mupnp_list_clear\<close> ends, leaves the header as an empty list, frees every node of the
  list once, and touches no other address, with any destructor that frees the node it is
  given and with no destructor.\<close>

theorem list_clear_frees:
  assumes "destructor_ok destr" and "dll h l xs"
  shows "\<exists>h'. mupnp_list_clear h (Some l) destr = Some h' \<and> mupnp_list_size h' (Some l) = Some 0 \<and>
      (\<forall>x \<in> set xs. h' x = None) \<and> (\<forall>a. a \<notin> set (l # xs) \<longrightarrow> h' a = h a)"
  using assms by (elim clear_dll) (auto simp: size_dll INT_MAX_def)

theorem list_clear_frees_witness:
  "\<exists>h'. mupnp_list_clear ex_list (Some 0) (Some c_free) = Some h' \<and>
      mupnp_list_size h' (Some 0) = Some 0 \<and> h' 1 = None \<and> h' 2 = None \<and> h' 3 = None"
  using list_clear_frees [of "Some c_free", OF _ ex_list_dll]
  by (auto simp: destructor_ok_def c_free_def)

end
