(* ===== verification/Spec2Isabelle.thy ===== *)
theory Spec2Isabelle
  imports DeviceDescription HttpPersistent HttpServer Invocation LinkList
begin

text \<open>
  mUPnP is a UPnP stack in C.  A \<^emph>\<open>device\<close> serves its description and those of its services over
  HTTP, executes actions that arrive as SOAP requests (control), keeps subscribers and sends them
  the values of its evented state variables (eventing, GENA), and announces itself with SSDP over
  UDP.  A \<^emph>\<open>control point\<close> finds devices with SSDP, reads their descriptions, and is the client of
  control and eventing.  Both stand on the same layers: byte strings, lists and dictionaries
  (\<open>util\<close>), sockets and URIs (\<open>net\<close>), an HTTP client and server (\<open>http\<close>), XML trees with a printer and
  a parser on expat (\<open>xml\<close>), SOAP messages (\<open>soap\<close>), subscriptions and notifications (\<open>event\<close>), and
  SSDP packets (\<open>ssdp\<close>).  The theories follow these layers from below; each opens with what it holds
  and keeps the names of the functions of the C code.

  \<^bold>\<open>Theories and sources\<close> (below \<open>src/src/mupnp\<close>)

  \<^item> \<open>Prelude\<close>, \<open>CLib\<close>, \<open>CNumber\<close>: bytes, \<open>NULL\<close>-terminated strings, what the C library does for \<open>str*\<close>,
    \<open>strtol\<close> and the number formats of \<open>printf\<close>.  A \<open>char *\<close> is a \<open>charptr\<close>, \<open>None\<close> for NULL.
  \<^item> \<open>Interfaces\<close>: the contracts between components as locales (iteration over a list of objects,
    growable strings, keyed tables), interpreted by \<open>LinkList\<close>, \<open>MString\<close>, \<open>Dictionary\<close>, \<open>HttpHeader\<close>
    and the attribute lists of \<open>Xml\<close>.
  \<^item> \<open>StringFunction\<close>, \<open>MString\<close>, \<open>StringReplace\<close>, \<open>LinkList\<close>, \<open>Tokenizer\<close>, \<open>Dictionary\<close>: \<open>util\<close>.  The
    list is modelled on a heap of nodes with its pointers; the other components use HOL lists, which
    the interpretation of \<open>sequence\<close> justifies.  The allocator of \<open>MString\<close> may fail.
  \<^item> \<open>Socket\<close>, \<open>NetFunction\<close>, \<open>Uri\<close>: \<open>net\<close>.  A stream socket is what the peer will send and what was
    written; the operating system cuts transfers as it likes.  Writing is the cooperative version of
    the POSIX build without OpenSSL: it waits before each \<open>send\<close> and repeats \<open>EAGAIN\<close> and \<open>EINTR\<close>.
  \<^item> \<open>HttpHeader\<close>, \<open>HttpPacket\<close>, \<open>HttpWire\<close>, \<open>HttpDate\<close>, \<open>HttpRequest\<close>, \<open>HttpResponse\<close>, \<open>HttpMessage\<close>,
    \<open>HttpFields\<close>, \<open>HttpServer\<close>, \<open>HttpPersistent\<close>: \<open>http\<close>, in the build without libcurl.
  \<^item> \<open>XmlFunction\<close>, \<open>Xml\<close>, \<open>XmlParser\<close>, \<open>XmlRoundtrip\<close>: \<open>xml\<close>.  A node is a tree with its attributes and
    children; a pointer into a tree is the path of indices from its root.
  \<^item> \<open>UpnpTypes\<close>, \<open>Action\<close>, \<open>Service\<close>, \<open>Scpd\<close>: the type strings, \<open>action.c\<close>, \<open>argument.c\<close>, \<open>statevariable.c\<close>,
    \<open>service.c\<close> and the service description.
  \<^item> \<open>SsdpPacket\<close>: \<open>ssdp\<close>.  \<open>Soap\<close>: \<open>soap\<close>.  \<open>Subscriber\<close>, \<open>Notify\<close>, \<open>Gena\<close>: \<open>event\<close>, \<open>service_notify.c\<close> and
    the handlers of subscriptions in \<open>device_http_server.c\<close>.
  \<^item> \<open>Control\<close>, \<open>Invoke\<close>, \<open>Invocation\<close>: \<open>control\<close>.  Action and query requests and responses of both sides,
    and the strict invocation of an action that checks its arguments and decodes the result.
  \<^item> \<open>Device\<close>: \<open>device.c\<close>, and the parts of \<open>controlpoint.c\<close> that build and update a device.  A device is a
    tree; a pointer to an embedded device or a service is its place in the tree.
  \<^item> \<open>Replies\<close>, \<open>DeviceHttp\<close>, \<open>DeviceDescription\<close>: \<open>device_http_server.c\<close>, the handler of all requests of a
    device with the facts about its answers, and the description it serves.

  \<^bold>\<open>What the lemmas show\<close>

  The layers are related by round trips: a request or response that is sent is read as it was
  (\<open>HttpMessage\<close>), also in chunks and over a persistent connection; a tree that is printed is parsed as
  the same tree (\<open>XmlRoundtrip\<close>), a service description as the same actions and variables (\<open>Scpd\<close>), a
  notification as the same properties (\<open>Notify\<close>), the description of a device as the same device
  (\<open>DeviceDescription\<close>), and an action that is invoked calls the listener with its inputs and returns
  the outputs, or the fault (\<open>Invocation\<close>).  A device answers every request once and well-formed
  (\<open>DeviceHttp\<close>).  The containers refine maps and lists.  The loops
  terminate and stay inside their buffers on every input (\<open>Uri\<close>, \<open>HttpWire\<close>, \<open>Socket\<close>).  The state
  machines have invariants over all reachable states: the cache of connections
  (\<open>HttpPersistent\<close>) and the subscriptions of a service (\<open>Gena\<close>).

  \<^bold>\<open>Bounds and fuel\<close>

  Loops over a string or a list are recursions on it or have a measure.  The list on the heap uses
  \<open>partial_function\<close>, and the properties state that the loops end.  The reading loops of HTTP recurse
  on the bytes still to come, which the lemmas about \<open>instream\<close> prove to decrease.  There is no fuel.
  Integers that can leave their width are wrapped where the code does (\<open>to_int64\<close>, \<open>size_index\<close>, the
  configuration id, the notification counter, the copy index of \<open>StringReplace\<close>); the overflow of an
  \<open>int\<close> counter, which C leaves undefined, is \<open>None\<close> (the size of a list).

  \<^bold>\<open>Parameters and hypotheses\<close>

  What is not in the repository is a parameter: the allocator (may fail in \<open>MString\<close> and in
  \<open>read_exact\<close>), \<open>send\<close> and \<open>recv\<close>, the clock, UUIDs, the name of the operating system, the listeners of the
  application, and expat.  There are two hypotheses about expat.
  \<open>reads_xml\<close>: for a document of at most \<open>INT_MAX\<close> bytes that the reader \<open>xml_doc\<close> takes it calls the
  callbacks with the tags and texts of the document, where texts may be cut; \<open>xml_doc\<close> knows a part of
  well-formed XML (ASCII, elements, attributes in double quotes, the predefined entities, one
  declaration) and rejects all else, such as \<open>>\<close> in a text or \<open><\<close> in an attribute.  \<open>parses_tree\<close>: a
  document without an error has a root.  \<open>ref_expat\<close> is an instance of both.

  \<^bold>\<open>Not modelled\<close>

  Threads, mutexes and condition variables (the operations are atomic steps; the first event of a
  subscription belongs to the step of its request), the set-up of sockets, TLS and network
  interfaces, the announcements and searches of SSDP beyond their messages, the device table and the
  threads of a control point, starting and stopping, files, the log, the libcurl and libxml2 alternatives, the platform
  variants (ITRON, BTRON, WinCE, ESP-IDF), \<open>std/av\<close> and the bindings; \<open>PROJECT.json\<close> lists them with the
  reason for each.
\<close>

end
